(* ===== verification/Rust_Prelude.thy ===== *)
theory Rust_Prelude
  imports
    Complex_Main
    "HOL-Library.Word"
    "HOL-Library.Multiset"
    "HOL-Library.Char_ord"
    "HOL-Library.List_Lexorder"
    "HOL-Library.Product_Lexorder"
    "HOL-Library.Option_ord"
begin

text \<open>
  What the components share: the machine integers and their checked operations, the result type of
  a fallible call, the string routines of the Rust standard library that the sources use (on byte
  strings: a Rust \<open>str\<close> is a UTF-8 byte string and every pattern searched for here is ASCII, so
  splitting bytes and splitting characters agree), and the ordered map \<open>BTreeMap\<close> as a strictly
  sorted association list with its interface as a locale.
\<close>

unbundle bit_operations_syntax

named_theorems rust_simps
named_theorems bt_simps

section \<open>Machine integers\<close>

type_synonym u8 = "8 word"
type_synonym u16 = "16 word"
type_synonym u32 = "32 word"
type_synonym u64 = "64 word"

text \<open>\<open>usize\<close> is 64 bits wide on the supported target; lengths and indices are \<open>nat\<close> and the
  sources' \<open>usize::MAX\<close> is a number.\<close>

definition usize_max :: nat where
  "usize_max = 2 ^ 64 - 1"

definition checked_add :: "'a::len word \<Rightarrow> 'a word \<Rightarrow> 'a word option" where
  "checked_add a b = (if unat a + unat b < 2 ^ LENGTH('a) then Some (a + b) else None)"

definition checked_sub :: "'a::len word \<Rightarrow> 'a word \<Rightarrow> 'a word option" where
  "checked_sub a b = (if b \<le> a then Some (a - b) else None)"

definition saturating_add :: "'a::len word \<Rightarrow> 'a word \<Rightarrow> 'a word" where
  "saturating_add a b = (if unat a + unat b < 2 ^ LENGTH('a) then a + b else - 1)"

definition abs_diff :: "'a::len word \<Rightarrow> 'a word \<Rightarrow> 'a word" where
  "abs_diff a b = (if b \<le> a then a - b else b - a)"

section \<open>Results: a value, an error, or a panic\<close>

datatype ('a, 'e) rresult = Ok 'a | Err 'e | Panic

primrec rbind :: "('a, 'e) rresult \<Rightarrow> ('a \<Rightarrow> ('b, 'e) rresult) \<Rightarrow> ('b, 'e) rresult" where
  "rbind (Ok a) f = f a"
| "rbind (Err e) f = Err e"
| "rbind Panic f = Panic"

definition ok_or :: "'a option \<Rightarrow> 'e \<Rightarrow> ('a, 'e) rresult" where
  "ok_or x e = (case x of None \<Rightarrow> Err e | Some a \<Rightarrow> Ok a)"

text \<open>\<open>expect\<close>: the value, or a panic.\<close>

definition expect :: "'a option \<Rightarrow> ('a, 'e) rresult" where
  "expect x = (case x of None \<Rightarrow> Panic | Some a \<Rightarrow> Ok a)"

text \<open>\<open>map_err\<close>.\<close>

fun map_err :: "('e \<Rightarrow> 'f) \<Rightarrow> ('a, 'e) rresult \<Rightarrow> ('a, 'f) rresult" where
  "map_err f (Ok a) = Ok a"
| "map_err f (Err e) = Err (f e)"
| "map_err f Panic = Panic"

text \<open>Collecting an iterator of results: the first error stops it.\<close>

fun rcollect :: "('a \<Rightarrow> ('b, 'e) rresult) \<Rightarrow> 'a list \<Rightarrow> ('b list, 'e) rresult" where
  "rcollect f [] = Ok []"
| "rcollect f (x # xs) = rbind (f x) (\<lambda>y. rbind (rcollect f xs) (\<lambda>ys. Ok (y # ys)))"

section \<open>Byte strings\<close>

fun strip_prefix :: "string \<Rightarrow> string \<Rightarrow> string option" where
  "strip_prefix [] s = Some s"
| "strip_prefix (c # p) [] = None"
| "strip_prefix (c # p) (d # s) = (if c = d then strip_prefix p s else None)"

definition strip_suffix :: "string \<Rightarrow> string \<Rightarrow> string option" where
  "strip_suffix p s = map_option rev (strip_prefix (rev p) (rev s))"

definition starts_with :: "string \<Rightarrow> string \<Rightarrow> bool" where
  "starts_with s p = (strip_prefix p s \<noteq> None)"

text \<open>\<open>split_once\<close> cuts at the first occurrence of a pattern, \<open>rsplit_once\<close> at the last
  occurrence of a character.\<close>

fun split_once :: "string \<Rightarrow> string \<Rightarrow> (string \<times> string) option" where
  "split_once pat [] = (if pat = [] then Some ([], []) else None)"
| "split_once pat (c # s) =
     (case strip_prefix pat (c # s) of
        Some rest \<Rightarrow> Some ([], rest)
      | None \<Rightarrow> map_option (\<lambda>(a, b). (c # a, b)) (split_once pat s))"

definition rsplit_once :: "char \<Rightarrow> string \<Rightarrow> (string \<times> string) option" where
  "rsplit_once c s = map_option (\<lambda>(a, b). (rev b, rev a)) (split_once [c] (rev s))"

text \<open>\<open>split\<close> gives every piece, \<open>splitn\<close> at most \<open>n\<close> pieces, the last one unsplit.\<close>

fun split_on :: "char \<Rightarrow> string \<Rightarrow> string list" where
  "split_on c [] = [[]]"
| "split_on c (x # xs) =
     (if x = c then [] # split_on c xs
      else (case split_on c xs of [] \<Rightarrow> [[x]] | f # fs \<Rightarrow> (x # f) # fs))"

fun splitn :: "nat \<Rightarrow> char \<Rightarrow> string \<Rightarrow> string list" where
  "splitn 0 c s = []"
| "splitn (Suc 0) c s = [s]"
| "splitn (Suc (Suc n)) c s =
     (case split_once [c] s of None \<Rightarrow> [s] | Some (a, b) \<Rightarrow> a # splitn (Suc n) c b)"

text \<open>\<open>fields.get(i)\<close> on a slice.\<close>

definition slice_get :: "'a list \<Rightarrow> nat \<Rightarrow> 'a option" where
  "slice_get xs i = (if i < length xs then Some (xs ! i) else None)"

definition is_ascii_digit :: "char \<Rightarrow> bool" where
  "is_ascii_digit c = (CHR ''0'' \<le> c \<and> c \<le> CHR ''9'')"

definition is_ascii_alphanumeric :: "char \<Rightarrow> bool" where
  "is_ascii_alphanumeric c =
     (is_ascii_digit c \<or> (CHR ''a'' \<le> c \<and> c \<le> CHR ''z'') \<or> (CHR ''A'' \<le> c \<and> c \<le> CHR ''Z''))"

text \<open>\<open>from_str_radix\<close>, also behind \<open>parse\<close> with radix 10: one leading \<open>+\<close> is accepted, at least one
  digit is required, and a value that does not fit the type is an error.\<close>

definition to_digit :: "nat \<Rightarrow> char \<Rightarrow> nat option" where
  "to_digit radix c =
     (let n = of_char c :: nat;
          d = (if is_ascii_digit c then n - 48
               else if CHR ''a'' \<le> c \<and> c \<le> CHR ''z'' then n - 87
               else if CHR ''A'' \<le> c \<and> c \<le> CHR ''Z'' then n - 55
               else radix)
      in if d < radix then Some d else None)"

fun from_digits :: "nat \<Rightarrow> nat \<Rightarrow> nat \<Rightarrow> string \<Rightarrow> nat option" where
  "from_digits radix bound acc [] = Some acc"
| "from_digits radix bound acc (c # cs) =
     (case to_digit radix c of
        None \<Rightarrow> None
      | Some d \<Rightarrow>
          (if acc * radix + d < bound then from_digits radix bound (acc * radix + d) cs else None))"

definition from_str_radix :: "nat \<Rightarrow> string \<Rightarrow> 'a::len word option" where
  "from_str_radix radix s =
     (let ds = (case s of c # r \<Rightarrow> (if c = CHR ''+'' then r else s) | [] \<Rightarrow> s)
      in if ds = [] then None
         else map_option of_nat (from_digits radix (2 ^ LENGTH('a)) 0 ds))"

text \<open>Rendering a number in a radix of at most 16 (\<open>{}\<close>, \<open>{:x}\<close>).\<close>

definition digit_char :: "nat \<Rightarrow> char" where
  "digit_char d = (if d < 10 then char_of (48 + d) else char_of (87 + d))"

function render_nat :: "nat \<Rightarrow> nat \<Rightarrow> string" where
  "render_nat radix n =
     (if n < radix \<or> radix < 2 then [digit_char n]
      else render_nat radix (n div radix) @ [digit_char (n mod radix)])"
  by pat_completeness auto
termination
  by (relation "measure snd") (auto simp: div_less_dividend)

declare render_nat.simps [simp del]

section \<open>Ordered maps\<close>

text \<open>\<open>BTreeMap<K, V>\<close>: the entries in strictly increasing key order. \<open>bt_entry\<close> is the entry API
  (\<open>entry(k).or_default()\<close>, \<open>and_modify\<close>, \<open>or_insert\<close>), \<open>bt_get\<close>, \<open>bt_remove\<close> the lookups and the removal.\<close>

type_synonym ('k, 'v) btree = "('k \<times> 'v) list"

definition bt_inv :: "('k::linorder, 'v) btree \<Rightarrow> bool" where
  "bt_inv m = sorted_wrt (<) (map fst m)"

definition bt_get :: "('k, 'v) btree \<Rightarrow> 'k \<Rightarrow> 'v option" where
  "bt_get m k = map_of m k"

fun bt_entry :: "'k::linorder \<Rightarrow> ('v option \<Rightarrow> 'v) \<Rightarrow> ('k, 'v) btree \<Rightarrow> ('k, 'v) btree" where
  "bt_entry k f [] = [(k, f None)]"
| "bt_entry k f ((k', v) # m) =
     (if k < k' then (k, f None) # (k', v) # m
      else if k = k' then (k', f (Some v)) # m
      else (k', v) # bt_entry k f m)"

definition bt_insert :: "'k::linorder \<Rightarrow> 'v \<Rightarrow> ('k, 'v) btree \<Rightarrow> ('k, 'v) btree" where
  "bt_insert k v m = bt_entry k (\<lambda>_. v) m"

definition bt_remove :: "'k \<Rightarrow> ('k, 'v) btree \<Rightarrow> ('k, 'v) btree" where
  "bt_remove k m = filter (\<lambda>p. fst p \<noteq> k) m"

text \<open>\<open>entry(k).or_default().push(x)\<close> and the number of elements in all buckets.\<close>

definition push_bucket :: "'e \<Rightarrow> 'e list option \<Rightarrow> 'e list" where
  "push_bucket e b = (case b of None \<Rightarrow> [e] | Some es \<Rightarrow> es @ [e])"

definition bt_push :: "'k::linorder \<Rightarrow> 'e \<Rightarrow> ('k, 'e list) btree \<Rightarrow> ('k, 'e list) btree" where
  "bt_push k e m = bt_entry k (push_bucket e) m"

definition bucket_total :: "('k, 'e list) btree \<Rightarrow> nat" where
  "bucket_total m = sum_list (map (\<lambda>p. length (snd p)) m)"

section \<open>Lemmas\<close>

subsection \<open>Integers\<close>

lemma checked_add_SomeD:
  "checked_add a b = Some c \<Longrightarrow> c = a + b \<and> unat c = unat a + unat b"
  by (auto simp: checked_add_def unat_word_ariths split: if_splits)

lemma checked_add_None_iff: "checked_add (a::'a::len word) b = None \<longleftrightarrow> 2 ^ LENGTH('a) \<le> unat a + unat b"
  by (auto simp: checked_add_def)

lemma checked_sub_Some_iff [simp]: "checked_sub a b = Some c \<longleftrightarrow> b \<le> a \<and> c = a - b"
  by (auto simp: checked_sub_def)

lemma checked_sub_None_iff [simp]: "checked_sub a b = None \<longleftrightarrow> a < b"
  by (auto simp: checked_sub_def not_le)

lemma unat_sub_le: "(b::'a::len word) \<le> a \<Longrightarrow> unat (a - b) = unat a - unat b"
  by (simp add: unat_sub)

subsection \<open>Results\<close>

lemma rbind_Ok_iff [rust_simps]: "rbind r f = Ok b \<longleftrightarrow> (\<exists>a. r = Ok a \<and> f a = Ok b)"
  by (cases r) auto

lemma rbind_Err_iff [rust_simps]:
  "rbind r f = Err e \<longleftrightarrow> r = Err e \<or> (\<exists>a. r = Ok a \<and> f a = Err e)"
  by (cases r) auto

lemma rbind_Panic_iff [rust_simps]: "rbind r f = Panic \<longleftrightarrow> r = Panic \<or> (\<exists>a. r = Ok a \<and> f a = Panic)"
  by (cases r) auto

lemma rbind_split:
  "P (rbind r f) \<longleftrightarrow>
     (\<forall>a. r = Ok a \<longrightarrow> P (f a)) \<and> (\<forall>e. r = Err e \<longrightarrow> P (Err e)) \<and> (r = Panic \<longrightarrow> P Panic)"
  by (cases r) auto

lemma rbind_split_asm:
  "P (rbind r f) \<longleftrightarrow>
     \<not> ((\<exists>a. r = Ok a \<and> \<not> P (f a)) \<or> (\<exists>e. r = Err e \<and> \<not> P (Err e)) \<or> (r = Panic \<and> \<not> P Panic))"
  by (cases r) auto

lemmas rust_splits = rbind_split_asm option.split_asm if_split_asm sum.split_asm list.split_asm prod.split_asm

lemma rbind_no_Panic: "r \<noteq> Panic \<Longrightarrow> (\<And>a. r = Ok a \<Longrightarrow> f a \<noteq> Panic) \<Longrightarrow> rbind r f \<noteq> Panic"
  by (cases r) auto

lemma if_no_Panic: "(b \<Longrightarrow> x \<noteq> Panic) \<Longrightarrow> (\<not> b \<Longrightarrow> y \<noteq> Panic) \<Longrightarrow> (if b then x else y) \<noteq> Panic"
  by simp

text \<open>Walking through a successful run, one call or guard at a time.\<close>

lemma rbind_OkE:
  assumes "rbind r f = Ok b"
  obtains a where "r = Ok a" "f a = Ok b"
  using assms by (cases r) auto

lemma guard_OkE:
  assumes "(if b then Err e else x) = Ok y"
  obtains "\<not> b" "x = Ok y"
  using assms by (auto split: if_splits)

lemma map_err_simps [rust_simps]:
  "map_err f r = Ok a \<longleftrightarrow> r = Ok a"
  "map_err f r = Panic \<longleftrightarrow> r = Panic"
  by (cases r; simp)+

lemma ok_or_iff [rust_simps]:
  "ok_or x e = Ok a \<longleftrightarrow> x = Some a"
  "ok_or x e = Err e' \<longleftrightarrow> x = None \<and> e' = e"
  "ok_or x e \<noteq> Panic"
  by (auto simp: ok_or_def split: option.splits)

lemma expect_iff [rust_simps]:
  "expect x = Ok a \<longleftrightarrow> x = Some a"
  "expect x \<noteq> Err e"
  "expect x = Panic \<longleftrightarrow> x = None"
  by (auto simp: expect_def split: option.splits)

lemma rcollect_Ok_iff: "rcollect f xs = Ok ys \<longleftrightarrow> list_all2 (\<lambda>x y. f x = Ok y) xs ys"
  by (induction xs arbitrary: ys) (auto simp: rust_simps list_all2_Cons1)

lemma rcollect_Ok_length: "rcollect f xs = Ok ys \<Longrightarrow> length ys = length xs"
  by (auto simp: rcollect_Ok_iff dest: list_all2_lengthD)

lemma rcollect_no_Panic: "(\<And>x. x \<in> set xs \<Longrightarrow> f x \<noteq> Panic) \<Longrightarrow> rcollect f xs \<noteq> Panic"
  by (induction xs) (auto simp: rust_simps)

subsection \<open>Strings\<close>

lemma strip_prefix_Some_iff [simp]: "strip_prefix p s = Some r \<longleftrightarrow> s = p @ r"
  by (induction p s rule: strip_prefix.induct) auto

lemma strip_suffix_Some_iff [simp]: "strip_suffix p s = Some r \<longleftrightarrow> s = r @ p"
  unfolding strip_suffix_def
  by (auto simp: rev_swap)

lemma strip_prefix_append [simp]: "strip_prefix p (p @ r) = Some r"
  by simp

lemma starts_with_iff: "starts_with s p \<longleftrightarrow> (\<exists>r. s = p @ r)"
  by (auto simp: starts_with_def)

lemma strip_prefix_None_iff: "strip_prefix p s = None \<longleftrightarrow> \<not> starts_with s p"
  unfolding starts_with_def by blast

lemma split_once_SomeD: "split_once pat s = Some (a, b) \<Longrightarrow> s = a @ pat @ b"
  by (induction pat s arbitrary: a b rule: split_once.induct) (auto split: if_splits option.splits)

lemma split_once_char_Some_iff [simp]:
  "split_once [c] s = Some (a, b) \<longleftrightarrow> s = a @ c # b \<and> c \<notin> set a"
proof (induction s arbitrary: a)
  case Nil
  then show ?case by simp
next
  case (Cons x s)
  then show ?case by (cases a) (auto split: option.splits)
qed

lemma split_once_char_None_iff [simp]: "split_once [c] s = None \<longleftrightarrow> c \<notin> set s"
  by (induction s) (auto split: option.splits)

lemma rsplit_once_Some_iff [simp]:
  "rsplit_once c s = Some (a, b) \<longleftrightarrow> s = a @ c # b \<and> c \<notin> set b"
proof -
  have "rsplit_once c s = Some (a, b) \<longleftrightarrow>
      (\<exists>p q. split_once [c] (rev s) = Some (p, q) \<and> a = rev q \<and> b = rev p)"
    unfolding rsplit_once_def by (auto simp del: split_once_char_Some_iff)
  also have "\<dots> \<longleftrightarrow> s = a @ c # b \<and> c \<notin> set b"
  proof
    assume "s = a @ c # b \<and> c \<notin> set b"
    then have "split_once [c] (rev s) = Some (rev b, rev a)" by simp
    then show "\<exists>p q. split_once [c] (rev s) = Some (p, q) \<and> a = rev q \<and> b = rev p" by (metis rev_rev_ident)
  qed (auto simp: rev_swap)
  finally show ?thesis .
qed

lemma rsplit_once_None_iff [simp]: "rsplit_once c s = None \<longleftrightarrow> c \<notin> set s"
  by (simp add: rsplit_once_def)

lemma split_on_nonempty [simp]: "split_on c s \<noteq> []"
  by (induction s) (auto split: list.splits)

lemma split_on_no_sep [simp]: "c \<notin> set s \<Longrightarrow> split_on c s = [s]"
  by (induction s) auto

lemma split_on_append [simp]: "c \<notin> set a \<Longrightarrow> split_on c (a @ c # b) = a # split_on c b"
  by (induction a) auto

lemma split_on_pieces: "f \<in> set (split_on c s) \<Longrightarrow> c \<notin> set f"
  by (induction s arbitrary: f) (auto split: list.splits if_splits)

lemma append_sep_unique:
  "a @ c # b = a' @ c # b' \<Longrightarrow> c \<notin> set a \<Longrightarrow> c \<notin> set a' \<Longrightarrow> a = a' \<and> b = b'"
proof (induction a arbitrary: a')
  case Nil
  then show ?case by (cases a') auto
next
  case (Cons x a)
  then show ?case by (cases a') auto
qed

lemma split_on_Cons_iff:
  "split_on c s = f # fs \<longleftrightarrow>
     c \<notin> set f \<and> (if fs = [] then s = f else (\<exists>r. s = f @ c # r \<and> split_on c r = fs))"
proof (cases "split_once [c] s")
  case None
  then have "c \<notin> set s" by simp
  then show ?thesis by auto
next
  case (Some ab)
  then obtain a b where ab: "s = a @ c # b" "c \<notin> set a" by (cases ab) auto
  show ?thesis
  proof
    assume "split_on c s = f # fs"
    with ab show "c \<notin> set f \<and> (if fs = [] then s = f else (\<exists>r. s = f @ c # r \<and> split_on c r = fs))"
      by auto
  next
    assume "c \<notin> set f \<and> (if fs = [] then s = f else (\<exists>r. s = f @ c # r \<and> split_on c r = fs))"
    with ab show "split_on c s = f # fs" by (auto split: if_splits dest: append_sep_unique)
  qed
qed

lemma splitn_append [simp]:
  "c \<notin> set a \<Longrightarrow> splitn (Suc (Suc n)) c (a @ c # b) = a # splitn (Suc n) c b"
proof -
  assume "c \<notin> set a"
  then have eq: "split_once [c] (a @ c # b) = Some (a, b)" by simp
  show ?thesis by (simp only: splitn.simps eq option.case prod.case)
qed

lemma splitn_no_sep [simp]: "c \<notin> set s \<Longrightarrow> splitn (Suc n) c s = [s]"
proof (cases n)
  case (Suc m)
  assume "c \<notin> set s"
  then have eq: "split_once [c] s = None" by simp
  show ?thesis by (simp only: Suc splitn.simps eq option.case)
qed simp

lemma slice_get_Some_iff [simp]: "slice_get xs i = Some x \<longleftrightarrow> i < length xs \<and> xs ! i = x"
  by (auto simp: slice_get_def)

lemma slice_get_None_iff [simp]: "slice_get xs i = None \<longleftrightarrow> length xs \<le> i"
  by (auto simp: slice_get_def)

subsection \<open>Numbers and their rendering\<close>

lemma to_digit_digit_char:
  assumes "d < radix" "radix \<le> 16"
  shows "to_digit radix (digit_char d) = Some d"
proof -
  have "d \<in> {0..<16}" using assms by simp
  then have "d \<in> set [0, 1, 2, 3, 4, 5, 6, 7, 8, 9, 10, 11, 12, 13, 14, 15]"
    by (simp add: atLeastLessThan_nat_numeral) auto
  then show ?thesis using assms(1)
    by (auto simp: to_digit_def digit_char_def is_ascii_digit_def less_eq_char_def)
qed

lemma digit_char_not_plus: "d < 16 \<Longrightarrow> digit_char d \<noteq> CHR ''+''"
  using to_digit_digit_char [of d 16]
  by (auto simp: to_digit_def is_ascii_digit_def less_eq_char_def)

lemma from_digits_append:
  "from_digits radix bound acc (xs @ ys) =
     (case from_digits radix bound acc xs of None \<Rightarrow> None | Some a \<Rightarrow> from_digits radix bound a ys)"
  by (induction xs arbitrary: acc) (auto split: option.splits)

lemma render_nat_nonempty [simp]: "render_nat radix n \<noteq> []"
  by (subst render_nat.simps) simp

lemma from_digits_render:
  assumes "2 \<le> radix" "radix \<le> 16" "n < bound"
  shows "from_digits radix bound 0 (render_nat radix n) = Some n"
  using assms
proof (induction radix n rule: render_nat.induct)
  case (1 radix n)
  show ?case
  proof (cases "n < radix")
    case True
    then show ?thesis using "1.prems" by (subst render_nat.simps) (simp add: to_digit_digit_char)
  next
    case False
    then have "n div radix < bound"
      using "1.prems" by (meson div_le_dividend order.strict_trans1)
    then have "from_digits radix bound 0 (render_nat radix (n div radix)) = Some (n div radix)"
      using 1 False by simp
    moreover have "to_digit radix (digit_char (n mod radix)) = Some (n mod radix)"
      using "1.prems" by (simp add: to_digit_digit_char)
    ultimately show ?thesis using False "1.prems"
      by (subst render_nat.simps) (simp add: from_digits_append)
  qed
qed

lemma hd_render_nat:
  assumes "2 \<le> radix" "radix \<le> 16"
  shows "hd (render_nat radix n) \<noteq> CHR ''+''"
  using assms
proof (induction radix n rule: render_nat.induct)
  case (1 radix n)
  show ?case
  proof (cases "n < radix")
    case True
    then show ?thesis using "1.prems" by (subst render_nat.simps) (simp add: digit_char_not_plus)
  next
    case False
    then show ?thesis using 1 by (subst render_nat.simps) simp
  qed
qed

lemma from_str_radix_render:
  fixes w :: "'a::len word"
  assumes "2 \<le> radix" "radix \<le> 16"
  shows "from_str_radix radix (render_nat radix (unat w)) = Some w"
proof -
  obtain c cs where r: "render_nat radix (unat w) = c # cs"
    by (meson list.exhaust render_nat_nonempty)
  have "c \<noteq> CHR ''+''" using hd_render_nat [OF assms, of "unat w"] r by simp
  moreover have "unat w < 2 ^ LENGTH('a)" by simp
  ultimately show ?thesis
    using from_digits_render [OF assms, of "unat w" "2 ^ LENGTH('a)"] r
    by (simp add: from_str_radix_def)
qed

lemma render_nat_inject:
  assumes "2 \<le> radix" "radix \<le> 16" "render_nat radix m = render_nat radix n"
  shows "m = n"
proof -
  have "from_digits radix (Suc (m + n)) 0 (render_nat radix m) = Some m"
    by (rule from_digits_render) (use assms in auto)
  moreover have "from_digits radix (Suc (m + n)) 0 (render_nat radix n) = Some n"
    by (rule from_digits_render) (use assms in auto)
  ultimately show ?thesis using assms(3) by (metis option.inject)
qed

subsection \<open>Ordered maps\<close>

text \<open>The interface the components rely on: an ordered map is its sorted list of entries.\<close>

locale ordered_map =
  fixes get :: "'m \<Rightarrow> 'k::linorder \<Rightarrow> 'v option"
    and entry :: "'k \<Rightarrow> ('v option \<Rightarrow> 'v) \<Rightarrow> 'm \<Rightarrow> 'm"
    and remove :: "'k \<Rightarrow> 'm \<Rightarrow> 'm"
    and empty :: 'm
    and items :: "'m \<Rightarrow> ('k \<times> 'v) list"
    and invar :: "'m \<Rightarrow> bool"
  assumes get_empty: "get empty k = None"
    and get_entry: "invar m \<Longrightarrow> get (entry k f m) k' = (if k' = k then Some (f (get m k)) else get m k')"
    and get_remove: "invar m \<Longrightarrow> get (remove k m) k' = (if k' = k then None else get m k')"
    and get_items: "invar m \<Longrightarrow> get m k = map_of (items m) k"
    and items_sorted: "invar m \<Longrightarrow> sorted_wrt (<) (map fst (items m))"
    and items_empty: "items empty = []"
    and invar_empty: "invar empty"
    and invar_entry: "invar m \<Longrightarrow> invar (entry k f m)"
    and invar_remove: "invar m \<Longrightarrow> invar (remove k m)"
begin

lemma items_distinct: "invar m \<Longrightarrow> distinct (map fst (items m))"
  using items_sorted [of m] strict_sorted_iff by blast

lemma items_get_iff: "invar m \<Longrightarrow> (k, v) \<in> set (items m) \<longleftrightarrow> get m k = Some v"
  using items_distinct [of m] by (simp add: get_items)

text \<open>A fold that feeds every element into the bucket of its key leaves, under each key, exactly the
  elements with that key, in order.\<close>

lemma invar_fold_entry: "invar m \<Longrightarrow> invar (fold (\<lambda>e. entry (key e) (f e)) es m)"
  by (induction es arbitrary: m) (auto simp: invar_entry)

lemma get_fold_entry:
  "invar m \<Longrightarrow>
   get (fold (\<lambda>e. entry (key e) (f e)) es m) k =
     fold (\<lambda>e v. Some (f e v)) (filter (\<lambda>e. key e = k) es) (get m k)"
  by (induction es arbitrary: m) (auto simp: invar_entry get_entry)

end

lemma map_of_bt_entry:
  "bt_inv m \<Longrightarrow> map_of (bt_entry k f m) k' = (if k' = k then Some (f (map_of m k)) else map_of m k')"
proof (induction m)
  case Nil
  then show ?case by simp
next
  case (Cons p m)
  obtain a v where p: "p = (a, v)" by force
  have "map_of m k = None" if "k < a"
    using Cons.prems that by (auto simp: p bt_inv_def map_of_eq_None_iff)
  then show ?case using Cons by (auto simp: p bt_inv_def)
qed

lemma set_keys_bt_entry: "fst ` set (bt_entry k f m) = insert k (fst ` set m)"
  by (induction k f m rule: bt_entry.induct) (simp_all add: insert_commute)

lemma bt_inv_entry: "bt_inv m \<Longrightarrow> bt_inv (bt_entry k f m)"
proof (induction m)
  case Nil
  then show ?case by (simp add: bt_inv_def)
next
  case (Cons p m)
  then show ?case
    using set_keys_bt_entry [of k f m]
    by (cases p) (auto simp: bt_inv_def)
qed

lemma bt_inv_remove: "bt_inv m \<Longrightarrow> bt_inv (bt_remove k m)"
  unfolding bt_inv_def bt_remove_def
  by (induction m) auto

lemma map_of_bt_remove: "map_of (bt_remove k m) k' = (if k' = k then None else map_of m k')"
  by (induction m) (auto simp: bt_remove_def)

interpretation bt: ordered_map bt_get bt_entry bt_remove "[]" "\<lambda>m. m" bt_inv
  by unfold_locales
    (auto simp: bt_get_def map_of_bt_entry map_of_bt_remove bt_inv_entry bt_inv_remove, auto simp: bt_inv_def)

lemmas bt_invars [simp] = bt.invar_empty bt.invar_entry bt.invar_remove
lemmas bt_gets [simp] = bt.get_empty bt.get_entry bt.get_remove

lemma bt_push_inv [simp]: "bt_inv m \<Longrightarrow> bt_inv (bt_push k e m)"
  by (simp add: bt_push_def)

lemma bt_get_push [simp]:
  "bt_inv m \<Longrightarrow> bt_get (bt_push k e m) k' =
     (if k' = k then Some (push_bucket e (bt_get m k)) else bt_get m k')"
  by (simp add: bt_push_def)

text \<open>The buckets together hold what was pushed, and removal takes exactly one bucket away.\<close>

lemma mset_buckets_push:
  "mset (concat (map snd (bt_push k e m))) = add_mset e (mset (concat (map snd m)))"
  unfolding bt_push_def
  by (induction m) (auto simp: push_bucket_def)

lemma bucket_total_eq: "bucket_total m = size (mset (concat (map snd m)))"
  by (simp add: bucket_total_def length_concat comp_def)

lemma mset_buckets_remove:
  "bt_inv m \<Longrightarrow> bt_get m k = Some b \<Longrightarrow>
   mset (concat (map snd m)) = mset b + mset (concat (map snd (bt_remove k m)))"
proof (induction m)
  case Nil
  then show ?case by (simp add: bt_get_def)
next
  case (Cons p m)
  obtain a v where p: "p = (a, v)" by force
  show ?case
  proof (cases "a = k")
    case True
    have "\<forall>q \<in> set m. fst q \<noteq> k"
      using Cons.prems(1) True by (auto simp: p bt_inv_def)
    then have "filter (\<lambda>q. fst q \<noteq> k) m = m" by (simp add: filter_id_conv)
    then show ?thesis using Cons.prems True by (simp add: p bt_get_def bt_remove_def)
  next
    case False
    have "bt_inv m" "bt_get m k = Some b"
      using Cons.prems False by (auto simp: p bt_inv_def bt_get_def)
    from Cons.IH [OF this] False show ?thesis by (simp add: p bt_remove_def)
  qed
qed

lemma bt_remove_absent: "bt_get m k = None \<Longrightarrow> bt_remove k m = m"
  by (force simp: bt_get_def map_of_eq_None_iff bt_remove_def filter_id_conv)

lemma bt_insert_facts [simp]:
  "bt_inv m \<Longrightarrow> bt_inv (bt_insert k v m)"
  "bt_inv m \<Longrightarrow> bt_get (bt_insert k v m) k' = (if k' = k then Some v else bt_get m k')"
  by (simp_all add: bt_insert_def)

lemma values_insert:
  "bt_inv m \<Longrightarrow> mset (map snd (bt_insert k v m)) = add_mset v (mset (map snd (bt_remove k m)))"
proof (induction m)
  case (Cons p m)
  obtain k' v' where p: "p = (k', v')" by (cases p)
  have inv: "bt_inv m" using Cons.prems by (simp add: bt_inv_def)
  show ?case
  proof (cases "k < k'")
    case True
    then have "bt_remove k (p # m) = p # m"
      using Cons.prems by (intro bt_remove_absent) (auto simp: p bt_inv_def bt_get_def map_of_eq_None_iff)
    then show ?thesis using True by (simp add: p bt_insert_def)
  next
    case False
    show ?thesis
    proof (cases "k = k'")
      case True
      have "bt_remove k m = m"
        using Cons.prems True by (intro bt_remove_absent) (auto simp: p bt_inv_def bt_get_def map_of_eq_None_iff)
      then show ?thesis using True by (simp add: p bt_insert_def bt_remove_def)
    next
      case neq: False
      then show ?thesis using Cons.IH [OF inv] False by (simp add: p bt_insert_def bt_remove_def)
    qed
  qed
qed (simp add: bt_insert_def bt_remove_def)

lemma values_remove:
  "bt_inv m \<Longrightarrow> bt_get m k = Some v \<Longrightarrow> mset (map snd m) = add_mset v (mset (map snd (bt_remove k m)))"
proof (induction m)
  case (Cons p m)
  obtain k' v' where p: "p = (k', v')" by (cases p)
  have inv: "bt_inv m" using Cons.prems by (simp add: bt_inv_def)
  show ?case
  proof (cases "k = k'")
    case True
    have "bt_remove k m = m"
      using Cons.prems True by (intro bt_remove_absent) (auto simp: p bt_inv_def bt_get_def map_of_eq_None_iff)
    then show ?thesis using True Cons.prems by (simp add: p bt_get_def bt_remove_def)
  next
    case False
    then show ?thesis using Cons.IH [OF inv] Cons.prems by (simp add: p bt_get_def bt_remove_def)
  qed
qed (simp add: bt_get_def)

end
