(* ===== verification/F64.thy ===== *)
theory F64
  imports Rust_Prelude "HOL-Library.Log_Nat"
begin

text \<open>
  The \<open>f64\<close> arithmetic behind \<open>ratio\<close> and \<open>mean\<close>: an unsigned integer is converted with
  \<open>as f64\<close> (53 significant bits, round half to even) and two such values are divided with one more
  rounding. The operands are below \<open>2 ^ 128\<close>, so no quotient of theirs leaves the normal range and
  exponents need no bound here. A converted integer is again an integer.
\<close>

datatype f64 = F64_NaN | F64_Inf | F64_Fin rat

text \<open>\<open>num / den\<close> rounded to an integer, ties to even.\<close>

definition round_half_even :: "nat \<Rightarrow> nat \<Rightarrow> nat" where
  "round_half_even num den =
     (let q = num div den; r = num mod den
      in if 2 * r < den \<or> (2 * r = den \<and> even q) then q else Suc q)"

definition f64_of_nat :: "nat \<Rightarrow> nat" where
  "f64_of_nat n =
     (let l = floorlog 2 n
      in if l \<le> 53 then n else round_half_even n (2 ^ (l - 53)) * 2 ^ (l - 53))"

text \<open>The exponent of the binade of \<open>a / b\<close>, for positive \<open>a\<close> and \<open>b\<close>.\<close>

definition binade :: "nat \<Rightarrow> nat \<Rightarrow> int" where
  "binade a b =
     (let d = int (floorlog 2 a) - int (floorlog 2 b)
      in if (if 0 \<le> d then b * 2 ^ nat d \<le> a else b \<le> a * 2 ^ nat (- d)) then d else d - 1)"

definition f64_quotient :: "nat \<Rightarrow> nat \<Rightarrow> rat" where
  "f64_quotient a b =
     (if a = 0 then 0
      else let e = binade a b - 52
           in if 0 \<le> e then of_nat (round_half_even a (b * 2 ^ nat e)) * 2 ^ nat e
              else of_nat (round_half_even (a * 2 ^ nat (- e)) b) / 2 ^ nat (- e))"

text \<open>\<open>numerator as f64 / denominator as f64\<close>.\<close>

definition ratio :: "nat \<Rightarrow> nat \<Rightarrow> f64" where
  "ratio numerator denominator =
     (let a = f64_of_nat numerator; b = f64_of_nat denominator
      in if b = 0 then (if a = 0 then F64_NaN else F64_Inf) else F64_Fin (f64_quotient a b))"

section \<open>Lemmas\<close>

lemma round_half_even_bounds:
  assumes "0 < den"
  shows "num div den \<le> round_half_even num den" "round_half_even num den \<le> Suc (num div den)"
  by (auto simp: round_half_even_def Let_def)

lemma round_half_even_exact: "0 < den \<Longrightarrow> round_half_even (m * den) den = m"
  by (simp add: round_half_even_def)

lemma round_half_even_lower:
  assumes "0 < den" "k * den \<le> num"
  shows "k \<le> round_half_even num den"
proof -
  have "k \<le> num div den" using assms by (simp add: less_eq_div_iff_mult_less_eq)
  then show ?thesis using round_half_even_bounds(1) [OF assms(1), of num] by linarith
qed

lemma round_half_even_upper:
  assumes "0 < den" "num \<le> k * den"
  shows "round_half_even num den \<le> k"
proof (cases "num = k * den")
  case True
  then show ?thesis using assms by (simp add: round_half_even_exact)
next
  case False
  then have "num < k * den" using assms by simp
  then have "num div den < k" by (simp add: less_mult_imp_div_less)
  then show ?thesis using round_half_even_bounds(2) [OF assms(1), of num] by linarith
qed

lemma f64_of_nat_pos: "0 < n \<Longrightarrow> 0 < f64_of_nat n"
proof -
  assume n: "0 < n"
  let ?l = "floorlog 2 n"
  have lo: "2 ^ (?l - 1) \<le> n" using floorlog_bounds [of n 2] n by simp
  show ?thesis
  proof (cases "?l \<le> 53")
    case True
    then show ?thesis using n by (simp add: f64_of_nat_def)
  next
    case False
    have "1 * 2 ^ (?l - 53) \<le> n"
    proof -
      have "(2::nat) ^ (?l - 53) \<le> 2 ^ (?l - 1)" by (rule power_increasing) auto
      then show ?thesis using lo by linarith
    qed
    then have "1 \<le> round_half_even n (2 ^ (?l - 53))" by (rule round_half_even_lower [rotated]) simp
    then show ?thesis using False by (simp add: f64_of_nat_def Let_def)
  qed
qed

text \<open>The quotient lies in its binade: \<open>2 ^ binade \<le> a / b < 2 ^ (binade + 1)\<close>.\<close>

lemma binade_upper:
  assumes "0 < a" "0 < b"
  shows "if 0 \<le> binade a b + 1 then a < b * 2 ^ nat (binade a b + 1)
         else a * 2 ^ nat (- (binade a b + 1)) < b"
proof -
  let ?la = "floorlog 2 a" and ?lb = "floorlog 2 b"
  define d where "d = int ?la - int ?lb"
  have la: "2 ^ (?la - 1) \<le> a" "a < 2 ^ ?la" and lb: "2 ^ (?lb - 1) \<le> b" "b < 2 ^ ?lb"
    using floorlog_bounds [of a 2] floorlog_bounds [of b 2] assms by auto
  have posb: "0 < ?lb" using lb assms by (cases ?lb) auto
  have b2: "2 ^ ?lb \<le> 2 * b" using lb(1) posb by (cases ?lb) auto
  have bin_eq: "binade a b =
      (if (if 0 \<le> d then b * 2 ^ nat d \<le> a else b \<le> a * 2 ^ nat (- d)) then d else d - 1)"
    by (simp only: binade_def Let_def d_def)
  show ?thesis
  proof (cases "if 0 \<le> d then b * 2 ^ nat d \<le> a else b \<le> a * 2 ^ nat (- d)")
    case True
    then have bin: "binade a b = d" unfolding bin_eq by (rule if_P)
    show ?thesis
    proof (cases "0 \<le> d + 1")
      case up: True
      have "a < 2 ^ ?la" by (rule la)
      also have "(2::nat) ^ ?la * 2 = 2 ^ ?lb * 2 ^ nat (d + 1)"
      proof -
        have "?la + 1 = ?lb + nat (d + 1)" using up by (simp add: d_def)
        then show ?thesis by (metis power_add power_one_right)
      qed
      then have "(2::nat) ^ ?la * 2 \<le> 2 * b * 2 ^ nat (d + 1)" using b2 by simp
      then have "(2::nat) ^ ?la \<le> b * 2 ^ nat (d + 1)" by simp
      finally show ?thesis using up by (simp add: bin)
    next
      case False
      have "?la + nat (- (d + 1)) = ?lb - 1" using False posb by (simp add: d_def)
      then have "2 ^ ?la * (2::nat) ^ nat (- (d + 1)) = 2 ^ (?lb - 1)" by (metis power_add)
      moreover have "a * 2 ^ nat (- (d + 1)) < 2 ^ ?la * 2 ^ nat (- (d + 1))" using la by simp
      ultimately have "a * 2 ^ nat (- (d + 1)) < b" using lb(1) by linarith
      then show ?thesis using False by (simp add: bin)
    qed
  next
    case False
    then have "binade a b = d - 1" unfolding bin_eq by (rule if_not_P)
    then show ?thesis using False by (auto split: if_splits)
  qed
qed

lemma binade_lower:
  assumes "0 < a" "0 < b"
  shows "if 0 \<le> binade a b then b * 2 ^ nat (binade a b) \<le> a
         else b \<le> a * 2 ^ nat (- binade a b)"
proof -
  let ?la = "floorlog 2 a" and ?lb = "floorlog 2 b"
  define d where "d = int ?la - int ?lb"
  have la: "2 ^ (?la - 1) \<le> a" "a < 2 ^ ?la" and lb: "2 ^ (?lb - 1) \<le> b" "b < 2 ^ ?lb"
    using floorlog_bounds [of a 2] floorlog_bounds [of b 2] assms by auto
  have posa: "0 < ?la" using la assms by (cases ?la) auto
  have bin_eq: "binade a b =
      (if (if 0 \<le> d then b * 2 ^ nat d \<le> a else b \<le> a * 2 ^ nat (- d)) then d else d - 1)"
    by (simp only: binade_def Let_def d_def)
  show ?thesis
  proof (cases "if 0 \<le> d then b * 2 ^ nat d \<le> a else b \<le> a * 2 ^ nat (- d)")
    case True
    then have "binade a b = d" unfolding bin_eq by (rule if_P)
    with True show ?thesis by simp
  next
    case False
    then have bin: "binade a b = d - 1" unfolding bin_eq by (rule if_not_P)
    show ?thesis
    proof (cases "0 \<le> d - 1")
      case up: True
      have "?lb + nat (d - 1) = ?la - 1" using up posa by (simp add: d_def)
      then have "2 ^ ?lb * (2::nat) ^ nat (d - 1) = 2 ^ (?la - 1)" by (metis power_add)
      moreover have "b * 2 ^ nat (d - 1) < 2 ^ ?lb * 2 ^ nat (d - 1)" using lb by simp
      ultimately have "b * 2 ^ nat (d - 1) \<le> a" using la(1) by linarith
      then show ?thesis using up by (simp add: bin)
    next
      case False
      have "?la - 1 + nat (- (d - 1)) = ?lb" using False posa by (simp add: d_def)
      then have "2 ^ (?la - 1) * (2::nat) ^ nat (- (d - 1)) = 2 ^ ?lb" by (metis power_add)
      moreover have "2 ^ (?la - 1) * 2 ^ nat (- (d - 1)) \<le> a * 2 ^ nat (- (d - 1))" using la by simp
      ultimately have "b \<le> a * 2 ^ nat (- (d - 1))" using lb(2) by linarith
      then show ?thesis using False by (simp add: bin)
    qed
  qed
qed

text \<open>A ratio of two counts with \<open>0 < n \<le> d\<close> is a proper fraction: positive and at most one.\<close>

lemma f64_of_nat_le_power:
  assumes "n \<le> 2 ^ k" "53 \<le> k"
  shows "f64_of_nat n \<le> 2 ^ k"
proof (cases "floorlog 2 n \<le> 53")
  case True
  then show ?thesis using assms by (simp add: f64_of_nat_def)
next
  case False
  let ?s = "floorlog 2 n - 53"
  have "0 < n" using False by (cases n) (auto simp: floorlog_def)
  then have "2 ^ (floorlog 2 n - 1) \<le> n" using floorlog_bounds [of n 2] by simp
  then have "(2::nat) ^ (floorlog 2 n - 1) \<le> 2 ^ k" using assms by linarith
  then have "floorlog 2 n - 1 \<le> k" by (rule power_le_imp_le_exp [rotated]) simp
  then have "?s \<le> k" by linarith
  then have "(2::nat) ^ k = 2 ^ (k - ?s) * 2 ^ ?s" by (metis le_add_diff_inverse2 power_add)
  moreover from this have "round_half_even n (2 ^ ?s) \<le> 2 ^ (k - ?s)"
    using assms by (intro round_half_even_upper) simp_all
  ultimately show ?thesis using False by (simp add: f64_of_nat_def Let_def)
qed

lemma round_half_even_mono:
  assumes "0 < den" "m \<le> n"
  shows "round_half_even m den \<le> round_half_even n den"
proof (cases "m div den = n div den")
  case True
  have "m = den * (m div den) + m mod den" "n = den * (n div den) + n mod den" by simp_all
  then have "m mod den \<le> n mod den" using True assms(2) by (metis add_le_cancel_left)
  then show ?thesis using True by (auto simp: round_half_even_def Let_def)
next
  case False
  then have "m div den < n div den" using div_le_mono [OF assms(2), of den] by simp
  then show ?thesis
    using round_half_even_bounds [OF assms(1), of m] round_half_even_bounds [OF assms(1), of n] by linarith
qed

lemma f64_of_nat_mono: "m \<le> n \<Longrightarrow> f64_of_nat m \<le> f64_of_nat n"
proof -
  assume le: "m \<le> n"
  let ?l = "floorlog 2 m" and ?k = "floorlog 2 n"
  have lk: "?l \<le> ?k" using le by (rule floorlog_mono)
  show ?thesis
  proof (cases "?l = ?k")
    case True
    then show ?thesis using le round_half_even_mono [of "2 ^ (?k - 53)" m n]
      by (simp add: f64_of_nat_def Let_def)
  next
    case False
    then have less: "?l \<le> ?k - 1" and kpos: "0 < ?k" using lk by linarith+
    have n: "0 < n" using kpos by (cases n) (auto simp: floorlog_def)
    have m: "m \<le> 2 ^ (?k - 1)"
    proof (cases "m = 0")
      case False
      then have "m < 2 ^ ?l" using floorlog_bounds [of m 2] by simp
      moreover have "(2::nat) ^ ?l \<le> 2 ^ (?k - 1)" using less by (rule power_increasing) simp
      ultimately show ?thesis by linarith
    qed simp
    have lo: "2 ^ (?k - 1) \<le> n" using floorlog_bounds [of n 2] n by simp
    show ?thesis
    proof (cases "?k \<le> 53")
      case True
      then show ?thesis using le lk by (simp add: f64_of_nat_def)
    next
      case k53: False
      have "f64_of_nat m \<le> 2 ^ (?k - 1)" using f64_of_nat_le_power [OF m] k53 by simp
      also have split: "(2::nat) ^ (?k - 1) = 2 ^ 52 * 2 ^ (?k - 53)"
      proof -
        have "?k - 1 = 52 + (?k - 53)" using k53 by linarith
        then show ?thesis by (metis power_add)
      qed
      also have "\<dots> \<le> f64_of_nat n"
      proof -
        have "2 ^ 52 \<le> round_half_even n (2 ^ (?k - 53))"
          by (rule round_half_even_lower) (use lo split in auto)
        then show ?thesis using k53 by (simp only: f64_of_nat_def Let_def if_False mult_le_mono1)
      qed
      finally show ?thesis .
    qed
  qed
qed

lemma f64_quotient_pos: "0 < a \<Longrightarrow> 0 < b \<Longrightarrow> 0 < f64_quotient a b"
proof -
  assume pos: "0 < a" "0 < b"
  define e where "e = binade a b - 52"
  have lower: "if 0 \<le> binade a b then b * 2 ^ nat (binade a b) \<le> a else b \<le> a * 2 ^ nat (- binade a b)"
    using binade_lower [OF pos] .
  show ?thesis
  proof (cases "0 \<le> e")
    case True
    have "b * 2 ^ nat e \<le> b * 2 ^ nat (binade a b)"
      by (intro mult_le_mono2 power_increasing) (simp_all add: e_def)
    moreover have "b * 2 ^ nat (binade a b) \<le> a" using lower True by (simp add: e_def split: if_splits)
    ultimately have "b * 2 ^ nat e \<le> a" by linarith
    then have "1 \<le> round_half_even a (b * 2 ^ nat e)" using pos by (intro round_half_even_lower) simp_all
    then show ?thesis using True pos by (simp add: f64_quotient_def Let_def e_def [symmetric])
  next
    case False
    have "b \<le> a * 2 ^ nat (- e)"
    proof (cases "0 \<le> binade a b")
      case up: True
      have "b * 1 \<le> b * 2 ^ nat (binade a b)" by (rule mult_le_mono2) simp
      moreover have "b * 2 ^ nat (binade a b) \<le> a" using lower up by simp
      ultimately have "b \<le> a" by linarith
      also have "a * 1 \<le> a * 2 ^ nat (- e)" by (rule mult_le_mono2) simp
      finally show ?thesis by simp
    next
      case low: False
      have "a * 2 ^ nat (- binade a b) \<le> a * 2 ^ nat (- e)"
        by (intro mult_le_mono2 power_increasing) (simp_all add: e_def)
      moreover have "b \<le> a * 2 ^ nat (- binade a b)" using lower low by simp
      ultimately show ?thesis by linarith
    qed
    then have "1 \<le> round_half_even (a * 2 ^ nat (- e)) b" using pos by (intro round_half_even_lower) simp_all
    then show ?thesis using False pos by (simp add: f64_quotient_def Let_def e_def [symmetric])
  qed
qed

lemma f64_quotient_le_one: "0 < a \<Longrightarrow> a \<le> b \<Longrightarrow> f64_quotient a b \<le> 1"
proof -
  assume pos: "0 < a" and le: "a \<le> b"
  then have b: "0 < b" by simp
  define e where "e = binade a b - 52"
  have "binade a b \<le> 0"
  proof (rule ccontr)
    assume "\<not> binade a b \<le> 0"
    then have "b * 2 ^ nat (binade a b) \<le> a" using binade_lower [OF pos b] by (simp split: if_splits)
    moreover have "b * 2 ^ 1 \<le> b * 2 ^ nat (binade a b)"
      using \<open>\<not> binade a b \<le> 0\<close> by (intro mult_le_mono2 power_increasing) auto
    ultimately have "b * 2 ^ 1 \<le> a" by linarith
    then show False using le b by simp
  qed
  then have e: "e < 0" by (simp add: e_def)
  have "a * 2 ^ nat (- e) \<le> 2 ^ nat (- e) * b" using le by simp
  then have "round_half_even (a * 2 ^ nat (- e)) b \<le> 2 ^ nat (- e)" using b by (intro round_half_even_upper)
  then have "(of_nat (round_half_even (a * 2 ^ nat (- e)) b) :: rat) \<le> of_nat (2 ^ nat (- e))"
    by (simp only: of_nat_le_iff)
  then show ?thesis using e pos by (simp add: f64_quotient_def Let_def e_def [symmetric])
qed

lemma ratio_unit_interval:
  assumes "0 < n" "n \<le> d"
  obtains q where "ratio n d = F64_Fin q" "0 < q" "q \<le> 1"
proof -
  have "0 < f64_of_nat n" "f64_of_nat n \<le> f64_of_nat d"
    using assms by (simp_all add: f64_of_nat_pos f64_of_nat_mono)
  then have q: "0 < f64_quotient (f64_of_nat n) (f64_of_nat d)"
    "f64_quotient (f64_of_nat n) (f64_of_nat d) \<le> 1"
    by (auto intro: f64_quotient_pos f64_quotient_le_one)
  have "f64_of_nat d \<noteq> 0"
    using \<open>0 < f64_of_nat n\<close> \<open>f64_of_nat n \<le> f64_of_nat d\<close> by linarith
  then have "ratio n d = F64_Fin (f64_quotient (f64_of_nat n) (f64_of_nat d))"
    by (simp add: ratio_def Let_def)
  then show thesis using q by (rule that)
qed

end
