(* ===== verification/Protocol.thy ===== *)
theory Protocol
  imports F64
begin

text \<open>
  The data of \<open>xprobe/protocol/src\<close>: the versioned event every collector produces, the measurement
  request and result, the error codes, and the validation, process and resolution reports. A struct
  is a record with the source's field names behind a short prefix, an enum is a datatype with the
  source's variants behind a short prefix.
\<close>

section \<open>JSON values\<close>

text \<open>The value type of attribute and detail maps. Only numbers that are integers occur.\<close>

datatype json =
    JNull
  | JBool bool
  | JNumber int
  | JString string
  | JArray "json list"
  | JObject "(string \<times> json) list"

fun as_str :: "json \<Rightarrow> string option" where
  "as_str (JString s) = Some s"
| "as_str _ = None"

section \<open>Events (event.rs, version.rs)\<close>

datatype schema_version = V2

definition schema_current :: schema_version where
  "schema_current = V2"

datatype event_source = ES_Ebpf | ES_CuptiCallback | ES_CuptiActivity | ES_Marker

datatype event_type =
    ET_HostFunctionEntry
  | ET_HostFunctionExit
  | ET_KernelFunctionEntry
  | ET_KernelFunctionExit
  | ET_Tracepoint
  | ET_SyscallEntry
  | ET_SyscallExit
  | ET_CudaApiEntry
  | ET_CudaApiExit
  | ET_GpuKernelStart
  | ET_GpuKernelEnd
  | ET_GpuMemcpyStart
  | ET_GpuMemcpyEnd
  | ET_GpuMemsetStart
  | ET_GpuMemsetEnd
  | ET_NvtxRangeStart
  | ET_NvtxRangeEnd
  | ET_PythonGcStart
  | ET_PythonGcEnd
  | ET_Marker

datatype clock_domain = CD_HostMonotonic | CD_Cupti | CD_CuptiNormalizedToHostMonotonic

datatype host_probe_kind =
    HP_Uprobe
  | HP_Uretprobe
  | HP_Kprobe
  | HP_Kretprobe
  | HP_Tracepoint
  | HP_Syscall
  | HP_Usdt

record argument_value =
  arg_index :: u16
  arg_abi_type :: string
  arg_value :: "json option"
  arg_read_error :: "string option"

record host_event =
  he_probe_kind :: host_probe_kind
  he_binary_path :: "string option"
  he_build_id :: "string option"
  he_symbol :: "string option"
  he_symbol_demangled :: "string option"
  he_offset :: "u64 option"
  he_return_value :: "int option"
  he_arguments :: "argument_value list"

datatype memcpy_kind =
    MK_HostToDevice
  | MK_DeviceToHost
  | MK_DeviceToDevice
  | MK_HostToHost
  | MK_PeerToPeer
  | MK_Unknown

record dim3 =
  dim_x :: u32
  dim_y :: u32
  dim_z :: u32

record cuda_event =
  ce_device_id :: "u32 option"
  ce_context_id :: "u32 option"
  ce_stream_id :: "u64 option"
  ce_correlation_id :: "u32 option"
  ce_runtime_correlation_id :: "u32 option"
  ce_callback_domain :: "u32 option"
  ce_callback_id :: "u32 option"
  ce_kernel_name :: "string option"
  ce_kernel_name_mangled :: "string option"
  ce_start_ns :: "u64 option"
  ce_end_ns :: "u64 option"
  ce_grid :: "dim3 option"
  ce_block :: "dim3 option"
  ce_bytes :: "u64 option"
  ce_memcpy_kind :: "memcpy_kind option"

datatype nvtx_range_kind = NR_Thread | NR_Process

record nvtx_event =
  nv_name :: string
  nv_name_complete :: bool
  nv_range_kind :: nvtx_range_kind
  nv_range_id :: u64
  nv_start_tid :: u32

record event =
  ev_schema_version :: schema_version
  ev_session_id :: string
  ev_event_id :: string
  ev_sequence :: u64
  ev_source :: event_source
  ev_event_type :: event_type
  ev_pid :: u32
  ev_tid :: u32
  ev_cpu :: "u32 option"
  ev_timestamp_raw :: u64
  ev_timestamp_ns :: u64
  ev_clock_domain :: clock_domain
  ev_timestamp_error_ns :: "u64 option"
  ev_process_start_time :: "u64 option"
  ev_host :: "host_event option"
  ev_cuda :: "cuda_event option"
  ev_nvtx :: "nvtx_event option"
  ev_attributes :: "(string, json) btree"

text \<open>\<open>attributes.get(key).and_then(Value::as_str)\<close>.\<close>

definition attribute_str :: "event \<Rightarrow> string \<Rightarrow> string option" where
  "attribute_str e key = Option.bind (bt_get (ev_attributes e) key) as_str"

section \<open>Errors (error.rs)\<close>

datatype error_code =
    EC_PermissionDenied
  | EC_TargetNotFound
  | EC_TargetExited
  | EC_TargetReused
  | EC_AmbiguousTarget
  | EC_SymbolNotFound
  | EC_BinaryNotMapped
  | EC_InvalidEventSelector
  | EC_InvalidCorrelationPolicy
  | EC_CuptiNotAvailable
  | EC_CuptiAgentNotLoaded
  | EC_CudaContextNotFound
  | EC_UnsupportedCudaVersion
  | EC_EventRateTooHigh
  | EC_SessionLimitExceeded
  | EC_NoMatchedSamples
  | EC_HighUnmatchedRate
  | EC_EventsDropped
  | EC_ClockAlignmentFailed
  | EC_TraceExportFailed
  | EC_CleanupFailed
  | EC_Internal

fun error_code_as_str :: "error_code \<Rightarrow> string" where
  "error_code_as_str EC_PermissionDenied = ''PERMISSION_DENIED''"
| "error_code_as_str EC_TargetNotFound = ''TARGET_NOT_FOUND''"
| "error_code_as_str EC_TargetExited = ''TARGET_EXITED''"
| "error_code_as_str EC_TargetReused = ''TARGET_REUSED''"
| "error_code_as_str EC_AmbiguousTarget = ''AMBIGUOUS_TARGET''"
| "error_code_as_str EC_SymbolNotFound = ''SYMBOL_NOT_FOUND''"
| "error_code_as_str EC_BinaryNotMapped = ''BINARY_NOT_MAPPED''"
| "error_code_as_str EC_InvalidEventSelector = ''INVALID_EVENT_SELECTOR''"
| "error_code_as_str EC_InvalidCorrelationPolicy = ''INVALID_CORRELATION_POLICY''"
| "error_code_as_str EC_CuptiNotAvailable = ''CUPTI_NOT_AVAILABLE''"
| "error_code_as_str EC_CuptiAgentNotLoaded = ''CUPTI_AGENT_NOT_LOADED''"
| "error_code_as_str EC_CudaContextNotFound = ''CUDA_CONTEXT_NOT_FOUND''"
| "error_code_as_str EC_UnsupportedCudaVersion = ''UNSUPPORTED_CUDA_VERSION''"
| "error_code_as_str EC_EventRateTooHigh = ''EVENT_RATE_TOO_HIGH''"
| "error_code_as_str EC_SessionLimitExceeded = ''SESSION_LIMIT_EXCEEDED''"
| "error_code_as_str EC_NoMatchedSamples = ''NO_MATCHED_SAMPLES''"
| "error_code_as_str EC_HighUnmatchedRate = ''HIGH_UNMATCHED_RATE''"
| "error_code_as_str EC_EventsDropped = ''EVENTS_DROPPED''"
| "error_code_as_str EC_ClockAlignmentFailed = ''CLOCK_ALIGNMENT_FAILED''"
| "error_code_as_str EC_TraceExportFailed = ''TRACE_EXPORT_FAILED''"
| "error_code_as_str EC_CleanupFailed = ''CLEANUP_FAILED''"
| "error_code_as_str EC_Internal = ''INTERNAL''"

section \<open>Measurements (measurement.rs, capability.rs)\<close>

record warning =
  wn_code :: string
  wn_message :: string
  wn_details :: "(string, json) btree"

definition mk_warning :: "string \<Rightarrow> string \<Rightarrow> warning" where
  "mk_warning code message = \<lparr>wn_code = code, wn_message = message, wn_details = []\<rparr>"

record target_identity =
  ti_pid :: u32
  ti_process_start_time :: u64

datatype match_policy = MP_Exact | MP_FirstAfter | MP_Nearest | MP_StackNested | MP_StreamOrder

datatype session_status = SS_Completed | SS_TimedOut | SS_Cancelled | SS_Failed

record matched_event_pair =
  me_start :: event
  me_end :: event
  me_latency_ns :: u64

record sample_summary =
  sm_matched :: nat
  sm_unmatched_start :: nat
  sm_unmatched_end :: nat
  sm_ambiguous :: nat
  sm_dropped :: u64

record latency_statistics =
  ls_min :: u64
  ls_mean :: f64
  ls_p50 :: u64
  ls_p90 :: u64
  ls_p95 :: u64
  ls_p99 :: u64
  ls_max :: u64

record measurement =
  ms_name :: "string option"
  ms_samples :: sample_summary
  ms_latency_ns :: latency_statistics

datatype correlation_confidence = CC_Exact | CC_High | CC_Heuristic | CC_Ambiguous

record correlation_summary =
  cs_method :: string
  cs_confidence :: correlation_confidence
  cs_score :: f64

record clock_quality =
  cq_alignment :: string
  cq_estimated_error_ns :: "u64 option"

datatype capture_completeness = CP_Complete

record cupti_collection_summary =
  cc_record_capacity :: u64
  cc_observed_records :: u64
  cc_retained_records :: u64
  cc_dropped_records :: u64
  cc_buffer_utilization :: f64

record collection_summary =
  cl_completeness :: capture_completeness
  cl_host_events :: nat
  cl_cuda_events :: nat
  cl_dropped_events :: u64
  cl_cupti :: "cupti_collection_summary option"

record measurement_result =
  mr_schema_version :: schema_version
  mr_ok :: bool
  mr_session_id :: string
  mr_status :: session_status
  mr_measurement :: measurement
  mr_correlation :: correlation_summary
  mr_clock :: clock_quality
  mr_collection :: collection_summary
  mr_evidence :: "matched_event_pair list"
  mr_warnings :: "warning list"

section \<open>Processes and resolved probes (process.rs, capability.rs, resolve.rs, capture.rs)\<close>

record capabilities =
  cap_uprobe :: bool
  cap_uretprobe :: bool
  cap_tracepoint :: bool
  cap_cuda_callback :: bool
  cap_cuda_activity :: bool
  cap_runtime_injection :: bool

datatype check_status = CK_Available | CK_Restricted | CK_Unavailable | CK_Unknown

record check_result =
  ck_status :: check_status
  ck_detail :: "string option"

record process_credentials =
  pc_real_uid :: u32
  pc_effective_uid :: u32
  pc_saved_uid :: u32
  pc_filesystem_uid :: u32
  pc_real_gid :: u32
  pc_effective_gid :: u32
  pc_saved_gid :: u32
  pc_filesystem_gid :: u32

record cgroup_entry =
  cg_hierarchy_id :: u32
  cg_controllers :: "string list"
  cg_path :: string

record process_cuda_state =
  pcu_libcuda_loaded :: bool
  pcu_libcudart_loaded :: bool
  pcu_xprobe_cupti_loaded :: bool
  pcu_context :: check_result

record process_report =
  pr_schema_version :: schema_version
  pr_ok :: bool
  pr_target :: target_identity
  pr_executable :: string
  pr_command_line :: "string list"
  pr_credentials :: process_credentials
  pr_namespace_pids :: "u32 list"
  pr_mount_namespace :: string
  pr_cgroups :: "cgroup_entry list"
  pr_loaded_libraries :: "string list"
  pr_cuda :: process_cuda_state
  pr_capabilities :: capabilities

datatype elf_object_kind = EO_Executable | EO_PositionIndependentExecutable | EO_SharedLibrary

record process_mapping =
  pm_start_address :: u64
  pm_end_address :: u64
  pm_file_offset :: u64

record resolved_probe =
  rp_schema_version :: schema_version
  rp_ok :: bool
  rp_target :: target_identity
  rp_selector :: string
  rp_binary_path :: string
  rp_build_id :: "string option"
  rp_object_kind :: elf_object_kind
  rp_probe_kind :: host_probe_kind
  rp_symbol :: "string option"
  rp_symbol_demangled :: "string option"
  rp_symbol_virtual_address :: "u64 option"
  rp_symbol_size :: "u64 option"
  rp_file_offset :: u64
  rp_runtime_address :: u64
  rp_mapping :: process_mapping

record host_capture_result =
  hc_schema_version :: schema_version
  hc_ok :: bool
  hc_session_id :: string
  hc_target :: target_identity
  hc_probe_id :: u32
  hc_captured :: u64
  hc_dropped :: u64
  hc_timed_out :: bool
  hc_record_limit_reached :: bool
  hc_events :: "event list"

section \<open>Validation (validate.rs)\<close>

datatype endpoint_source = EP_Host | EP_Cuda

datatype agent_activation = AA_NotRequired | AA_AlreadyLoaded | AA_InjectionRequired | AA_StartupRequired

record resolved_cuda_selector =
  rc_event_type :: event_type
  rc_api_domain :: "string option"
  rc_api_name :: "string option"
  rc_kernel_name_regex :: "string option"
  rc_nvtx_name_regex :: "string option"
  rc_memcpy_kind :: "memcpy_kind option"

record resolved_linux_selector =
  rl_event_type :: event_type
  rl_probe_kind :: host_probe_kind
  rl_category :: string
  rl_name :: string
  rl_syscall_number :: "u32 option"
  rl_binary_path :: "string option"
  rl_provider :: "string option"

record validated_endpoint =
  ve_selector :: string
  ve_source :: endpoint_source
  ve_event_type :: event_type
  ve_collectable :: bool
  ve_host :: "resolved_probe option"
  ve_linux :: "resolved_linux_selector option"
  ve_cuda :: "resolved_cuda_selector option"

record validation_requirements =
  vr_needs_ebpf :: bool
  vr_needs_cupti :: bool
  vr_needs_cupti_callback :: bool
  vr_needs_cupti_activity :: bool
  vr_needs_nvtx :: bool
  vr_needs_clock_alignment :: bool
  vr_agent_activation :: agent_activation
  vr_target_mutation :: bool

record validation_issue =
  vi_code :: error_code
  vi_message :: string

datatype policy_recommendation_reason =
    PR_DeterministicCorrelationKey
  | PR_HostCallFrame
  | PR_CudaStreamOrder
  | PR_TemporalOrderOnly

record policy_recommendation =
  po_policy :: match_policy
  po_reason :: policy_recommendation_reason
  po_compatible_policies :: "match_policy list"

record validation_result =
  vd_schema_version :: schema_version
  vd_ok :: bool
  vd_valid :: bool
  vd_target :: target_identity
  vd_start :: validated_endpoint
  vd_end :: validated_endpoint
  vd_match_policy :: match_policy
  vd_policy_recommendation :: policy_recommendation
  vd_requirements :: validation_requirements
  vd_issues :: "validation_issue list"
  vd_warnings :: "warning list"

end
