(* ===== verification/Selector.thy ===== *)
theory Selector
  imports Protocol
begin

text \<open>
  The selector language of \<open>xprobe/correlator/src/lib.rs\<close>: parsing a selector text, matching a
  selector against an event, and which pairs of selectors each correlation policy accepts. The
  \<open>regex\<close> crate is a parameter of the model: compiling a pattern gives an error text or a compiled
  expression, and a compiled expression accepts or rejects a name.
\<close>

section \<open>Definitions\<close>

record 'rx regex_engine =
  rx_new :: "string \<Rightarrow> string + 'rx"
  rx_is_match :: "'rx \<Rightarrow> string \<Rightarrow> bool"

text \<open>Error messages, one constructor per message of the source with the text it interpolates.\<close>

datatype selector_reason =
    SR_UnknownPrefix \<comment> \<open>completed captures require a uprobe:, syscall:, tracepoint:, python:, or cuda: selector\<close>
  | SR_EventNotPresent string \<comment> \<open>event .. is not present in completed CUPTI captures\<close>
  | SR_HostNoBoundary \<comment> \<open>uprobe selector requires an entry or return boundary\<close>
  | SR_HostBoundary \<comment> \<open>uprobe boundary must be entry or return\<close>
  | SR_HostNoTarget \<comment> \<open>uprobe selector requires a binary path and symbol or offset\<close>
  | SR_HostEmpty \<comment> \<open>uprobe binary path and target must not be empty\<close>
  | SR_HostOffsetHex \<comment> \<open>uprobe offset must be hexadecimal after +0x\<close>
  | SR_HostOffsetSyntax \<comment> \<open>uprobe offset must use +0x hexadecimal syntax\<close>
  | SR_ApiShape \<comment> \<open>API selector must be cuda:<runtime_api|driver_api>:<name>:<entry|exit>\<close>
  | SR_ApiBoundary \<comment> \<open>CUDA API boundary must be entry or exit\<close>
  | SR_SyscallShape \<comment> \<open>syscall selector must be syscall:<name>:<entry|exit>\<close>
  | SR_SyscallName \<comment> \<open>syscall name must contain only letters, digits, and underscores\<close>
  | SR_SyscallBoundary \<comment> \<open>syscall boundary must be entry or exit\<close>
  | SR_TracepointShape \<comment> \<open>tracepoint selector must be tracepoint:<category>:<name>\<close>
  | SR_TracepointName \<comment> \<open>tracepoint category and name must contain only letters, digits, and underscores\<close>
  | SR_PythonShape \<comment> \<open>Python selector must be python:<gc_start|gc_end>\<close>
  | SR_KernelFilter \<comment> \<open>kernel filter must use name~<regular-expression>\<close>
  | SR_KernelEmptyRegex \<comment> \<open>kernel name regular expression must not be empty\<close>
  | SR_KernelRegex string \<comment> \<open>invalid kernel name regular expression: ..\<close>
  | SR_MemcpyFilter \<comment> \<open>memcpy filter must use kind=<HtoD|DtoH|DtoD|HtoH|PtoP>\<close>
  | SR_MemcpyKind string \<comment> \<open>unsupported memcpy kind ..\<close>
  | SR_MemsetFilter string \<comment> \<open>memset selector .. does not accept a filter\<close>
  | SR_NvtxNoFilter \<comment> \<open>NVTX range selector requires name~<bounded-regular-expression>\<close>
  | SR_NvtxFilter \<comment> \<open>NVTX range filter must use name~<bounded-regular-expression>\<close>
  | SR_NvtxUnbounded \<comment> \<open>NVTX range name must reduce to one nonempty exact, prefix, suffix, or contains filter shorter than 128 bytes\<close>
  | SR_NvtxRegex string \<comment> \<open>invalid NVTX range name regular expression: ..\<close>

datatype policy_reason =
    PY_Exact \<comment> \<open>exact matching requires endpoints with a deterministic correlation key\<close>
  | PY_StackNested \<comment> \<open>stack-nested requires entry and return selectors for the same host function\<close>
  | PY_StreamOrder \<comment> \<open>stream-order requires two GPU activity selectors\<close>

datatype limit_reason =
    LR_NoLimit \<comment> \<open>at least one of samples or duration must be set\<close>
  | LR_ZeroSamples \<comment> \<open>samples must be greater than zero\<close>
  | LR_ZeroDuration \<comment> \<open>duration must be greater than zero\<close>
  | LR_ZeroMaxEvents \<comment> \<open>max-events must be greater than zero\<close>
  | LR_EmptySession \<comment> \<open>session ID must not be empty\<close>
  | LR_DurationRange \<comment> \<open>duration exceeds nanosecond range\<close>
  | LR_WindowOverflow \<comment> \<open>duration window overflows timestamp range\<close>

datatype measure_error =
    ME_InvalidSelector selector_reason
  | ME_InvalidPolicy policy_reason
  | ME_InvalidLimit limit_reason
  | ME_EventLimitExceeded nat nat
  | ME_EventsDropped u64
  | ME_ClockDomainsDiffer clock_domain clock_domain
  | ME_NoMatchedSamples

fun measure_error_code :: "measure_error \<Rightarrow> error_code" where
  "measure_error_code (ME_InvalidSelector _) = EC_InvalidEventSelector"
| "measure_error_code (ME_InvalidPolicy _) = EC_InvalidCorrelationPolicy"
| "measure_error_code (ME_InvalidLimit _) = EC_SessionLimitExceeded"
| "measure_error_code (ME_EventLimitExceeded _ _) = EC_EventRateTooHigh"
| "measure_error_code (ME_EventsDropped _) = EC_EventsDropped"
| "measure_error_code (ME_ClockDomainsDiffer _ _) = EC_ClockAlignmentFailed"
| "measure_error_code ME_NoMatchedSamples = EC_NoMatchedSamples"

datatype host_target = HT_Symbol string | HT_Offset u64

datatype 'rx selector =
    S_Host event_type host_probe_kind string host_target \<comment> \<open>event type, probe kind, binary path, target\<close>
  | S_Syscall event_type string
  | S_Tracepoint string string \<comment> \<open>category, name\<close>
  | S_PythonGc event_type string \<comment> \<open>event type, marker\<close>
  | S_Api event_type string string \<comment> \<open>event type, domain, name\<close>
  | S_Kernel event_type "'rx option"
  | S_Memcpy event_type "memcpy_kind option"
  | S_Memset event_type
  | S_Nvtx event_type 'rx string \<comment> \<open>event type, compiled name, pattern\<close>

type_synonym 'rx parsed = "('rx selector, measure_error) rresult"

abbreviation sel_err :: "selector_reason \<Rightarrow> 'rx parsed" where
  "sel_err r \<equiv> Err (ME_InvalidSelector r)"

subsection \<open>Helpers of the parsers\<close>

fun regex_literal :: "string \<Rightarrow> string option" where
  "regex_literal [] = Some []"
| "regex_literal (c # cs) =
     (if c = CHR 0x5C then
        (case cs of
           [] \<Rightarrow> None
         | escaped # rest \<Rightarrow>
             (if is_ascii_alphanumeric escaped then None
              else map_option ((#) escaped) (regex_literal rest)))
      else if c \<in> set ''.+*?()|[]{}^$'' then None
      else map_option ((#) c) (regex_literal cs))"

definition name_regex_candidates :: "(string \<times> string) list" where
  "name_regex_candidates =
     [(''^'', ''$''), (''^'', ''.*''), (''.*'', ''$''), (''.*'', ''.*''),
      (''^'', ''''), ('''', ''$''), (''.*'', ''''), ('''', '''')]"

definition bounded_literal :: "string \<Rightarrow> string \<times> string \<Rightarrow> bool" where
  "bounded_literal pattern ps =
     (case strip_prefix (fst ps) pattern of
        None \<Rightarrow> False
      | Some v \<Rightarrow>
          (case strip_suffix (snd ps) v of
             None \<Rightarrow> False
           | Some w \<Rightarrow>
               (case regex_literal w of
                  None \<Rightarrow> False
                | Some literal \<Rightarrow> literal \<noteq> [] \<and> length literal < 128)))"

definition is_bounded_name_regex :: "string \<Rightarrow> bool" where
  "is_bounded_name_regex pattern = list_ex (bounded_literal pattern) name_regex_candidates"

definition valid_linux_component :: "string \<Rightarrow> bool" where
  "valid_linux_component value =
     (value \<noteq> [] \<and> list_all (\<lambda>b. is_ascii_alphanumeric b \<or> b = CHR ''_'') value)"

subsection \<open>Parsing\<close>

definition parse_host_target :: "string \<Rightarrow> (host_target, measure_error) rresult" where
  "parse_host_target target =
     (case strip_prefix ''+0x'' target of
        Some hex \<Rightarrow>
          (case from_str_radix 16 hex of
             None \<Rightarrow> Err (ME_InvalidSelector SR_HostOffsetHex)
           | Some offset \<Rightarrow> Ok (HT_Offset offset))
      | None \<Rightarrow>
          (if starts_with target ''+'' then Err (ME_InvalidSelector SR_HostOffsetSyntax)
           else Ok (HT_Symbol target)))"

definition parse_host_boundary :: "string \<Rightarrow> (event_type \<times> host_probe_kind, measure_error) rresult" where
  "parse_host_boundary boundary =
     (if boundary = ''entry'' then Ok (ET_HostFunctionEntry, HP_Uprobe)
      else if boundary = ''return'' then Ok (ET_HostFunctionExit, HP_Uretprobe)
      else Err (ME_InvalidSelector SR_HostBoundary))"

definition split_binary_target :: "string \<Rightarrow> (string \<times> string) option" where
  "split_binary_target s =
     (case split_once '':symbol='' s of Some parts \<Rightarrow> Some parts | None \<Rightarrow> rsplit_once CHR '':'' s)"

definition parse_host :: "string \<Rightarrow> 'rx parsed" where
  "parse_host text =
     rbind (expect (strip_prefix ''uprobe:'' text)) (\<lambda>rest.
     rbind (ok_or (rsplit_once CHR '':'' rest) (ME_InvalidSelector SR_HostNoBoundary)) (\<lambda>(binary_and_target, boundary).
     rbind (parse_host_boundary boundary) (\<lambda>(event_type, probe_kind).
     rbind (ok_or (split_binary_target binary_and_target) (ME_InvalidSelector SR_HostNoTarget)) (\<lambda>(binary_path, target).
     if binary_path = [] \<or> target = [] then sel_err SR_HostEmpty
     else rbind (parse_host_target target) (\<lambda>target.
     Ok (S_Host event_type probe_kind binary_path target))))))"

definition parse_api :: "string \<Rightarrow> 'rx parsed" where
  "parse_api text =
     (case split_on CHR '':'' text of
        [_, domain, name, boundary] \<Rightarrow>
          (if name = [] then sel_err SR_ApiShape
           else if boundary = ''entry'' then Ok (S_Api ET_CudaApiEntry domain name)
           else if boundary = ''exit'' then Ok (S_Api ET_CudaApiExit domain name)
           else sel_err SR_ApiBoundary)
      | _ \<Rightarrow> sel_err SR_ApiShape)"

definition parse_syscall :: "string \<Rightarrow> 'rx parsed" where
  "parse_syscall text =
     (case split_on CHR '':'' text of
        [kind, name, boundary] \<Rightarrow>
          (if kind \<noteq> ''syscall'' then sel_err SR_SyscallShape
           else if \<not> valid_linux_component name then sel_err SR_SyscallName
           else if boundary = ''entry'' then Ok (S_Syscall ET_SyscallEntry name)
           else if boundary = ''exit'' then Ok (S_Syscall ET_SyscallExit name)
           else sel_err SR_SyscallBoundary)
      | _ \<Rightarrow> sel_err SR_SyscallShape)"

definition parse_tracepoint :: "string \<Rightarrow> 'rx parsed" where
  "parse_tracepoint text =
     (case split_on CHR '':'' text of
        [kind, category, name] \<Rightarrow>
          (if kind \<noteq> ''tracepoint'' then sel_err SR_TracepointShape
           else if \<not> valid_linux_component category \<or> \<not> valid_linux_component name
             then sel_err SR_TracepointName
           else Ok (S_Tracepoint category name))
      | _ \<Rightarrow> sel_err SR_TracepointShape)"

definition parse_python :: "string \<Rightarrow> 'rx parsed" where
  "parse_python text =
     (if text = ''python:gc_start'' then Ok (S_PythonGc ET_PythonGcStart ''gc__start'')
      else if text = ''python:gc_end'' then Ok (S_PythonGc ET_PythonGcEnd ''gc__done'')
      else sel_err SR_PythonShape)"

text \<open>The CUDA parsers take the second field and the optional third field of the selector; any other
  second field is unreachable in the source.\<close>

definition parse_kernel :: "'rx regex_engine \<Rightarrow> string \<Rightarrow> string option \<Rightarrow> 'rx parsed" where
  "parse_kernel eng field1 filter_opt =
     rbind (if field1 = ''kernel_start'' then Ok ET_GpuKernelStart
            else if field1 = ''kernel_end'' then Ok ET_GpuKernelEnd else Panic) (\<lambda>event_type.
     case filter_opt of
       None \<Rightarrow> Ok (S_Kernel event_type None)
     | Some flt \<Rightarrow>
         (case strip_prefix ''name~'' flt of
            None \<Rightarrow> sel_err SR_KernelFilter
          | Some pattern \<Rightarrow>
              (if pattern = [] then sel_err SR_KernelEmptyRegex
               else (case rx_new eng pattern of
                       Inl e \<Rightarrow> sel_err (SR_KernelRegex e)
                     | Inr rx \<Rightarrow> Ok (S_Kernel event_type (Some rx))))))"

fun memcpy_kind_of_name :: "string \<Rightarrow> memcpy_kind option" where
  "memcpy_kind_of_name kind =
     (if kind = ''HtoD'' then Some MK_HostToDevice
      else if kind = ''DtoH'' then Some MK_DeviceToHost
      else if kind = ''DtoD'' then Some MK_DeviceToDevice
      else if kind = ''HtoH'' then Some MK_HostToHost
      else if kind = ''PtoP'' then Some MK_PeerToPeer
      else None)"

definition parse_memcpy :: "string \<Rightarrow> string option \<Rightarrow> 'rx parsed" where
  "parse_memcpy field1 filter_opt =
     rbind (if field1 = ''memcpy_start'' then Ok ET_GpuMemcpyStart
            else if field1 = ''memcpy_end'' then Ok ET_GpuMemcpyEnd else Panic) (\<lambda>event_type.
     case filter_opt of
       None \<Rightarrow> Ok (S_Memcpy event_type None)
     | Some flt \<Rightarrow>
         (case strip_prefix ''kind='' flt of
            None \<Rightarrow> sel_err SR_MemcpyFilter
          | Some kind \<Rightarrow>
              (case memcpy_kind_of_name kind of
                 None \<Rightarrow> sel_err (SR_MemcpyKind kind)
               | Some k \<Rightarrow> Ok (S_Memcpy event_type (Some k)))))"

definition parse_memset :: "string \<Rightarrow> string \<Rightarrow> string option \<Rightarrow> 'rx parsed" where
  "parse_memset text field1 filter_opt =
     (if filter_opt \<noteq> None then sel_err (SR_MemsetFilter text)
      else if field1 = ''memset_start'' then Ok (S_Memset ET_GpuMemsetStart)
      else if field1 = ''memset_end'' then Ok (S_Memset ET_GpuMemsetEnd)
      else Panic)"

definition parse_nvtx :: "'rx regex_engine \<Rightarrow> string \<Rightarrow> string option \<Rightarrow> 'rx parsed" where
  "parse_nvtx eng field1 filter_opt =
     rbind (if field1 = ''nvtx_range_start'' then Ok ET_NvtxRangeStart
            else if field1 = ''nvtx_range_end'' then Ok ET_NvtxRangeEnd else Panic) (\<lambda>event_type.
     case filter_opt of
       None \<Rightarrow> sel_err SR_NvtxNoFilter
     | Some flt \<Rightarrow>
         (case strip_prefix ''name~'' flt of
            None \<Rightarrow> sel_err SR_NvtxFilter
          | Some pattern \<Rightarrow>
              (if \<not> is_bounded_name_regex pattern then sel_err SR_NvtxUnbounded
               else (case rx_new eng pattern of
                       Inl e \<Rightarrow> sel_err (SR_NvtxRegex e)
                     | Inr rx \<Rightarrow> Ok (S_Nvtx event_type rx pattern)))))"

definition selector_parse :: "'rx regex_engine \<Rightarrow> string \<Rightarrow> 'rx parsed" where
  "selector_parse eng text =
     (if starts_with text ''uprobe:'' then parse_host text
      else if starts_with text ''syscall:'' then parse_syscall text
      else if starts_with text ''tracepoint:'' then parse_tracepoint text
      else if starts_with text ''python:'' then parse_python text
      else (case splitn 3 CHR '':'' text of
              field0 # field1 # rest \<Rightarrow>
                (if field0 \<noteq> ''cuda'' then sel_err SR_UnknownPrefix
                 else let field2 = slice_get rest 0
                      in if field1 = ''runtime_api'' \<or> field1 = ''driver_api'' then parse_api text
                         else if field1 = ''kernel_start'' \<or> field1 = ''kernel_end''
                           then parse_kernel eng field1 field2
                         else if field1 = ''memcpy_start'' \<or> field1 = ''memcpy_end''
                           then parse_memcpy field1 field2
                         else if field1 = ''memset_start'' \<or> field1 = ''memset_end''
                           then parse_memset text field1 field2
                         else if field1 = ''nvtx_range_start'' \<or> field1 = ''nvtx_range_end''
                           then parse_nvtx eng field1 field2
                         else sel_err (SR_EventNotPresent field1))
            | _ \<Rightarrow> sel_err SR_UnknownPrefix))"

subsection \<open>Matching\<close>

definition host_is :: "event \<Rightarrow> (host_event \<Rightarrow> bool) \<Rightarrow> bool" where
  "host_is e p = (case ev_host e of None \<Rightarrow> False | Some h \<Rightarrow> p h)"

fun selector_matches :: "'rx regex_engine \<Rightarrow> 'rx selector \<Rightarrow> event \<Rightarrow> bool" where
  "selector_matches eng (S_Host event_type probe_kind binary_path target) e =
     (ev_event_type e = event_type \<and>
      host_is e (\<lambda>h. he_probe_kind h = probe_kind \<and> he_binary_path h = Some binary_path \<and>
        (case target of
           HT_Symbol symbol \<Rightarrow> he_symbol h = Some symbol \<or> he_symbol_demangled h = Some symbol
         | HT_Offset offset \<Rightarrow> he_offset h = Some offset)))"
| "selector_matches eng (S_Api event_type domain name) e =
     (ev_event_type e = event_type \<and>
      attribute_str e ''cuda_api_name'' = Some name \<and>
      attribute_str e ''cuda_api_domain'' = Some domain)"
| "selector_matches eng (S_Kernel event_type name) e =
     (ev_event_type e = event_type \<and>
      (case name of
         None \<Rightarrow> True
       | Some rx \<Rightarrow>
           (case Option.bind (ev_cuda e) ce_kernel_name of
              None \<Rightarrow> False
            | Some kernel_name \<Rightarrow> rx_is_match eng rx kernel_name)))"
| "selector_matches eng (S_Syscall event_type name) e =
     (ev_event_type e = event_type \<and>
      host_is e (\<lambda>h. he_probe_kind h = HP_Syscall \<and> he_symbol h = Some name))"
| "selector_matches eng (S_Tracepoint category name) e =
     (ev_event_type e = ET_Tracepoint \<and>
      host_is e (\<lambda>h. he_probe_kind h = HP_Tracepoint \<and> he_symbol h = Some name) \<and>
      attribute_str e ''tracepoint_category'' = Some category)"
| "selector_matches eng (S_PythonGc event_type marker) e =
     (ev_event_type e = event_type \<and>
      host_is e (\<lambda>h. he_probe_kind h = HP_Usdt \<and> he_symbol h = Some marker) \<and>
      attribute_str e ''usdt_provider'' = Some ''python'')"
| "selector_matches eng (S_Memcpy event_type kind) e =
     (ev_event_type e = event_type \<and>
      (case kind of None \<Rightarrow> True | Some k \<Rightarrow> Option.bind (ev_cuda e) ce_memcpy_kind = Some k))"
| "selector_matches eng (S_Memset event_type) e = (ev_event_type e = event_type)"
| "selector_matches eng (S_Nvtx event_type name pattern) e =
     (ev_event_type e = event_type \<and>
      (case ev_nvtx e of None \<Rightarrow> False | Some n \<Rightarrow> rx_is_match eng name (nv_name n)))"

subsection \<open>Which policies a pair of selectors supports\<close>

fun is_syscall_lifecycle :: "'rx selector \<Rightarrow> 'rx selector \<Rightarrow> bool" where
  "is_syscall_lifecycle (S_Syscall start_type start_name) (S_Syscall end_type end_name) =
     (start_type = ET_SyscallEntry \<and> end_type = ET_SyscallExit \<and> start_name = end_name)"
| "is_syscall_lifecycle _ _ = False"

fun is_nvtx_lifecycle :: "'rx selector \<Rightarrow> 'rx selector \<Rightarrow> bool" where
  "is_nvtx_lifecycle (S_Nvtx start_type _ start_pattern) (S_Nvtx end_type _ end_pattern) =
     (start_type = ET_NvtxRangeStart \<and> end_type = ET_NvtxRangeEnd \<and> start_pattern = end_pattern)"
| "is_nvtx_lifecycle _ _ = False"

fun is_python_gc_lifecycle :: "'rx selector \<Rightarrow> 'rx selector \<Rightarrow> bool" where
  "is_python_gc_lifecycle (S_PythonGc start_type _) (S_PythonGc end_type _) =
     (start_type = ET_PythonGcStart \<and> end_type = ET_PythonGcEnd)"
| "is_python_gc_lifecycle _ _ = False"

text \<open>The arm of \<open>supports_exact\<close> that rejects: either side is a host, tracepoint, NVTX or Python
  selector and no earlier arm applied.\<close>

fun lacks_correlation_key :: "'rx selector \<Rightarrow> bool" where
  "lacks_correlation_key (S_Host _ _ _ _) = True"
| "lacks_correlation_key (S_Tracepoint _ _) = True"
| "lacks_correlation_key (S_Nvtx _ _ _) = True"
| "lacks_correlation_key (S_PythonGc _ _) = True"
| "lacks_correlation_key _ = False"

fun supports_exact :: "'rx selector \<Rightarrow> 'rx selector \<Rightarrow> bool" where
  "supports_exact (S_Syscall start_type start_name) (S_Syscall end_type end_name) =
     (if start_type = ET_SyscallEntry \<and> end_type = ET_SyscallExit then start_name = end_name
      else True)"
| "supports_exact (S_Nvtx start_type _ start_pattern) (S_Nvtx end_type _ end_pattern) =
     (if start_type = ET_NvtxRangeStart \<and> end_type = ET_NvtxRangeEnd then start_pattern = end_pattern
      else False)"
| "supports_exact (S_PythonGc start_type _) (S_PythonGc end_type _) =
     (start_type = ET_PythonGcStart \<and> end_type = ET_PythonGcEnd)"
| "supports_exact s e = (\<not> lacks_correlation_key s \<and> \<not> lacks_correlation_key e)"

fun supports_stack_nested :: "'rx selector \<Rightarrow> 'rx selector \<Rightarrow> bool" where
  "supports_stack_nested (S_Host start_type _ start_binary start_target)
                         (S_Host end_type _ end_binary end_target) =
     (start_type = ET_HostFunctionEntry \<and> end_type = ET_HostFunctionExit \<and>
      start_binary = end_binary \<and> start_target = end_target)"
| "supports_stack_nested _ _ = False"

fun is_gpu_activity :: "'rx selector \<Rightarrow> bool" where
  "is_gpu_activity (S_Kernel _ _) = True"
| "is_gpu_activity (S_Memcpy _ _) = True"
| "is_gpu_activity (S_Memset _) = True"
| "is_gpu_activity _ = False"

definition validate_policy ::
  "'rx selector \<Rightarrow> 'rx selector \<Rightarrow> match_policy \<Rightarrow> (unit, measure_error) rresult" where
  "validate_policy start end_sel policy =
     (if policy = MP_Exact \<and> \<not> supports_exact start end_sel then Err (ME_InvalidPolicy PY_Exact)
      else if policy = MP_StackNested \<and> \<not> supports_stack_nested start end_sel
        then Err (ME_InvalidPolicy PY_StackNested)
      else if policy = MP_StreamOrder \<and> (\<not> is_gpu_activity start \<or> \<not> is_gpu_activity end_sel)
        then Err (ME_InvalidPolicy PY_StreamOrder)
      else Ok ())"

subsection \<open>Well-formed selectors\<close>

text \<open>What a parsed selector promises: event type and variant agree and every name is usable.\<close>

fun selector_event_type :: "'rx selector \<Rightarrow> event_type" where
  "selector_event_type (S_Host event_type _ _ _) = event_type"
| "selector_event_type (S_Syscall event_type _) = event_type"
| "selector_event_type (S_Tracepoint _ _) = ET_Tracepoint"
| "selector_event_type (S_PythonGc event_type _) = event_type"
| "selector_event_type (S_Api event_type _ _) = event_type"
| "selector_event_type (S_Kernel event_type _) = event_type"
| "selector_event_type (S_Memcpy event_type _) = event_type"
| "selector_event_type (S_Memset event_type) = event_type"
| "selector_event_type (S_Nvtx event_type _ _) = event_type"

fun wf_selector :: "'rx regex_engine \<Rightarrow> 'rx selector \<Rightarrow> bool" where
  "wf_selector eng (S_Host event_type probe_kind binary_path target) =
     ((event_type, probe_kind) \<in> {(ET_HostFunctionEntry, HP_Uprobe), (ET_HostFunctionExit, HP_Uretprobe)} \<and>
      binary_path \<noteq> [] \<and>
      (case target of HT_Symbol s \<Rightarrow> s \<noteq> [] \<and> \<not> starts_with s ''+'' | HT_Offset _ \<Rightarrow> True))"
| "wf_selector eng (S_Syscall event_type name) =
     (event_type \<in> {ET_SyscallEntry, ET_SyscallExit} \<and> valid_linux_component name)"
| "wf_selector eng (S_Tracepoint category name) =
     (valid_linux_component category \<and> valid_linux_component name)"
| "wf_selector eng (S_PythonGc event_type marker) =
     ((event_type, marker) \<in> {(ET_PythonGcStart, ''gc__start''), (ET_PythonGcEnd, ''gc__done'')})"
| "wf_selector eng (S_Api event_type domain name) =
     (event_type \<in> {ET_CudaApiEntry, ET_CudaApiExit} \<and> domain \<in> {''runtime_api'', ''driver_api''} \<and>
      name \<noteq> [] \<and> CHR '':'' \<notin> set name)"
| "wf_selector eng (S_Kernel event_type name) =
     (event_type \<in> {ET_GpuKernelStart, ET_GpuKernelEnd} \<and>
      (\<forall>rx. name = Some rx \<longrightarrow> (\<exists>pattern. pattern \<noteq> [] \<and> rx_new eng pattern = Inr rx)))"
| "wf_selector eng (S_Memcpy event_type kind) =
     (event_type \<in> {ET_GpuMemcpyStart, ET_GpuMemcpyEnd} \<and> kind \<noteq> Some MK_Unknown)"
| "wf_selector eng (S_Memset event_type) = (event_type \<in> {ET_GpuMemsetStart, ET_GpuMemsetEnd})"
| "wf_selector eng (S_Nvtx event_type name pattern) =
     (event_type \<in> {ET_NvtxRangeStart, ET_NvtxRangeEnd} \<and> is_bounded_name_regex pattern \<and>
      rx_new eng pattern = Inr name)"

section \<open>Lemmas\<close>

lemma parse_host_wf: "parse_host text = Ok sel \<Longrightarrow> wf_selector eng sel"
  by (auto simp: parse_host_def parse_host_boundary_def parse_host_target_def rust_simps
      strip_prefix_None_iff split: if_splits option.splits)

lemma parse_api_wf:
  assumes "parse_api text = Ok sel" "splitn 3 CHR '':'' text = f0 # f1 # rest"
    "f1 = ''runtime_api'' \<or> f1 = ''driver_api''"
  shows "wf_selector eng sel"
proof -
  from assms(1) obtain g0 domain name boundary where
    sp: "split_on CHR '':'' text = [g0, domain, name, boundary]" and
    name: "name \<noteq> []" and sel: "sel \<in> {S_Api ET_CudaApiEntry domain name, S_Api ET_CudaApiExit domain name}"
    by (auto simp: parse_api_def split: list.splits if_splits)
  from sp have "text = g0 @ CHR '':'' # domain @ CHR '':'' # name @ CHR '':'' # boundary"
    and "CHR '':'' \<notin> set g0" "CHR '':'' \<notin> set domain" and colon: "CHR '':'' \<notin> set name"
    by (auto simp: split_on_Cons_iff)
  then have "f1 = domain" using assms(2) by (simp add: eval_nat_numeral del: splitn.simps)
  then show ?thesis using assms(3) sel name colon by auto
qed

lemma parse_syscall_wf: "parse_syscall text = Ok sel \<Longrightarrow> wf_selector eng sel"
  by (auto simp: parse_syscall_def split: list.splits if_splits)

lemma parse_tracepoint_wf: "parse_tracepoint text = Ok sel \<Longrightarrow> wf_selector eng sel"
  by (auto simp: parse_tracepoint_def split: list.splits if_splits)

lemma parse_python_wf: "parse_python text = Ok sel \<Longrightarrow> wf_selector eng sel"
  by (auto simp: parse_python_def split: if_splits)

lemma parse_kernel_wf: "parse_kernel eng f1 flt = Ok sel \<Longrightarrow> wf_selector eng sel"
  by (auto simp: parse_kernel_def split: rust_splits)

lemma parse_memcpy_wf: "parse_memcpy f1 flt = Ok sel \<Longrightarrow> wf_selector eng sel"
  by (auto simp: parse_memcpy_def split: rust_splits)

lemma parse_memset_wf: "parse_memset text f1 flt = Ok sel \<Longrightarrow> wf_selector eng sel"
  by (auto simp: parse_memset_def split: if_splits)

lemma parse_nvtx_wf: "parse_nvtx eng f1 flt = Ok sel \<Longrightarrow> wf_selector eng sel"
  by (auto simp: parse_nvtx_def split: rust_splits)

lemmas parser_wf = parse_host_wf parse_syscall_wf parse_tracepoint_wf parse_python_wf
  parse_kernel_wf parse_memcpy_wf parse_memset_wf parse_nvtx_wf parse_api_wf

lemma selector_parse_wf: "selector_parse eng text = Ok sel \<Longrightarrow> wf_selector eng sel"
  unfolding selector_parse_def Let_def
  by (simp del: splitn.simps wf_selector.simps split: if_split_asm list.split_asm)
    (erule parser_wf [where eng = eng]; simp)+

text \<open>The \<open>unreachable!\<close> and \<open>expect\<close> branches are never taken.\<close>

lemma parsers_no_panic:
  "parse_syscall text \<noteq> Panic" "parse_tracepoint text \<noteq> Panic" "parse_python text \<noteq> Panic"
  "parse_api text \<noteq> Panic"
  by (auto simp: parse_syscall_def parse_tracepoint_def parse_python_def parse_api_def
      split: list.splits if_splits)

lemma parse_host_no_panic: "starts_with text ''uprobe:'' \<Longrightarrow> parse_host text \<noteq> Panic"
  by (auto simp: parse_host_def parse_host_boundary_def parse_host_target_def rust_simps starts_with_def
      split: rust_splits)

lemma cuda_parsers_no_panic:
  "f1 = ''kernel_start'' \<or> f1 = ''kernel_end'' \<Longrightarrow> parse_kernel eng f1 flt \<noteq> Panic"
  "f1 = ''memcpy_start'' \<or> f1 = ''memcpy_end'' \<Longrightarrow> parse_memcpy f1 flt \<noteq> Panic"
  "f1 = ''memset_start'' \<or> f1 = ''memset_end'' \<Longrightarrow> parse_memset text f1 flt \<noteq> Panic"
  "f1 = ''nvtx_range_start'' \<or> f1 = ''nvtx_range_end'' \<Longrightarrow> parse_nvtx eng f1 flt \<noteq> Panic"
  by (auto simp: parse_kernel_def parse_memcpy_def parse_memset_def parse_nvtx_def split: rust_splits)

lemma selector_parse_no_panic: "selector_parse eng text \<noteq> Panic"
  unfolding selector_parse_def Let_def
  by (simp add: parsers_no_panic parse_host_no_panic cuda_parsers_no_panic
      del: splitn.simps split: list.split)

lemma selector_matches_event_type: "selector_matches eng sel e \<Longrightarrow> ev_event_type e = selector_event_type sel"
  by (cases sel) auto

end
