(* ===== verification/Pairing.thy ===== *)
theory Pairing
  imports Protocol
begin

text \<open>
  What the pairing algorithms of \<open>xprobe/correlator/src/lib.rs\<close> share: pairs, outcomes, correlation
  keys, the grouping loops, and the contract every policy keeps. The event references of the source are
  the events themselves. Counters are \<open>nat\<close>: each one counts elements of the two slices, and the
  accounting law of the contract bounds their sum, so the \<open>u64\<close> additions of the source do not wrap.
\<close>

section \<open>Pairs, outcomes, keys\<close>

record pair_t =
  pair_start :: event
  pair_end :: event
  pair_latency_ns :: u64

definition mk_pair :: "event \<Rightarrow> event \<Rightarrow> u64 \<Rightarrow> pair_t" where
  "mk_pair s e latency = \<lparr>pair_start = s, pair_end = e, pair_latency_ns = latency\<rparr>"

record outcome =
  out_pairs :: "pair_t list"
  out_unmatched_start :: nat
  out_unmatched_end :: nat
  out_ambiguous :: nat

definition outcome_empty :: outcome where
  "outcome_empty =
     \<lparr>out_pairs = [], out_unmatched_start = 0, out_unmatched_end = 0, out_ambiguous = 0\<rparr>"

record lifecycle_kinds =
  lk_syscall :: bool
  lk_nvtx :: bool
  lk_python_gc :: bool

datatype correlation_key =
    CK_Cuda u32 u32 u32 \<comment> \<open>pid, context id, correlation id\<close>
  | CK_Nvtx u32 nvtx_range_kind u64 \<comment> \<open>pid, range kind, range id\<close>

text \<open>The derived \<open>Ord\<close>: variants in order of declaration, then the fields from left to right.\<close>

fun nvtx_range_kind_rank :: "nvtx_range_kind \<Rightarrow> nat" where
  "nvtx_range_kind_rank NR_Thread = 0"
| "nvtx_range_kind_rank NR_Process = 1"

fun correlation_key_rank :: "correlation_key \<Rightarrow> nat \<times> nat \<times> nat \<times> nat" where
  "correlation_key_rank (CK_Cuda pid context_id correlation_id) =
     (0, unat pid, unat context_id, unat correlation_id)"
| "correlation_key_rank (CK_Nvtx pid range_kind range_id) =
     (1, unat pid, nvtx_range_kind_rank range_kind, unat range_id)"

lemma nvtx_range_kind_rank_inject: "nvtx_range_kind_rank a = nvtx_range_kind_rank b \<Longrightarrow> a = b"
  by (cases a; cases b) auto

lemma correlation_key_rank_inject: "correlation_key_rank a = correlation_key_rank b \<Longrightarrow> a = b"
  by (cases a; cases b) (auto dest: nvtx_range_kind_rank_inject word_unat_eq_iff [THEN iffD2])

instantiation correlation_key :: linorder
begin

definition less_eq_correlation_key :: "correlation_key \<Rightarrow> correlation_key \<Rightarrow> bool" where
  "a \<le> b \<longleftrightarrow> correlation_key_rank a \<le> correlation_key_rank b"

definition less_correlation_key :: "correlation_key \<Rightarrow> correlation_key \<Rightarrow> bool" where
  "a < b \<longleftrightarrow> correlation_key_rank a < correlation_key_rank b"

instance
  by standard
    (auto simp: less_eq_correlation_key_def less_correlation_key_def intro: correlation_key_rank_inject)

end

definition correlation_key :: "event \<Rightarrow> correlation_key option" where
  "correlation_key e =
     (case ev_nvtx e of
        Some nvtx \<Rightarrow> Some (CK_Nvtx (ev_pid e) (nv_range_kind nvtx) (nv_range_id nvtx))
      | None \<Rightarrow>
          (case ev_cuda e of
             None \<Rightarrow> None
           | Some cuda \<Rightarrow>
               (case ce_context_id cuda of
                  None \<Rightarrow> None
                | Some context_id \<Rightarrow>
                    (case ce_correlation_id cuda of
                       None \<Rightarrow> None
                     | Some correlation_id \<Rightarrow> Some (CK_Cuda (ev_pid e) context_id correlation_id)))))"

type_synonym thread_key = "u32 \<times> u32 \<times> u64 option"
type_synonym stream_key = "u32 \<times> u32 \<times> u32 \<times> u64"

definition thread_key :: "event \<Rightarrow> thread_key" where
  "thread_key e = (ev_pid e, ev_tid e, ev_process_start_time e)"

definition stream_key :: "event \<Rightarrow> stream_key option" where
  "stream_key e =
     (case ev_cuda e of
        None \<Rightarrow> None
      | Some cuda \<Rightarrow>
          (case (ce_device_id cuda, ce_context_id cuda, ce_stream_id cuda) of
             (Some device, Some context, Some stream) \<Rightarrow> Some (ev_pid e, device, context, stream)
           | _ \<Rightarrow> None))"

text \<open>\<open>pairs.sort_by_key(|pair| pair.start.timestamp_ns)\<close> and \<open>pairs.truncate(limit)\<close>.\<close>

definition sort_pairs :: "pair_t list \<Rightarrow> pair_t list" where
  "sort_pairs = sort_key (\<lambda>p. ev_timestamp_ns (pair_start p))"

definition truncate_pairs :: "nat option \<Rightarrow> pair_t list \<Rightarrow> pair_t list" where
  "truncate_pairs limit ps = (case limit of None \<Rightarrow> ps | Some l \<Rightarrow> take l ps)"

text \<open>The loops that distribute events over the buckets of their key count the events without one.\<close>

fun group_events :: "(event \<Rightarrow> 'k::linorder option) \<Rightarrow> event list \<Rightarrow> ('k, event list) btree \<Rightarrow> nat
    \<Rightarrow> ('k, event list) btree \<times> nat" where
  "group_events key [] groups unmatched = (groups, unmatched)"
| "group_events key (e # es) groups unmatched =
     (case key e of
        None \<Rightarrow> group_events key es groups (unmatched + 1)
      | Some k \<Rightarrow> group_events key es (bt_push k e groups) unmatched)"

text \<open>The merged timeline of both slices; the middle component is the boundary.\<close>

type_synonym timeline = "(u64 \<times> u8 \<times> event) list"

definition timeline :: "event list \<Rightarrow> event list \<Rightarrow> timeline" where
  "timeline starts ends =
     map (\<lambda>e. (ev_timestamp_ns e, 0, e)) starts @ map (\<lambda>e. (ev_timestamp_ns e, 1, e)) ends"

text \<open>\<open>limit.unwrap_or(usize::MAX)\<close>.\<close>

definition limit_or_max :: "nat option \<Rightarrow> nat" where
  "limit_or_max limit = (case limit of None \<Rightarrow> usize_max | Some l \<Rightarrow> l)"

section \<open>The contract of a policy\<close>

abbreviation ts :: "event \<Rightarrow> u64" where
  "ts \<equiv> ev_timestamp_ns"

definition sorted_events :: "event list \<Rightarrow> bool" where
  "sorted_events es = sorted (map ts es)"

definition forward_pair :: "pair_t \<Rightarrow> bool" where
  "forward_pair p \<longleftrightarrow> ts (pair_start p) \<le> ts (pair_end p)"

text \<open>The latency is the distance of the two timestamps, every start and every end is used at most
  as often as it occurs in its slice, the pairs come in the order of their starts, the sample limit
  holds, and the counters together never exceed the number of events.\<close>

definition outcome_ok :: "event list \<Rightarrow> event list \<Rightarrow> nat option \<Rightarrow> outcome \<Rightarrow> bool" where
  "outcome_ok starts ends limit out \<longleftrightarrow>
     (\<forall>p\<in>set (out_pairs out). pair_latency_ns p = abs_diff (ts (pair_end p)) (ts (pair_start p))) \<and>
     mset (map pair_start (out_pairs out)) \<subseteq># mset starts \<and>
     mset (map pair_end (out_pairs out)) \<subseteq># mset ends \<and>
     sorted_events (map pair_start (out_pairs out)) \<and>
     (\<forall>l. limit = Some l \<longrightarrow> length (out_pairs out) \<le> l) \<and>
     length (out_pairs out) + out_unmatched_start out + out_unmatched_end out + out_ambiguous out
       \<le> length starts + length ends"

lemma mset_subset_set: "mset (map f xs) \<subseteq># mset ys \<Longrightarrow> x \<in> set xs \<Longrightarrow> f x \<in> set ys"
  by (metis image_eqI image_set mset_subset_eqD set_mset_mset)

lemma mset_subset_distinct: "mset xs \<subseteq># mset ys \<Longrightarrow> distinct ys \<Longrightarrow> distinct xs"
  by (metis distinct_append ex_mset mset_append mset_eq_imp_distinct_iff subset_mset.le_iff_add)

locale pairing_policy =
  fixes correlate :: "event list \<Rightarrow> event list \<Rightarrow> nat option \<Rightarrow> outcome option"
  assumes keeps_contract:
    "sorted_events starts \<Longrightarrow> sorted_events ends \<Longrightarrow>
     \<exists>out. correlate starts ends limit = Some out \<and> outcome_ok starts ends limit out"
begin

lemma contract:
  assumes "sorted_events starts" "sorted_events ends" "correlate starts ends limit = Some out"
  shows "outcome_ok starts ends limit out"
  using keeps_contract [OF assms(1,2), of limit] assms(3) by simp

lemma never_panics: "sorted_events starts \<Longrightarrow> sorted_events ends \<Longrightarrow> correlate starts ends limit \<noteq> None"
  using keeps_contract [of starts ends limit] by auto

lemma evidence_from_slices:
  assumes "sorted_events starts" "sorted_events ends" "correlate starts ends limit = Some out"
    and "p \<in> set (out_pairs out)"
  shows "pair_start p \<in> set starts" "pair_end p \<in> set ends"
  using contract [OF assms(1-3)] assms(4) mset_subset_set
  unfolding outcome_ok_def by fastforce+

lemma distinct_evidence:
  assumes "sorted_events starts" "sorted_events ends" "correlate starts ends limit = Some out"
  shows "distinct starts \<Longrightarrow> distinct (map pair_start (out_pairs out))"
    and "distinct ends \<Longrightarrow> distinct (map pair_end (out_pairs out))"
  using contract [OF assms] mset_subset_distinct unfolding outcome_ok_def by blast+

lemma score_unit_interval:
  assumes "sorted_events starts" "sorted_events ends" "correlate starts ends limit = Some out"
    and "out_pairs out \<noteq> []"
    and "d = length (out_pairs out) + out_unmatched_start out + out_unmatched_end out + out_ambiguous out"
  shows "\<exists>r. ratio (length (out_pairs out)) d = F64_Fin r \<and> 0 < r \<and> r \<le> 1"
  using assms(4,5) ratio_unit_interval [of "length (out_pairs out)" d] by fastforce

end

locale forward_policy = pairing_policy +
  assumes forward:
    "sorted_events starts \<Longrightarrow> sorted_events ends \<Longrightarrow> correlate starts ends limit = Some out \<Longrightarrow>
     p \<in> set (out_pairs out) \<Longrightarrow> forward_pair p"
begin

lemma latency_no_underflow:
  assumes "sorted_events starts" "sorted_events ends" "correlate starts ends limit = Some out"
    and "p \<in> set (out_pairs out)"
  shows "unat (pair_latency_ns p) + unat (ts (pair_start p)) = unat (ts (pair_end p))"
proof -
  have "ts (pair_start p) \<le> ts (pair_end p)"
    using forward [OF assms] by (simp add: forward_pair_def)
  moreover have "pair_latency_ns p = abs_diff (ts (pair_end p)) (ts (pair_start p))"
    using contract [OF assms(1-3)] assms(4) by (simp add: outcome_ok_def)
  ultimately show ?thesis
    by (simp add: abs_diff_def unat_sub word_le_nat_alt)
qed

end

section \<open>Shared lemmas\<close>

lemma mk_pair_simps [simp]:
  "pair_start (mk_pair s e l) = s" "pair_end (mk_pair s e l) = e" "pair_latency_ns (mk_pair s e l) = l"
  by (simp_all add: mk_pair_def)

lemma outcome_empty_simps [simp]:
  "out_pairs outcome_empty = []" "out_unmatched_start outcome_empty = 0"
  "out_unmatched_end outcome_empty = 0" "out_ambiguous outcome_empty = 0"
  by (simp_all add: outcome_empty_def)

lemma mset_sort_pairs [simp]: "mset (sort_pairs ps) = mset ps"
  by (simp add: sort_pairs_def)

lemma set_sort_pairs [simp]: "set (sort_pairs ps) = set ps"
  by (simp add: sort_pairs_def)

lemma length_sort_pairs [simp]: "length (sort_pairs ps) = length ps"
  by (simp add: sort_pairs_def)

lemma sorted_sort_pairs: "sorted_events (map pair_start (sort_pairs ps))"
  using sorted_sort_key [of "\<lambda>p. ts (pair_start p)" ps]
  by (simp add: sort_pairs_def sorted_events_def comp_def)

lemma truncate_pairs_eq: "truncate_pairs limit ps = (case limit of None \<Rightarrow> ps | Some l \<Rightarrow> take l ps)"
  by (simp add: truncate_pairs_def)

lemma mset_take_subset: "mset (take n xs) \<subseteq># mset xs"
  by (metis append_take_drop_id mset_append mset_subset_eq_add_left)

lemma truncate_pairs_subset [simp]: "mset (truncate_pairs limit ps) \<subseteq># mset ps"
  by (simp add: truncate_pairs_def mset_take_subset split: option.split)

lemma set_truncate_pairs: "set (truncate_pairs limit ps) \<subseteq> set ps"
  by (auto simp: truncate_pairs_def split: option.splits dest: in_set_takeD)

lemma length_truncate_pairs: "length (truncate_pairs limit ps) \<le> length ps"
  by (simp add: truncate_pairs_def split: option.split)

lemma truncate_pairs_limit: "length (truncate_pairs (Some l) ps) \<le> l"
  by (simp add: truncate_pairs_def)

lemma truncate_pairs_None [simp]: "truncate_pairs None ps = ps"
  by (simp add: truncate_pairs_def)

lemma sorted_truncate_pairs:
  "sorted_events (map pair_start ps) \<Longrightarrow> sorted_events (map pair_start (truncate_pairs limit ps))"
  by (auto simp: truncate_pairs_def sorted_events_def comp_def take_map [symmetric] sorted_wrt_take
      split: option.split)

text \<open>An outcome whose pairs are sorted and truncated at the end keeps the contract when the collected
  pairs do.\<close>

lemma outcome_ok_truncated:
  assumes "\<forall>p\<in>set ps. pair_latency_ns p = abs_diff (ts (pair_end p)) (ts (pair_start p))"
    and "mset (map pair_start ps) \<subseteq># mset starts" "mset (map pair_end ps) \<subseteq># mset ends"
    and "length ps + out_unmatched_start out + out_unmatched_end out + out_ambiguous out
           \<le> length starts + length ends"
    and "out_pairs out = truncate_pairs limit (sort_pairs ps)"
  shows "outcome_ok starts ends limit out"
proof -
  have sub: "mset (out_pairs out) \<subseteq># mset ps"
    using truncate_pairs_subset [of limit "sort_pairs ps"] by (simp add: assms(5))
  have "mset (map pair_start (out_pairs out)) \<subseteq># mset starts"
    using subset_mset.order_trans [OF image_mset_subseteq_mono [OF sub]] assms(2) by simp
  moreover have "mset (map pair_end (out_pairs out)) \<subseteq># mset ends"
    using subset_mset.order_trans [OF image_mset_subseteq_mono [OF sub]] assms(3) by simp
  moreover have "length (out_pairs out) \<le> length ps"
    using length_truncate_pairs [of limit "sort_pairs ps"] by (simp add: assms(5))
  moreover have "set (out_pairs out) \<subseteq> set ps"
    using set_truncate_pairs [of limit "sort_pairs ps"] by (simp add: assms(5))
  moreover have "sorted_events (map pair_start (out_pairs out))"
    by (simp add: assms(5) sorted_truncate_pairs sorted_sort_pairs)
  moreover have "\<forall>l. limit = Some l \<longrightarrow> length (out_pairs out) \<le> l"
    by (simp add: assms(5) truncate_pairs_limit)
  ultimately show ?thesis
    using assms(1,4) unfolding outcome_ok_def by auto
qed

text \<open>Buckets: the events pushed under a key, in order.\<close>

definition bucket_of :: "('k, 'e list) btree \<Rightarrow> 'k \<Rightarrow> 'e list" where
  "bucket_of m k = (case bt_get m k of None \<Rightarrow> [] | Some b \<Rightarrow> b)"

definition buckets_nonempty :: "('k, 'e list) btree \<Rightarrow> bool" where
  "buckets_nonempty m \<longleftrightarrow> (\<forall>k b. bt_get m k = Some b \<longrightarrow> b \<noteq> [])"

lemma buckets_nonempty_Nil [simp]: "buckets_nonempty []"
  by (simp add: buckets_nonempty_def bt_get_def)

lemma bucket_Nil [simp]: "bucket_of [] k = []"
  by (simp add: bucket_of_def bt_get_def)

lemma bucket_push [simp]:
  "bt_inv m \<Longrightarrow> bucket_of (bt_push k e m) k' = (if k' = k then bucket_of m k @ [e] else bucket_of m k')"
  by (auto simp: bucket_of_def push_bucket_def split: option.split)

lemma buckets_nonempty_push: "bt_inv m \<Longrightarrow> buckets_nonempty m \<Longrightarrow> buckets_nonempty (bt_push k e m)"
  by (auto simp: buckets_nonempty_def push_bucket_def split: option.splits)

lemma group_events_spec:
  assumes "group_events key es m n = (m', n')" and "bt_inv m" "buckets_nonempty m"
  shows "bt_inv m' \<and> buckets_nonempty m' \<and> n' = n + length (filter (\<lambda>e. key e = None) es) \<and>
    (\<forall>k. bucket_of m' k = bucket_of m k @ filter (\<lambda>e. key e = Some k) es) \<and>
    mset (concat (map snd m')) = mset (concat (map snd m)) + mset (filter (\<lambda>e. key e \<noteq> None) es)"
  using assms
proof (induction es arbitrary: m n)
  case Nil
  then show ?case by simp
next
  case (Cons e es)
  show ?case
  proof (cases "key e")
    case None
    then show ?thesis using Cons.IH [of m "n + 1"] Cons.prems by simp
  next
    case (Some k)
    then show ?thesis
      using Cons.IH [of "bt_push k e m" n] Cons.prems
      by (simp add: buckets_nonempty_push mset_buckets_push)
  qed
qed

lemma bt_get_bucket:
  "buckets_nonempty m \<Longrightarrow> bt_get m k = (if bucket_of m k = [] then None else Some (bucket_of m k))"
  by (auto simp: bucket_of_def buckets_nonempty_def split: option.splits)

lemma bucket_remove [simp]:
  "bt_inv m \<Longrightarrow> bucket_of (bt_remove k m) k' = (if k' = k then [] else bucket_of m k')"
  by (simp add: bucket_of_def)

lemma buckets_nonempty_remove: "bt_inv m \<Longrightarrow> buckets_nonempty m \<Longrightarrow> buckets_nonempty (bt_remove k m)"
  by (simp add: buckets_nonempty_def)

lemma bucket_total_remove:
  assumes "bt_inv m"
  shows "bucket_total m = length (bucket_of m k) + bucket_total (bt_remove k m)"
proof (cases "bt_get m k")
  case None
  then have "bt_remove k m = m" by (rule bt_remove_absent)
  then show ?thesis using None by (simp add: bucket_of_def)
next
  case (Some b)
  from mset_buckets_remove [OF assms Some] have
    "size (mset (concat (map snd m))) = length b + size (mset (concat (map snd (bt_remove k m))))"
    by simp
  then show ?thesis using Some by (simp add: bucket_total_eq bucket_of_def)
qed

lemma mset_buckets_split:
  "bt_inv m \<Longrightarrow> mset (concat (map snd m)) = mset (bucket_of m k) + mset (concat (map snd (bt_remove k m)))"
  using mset_buckets_remove [of m k]
  by (cases "bt_get m k") (auto simp: bucket_of_def bt_remove_absent)

lemma mset_concat_image: "mset (concat xss) = \<Sum>\<^sub># (image_mset mset (mset xss))"
  by (induction xss) simp_all

lemma buckets_insert:
  assumes "bt_inv m"
  shows "mset (concat (map snd (bt_insert k v m))) = mset v + mset (concat (map snd (bt_remove k m)))"
  using values_insert [OF assms, of k v] by (simp add: mset_concat_image flip: mset_map)

lemma bucket_of_insert [simp]:
  "bt_inv m \<Longrightarrow> bucket_of (bt_insert k v m) k' = (if k' = k then v else bucket_of m k')"
  by (simp add: bucket_of_def)

text \<open>What the groups contribute, read back through the key of the start.\<close>

lemma filter_groups:
  assumes "distinct (map fst gs)" and "\<forall>(k', g)\<in>set gs. \<forall>p\<in>set (f k' g). key p = Some k'"
  shows "filter (\<lambda>p. key p = Some k) (concat (map (\<lambda>(k', g). f k' g) gs)) =
    (case map_of gs k of None \<Rightarrow> [] | Some g \<Rightarrow> f k g)"
  using assms
proof (induction gs)
  case (Cons kg gs)
  obtain k' g where kg: "kg = (k', g)" by force
  show ?case
  proof (cases "k' = k")
    case True
    have "map_of gs k = None" using Cons.prems(1) True by (simp add: kg map_of_eq_None_iff)
    moreover have "filter (\<lambda>p. key p = Some k) (f k g) = f k g"
      using Cons.prems(2) True by (auto simp: kg filter_id_conv)
    ultimately show ?thesis using Cons True by (simp add: kg)
  next
    case False
    have "filter (\<lambda>p. key p = Some k) (f k' g) = []"
      using Cons.prems(2) False by (auto simp: kg filter_empty_conv)
    then show ?thesis using Cons False by (simp add: kg)
  qed
qed simp

text \<open>The groups built from a slice: the bucket of a key holds the events with that key, in order.\<close>

lemma group_events_empty:
  assumes "group_events key es [] 0 = (m, n)"
  shows "bt_inv m" "buckets_nonempty m" "n = length (filter (\<lambda>e. key e = None) es)"
    "bucket_of m k = filter (\<lambda>e. key e = Some k) es" "bucket_total m + n = length es"
    "mset (concat (map snd m)) = mset (filter (\<lambda>e. key e \<noteq> None) es)"
proof -
  have inv: "bt_inv []" by (rule bt.invar_empty)
  note spec = group_events_spec [OF assms inv buckets_nonempty_Nil]
  then show "bt_inv m" "buckets_nonempty m" "n = length (filter (\<lambda>e. key e = None) es)"
    "bucket_of m k = filter (\<lambda>e. key e = Some k) es"
    "mset (concat (map snd m)) = mset (filter (\<lambda>e. key e \<noteq> None) es)"
    by simp_all
  then have "bucket_total m = length (filter (\<lambda>e. key e \<noteq> None) es)"
    using spec by (metis bucket_total_eq size_mset)
  then show "bucket_total m + n = length es"
    using spec sum_length_filter_compl [of "\<lambda>e. key e = None" es] by simp
qed

lemma bt_inv_distinct: "bt_inv m \<Longrightarrow> distinct (map fst m)"
  by (rule bt.items_distinct)

lemma bt_entries_bucket: "bt_inv m \<Longrightarrow> (k, g) \<in> set m \<Longrightarrow> bucket_of m k = g"
  by (simp add: bucket_of_def bt_get_def bt_inv_distinct)

lemma bucket_total_entries: "bucket_total m = sum_list (map (\<lambda>(k, g). length g) m)"
  by (simp add: bucket_total_def split_def)

text \<open>Both grouped policies run a matcher of two slices on the buckets with the same key.\<close>

definition pair_groups :: "(event list \<Rightarrow> event list \<Rightarrow> pair_t list) \<Rightarrow>
    ('k, event list) btree \<Rightarrow> ('k, event list) btree \<Rightarrow> pair_t list" where
  "pair_groups f sg eg = concat (map (\<lambda>(k, g). f g (bucket_of eg k)) sg)"

lemma pair_groups_simps [simp]:
  "pair_groups f [] eg = []"
  "pair_groups f ((k, g) # sg) eg = f g (bucket_of eg k) @ pair_groups f sg eg"
  by (simp_all add: pair_groups_def)

lemma pair_groups_remove:
  assumes "bt_inv eg" "k \<notin> fst ` set sg"
  shows "pair_groups f sg (bt_remove k eg) = pair_groups f sg eg"
proof -
  have "map (\<lambda>(k', g). f g (bucket_of (bt_remove k eg) k')) sg = map (\<lambda>(k', g). f g (bucket_of eg k')) sg"
    using assms by (intro map_cong) (auto simp: image_iff)
  then show ?thesis unfolding pair_groups_def by (rule arg_cong)
qed

lemma pair_groups_in:
  assumes "p \<in> set (pair_groups f sg eg)" "bt_inv sg"
  shows "\<exists>k. p \<in> set (f (bucket_of sg k) (bucket_of eg k))"
  using assms by (auto simp: pair_groups_def) (metis bt_entries_bucket)

locale slice_matcher =
  fixes f :: "event list \<Rightarrow> event list \<Rightarrow> pair_t list"
  assumes starts_once: "mset (map pair_start (f ss es)) \<subseteq># mset ss"
    and ends_once: "mset (map pair_end (f ss es)) \<subseteq># mset es"
begin

lemma groups_starts_once:
  "mset (map pair_start (pair_groups f sg eg)) \<subseteq># mset (concat (map snd sg))"
  using starts_once by (induction sg) (auto simp: subset_mset.add_mono)

lemma groups_ends_once:
  assumes "bt_inv eg" "distinct (map fst sg)"
  shows "mset (map pair_end (pair_groups f sg eg)) \<subseteq># mset (concat (map snd eg))"
  using assms
proof (induction sg arbitrary: eg)
  case (Cons kg sg)
  obtain k g where kg: "kg = (k, g)" by (cases kg)
  have "pair_groups f sg eg = pair_groups f sg (bt_remove k eg)"
    using Cons.prems pair_groups_remove [of eg k sg f] by (simp add: kg)
  moreover have "mset (map pair_end (pair_groups f sg (bt_remove k eg))) \<subseteq># mset (concat (map snd (bt_remove k eg)))"
    using Cons.IH [of "bt_remove k eg"] Cons.prems by simp
  moreover have "mset (concat (map snd eg)) = mset (bucket_of eg k) + mset (concat (map snd (bt_remove k eg)))"
    using mset_buckets_split [OF Cons.prems(1)] .
  ultimately show ?case
    using ends_once [of g "bucket_of eg k"]
    by (simp add: kg subset_mset.add_mono)
qed simp

lemma groups_key:
  assumes "bt_inv sg" "\<forall>k. bucket_of sg k = filter (\<lambda>e. key e = Some k) starts"
  shows "filter (\<lambda>p. key (pair_start p) = Some k) (pair_groups f sg eg) = f (bucket_of sg k) (bucket_of eg k)"
proof -
  have "\<forall>(k', g)\<in>set sg. \<forall>p\<in>set (f g (bucket_of eg k')). key (pair_start p) = Some k'"
  proof safe
    fix k' g p assume "(k', g) \<in> set sg" "p \<in> set (f g (bucket_of eg k'))"
    then have "g = filter (\<lambda>e. key e = Some k') starts" "pair_start p \<in> set g"
      using bt_entries_bucket [OF assms(1)] assms(2) mset_subset_set [OF starts_once] by auto
    then show "key (pair_start p) = Some k'" by simp
  qed
  moreover have "f [] (bucket_of eg k) = []"
    using starts_once [of "[]" "bucket_of eg k"] by simp
  ultimately show ?thesis
    using filter_groups [OF bt_inv_distinct [OF assms(1)], of "\<lambda>k g. f g (bucket_of eg k)" "\<lambda>p. key (pair_start p)"]
    by (simp add: pair_groups_def bucket_of_def bt_get_def split: option.split)
qed

end

text \<open>The groups of a slice by one key function.\<close>

abbreviation groups_by :: "(event \<Rightarrow> 'k::linorder option) \<Rightarrow> event list \<Rightarrow> ('k, event list) btree" where
  "groups_by key es \<equiv> fst (group_events key es [] 0)"

lemma groups_by_spec:
  "bt_inv (groups_by key es)" "bucket_of (groups_by key es) k = filter (\<lambda>e. key e = Some k) es"
  "mset (concat (map snd (groups_by key es))) \<subseteq># mset es" "distinct (map fst (groups_by key es))"
  using group_events_empty [OF prod.collapse [symmetric], of key es]
  by (simp_all add: multiset_filter_subset bt_inv_distinct)

text \<open>A stable sort keeps the order of the pairs with one key when their starts are in order.\<close>

lemma filter_sort_pairs: "filter P (sort_pairs ps) = sort_pairs (filter P ps)"
  by (simp add: sort_pairs_def filter_sort)

lemma sort_pairs_id: "sorted_events (map pair_start ps) \<Longrightarrow> sort_pairs ps = ps"
  by (simp add: sort_pairs_def sorted_events_def comp_def sort_key_id_if_sorted)

text \<open>A timeline is read in time order; its two boundaries give back the two slices.\<close>

definition boundary_events :: "bool \<Rightarrow> timeline \<Rightarrow> event list" where
  "boundary_events start xs = map (\<lambda>(_, _, e). e) (filter (\<lambda>(_, b, _). start = (b = 0)) xs)"

definition timed :: "timeline \<Rightarrow> bool" where
  "timed xs \<longleftrightarrow> (\<forall>(t, _, e)\<in>set xs. t = ts e) \<and> sorted (map fst xs)"

lemma boundary_events_simps [simp]:
  "boundary_events start [] = []"
  "boundary_events start ((t, b, e) # xs) =
     (if start = (b = 0) then e # boundary_events start xs else boundary_events start xs)"
  by (simp_all add: boundary_events_def)

lemma sort_key_timed:
  assumes "\<And>x. \<exists>y. f x = (fst x, y)"
  shows "timed (sort_key f (timeline starts ends))"
proof -
  have "sorted (map fst (sort_key f (timeline starts ends)))"
  proof -
    have "sorted_wrt (\<lambda>a b. f a \<le> f b) (sort_key f (timeline starts ends))"
      using sorted_sort_key [of f "timeline starts ends"] by (simp add: sorted_map)
    then have "sorted_wrt (\<lambda>a b. fst a \<le> fst b) (sort_key f (timeline starts ends))"
      by (rule sorted_wrt_mono_rel [rotated]) (metis assms less_eq_prod_def fst_conv order.refl less_imp_le)
    then show ?thesis by (simp add: sorted_map)
  qed
  then show ?thesis by (auto simp: timed_def timeline_def)
qed

lemma mset_boundary_events:
  "mset xs = mset (timeline starts ends) \<Longrightarrow>
   mset (boundary_events start xs) = (if start then mset starts else mset ends)"
proof -
  assume xs: "mset xs = mset (timeline starts ends)"
  have "mset (boundary_events start xs) = mset (boundary_events start (timeline starts ends))"
    by (simp add: boundary_events_def xs)
  also have "boundary_events start (timeline starts ends) = (if start then starts else ends)"
    by (auto simp: boundary_events_def timeline_def comp_def)
  finally show ?thesis by simp
qed

section \<open>Example events\<close>

definition example_event :: "u32 \<Rightarrow> u32 \<Rightarrow> u64 \<Rightarrow> event" where
  "example_event pid tid timestamp =
     \<lparr>ev_schema_version = schema_current, ev_session_id = ''s'', ev_event_id = ''e'', ev_sequence = 0,
      ev_source = ES_Ebpf, ev_event_type = ET_HostFunctionEntry, ev_pid = pid, ev_tid = tid, ev_cpu = None,
      ev_timestamp_raw = timestamp, ev_timestamp_ns = timestamp, ev_clock_domain = CD_HostMonotonic,
      ev_timestamp_error_ns = None, ev_process_start_time = None, ev_host = None, ev_cuda = None,
      ev_nvtx = None, ev_attributes = []\<rparr>"

definition example_activity :: "u32 \<Rightarrow> u64 \<Rightarrow> u32 \<Rightarrow> u64 \<Rightarrow> event" where
  "example_activity pid stream correlation timestamp =
     (example_event pid 0 timestamp)
       \<lparr>ev_source := ES_CuptiActivity, ev_event_type := ET_GpuKernelStart,
        ev_cuda := Some \<lparr>ce_device_id = Some 0, ce_context_id = Some 1, ce_stream_id = Some stream,
          ce_correlation_id = Some correlation, ce_runtime_correlation_id = None, ce_callback_domain = None,
          ce_callback_id = None, ce_kernel_name = None, ce_kernel_name_mangled = None, ce_start_ns = None,
          ce_end_ns = None, ce_grid = None, ce_block = None, ce_bytes = None, ce_memcpy_kind = None\<rparr>\<rparr>"

lemma example_event_simps [simp]:
  "ts (example_event pid tid t) = t" "ev_pid (example_event pid tid t) = pid"
  "ev_tid (example_event pid tid t) = tid" "ev_sequence (example_event pid tid t) = 0"
  "ev_process_start_time (example_event pid tid t) = None" "ev_cuda (example_event pid tid t) = None"
  "ev_nvtx (example_event pid tid t) = None"
  by (simp_all add: example_event_def)

lemma example_activity_simps [simp]:
  "ts (example_activity pid s c t) = t" "ev_pid (example_activity pid s c t) = pid"
  "ev_nvtx (example_activity pid s c t) = None" "ev_sequence (example_activity pid s c t) = 0"
  by (simp_all add: example_activity_def)

lemma example_keys [simp]:
  "stream_key (example_activity pid s c t) = Some (pid, 0, 1, s)"
  "correlation_key (example_activity pid s c t) = Some (CK_Cuda pid 1 c)"
  "thread_key (example_event pid tid t) = (pid, tid, None)"
  by (simp_all add: stream_key_def correlation_key_def thread_key_def example_activity_def)

end
