(* ===== verification/First_After.thy ===== *)
theory First_After
  imports Pairing "HOL-Library.Sublist"
begin

text \<open>
  First-after and stream-order correlation, the two greedy policies.
\<close>

section \<open>First-after correlation\<close>

text \<open>The \<open>while\<close> loop that skips the ends before a start; the list is the rest of \<open>ends\<close> from
  \<open>end_index\<close> on, with the number of ends skipped.\<close>

fun skip_ends :: "event \<Rightarrow> event list \<Rightarrow> nat \<Rightarrow> event list \<times> nat" where
  "skip_ends s [] skipped = ([], skipped)"
| "skip_ends s (e # es) skipped =
     (if ev_timestamp_ns e < ev_timestamp_ns s then skip_ends s es (skipped + 1) else (e # es, skipped))"

fun first_after_loop :: "nat \<Rightarrow> event list \<Rightarrow> event list \<Rightarrow> outcome \<Rightarrow> event list \<times> outcome" where
  "first_after_loop limit [] ends out = (ends, out)"
| "first_after_loop limit (s # ss) ends out =
     (if length (out_pairs out) = limit then (ends, out)
      else
        (case skip_ends s ends 0 of
           (e # es, skipped) \<Rightarrow>
             first_after_loop limit ss es
               (out\<lparr>out_unmatched_end := out_unmatched_end out + skipped,
                    out_pairs := out_pairs out @ [mk_pair s e (ev_timestamp_ns e - ev_timestamp_ns s)]\<rparr>)
         | ([], skipped) \<Rightarrow>
             ([], out\<lparr>out_unmatched_end := out_unmatched_end out + skipped,
                      out_unmatched_start := out_unmatched_start out + length (s # ss)\<rparr>)))"

definition correlate_first_after :: "event list \<Rightarrow> event list \<Rightarrow> nat option \<Rightarrow> outcome" where
  "correlate_first_after starts ends limit =
     (let lim = limit_or_max limit;
          (rest, out) = first_after_loop lim starts ends outcome_empty
      in if length (out_pairs out) < lim
         then out\<lparr>out_unmatched_end := out_unmatched_end out + length rest\<rparr>
         else out)"

section \<open>Stream-order correlation\<close>

fun stream_loop :: "event list \<Rightarrow> event list \<Rightarrow> outcome \<Rightarrow> event list \<times> outcome" where
  "stream_loop [] ends out = (ends, out)"
| "stream_loop (s # ss) ends out =
     (case skip_ends s ends 0 of
        (e # es, skipped) \<Rightarrow>
          stream_loop ss es
            (out\<lparr>out_unmatched_end := out_unmatched_end out + skipped,
                 out_pairs := out_pairs out @ [mk_pair s e (ev_timestamp_ns e - ev_timestamp_ns s)]\<rparr>)
      | ([], skipped) \<Rightarrow>
          stream_loop ss []
            (out\<lparr>out_unmatched_end := out_unmatched_end out + skipped,
                 out_unmatched_start := out_unmatched_start out + 1\<rparr>))"

fun stream_groups :: "(stream_key, event list) btree \<Rightarrow> (stream_key, event list) btree
    \<Rightarrow> outcome \<Rightarrow> (stream_key, event list) btree \<times> outcome" where
  "stream_groups [] end_groups out = (end_groups, out)"
| "stream_groups ((key, grp) # start_groups) end_groups out =
     (case bt_get end_groups key of
        None \<Rightarrow>
          stream_groups start_groups end_groups
            (out\<lparr>out_unmatched_start := out_unmatched_start out + length grp\<rparr>)
      | Some end_group \<Rightarrow>
          (case stream_loop grp end_group out of
             (rest, out') \<Rightarrow>
               stream_groups start_groups (bt_remove key end_groups)
                 (out'\<lparr>out_unmatched_end := out_unmatched_end out' + length rest\<rparr>)))"

definition correlate_stream_order :: "event list \<Rightarrow> event list \<Rightarrow> nat option \<Rightarrow> outcome" where
  "correlate_stream_order starts ends limit =
     (let (start_groups, unmatched_start) = group_events stream_key starts [] 0;
          (end_groups, unmatched_end) = group_events stream_key ends [] 0;
          (rest, out) = stream_groups start_groups end_groups
            (outcome_empty\<lparr>out_unmatched_start := unmatched_start, out_unmatched_end := unmatched_end\<rparr>)
      in out\<lparr>out_pairs := truncate_pairs limit (sort_pairs (out_pairs out)),
             out_unmatched_end := out_unmatched_end out + bucket_total rest\<rparr>)"

section \<open>The greedy matching\<close>

text \<open>The reference both loops compute: every start takes the first end not before it, and the ends
  before that one are given up.\<close>

fun greedy :: "event list \<Rightarrow> event list \<Rightarrow> pair_t list" where
  "greedy [] ends = []"
| "greedy (s # ss) ends =
     (case dropWhile (\<lambda>e. ts e < ts s) ends of
        [] \<Rightarrow> []
      | e # es \<Rightarrow> mk_pair s e (ts e - ts s) # greedy ss es)"

lemma skip_ends_eq:
  "skip_ends s es n = (dropWhile (\<lambda>e. ts e < ts s) es, n + length (takeWhile (\<lambda>e. ts e < ts s) es))"
  by (induction es arbitrary: n) auto

lemma length_takeWhile_dropWhile: "length (takeWhile P xs) + length (dropWhile P xs) = length xs"
  by (metis length_append takeWhile_dropWhile_id)

declare dropWhile_eq_Nil_conv [simp del]

lemma greedy_Nil [simp]: "greedy ss [] = []"
  by (cases ss) simp_all

lemma dropWhile_ConsD: "dropWhile P xs = y # ys \<Longrightarrow> \<not> P y \<and> (\<exists>zs. xs = zs @ y # ys)"
  by (metis hd_dropWhile list.distinct(1) list.sel(1) takeWhile_dropWhile_id)

lemma greedy_forward: "p \<in> set (greedy ss es) \<Longrightarrow>
    ts (pair_start p) \<le> ts (pair_end p) \<and> pair_latency_ns p = ts (pair_end p) - ts (pair_start p)"
proof (induction ss arbitrary: es)
  case (Cons s ss)
  show ?case
  proof (cases "dropWhile (\<lambda>e. ts e < ts s) es")
    case Nil
    then show ?thesis using Cons.prems by simp
  next
    case (Cons e es')
    have "ts s \<le> ts e" using dropWhile_ConsD [OF Cons] by (simp add: not_less)
    then show ?thesis using Cons.prems Cons.IH [of es'] Cons by auto
  qed
qed simp

lemma greedy_starts: "map pair_start (greedy ss es) = take (length (greedy ss es)) ss"
  by (induction ss arbitrary: es) (auto split: list.split)

lemma greedy_ends: "subseq (map pair_end (greedy ss es)) es"
proof (induction ss arbitrary: es)
  case (Cons s ss)
  show ?case
  proof (cases "dropWhile (\<lambda>e. ts e < ts s) es")
    case (Cons e es')
    then obtain zs where "es = zs @ e # es'" using dropWhile_ConsD by metis
    then show ?thesis using Cons.IH [of es'] Cons by (simp add: list_emb_append2)
  qed (simp only: greedy.simps list.case list.map list_emb_Nil)
qed simp

lemma greedy_length_starts: "length (greedy ss es) \<le> length ss"
  by (metis greedy_starts length_map length_take min.cobounded1)

lemma greedy_length_ends: "length (greedy ss es) \<le> length es"
  by (metis greedy_ends length_map list_emb_length)

text \<open>The first-after loop takes the greedy matching up to the limit; without the limit the counters
  are the starts and the ends the matching leaves.\<close>

lemma first_after_loop_pairs:
  assumes "length (out_pairs out) \<le> l"
  shows "out_pairs (snd (first_after_loop l ss es out)) =
           out_pairs out @ take (l - length (out_pairs out)) (greedy ss es)"
  using assms
proof (induction ss arbitrary: es out)
  case (Cons s ss)
  show ?case
  proof (cases "length (out_pairs out) = l")
    case False
    then have "l - length (out_pairs out) = Suc (l - Suc (length (out_pairs out)))"
      using Cons.prems by simp
    then show ?thesis
      using Cons False by (cases "dropWhile (\<lambda>e. ts e < ts s) es") (simp_all add: skip_ends_eq)
  qed simp
qed simp

lemma first_after_loop_counts:
  assumes "first_after_loop l ss es out = (rest, out')" and "length (out_pairs out) \<le> l"
  shows "length (out_pairs out') + out_unmatched_end out' + length rest =
           length (out_pairs out) + out_unmatched_end out + length es \<and>
         length (out_pairs out') + out_unmatched_start out' \<le>
           length (out_pairs out) + out_unmatched_start out + length ss \<and>
         (length (out_pairs out') < l \<longrightarrow>
           length (out_pairs out') + out_unmatched_start out' =
             length (out_pairs out) + out_unmatched_start out + length ss) \<and>
         out_ambiguous out' = out_ambiguous out"
  using assms
proof (induction ss arbitrary: es out)
  case (Cons s ss)
  have len: "length (takeWhile (\<lambda>e. ts e < ts s) es) + length (dropWhile (\<lambda>e. ts e < ts s) es) = length es"
    by (rule length_takeWhile_dropWhile)
  show ?case
  proof (cases "length (out_pairs out) = l")
    case True
    then show ?thesis using Cons.prems by auto
  next
    case room: False
    show ?thesis
    proof (cases "dropWhile (\<lambda>e. ts e < ts s) es")
      case Nil
      then show ?thesis using Cons.prems room len by (auto simp: skip_ends_eq)
    next
      case drop: (Cons e es')
      let ?out = "out\<lparr>out_unmatched_end := out_unmatched_end out + length (takeWhile (\<lambda>e. ts e < ts s) es),
        out_pairs := out_pairs out @ [mk_pair s e (ts e - ts s)]\<rparr>"
      have "first_after_loop l ss es' ?out = (rest, out')"
        using Cons.prems room drop by (simp add: skip_ends_eq)
      from Cons.IH [OF this] show ?thesis using Cons.prems(2) room len drop by simp
    qed
  qed
qed auto

text \<open>The stream loop computes the same matching, with the same counters as without a limit.\<close>

lemma stream_loop_eq:
  "stream_loop ss es out = (rest, out') \<Longrightarrow>
     out_pairs out' = out_pairs out @ greedy ss es \<and>
     length (greedy ss es) + out_unmatched_start out' = out_unmatched_start out + length ss \<and>
     length (greedy ss es) + out_unmatched_end out' + length rest = out_unmatched_end out + length es \<and>
     out_ambiguous out' = out_ambiguous out"
proof (induction ss arbitrary: es out)
  case (Cons s ss)
  have len: "length (takeWhile (\<lambda>e. ts e < ts s) es) + length (dropWhile (\<lambda>e. ts e < ts s) es) = length es"
    by (rule length_takeWhile_dropWhile)
  show ?case
  proof (cases "dropWhile (\<lambda>e. ts e < ts s) es")
    case Nil
    let ?out = "out\<lparr>out_unmatched_end := out_unmatched_end out + length (takeWhile (\<lambda>e. ts e < ts s) es),
      out_unmatched_start := out_unmatched_start out + 1\<rparr>"
    have "stream_loop ss [] ?out = (rest, out')" using Cons.prems Nil by (simp add: skip_ends_eq)
    from Cons.IH [OF this] show ?thesis using len Nil by simp
  next
    case drop: (Cons e es')
    let ?out = "out\<lparr>out_unmatched_end := out_unmatched_end out + length (takeWhile (\<lambda>e. ts e < ts s) es),
      out_pairs := out_pairs out @ [mk_pair s e (ts e - ts s)]\<rparr>"
    have "stream_loop ss es' ?out = (rest, out')" using Cons.prems drop by (simp add: skip_ends_eq)
    from Cons.IH [OF this] show ?thesis using len drop by simp
  qed
qed auto

text \<open>The matching is as large as any assignment of starts to later ends that uses no event twice.\<close>

definition matching :: "(event \<times> event) multiset \<Rightarrow> event multiset \<Rightarrow> event multiset \<Rightarrow> bool" where
  "matching M S E \<longleftrightarrow> image_mset fst M \<subseteq># S \<and> image_mset snd M \<subseteq># E \<and> (\<forall>(a, b)\<in>#M. ts a \<le> ts b)"

lemma subset_disjoint_part: "A \<subseteq># T + D \<Longrightarrow> \<forall>x\<in>#A. x \<notin># T \<Longrightarrow> A \<subseteq># D"
  by (metis count_eq_zero_iff count_union le_zero_eq linear mset_subset_eqI mset_subset_eq_count plus_nat.add_0)

lemma subset_notin: "A \<subseteq># add_mset x B \<Longrightarrow> x \<notin># A \<Longrightarrow> A \<subseteq># B"
  by (rule subset_disjoint_part [where T = "{#x#}"]) auto

lemma split_pair:
  "a \<in># image_mset fst M \<Longrightarrow> \<exists>b M1. M = add_mset (a, b) M1"
  "b \<in># image_mset snd M \<Longrightarrow> \<exists>a M1. M = add_mset (a, b) M1"
  by (auto, metis multi_member_split, metis multi_member_split)

lemma matching_exchange:
  assumes m: "matching M (add_mset s S) (add_mset e E)" and first: "\<forall>b\<in>#E. ts e \<le> ts b"
  obtains M' where "matching M' S E" "size M \<le> Suc (size M')"
proof (cases "s \<in># image_mset fst M")
  case False
  then have S: "image_mset fst M \<subseteq># S"
    by (metis m matching_def subset_notin)
  show thesis
  proof (cases "e \<in># image_mset snd M")
    case False
    then have "image_mset snd M \<subseteq># E" by (metis m matching_def subset_notin)
    then show thesis using that [of M] S m by (simp add: matching_def)
  next
    case True
    then obtain a M1 where M: "M = add_mset (a, e) M1" using split_pair(2) by metis
    then have "image_mset fst M1 \<subseteq># S" using S by (auto dest: mset_subset_eq_insertD)
    then show thesis using that [of M1] m by (simp add: matching_def M)
  qed
next
  case True
  then obtain b M1 where M: "M = add_mset (s, b) M1" using split_pair(1) by metis
  then have S: "image_mset fst M1 \<subseteq># S" using m by (simp add: matching_def)
  show thesis
  proof (cases "e \<in># image_mset snd M1")
    case False
    have "image_mset snd M1 \<subseteq># add_mset e E"
      using m by (auto simp: matching_def M dest: mset_subset_eq_insertD)
    then have "image_mset snd M1 \<subseteq># E" using False subset_notin by metis
    then show thesis using that [of M1] S m by (simp add: matching_def M)
  next
    case True
    then obtain a M2 where M1: "M1 = add_mset (a, e) M2" using split_pair(2) by metis
    then have E: "add_mset b (image_mset snd M2) \<subseteq># E"
      using m by (simp add: matching_def M add_mset_commute [of b])
    then have "ts e \<le> ts b" using first by (simp add: mset_subset_eqD)
    moreover have "ts a \<le> ts e" using m by (simp add: matching_def M M1)
    ultimately have "matching (add_mset (a, b) M2) S E"
      using E S m by (simp add: matching_def M M1)
    then show thesis using that [of "add_mset (a, b) M2"] by (simp add: M M1)
  qed
qed

lemma greedy_maximal:
  assumes "matching M (mset ss) (mset es)" and "sorted_events ss" "sorted_events es"
  shows "size M \<le> length (greedy ss es)"
  using assms
proof (induction ss arbitrary: es M)
  case Nil
  then show ?case by (simp add: matching_def)
next
  case (Cons s ss)
  let ?P = "\<lambda>e. ts e < ts s"
  have late: "\<not> ?P b" if b: "b \<in># image_mset snd M" for b
  proof -
    obtain a where ab: "(a, b) \<in># M" using split_pair(2) [OF b] by (metis union_single_eq_member)
    then have "a \<in># image_mset fst M" by force
    then have "a \<in> set (s # ss)"
      using Cons.prems(1) unfolding matching_def by (metis mset_subset_eqD set_mset_mset)
    then have "ts s \<le> ts a" using Cons.prems(2) by (auto simp: sorted_events_def)
    moreover have "ts a \<le> ts b" using ab Cons.prems(1) by (auto simp: matching_def)
    ultimately show ?thesis by simp
  qed
  have "image_mset snd M \<subseteq># mset (takeWhile ?P es) + mset (dropWhile ?P es)"
    using Cons.prems(1) by (metis matching_def mset_append takeWhile_dropWhile_id)
  moreover have "\<forall>x\<in>#image_mset snd M. x \<notin># mset (takeWhile ?P es)"
    using late by (metis set_mset_mset set_takeWhileD)
  ultimately have "image_mset snd M \<subseteq># mset (dropWhile ?P es)"
    by (rule subset_disjoint_part)
  then have m: "matching M (add_mset s (mset ss)) (mset (dropWhile ?P es))"
    using Cons.prems(1) by (simp add: matching_def)
  show ?case
  proof (cases "dropWhile ?P es")
    case Nil
    then show ?thesis using m by (simp add: matching_def)
  next
    case drop: (Cons e es')
    have sorted: "sorted_events (e # es')"
      using Cons.prems(3) dropWhile_ConsD [OF drop] by (auto simp: sorted_events_def sorted_append)
    then obtain M' where "matching M' (mset ss) (mset es')" "size M \<le> Suc (size M')"
      using matching_exchange [of M s "mset ss" e "mset es'"] m drop by (auto simp: sorted_events_def)
    moreover have "sorted_events ss" "sorted_events es'"
      using Cons.prems(2) sorted by (auto simp: sorted_events_def)
    ultimately show ?thesis using Cons.IH [of M' es'] drop by fastforce
  qed
qed

section \<open>The contract of the two policies\<close>

lemma first_after_pairs:
  "out_pairs (correlate_first_after starts ends limit) = take (limit_or_max limit) (greedy starts ends)"
  using first_after_loop_pairs [of outcome_empty "limit_or_max limit" starts ends]
  by (simp add: correlate_first_after_def Let_def split_def)

lemma first_after_counts:
  fixes starts ends limit
  defines "out \<equiv> correlate_first_after starts ends limit"
  shows "length (out_pairs out) + out_unmatched_start out \<le> length starts"
    and "length (out_pairs out) + out_unmatched_end out \<le> length ends"
    and "out_ambiguous out = 0"
    and "length (out_pairs out) < limit_or_max limit \<Longrightarrow>
         length (out_pairs out) + out_unmatched_start out = length starts \<and>
         length (out_pairs out) + out_unmatched_end out = length ends"
proof -
  obtain rest out' where loop: "first_after_loop (limit_or_max limit) starts ends outcome_empty = (rest, out')"
    by force
  note counts = first_after_loop_counts [OF loop]
  have out: "out = (if length (out_pairs out') < limit_or_max limit
      then out'\<lparr>out_unmatched_end := out_unmatched_end out' + length rest\<rparr> else out')"
    by (simp add: out_def correlate_first_after_def loop)
  show "length (out_pairs out) + out_unmatched_start out \<le> length starts"
    "length (out_pairs out) + out_unmatched_end out \<le> length ends"
    "out_ambiguous out = 0"
    "length (out_pairs out) < limit_or_max limit \<Longrightarrow>
       length (out_pairs out) + out_unmatched_start out = length starts \<and>
       length (out_pairs out) + out_unmatched_end out = length ends"
    using counts by (simp_all add: out split: if_splits)
qed

lemma abs_diff_forward: "b \<le> a \<Longrightarrow> abs_diff a b = a - b"
  by (simp add: abs_diff_def)

lemma subseq_mset: "subseq xs ys \<Longrightarrow> mset xs \<subseteq># mset ys"
  by (induction rule: list_emb.induct) (auto intro: subset_mset.order_trans)

lemma greedy_uses_once:
  "mset (map pair_start (greedy ss es)) \<subseteq># mset ss" "mset (map pair_end (greedy ss es)) \<subseteq># mset es"
  using greedy_starts [of ss es] mset_take_subset subseq_mset [OF greedy_ends] by metis+

lemma greedy_sorted: "sorted_events ss \<Longrightarrow> sorted_events (map pair_start (greedy ss es))"
  unfolding greedy_starts by (simp add: sorted_events_def take_map [symmetric] sorted_wrt_take)

lemma greedy_latency:
  "p \<in> set (greedy ss es) \<Longrightarrow> pair_latency_ns p = abs_diff (ts (pair_end p)) (ts (pair_start p))"
  using greedy_forward [of p ss es] by (simp add: abs_diff_forward)

lemma first_after_ok:
  assumes "sorted_events starts"
  shows "outcome_ok starts ends limit (correlate_first_after starts ends limit)"
proof -
  let ?out = "correlate_first_after starts ends limit"
  have sub: "mset (out_pairs ?out) \<subseteq># mset (greedy starts ends)"
    by (simp add: first_after_pairs mset_take_subset)
  have "mset (map pair_start (out_pairs ?out)) \<subseteq># mset starts"
    using image_mset_subseteq_mono [OF sub, of pair_start] greedy_uses_once(1) [of starts ends]
    by (simp add: subset_mset.order_trans)
  moreover have "mset (map pair_end (out_pairs ?out)) \<subseteq># mset ends"
    using image_mset_subseteq_mono [OF sub, of pair_end] greedy_uses_once(2) [of starts ends]
    by (simp add: subset_mset.order_trans)
  moreover have "sorted_events (map pair_start (out_pairs ?out))"
    using greedy_sorted [OF assms, of ends]
    by (simp add: first_after_pairs sorted_events_def comp_def take_map [symmetric] sorted_wrt_take)
  moreover have "\<forall>p\<in>set (out_pairs ?out). pair_latency_ns p = abs_diff (ts (pair_end p)) (ts (pair_start p))"
    by (auto simp: first_after_pairs dest: in_set_takeD intro: greedy_latency)
  moreover have "\<forall>l. limit = Some l \<longrightarrow> length (out_pairs ?out) \<le> l"
    by (simp add: first_after_pairs limit_or_max_def)
  ultimately show ?thesis
    unfolding outcome_ok_def using first_after_counts [of starts ends limit] by auto
qed

interpretation fa: forward_policy "\<lambda>starts ends limit. Some (correlate_first_after starts ends limit)"
proof
  show "\<exists>out. Some (correlate_first_after starts ends limit) = Some out \<and> outcome_ok starts ends limit out"
    if "sorted_events starts" for starts ends limit
    using first_after_ok [OF that] by simp
  show "forward_pair p"
    if "Some (correlate_first_after starts ends limit) = Some out" "p \<in> set (out_pairs out)"
    for starts ends limit out p
    using that greedy_forward by (auto simp: first_after_pairs forward_pair_def dest!: in_set_takeD)
qed

subsection \<open>Streams\<close>

interpretation gm: slice_matcher greedy
  by unfold_locales (rule greedy_uses_once)+

abbreviation group_pairs :: "('k, event list) btree \<Rightarrow> ('k, event list) btree \<Rightarrow> pair_t list" where
  "group_pairs \<equiv> pair_groups greedy"

lemma stream_groups_spec:
  assumes "stream_groups sg eg out = (rest, out')" "bt_inv eg" "buckets_nonempty eg" "distinct (map fst sg)"
  shows "out_pairs out' = out_pairs out @ group_pairs sg eg \<and>
    length (group_pairs sg eg) + out_unmatched_start out' = out_unmatched_start out + bucket_total sg \<and>
    length (group_pairs sg eg) + out_unmatched_end out' + bucket_total rest =
      out_unmatched_end out + bucket_total eg \<and>
    out_ambiguous out' = out_ambiguous out"
  using assms
proof (induction sg arbitrary: eg out)
  case Nil
  then show ?case by (simp add: bucket_total_def)
next
  case (Cons kg sg)
  obtain k g where kg: "kg = (k, g)" by (cases kg)
  have k: "k \<notin> fst ` set sg" and dist: "distinct (map fst sg)" using Cons.prems(4) by (auto simp: kg)
  show ?case
  proof (cases "bt_get eg k")
    case None
    let ?out = "out\<lparr>out_unmatched_start := out_unmatched_start out + length g\<rparr>"
    have "stream_groups sg eg ?out = (rest, out')" using Cons.prems(1) None by (simp add: kg)
    from Cons.IH [OF this Cons.prems(2,3) dist] show ?thesis
      using None by (simp add: kg bucket_of_def bucket_total_def)
  next
    case (Some e)
    obtain left out1 where loop: "stream_loop g e out = (left, out1)" by force
    let ?out = "out1\<lparr>out_unmatched_end := out_unmatched_end out1 + length left\<rparr>"
    have "stream_groups sg (bt_remove k eg) ?out = (rest, out')"
      using Cons.prems(1) Some loop by (simp add: kg)
    from Cons.IH [OF this bt.invar_remove [OF Cons.prems(2)] buckets_nonempty_remove [OF Cons.prems(2,3)] dist]
    show ?thesis
      using stream_loop_eq [OF loop] Some bucket_total_remove [OF Cons.prems(2), of k]
        pair_groups_remove [OF Cons.prems(2) k]
      by (simp add: kg bucket_of_def bucket_total_def)
  qed
qed

abbreviation streams :: "event list \<Rightarrow> (stream_key, event list) btree" where
  "streams \<equiv> groups_by stream_key"

lemma stream_order_spec:
  fixes starts ends limit
  defines "out \<equiv> correlate_stream_order starts ends limit" and "ps \<equiv> group_pairs (streams starts) (streams ends)"
  shows "out_pairs out = truncate_pairs limit (sort_pairs ps)"
    "length ps + out_unmatched_start out = length starts"
    "length ps + out_unmatched_end out = length ends" "out_ambiguous out = 0"
proof -
  obtain sg us where sg: "group_events stream_key starts [] 0 = (sg, us)" by force
  obtain eg ue where eg: "group_events stream_key ends [] 0 = (eg, ue)" by force
  let ?out = "outcome_empty\<lparr>out_unmatched_start := us, out_unmatched_end := ue\<rparr>"
  obtain rest out1 where groups: "stream_groups sg eg ?out = (rest, out1)" by force
  note s = group_events_empty [OF sg] and e = group_events_empty [OF eg]
  note spec = stream_groups_spec [OF groups e(1,2) bt_inv_distinct [OF s(1)]]
  have eq: "out = out1\<lparr>out_pairs := truncate_pairs limit (sort_pairs (out_pairs out1)),
      out_unmatched_end := out_unmatched_end out1 + bucket_total rest\<rparr>"
    by (simp add: out_def correlate_stream_order_def sg eg groups)
  have ps: "ps = group_pairs sg eg" by (simp add: ps_def sg eg)
  show "out_pairs out = truncate_pairs limit (sort_pairs ps)"
    "length ps + out_unmatched_start out = length starts"
    "length ps + out_unmatched_end out = length ends" "out_ambiguous out = 0"
    using spec s(5) e(5) by (simp_all add: eq ps)
qed

lemma stream_order_ok: "outcome_ok starts ends limit (correlate_stream_order starts ends limit)"
proof -
  let ?out = "correlate_stream_order starts ends limit"
  let ?ps = "group_pairs (streams starts) (streams ends)"
  show ?thesis
  proof (rule outcome_ok_truncated [OF _ _ _ _ stream_order_spec(1)])
    show "\<forall>p\<in>set ?ps. pair_latency_ns p = abs_diff (ts (pair_end p)) (ts (pair_start p))"
      using pair_groups_in [OF _ groups_by_spec(1)] greedy_latency by metis
    show "mset (map pair_start ?ps) \<subseteq># mset starts"
      by (rule subset_mset.order_trans [OF gm.groups_starts_once groups_by_spec(3)])
    show "mset (map pair_end ?ps) \<subseteq># mset ends"
      by (rule subset_mset.order_trans [OF gm.groups_ends_once [OF groups_by_spec(1,4)] groups_by_spec(3)])
    show "length ?ps + out_unmatched_start ?out + out_unmatched_end ?out + out_ambiguous ?out
        \<le> length starts + length ends"
      using stream_order_spec(2-4) [of starts ends limit] by linarith
  qed
qed

interpretation so: forward_policy "\<lambda>starts ends limit. Some (correlate_stream_order starts ends limit)"
proof
  show "\<exists>out. Some (correlate_stream_order starts ends limit) = Some out \<and> outcome_ok starts ends limit out"
    for starts ends limit
    using stream_order_ok by simp
  show "forward_pair p"
    if out: "Some (correlate_stream_order starts ends limit) = Some out" "p \<in> set (out_pairs out)"
    for starts ends limit out p
  proof -
    have "p \<in> set (group_pairs (streams starts) (streams ends))"
      using out stream_order_spec(1) [of starts ends limit]
        set_truncate_pairs [of limit "sort_pairs (group_pairs (streams starts) (streams ends))"] by auto
    then show ?thesis
      using pair_groups_in [OF _ groups_by_spec(1)] greedy_forward unfolding forward_pair_def by blast
  qed
qed

section \<open>Properties\<close>

text \<open>C2: first-after correlation finds as many pairs as any assignment of starts to ends that are not
  earlier, each event used at most once, up to the sample limit; so the greedy skip of ends never
  loses a sample.\<close>

theorem first_after_maximal:
  assumes "sorted_events starts" "sorted_events ends" and "matching M (mset starts) (mset ends)"
  shows "min (limit_or_max limit) (size M) \<le> length (out_pairs (correlate_first_after starts ends limit))"
  using greedy_maximal [OF assms(3,1,2)] by (simp add: first_after_pairs min_def)

theorem first_after_maximal_witness:
  "let s = [example_event 1 1 10, example_event 1 1 30];
       e = [example_event 1 1 5, example_event 1 1 20, example_event 1 1 40]
   in 2 \<le> length (out_pairs (correlate_first_after s e None))"
  using first_after_maximal [of "[example_event 1 1 10, example_event 1 1 30]"
      "[example_event 1 1 5, example_event 1 1 20, example_event 1 1 40]"
      "{#(example_event 1 1 10, example_event 1 1 20), (example_event 1 1 30, example_event 1 1 40)#}" None]
  by (simp add: Let_def sorted_events_def matching_def limit_or_max_def usize_max_def)

text \<open>While first-after correlation stays below its sample limit, every start is either matched or
  counted as unmatched, every end is either matched or counted as unmatched, nothing is ambiguous,
  and the matched starts are a prefix of the starts.\<close>

theorem first_after_accounting:
  fixes starts ends limit
  defines "out \<equiv> correlate_first_after starts ends limit"
  assumes "length (out_pairs out) < limit_or_max limit"
  shows "length (out_pairs out) + out_unmatched_start out = length starts \<and>
         length (out_pairs out) + out_unmatched_end out = length ends \<and>
         out_ambiguous out = 0 \<and>
         map pair_start (out_pairs out) = take (length (out_pairs out)) starts"
  using first_after_counts [of starts ends limit] assms(2) greedy_starts [of starts ends]
  by (auto simp: out_def first_after_pairs take_map [symmetric])

theorem first_after_accounting_witness:
  "let out = correlate_first_after [example_event 1 1 10, example_event 1 1 30] [example_event 1 1 5, example_event 1 1 20] (Some 4)
   in length (out_pairs out) + out_unmatched_start out = 2 \<and> length (out_pairs out) + out_unmatched_end out = 2"
  using first_after_accounting [of "[example_event 1 1 10, example_event 1 1 30]"
      "[example_event 1 1 5, example_event 1 1 20]" "Some 4"]
  by (simp add: Let_def first_after_pairs limit_or_max_def)

text \<open>C7: stream-order correlation treats every CUDA stream on its own: without a sample limit, the
  reported pairs of one stream are what first-after correlation reports for the events of that stream
  alone, so activity on other streams never changes them.\<close>

theorem stream_order_isolated:
  assumes "sorted_events starts" "length starts \<le> usize_max"
  shows "filter (\<lambda>p. stream_key (pair_start p) = Some k) (out_pairs (correlate_stream_order starts ends None)) =
    out_pairs (correlate_first_after (filter (\<lambda>e. stream_key e = Some k) starts)
                 (filter (\<lambda>e. stream_key e = Some k) ends) None)"
proof -
  let ?s = "filter (\<lambda>e. stream_key e = Some k) starts" and ?e = "filter (\<lambda>e. stream_key e = Some k) ends"
  have s: "sorted_events ?s" using assms(1) by (simp add: sorted_events_def sorted_filter)
  have "length (greedy ?s ?e) \<le> usize_max"
    using assms(2) greedy_length_starts [of ?s ?e] length_filter_le [of "\<lambda>e. stream_key e = Some k" starts]
    by linarith
  moreover have "filter (\<lambda>p. stream_key (pair_start p) = Some k) (out_pairs (correlate_stream_order starts ends None)) = greedy ?s ?e"
    using gm.groups_key [of "streams starts" stream_key starts k "streams ends"]
      sort_pairs_id [OF greedy_sorted [OF s, of ?e]]
    by (simp add: stream_order_spec(1) filter_sort_pairs groups_by_spec)
  ultimately show ?thesis by (simp add: first_after_pairs limit_or_max_def)
qed

theorem stream_order_isolated_witness:
  "let s = [example_activity 1 7 1 10, example_activity 1 8 2 11]; e = [example_activity 1 8 3 15, example_activity 1 7 4 20]
   in filter (\<lambda>p. stream_key (pair_start p) = Some (1, 0, 1, 7)) (out_pairs (correlate_stream_order s e None))
        = [mk_pair (example_activity 1 7 1 10) (example_activity 1 7 4 20) 10]"
  using stream_order_isolated [of "[example_activity 1 7 1 10, example_activity 1 8 2 11]" "(1, 0, 1, 7)"
      "[example_activity 1 8 3 15, example_activity 1 7 4 20]"]
  by (simp add: Let_def sorted_events_def first_after_pairs limit_or_max_def usize_max_def)

end
