(* ===== verification/Exact_Match.thy ===== *)
theory Exact_Match
  imports Pairing
begin

text \<open>
  Exact correlation: by correlation key, by thread lifecycle, by NVTX range.
\<close>

section \<open>Thread and NVTX lifecycles\<close>

definition lifecycle_timeline :: "event list \<Rightarrow> event list \<Rightarrow> timeline" where
  "lifecycle_timeline starts ends =
     sort_key (\<lambda>(timestamp, boundary, e). (timestamp, boundary, ev_sequence e)) (timeline starts ends)"

record 'k lifecycle =
  lc_pending :: "('k, event) btree"
  lc_pairs :: "pair_t list"
  lc_unmatched_start :: nat
  lc_unmatched_end :: nat
  lc_ambiguous :: nat

definition lifecycle_empty :: "'k lifecycle" where
  "lifecycle_empty =
     \<lparr>lc_pending = [], lc_pairs = [], lc_unmatched_start = 0, lc_unmatched_end = 0, lc_ambiguous = 0\<rparr>"

text \<open>One iteration of the timeline loop. The thread lifecycle has a key for every event; the NVTX
  lifecycle counts an event without a key as unmatched.\<close>

definition lifecycle_step ::
  "(event \<Rightarrow> 'k::linorder option) \<Rightarrow> u64 \<times> u8 \<times> event \<Rightarrow> 'k lifecycle \<Rightarrow> 'k lifecycle" where
  "lifecycle_step key_of entry st =
     (case entry of (_, boundary, e) \<Rightarrow>
      (case key_of e of
         None \<Rightarrow>
           (if boundary = 0 then st\<lparr>lc_unmatched_start := lc_unmatched_start st + 1\<rparr>
            else st\<lparr>lc_unmatched_end := lc_unmatched_end st + 1\<rparr>)
       | Some key \<Rightarrow>
           (if boundary = 0 then
              st\<lparr>lc_pending := bt_insert key e (lc_pending st),
                 lc_ambiguous := lc_ambiguous st +
                   (if bt_get (lc_pending st) key \<noteq> None then 1 else 0)\<rparr>
            else
              (case bt_get (lc_pending st) key of
                 Some start \<Rightarrow>
                   (case checked_sub (ev_timestamp_ns e) (ev_timestamp_ns start) of
                      Some latency \<Rightarrow>
                        st\<lparr>lc_pending := bt_remove key (lc_pending st),
                           lc_pairs := lc_pairs st @ [mk_pair start e latency]\<rparr>
                    | None \<Rightarrow>
                        st\<lparr>lc_pending := bt_remove key (lc_pending st),
                           lc_ambiguous := lc_ambiguous st + 1\<rparr>)
               | None \<Rightarrow> st\<lparr>lc_unmatched_end := lc_unmatched_end st + 1\<rparr>))))"

definition correlate_lifecycle ::
  "(event \<Rightarrow> 'k::linorder option) \<Rightarrow> event list \<Rightarrow> event list \<Rightarrow> nat option \<Rightarrow> outcome" where
  "correlate_lifecycle key_of starts ends limit =
     (let st = fold (lifecycle_step key_of) (lifecycle_timeline starts ends) lifecycle_empty
      in \<lparr>out_pairs = truncate_pairs limit (sort_pairs (lc_pairs st)),
          out_unmatched_start = lc_unmatched_start st + length (lc_pending st),
          out_unmatched_end = lc_unmatched_end st,
          out_ambiguous = lc_ambiguous st\<rparr>)"

definition correlate_thread_lifecycle :: "event list \<Rightarrow> event list \<Rightarrow> nat option \<Rightarrow> outcome" where
  "correlate_thread_lifecycle = correlate_lifecycle (\<lambda>e. Some (thread_key e))"

definition correlate_nvtx_lifecycle :: "event list \<Rightarrow> event list \<Rightarrow> nat option \<Rightarrow> outcome" where
  "correlate_nvtx_lifecycle = correlate_lifecycle correlation_key"

section \<open>Exact correlation\<close>

text \<open>\<open>group.iter().zip(end_group)\<close>.\<close>

fun exact_zip :: "event list \<Rightarrow> event list \<Rightarrow> outcome \<Rightarrow> outcome" where
  "exact_zip (s # ss) (e # es) out =
     (case checked_sub (ev_timestamp_ns e) (ev_timestamp_ns s) of
        Some latency \<Rightarrow> exact_zip ss es (out\<lparr>out_pairs := out_pairs out @ [mk_pair s e latency]\<rparr>)
      | None \<Rightarrow>
          exact_zip ss es
            (out\<lparr>out_unmatched_start := out_unmatched_start out + 1,
                 out_unmatched_end := out_unmatched_end out + 1\<rparr>))"
| "exact_zip _ _ out = out"

fun exact_groups :: "(correlation_key, event list) btree \<Rightarrow> (correlation_key, event list) btree
    \<Rightarrow> outcome \<Rightarrow> (correlation_key, event list) btree \<times> outcome" where
  "exact_groups [] end_groups out = (end_groups, out)"
| "exact_groups ((key, grp) # start_groups) end_groups out =
     (case bt_get end_groups key of
        None \<Rightarrow>
          exact_groups start_groups end_groups
            (out\<lparr>out_unmatched_start := out_unmatched_start out + length grp\<rparr>)
      | Some end_group \<Rightarrow>
          (if length grp \<noteq> length end_group then
             exact_groups start_groups (bt_remove key end_groups)
               (out\<lparr>out_ambiguous := out_ambiguous out + max (length grp) (length end_group)\<rparr>)
           else
             exact_groups start_groups (bt_remove key end_groups) (exact_zip grp end_group out)))"

definition correlate_exact :: "event list \<Rightarrow> event list \<Rightarrow> nat option \<Rightarrow> outcome" where
  "correlate_exact starts ends limit =
     (let (start_groups, unmatched_start) = group_events correlation_key starts [] 0;
          (end_groups, unmatched_end) = group_events correlation_key ends [] 0;
          (rest, out) = exact_groups start_groups end_groups
            (outcome_empty\<lparr>out_unmatched_start := unmatched_start, out_unmatched_end := unmatched_end\<rparr>)
      in out\<lparr>out_pairs := truncate_pairs limit (sort_pairs (out_pairs out)),
             out_unmatched_end := out_unmatched_end out + bucket_total rest\<rparr>)"

section \<open>Exact groups\<close>

definition zip_pairs :: "event list \<Rightarrow> event list \<Rightarrow> pair_t list" where
  "zip_pairs ss es =
     map (\<lambda>(s, e). mk_pair s e (ts e - ts s)) (filter (\<lambda>(s, e). ts s \<le> ts e) (zip ss es))"

definition zip_rejects :: "event list \<Rightarrow> event list \<Rightarrow> nat" where
  "zip_rejects ss es = length (filter (\<lambda>(s, e). ts e < ts s) (zip ss es))"

definition key_pairs :: "event list \<Rightarrow> event list \<Rightarrow> pair_t list" where
  "key_pairs ss es = (if length ss = length es then zip_pairs ss es else [])"

lemma exact_zip_eq:
  "exact_zip ss es out =
     out\<lparr>out_pairs := out_pairs out @ zip_pairs ss es,
         out_unmatched_start := out_unmatched_start out + zip_rejects ss es,
         out_unmatched_end := out_unmatched_end out + zip_rejects ss es\<rparr>"
  by (induction ss es out rule: exact_zip.induct)
    (auto simp: zip_pairs_def zip_rejects_def checked_sub_def split: list.split)

lemma zip_pairs_count: "length (zip_pairs ss es) + zip_rejects ss es = min (length ss) (length es)"
proof -
  have "filter (\<lambda>(s, e). ts e < ts s) (zip ss es) = filter (\<lambda>p. \<not> (case p of (s, e) \<Rightarrow> ts s \<le> ts e)) (zip ss es)"
    by (rule filter_cong) auto
  then show ?thesis
    using sum_length_filter_compl [of "\<lambda>(s, e). ts s \<le> ts e" "zip ss es"]
    by (simp add: zip_pairs_def zip_rejects_def)
qed

lemma zip_pairs_forward:
  "p \<in> set (zip_pairs ss es) \<Longrightarrow>
     ts (pair_start p) \<le> ts (pair_end p) \<and> pair_latency_ns p = ts (pair_end p) - ts (pair_start p)"
  by (auto simp: zip_pairs_def)

lemma zip_pairs_subset:
  "mset (map pair_start (zip_pairs ss es)) \<subseteq># mset ss" "mset (map pair_end (zip_pairs ss es)) \<subseteq># mset es"
proof -
  have "mset (filter (\<lambda>(s, e). ts s \<le> ts e) (zip ss es)) \<subseteq># mset (zip ss es)"
    by (simp add: multiset_filter_subset)
  then have "image_mset fst (mset (filter (\<lambda>(s, e). ts s \<le> ts e) (zip ss es))) \<subseteq># image_mset fst (mset (zip ss es))"
    "image_mset snd (mset (filter (\<lambda>(s, e). ts s \<le> ts e) (zip ss es))) \<subseteq># image_mset snd (mset (zip ss es))"
    by (rule image_mset_subseteq_mono)+
  moreover have "image_mset fst (mset (zip ss es)) \<subseteq># mset ss" "image_mset snd (mset (zip ss es)) \<subseteq># mset es"
    by (simp_all flip: mset_map add: map_fst_zip_take map_snd_zip_take mset_take_subset)
  ultimately show "mset (map pair_start (zip_pairs ss es)) \<subseteq># mset ss"
    "mset (map pair_end (zip_pairs ss es)) \<subseteq># mset es"
    by (auto simp: zip_pairs_def comp_def split_def intro: subset_mset.order_trans)
qed

lemma zip_pairs_sorted: "sorted_events ss \<Longrightarrow> sorted_events (map pair_start (zip_pairs ss es))"
proof (induction ss arbitrary: es)
  case (Cons s ss)
  show ?case
  proof (cases es)
    case (Cons e es')
    have "ts s \<le> ts (pair_start p)" if "p \<in> set (zip_pairs ss es')" for p
      using Cons.prems that by (auto simp: zip_pairs_def sorted_events_def dest!: set_zip_leftD)
    then show ?thesis
      using Cons.IH [of es'] Cons.prems Cons by (auto simp: zip_pairs_def sorted_events_def)
  qed (simp add: zip_pairs_def sorted_events_def)
qed (simp add: zip_pairs_def sorted_events_def)

interpretation em: slice_matcher key_pairs
  by unfold_locales (simp_all add: key_pairs_def zip_pairs_subset [unfolded mset_map])

abbreviation exact_pairs :: "('k, event list) btree \<Rightarrow> ('k, event list) btree \<Rightarrow> pair_t list" where
  "exact_pairs \<equiv> pair_groups key_pairs"

lemma exact_groups_spec:
  assumes "exact_groups sg eg out = (rest, out')" "bt_inv eg" "buckets_nonempty eg" "distinct (map fst sg)"
    and "\<forall>(k, g)\<in>set sg. g \<noteq> []"
  shows "out_pairs out' = out_pairs out @ exact_pairs sg eg \<and>
    length (exact_pairs sg eg) + out_unmatched_start out' + out_unmatched_end out' + out_ambiguous out' +
      bucket_total rest \<le>
    out_unmatched_start out + out_unmatched_end out + out_ambiguous out + bucket_total sg + bucket_total eg"
  using assms
proof (induction sg arbitrary: eg out)
  case Nil
  then show ?case by (simp add: bucket_total_def)
next
  case (Cons kg sg)
  obtain k g where kg: "kg = (k, g)" by (cases kg)
  have k: "k \<notin> fst ` set sg" and dist: "distinct (map fst sg)" and g: "g \<noteq> []"
    and rest: "\<forall>(k, g)\<in>set sg. g \<noteq> []"
    using Cons.prems(4,5) by (auto simp: kg)
  show ?case
  proof (cases "bt_get eg k")
    case None
    let ?out = "out\<lparr>out_unmatched_start := out_unmatched_start out + length g\<rparr>"
    have "exact_groups sg eg ?out = (rest, out')" using Cons.prems(1) None by (simp add: kg)
    from Cons.IH [OF this Cons.prems(2,3) dist rest] show ?thesis
      using None g by (simp add: kg key_pairs_def bucket_of_def bucket_total_def)
  next
    case (Some e)
    let ?out = "if length g \<noteq> length e
      then out\<lparr>out_ambiguous := out_ambiguous out + max (length g) (length e)\<rparr> else exact_zip g e out"
    have "exact_groups sg (bt_remove k eg) ?out = (rest, out')"
      using Cons.prems(1) Some by (simp add: kg split: if_splits)
    from Cons.IH [OF this bt.invar_remove [OF Cons.prems(2)] buckets_nonempty_remove [OF Cons.prems(2,3)] dist rest]
    show ?thesis
      using Some bucket_total_remove [OF Cons.prems(2), of k] pair_groups_remove [OF Cons.prems(2) k]
        zip_pairs_count [of g e]
      by (auto simp: kg key_pairs_def bucket_of_def bucket_total_def exact_zip_eq max_def
          split: if_splits)
  qed
qed

abbreviation keyed :: "event list \<Rightarrow> (correlation_key, event list) btree" where
  "keyed \<equiv> groups_by correlation_key"

lemma exact_spec:
  fixes starts ends limit
  defines "out \<equiv> correlate_exact starts ends limit" and "ps \<equiv> exact_pairs (keyed starts) (keyed ends)"
  shows "out_pairs out = truncate_pairs limit (sort_pairs ps)"
    "length ps + out_unmatched_start out + out_unmatched_end out + out_ambiguous out
       \<le> length starts + length ends"
proof -
  obtain sg us where sg: "group_events correlation_key starts [] 0 = (sg, us)" by force
  obtain eg ue where eg: "group_events correlation_key ends [] 0 = (eg, ue)" by force
  let ?out = "outcome_empty\<lparr>out_unmatched_start := us, out_unmatched_end := ue\<rparr>"
  obtain rest out1 where groups: "exact_groups sg eg ?out = (rest, out1)" by force
  note s = group_events_empty [OF sg] and e = group_events_empty [OF eg]
  have "\<forall>(k, g)\<in>set sg. g \<noteq> []"
    using s(2) bt_inv_distinct [OF s(1)] by (auto simp: buckets_nonempty_def bt_get_def)
  note spec = exact_groups_spec [OF groups e(1,2) bt_inv_distinct [OF s(1)] this]
  have eq: "out = out1\<lparr>out_pairs := truncate_pairs limit (sort_pairs (out_pairs out1)),
      out_unmatched_end := out_unmatched_end out1 + bucket_total rest\<rparr>"
    by (simp add: out_def correlate_exact_def sg eg groups)
  have ps: "ps = exact_pairs sg eg" by (simp add: ps_def sg eg)
  show "out_pairs out = truncate_pairs limit (sort_pairs ps)"
    "length ps + out_unmatched_start out + out_unmatched_end out + out_ambiguous out
       \<le> length starts + length ends"
    using spec s(5) e(5) by (simp_all add: eq ps)
qed

lemma exact_pair_in:
  assumes "p \<in> set (exact_pairs (keyed starts) (keyed ends))"
  obtains k where "p \<in> set (zip_pairs (filter (\<lambda>e. correlation_key e = Some k) starts)
      (filter (\<lambda>e. correlation_key e = Some k) ends))"
  using pair_groups_in [OF assms groups_by_spec(1)] by (auto simp: groups_by_spec key_pairs_def split: if_splits)

lemma exact_ok: "outcome_ok starts ends limit (correlate_exact starts ends limit)"
proof (rule outcome_ok_truncated [OF _ _ _ _ exact_spec(1)])
  let ?ps = "exact_pairs (keyed starts) (keyed ends)"
  show "\<forall>p\<in>set ?ps. pair_latency_ns p = abs_diff (ts (pair_end p)) (ts (pair_start p))"
    by (metis exact_pair_in zip_pairs_forward abs_diff_def)
  show "mset (map pair_start ?ps) \<subseteq># mset starts"
    by (rule subset_mset.order_trans [OF em.groups_starts_once groups_by_spec(3)])
  show "mset (map pair_end ?ps) \<subseteq># mset ends"
    by (rule subset_mset.order_trans [OF em.groups_ends_once [OF groups_by_spec(1,4)] groups_by_spec(3)])
qed (rule exact_spec(2))

interpretation ex: forward_policy "\<lambda>starts ends limit. Some (correlate_exact starts ends limit)"
proof
  show "\<exists>out. Some (correlate_exact starts ends limit) = Some out \<and> outcome_ok starts ends limit out"
    for starts ends limit
    using exact_ok by simp
  show "forward_pair p"
    if out: "Some (correlate_exact starts ends limit) = Some out" "p \<in> set (out_pairs out)"
    for starts ends limit out p
  proof -
    have "p \<in> set (exact_pairs (keyed starts) (keyed ends))"
      using out exact_spec(1) [of starts ends limit]
        set_truncate_pairs [of limit "sort_pairs (exact_pairs (keyed starts) (keyed ends))"] by auto
    then show ?thesis using exact_pair_in zip_pairs_forward unfolding forward_pair_def by metis
  qed
qed

section \<open>Lifecycles\<close>

text \<open>What the loop keeps: the events it has read are in a pair, pending, or counted. The timeline is
  read in time order, so an end is never earlier than the start it meets.\<close>

definition pending_before :: "('k, event) btree \<Rightarrow> timeline \<Rightarrow> bool" where
  "pending_before m xs \<longleftrightarrow> (\<forall>k s. bt_get m k = Some s \<longrightarrow> (\<forall>x\<in>set xs. ts s \<le> fst x))"

definition starts_used :: "'k lifecycle \<Rightarrow> event multiset" where
  "starts_used st = mset (map pair_start (lc_pairs st)) + mset (map snd (lc_pending st))"

definition start_count :: "'k lifecycle \<Rightarrow> nat" where
  "start_count st = length (lc_pairs st) + lc_unmatched_start st + length (lc_pending st) + lc_ambiguous st"

lemma length_values: "mset (map snd m) = add_mset v (mset (map snd m')) \<Longrightarrow> length m = Suc (length m')"
  by (metis length_map size_add_mset size_mset)

lemma lifecycle_step_start:
  assumes "bt_inv (lc_pending st)" "b = 0"
  shows "let st' = lifecycle_step key (t, b, e) st in
    bt_inv (lc_pending st') \<and> start_count st' = Suc (start_count st) \<and>
    starts_used st' \<subseteq># add_mset e (starts_used st) \<and>
    lc_pairs st' = lc_pairs st \<and> lc_unmatched_end st' = lc_unmatched_end st \<and>
    (\<forall>k s. bt_get (lc_pending st') k = Some s \<longrightarrow> s = e \<or> bt_get (lc_pending st) k = Some s)"
proof (cases "key e")
  case None
  then show ?thesis
    using assms by (simp add: lifecycle_step_def starts_used_def start_count_def Let_def)
next
  case (Some k)
  note ins = values_insert [OF assms(1), of k e]
  show ?thesis
  proof (cases "bt_get (lc_pending st) k")
    case None
    then show ?thesis
      using assms Some ins length_values [OF ins] bt_remove_absent [OF None]
      by (simp add: lifecycle_step_def starts_used_def start_count_def Let_def)
  next
    case old: (Some s)
    note rem = values_remove [OF assms(1) old]
    show ?thesis
      using assms Some old ins length_values [OF ins] rem length_values [OF rem]
      by (simp add: lifecycle_step_def starts_used_def start_count_def Let_def)
  qed
qed

lemma lifecycle_step_end:
  assumes "bt_inv (lc_pending st)" "b \<noteq> 0" "\<forall>k s. bt_get (lc_pending st) k = Some s \<longrightarrow> ts s \<le> ts e"
  shows "let st' = lifecycle_step key (t, b, e) st in
    bt_inv (lc_pending st') \<and> start_count st' = start_count st \<and> starts_used st' = starts_used st \<and>
    length (lc_pairs st') + lc_unmatched_end st' = Suc (length (lc_pairs st) + lc_unmatched_end st) \<and>
    mset (map pair_end (lc_pairs st')) \<subseteq># add_mset e (mset (map pair_end (lc_pairs st))) \<and>
    (\<forall>k s. bt_get (lc_pending st') k = Some s \<longrightarrow> bt_get (lc_pending st) k = Some s) \<and>
    (\<forall>p\<in>set (lc_pairs st'). p \<in> set (lc_pairs st) \<or>
       ts (pair_start p) \<le> ts (pair_end p) \<and> pair_latency_ns p = ts (pair_end p) - ts (pair_start p))"
proof (cases "Option.bind (key e) (bt_get (lc_pending st))")
  case None
  then show ?thesis
    using assms
    by (auto simp: lifecycle_step_def starts_used_def start_count_def Let_def split: option.splits)
next
  case (Some s)
  then obtain k where k: "key e = Some k" and s: "bt_get (lc_pending st) k = Some s"
    by (auto simp: bind_eq_Some_conv)
  note rem = values_remove [OF assms(1) s]
  have le: "ts s \<le> ts e" using assms(3) s by simp
  then have step: "lifecycle_step key (t, b, e) st =
      st\<lparr>lc_pending := bt_remove k (lc_pending st), lc_pairs := lc_pairs st @ [mk_pair s e (ts e - ts s)]\<rparr>"
    using assms(2) k s by (simp add: lifecycle_step_def checked_sub_def)
  show ?thesis
    using assms(1) le rem length_values [OF rem]
    by (simp add: step starts_used_def start_count_def Let_def)
qed

lemma lifecycle_fold:
  assumes "bt_inv (lc_pending st)" "timed xs" "pending_before (lc_pending st) xs"
  shows "let st' = fold (lifecycle_step key) xs st in
    start_count st' = start_count st + length (boundary_events True xs) \<and>
    length (lc_pairs st') + lc_unmatched_end st' =
      length (lc_pairs st) + lc_unmatched_end st + length (boundary_events False xs) \<and>
    starts_used st' \<subseteq># starts_used st + mset (boundary_events True xs) \<and>
    mset (map pair_end (lc_pairs st')) \<subseteq># mset (map pair_end (lc_pairs st)) + mset (boundary_events False xs) \<and>
    (\<forall>p\<in>set (lc_pairs st'). p \<in> set (lc_pairs st) \<or>
       ts (pair_start p) \<le> ts (pair_end p) \<and> pair_latency_ns p = ts (pair_end p) - ts (pair_start p))"
  using assms
proof (induction xs arbitrary: st)
  case Nil
  then show ?case by simp
next
  case (Cons x xs)
  obtain t b e where x: "x = (t, b, e)" by (cases x)
  let ?st = "lifecycle_step key x st"
  have t: "t = ts e" and late: "\<forall>y\<in>set xs. ts e \<le> fst y" and timed: "timed xs"
    using Cons.prems(2) by (auto simp: timed_def x)
  have before: "\<forall>k s. bt_get (lc_pending st) k = Some s \<longrightarrow> ts s \<le> ts e \<and> (\<forall>y\<in>set xs. ts s \<le> fst y)"
    using Cons.prems(3) by (auto simp: pending_before_def x t)
  show ?case
  proof (cases "b = 0")
    case True
    note step = lifecycle_step_start [OF Cons.prems(1) True, of key t e, folded x, unfolded Let_def]
    then have "pending_before (lc_pending ?st) xs" using before late unfolding pending_before_def by metis
    from Cons.IH [OF _ timed this] step show ?thesis
      using True by (auto simp: Let_def x intro: subset_mset.order_trans)
  next
    case False
    have "\<forall>k s. bt_get (lc_pending st) k = Some s \<longrightarrow> ts s \<le> ts e" using before by blast
    note step = lifecycle_step_end [OF Cons.prems(1) False this, of key t, folded x, unfolded Let_def]
    then have "pending_before (lc_pending ?st) xs" using before unfolding pending_before_def by metis
    from Cons.IH [OF _ timed this] step show ?thesis
      using False by (auto simp: Let_def x intro: subset_mset.order_trans)
  qed
qed

lemma lifecycle_timeline_timed: "timed (lifecycle_timeline starts ends)"
  unfolding lifecycle_timeline_def by (rule sort_key_timed) (simp add: split_def)

lemma mset_lifecycle_timeline: "mset (lifecycle_timeline starts ends) = mset (timeline starts ends)"
  by (simp add: lifecycle_timeline_def)

text \<open>The state after the whole timeline.\<close>

definition lifecycle_final :: "(event \<Rightarrow> 'k::linorder option) \<Rightarrow> event list \<Rightarrow> event list \<Rightarrow> 'k lifecycle" where
  "lifecycle_final key starts ends = fold (lifecycle_step key) (lifecycle_timeline starts ends) lifecycle_empty"

lemma correlate_lifecycle_eq:
  "correlate_lifecycle key starts ends limit =
     \<lparr>out_pairs = truncate_pairs limit (sort_pairs (lc_pairs (lifecycle_final key starts ends))),
      out_unmatched_start = lc_unmatched_start (lifecycle_final key starts ends) +
        length (lc_pending (lifecycle_final key starts ends)),
      out_unmatched_end = lc_unmatched_end (lifecycle_final key starts ends),
      out_ambiguous = lc_ambiguous (lifecycle_final key starts ends)\<rparr>"
  by (simp add: correlate_lifecycle_def lifecycle_final_def Let_def)

lemma lifecycle_final_spec:
  fixes starts ends and key :: "event \<Rightarrow> 'k::linorder option"
  defines "st \<equiv> lifecycle_final key starts ends"
  shows "length (lc_pairs st) + lc_unmatched_start st + length (lc_pending st) + lc_ambiguous st = length starts"
    "length (lc_pairs st) + lc_unmatched_end st = length ends"
    "mset (map pair_start (lc_pairs st)) \<subseteq># mset starts" "mset (map pair_end (lc_pairs st)) \<subseteq># mset ends"
    "p \<in> set (lc_pairs st) \<Longrightarrow>
       ts (pair_start p) \<le> ts (pair_end p) \<and> pair_latency_ns p = ts (pair_end p) - ts (pair_start p)"
proof -
  let ?xs = "lifecycle_timeline starts ends"
  have b: "mset (boundary_events True ?xs) = mset starts" "mset (boundary_events False ?xs) = mset ends"
    by (simp_all add: mset_boundary_events [OF mset_lifecycle_timeline])
  then have len: "length (boundary_events True ?xs) = length starts" "length (boundary_events False ?xs) = length ends"
    by (metis size_mset)+
  have "bt_inv (lc_pending lifecycle_empty)" "pending_before (lc_pending (lifecycle_empty :: 'k lifecycle)) ?xs"
    by (simp_all add: lifecycle_empty_def pending_before_def)
  note spec = lifecycle_fold [OF this(1) lifecycle_timeline_timed this(2), of key,
      folded lifecycle_final_def, folded st_def, unfolded Let_def b len]
  show "length (lc_pairs st) + lc_unmatched_start st + length (lc_pending st) + lc_ambiguous st = length starts"
    "length (lc_pairs st) + lc_unmatched_end st = length ends"
    "mset (map pair_end (lc_pairs st)) \<subseteq># mset ends"
    using spec by (simp_all add: start_count_def lifecycle_empty_def)
  show "mset (map pair_start (lc_pairs st)) \<subseteq># mset starts"
  proof -
    have "starts_used (lifecycle_empty :: 'k lifecycle) = {#}"
      by (simp add: starts_used_def lifecycle_empty_def)
    then have "starts_used st \<subseteq># mset starts" using spec by simp
    then show ?thesis by (metis mset_subset_eq_add_left starts_used_def subset_mset.order_trans)
  qed
  show "p \<in> set (lc_pairs st) \<Longrightarrow>
       ts (pair_start p) \<le> ts (pair_end p) \<and> pair_latency_ns p = ts (pair_end p) - ts (pair_start p)"
    using spec by (auto simp: lifecycle_empty_def)
qed

lemma lifecycle_ok: "outcome_ok starts ends limit (correlate_lifecycle key starts ends limit)"
proof (rule outcome_ok_truncated [where ps = "lc_pairs (lifecycle_final key starts ends)"])
  show "\<forall>p\<in>set (lc_pairs (lifecycle_final key starts ends)).
      pair_latency_ns p = abs_diff (ts (pair_end p)) (ts (pair_start p))"
    using lifecycle_final_spec(5) by (auto simp: abs_diff_def)
qed (use lifecycle_final_spec(1-4) [of key starts ends] in \<open>simp_all add: correlate_lifecycle_eq\<close>)

interpretation lc: forward_policy "\<lambda>starts ends limit. Some (correlate_lifecycle key starts ends limit)"
  for key :: "event \<Rightarrow> 'k::linorder option"
proof
  show "\<exists>out. Some (correlate_lifecycle key starts ends limit) = Some out \<and> outcome_ok starts ends limit out"
    for starts ends limit
    using lifecycle_ok by simp
  show "forward_pair p"
    if out: "Some (correlate_lifecycle key starts ends limit) = Some out" "p \<in> set (out_pairs out)"
    for starts ends limit out p
    using that lifecycle_final_spec(5) set_truncate_pairs
    by (fastforce simp: correlate_lifecycle_eq forward_pair_def)
qed

interpretation tlc: forward_policy "\<lambda>starts ends limit. Some (correlate_thread_lifecycle starts ends limit)"
  unfolding correlate_thread_lifecycle_def by (rule lc.forward_policy_axioms)

interpretation nlc: forward_policy "\<lambda>starts ends limit. Some (correlate_nvtx_lifecycle starts ends limit)"
  unfolding correlate_nvtx_lifecycle_def by (rule lc.forward_policy_axioms)

text \<open>One key at a time: an end takes the last start of its key that no end has taken, and events
  of other keys do not matter.\<close>

fun last_start_pairs :: "timeline \<Rightarrow> event option \<Rightarrow> pair_t list" where
  "last_start_pairs [] pending = []"
| "last_start_pairs ((t, b, e) # xs) pending =
     (if b = 0 then last_start_pairs xs (Some e)
      else
        (case pending of
           None \<Rightarrow> last_start_pairs xs None
         | Some s \<Rightarrow>
             (if ts s \<le> ts e then mk_pair s e (ts e - ts s) # last_start_pairs xs None
              else last_start_pairs xs None)))"

definition keyed_pending :: "(event \<Rightarrow> 'k option) \<Rightarrow> ('k, event) btree \<Rightarrow> bool" where
  "keyed_pending key m \<longleftrightarrow> (\<forall>k s. bt_get m k = Some s \<longrightarrow> key s = Some k)"

lemma lifecycle_step_keeps:
  assumes "bt_inv (lc_pending st)" "keyed_pending key (lc_pending st)"
  shows "bt_inv (lc_pending (lifecycle_step key x st)) \<and> keyed_pending key (lc_pending (lifecycle_step key x st))"
  using assms
  by (cases x) (auto simp: lifecycle_step_def keyed_pending_def split: option.splits if_splits)

lemma lifecycle_step_key:
  assumes "bt_inv (lc_pending st)" "keyed_pending key (lc_pending st)"
  shows "filter (\<lambda>p. key (pair_start p) = Some k) (lc_pairs (lifecycle_step key (t, b, e) st)) @
      last_start_pairs xs (bt_get (lc_pending (lifecycle_step key (t, b, e) st)) k) =
    filter (\<lambda>p. key (pair_start p) = Some k) (lc_pairs st) @
      last_start_pairs (if key e = Some k then (t, b, e) # xs else xs) (bt_get (lc_pending st) k)"
proof (cases "key e")
  case None
  then show ?thesis by (simp add: lifecycle_step_def)
next
  case (Some k')
  show ?thesis
  proof (cases "bt_get (lc_pending st) k'")
    case None
    then show ?thesis
      using assms(1) Some by (cases "k' = k") (simp_all add: lifecycle_step_def)
  next
    case pend: (Some s)
    then have "key s = Some k'" using assms(2) by (simp add: keyed_pending_def)
    then show ?thesis
      using assms(1) Some pend by (cases "k' = k") (simp_all add: lifecycle_step_def checked_sub_def)
  qed
qed

lemma lifecycle_fold_key:
  assumes "bt_inv (lc_pending st)" "keyed_pending key (lc_pending st)"
  shows "filter (\<lambda>p. key (pair_start p) = Some k) (lc_pairs (fold (lifecycle_step key) xs st)) =
    filter (\<lambda>p. key (pair_start p) = Some k) (lc_pairs st) @
      last_start_pairs (filter (\<lambda>(_, _, e). key e = Some k) xs) (bt_get (lc_pending st) k)"
  using assms
proof (induction xs arbitrary: st)
  case (Cons x xs)
  obtain t b e where x: "x = (t, b, e)" by (cases x)
  show ?case
    using Cons.IH [OF conjunct1 conjunct2, OF lifecycle_step_keeps lifecycle_step_keeps, OF Cons.prems Cons.prems, of x]
      lifecycle_step_key [OF Cons.prems, of k t b e "filter (\<lambda>(_, _, e). key e = Some k) xs"]
    by (simp add: x)
qed simp

text \<open>The pairs of one key are those of the events with that key.\<close>

lemma lifecycle_isolated:
  "filter (\<lambda>p. key (pair_start p) = Some k) (out_pairs (correlate_lifecycle key starts ends None)) =
   out_pairs (correlate_lifecycle key (filter (\<lambda>e. key e = Some k) starts) (filter (\<lambda>e. key e = Some k) ends) None)"
proof -
  let ?P = "\<lambda>p. key (pair_start p) = Some k"
  let ?s = "filter (\<lambda>e. key e = Some k) starts" and ?e = "filter (\<lambda>e. key e = Some k) ends"
  have empty: "bt_inv (lc_pending lifecycle_empty)" "keyed_pending key (lc_pending lifecycle_empty)"
    by (simp_all add: lifecycle_empty_def keyed_pending_def)
  have "filter (\<lambda>(_, _, e). key e = Some k) (lifecycle_timeline starts ends) = lifecycle_timeline ?s ?e"
    by (simp add: lifecycle_timeline_def filter_sort timeline_def filter_map comp_def)
  then have run: "filter ?P (lc_pairs (lifecycle_final key starts ends)) =
      filter ?P (lc_pairs (lifecycle_final key ?s ?e))"
    using lifecycle_fold_key [OF empty, of k "lifecycle_timeline starts ends"]
      lifecycle_fold_key [OF empty, of k "lifecycle_timeline ?s ?e"]
    by (metis (no_types, lifting) filter_filter filter_cong lifecycle_final_def)
  have "\<forall>p\<in>set (lc_pairs (lifecycle_final key ?s ?e)). ?P p"
    using mset_subset_set [OF lifecycle_final_spec(3) [of key ?s ?e]] by simp
  then have "filter ?P (lc_pairs (lifecycle_final key ?s ?e)) = lc_pairs (lifecycle_final key ?s ?e)"
    by (simp add: filter_id_conv)
  then show ?thesis using run by (simp add: correlate_lifecycle_eq filter_sort_pairs)
qed

section \<open>Properties\<close>

text \<open>C6: exact correlation never guesses: without a sample limit, the reported pairs of a correlation
  key are the pairwise combination, in time order, of the starts and the ends with exactly that key
  when there are as many ends as starts and the end is not earlier, and there are none when the
  numbers differ.\<close>

theorem exact_key_pairs:
  assumes "sorted_events starts"
  shows "filter (\<lambda>p. correlation_key (pair_start p) = Some k) (out_pairs (correlate_exact starts ends None)) =
    (let ss = filter (\<lambda>e. correlation_key e = Some k) starts;
         es = filter (\<lambda>e. correlation_key e = Some k) ends
     in if length ss = length es
        then map (\<lambda>(s, e). mk_pair s e (ts e - ts s)) (filter (\<lambda>(s, e). ts s \<le> ts e) (zip ss es))
        else [])"
proof -
  let ?s = "filter (\<lambda>e. correlation_key e = Some k) starts" and ?e = "filter (\<lambda>e. correlation_key e = Some k) ends"
  have "sorted_events ?s" using assms by (simp add: sorted_events_def sorted_filter)
  then have "sorted_events (map pair_start (key_pairs ?s ?e))"
    using zip_pairs_sorted by (simp add: key_pairs_def) (simp add: sorted_events_def)
  then show ?thesis
    using em.groups_key [of "keyed starts" correlation_key starts k "keyed ends"]
    by (simp add: exact_spec(1) filter_sort_pairs groups_by_spec sort_pairs_id)
      (simp add: key_pairs_def zip_pairs_def Let_def)
qed

theorem exact_key_pairs_witness:
  "filter (\<lambda>p. correlation_key (pair_start p) = Some (CK_Cuda 1 1 5))
     (out_pairs (correlate_exact [example_activity 1 7 5 10, example_activity 1 7 6 20]
        [example_activity 1 7 6 30, example_activity 1 7 5 40] None)) =
   [mk_pair (example_activity 1 7 5 10) (example_activity 1 7 5 40) 30]"
  using exact_key_pairs [of "[example_activity 1 7 5 10, example_activity 1 7 6 20]" "CK_Cuda 1 1 5"
      "[example_activity 1 7 6 30, example_activity 1 7 5 40]"]
  by (simp add: sorted_events_def)

text \<open>C8: the thread lifecycle never pairs across threads: without a sample limit, the pairs reported
  for one thread (process, thread, process start time) are those of that thread's events alone.\<close>

theorem thread_lifecycle_isolated:
  "filter (\<lambda>p. thread_key (pair_start p) = k) (out_pairs (correlate_thread_lifecycle starts ends None)) =
   out_pairs (correlate_thread_lifecycle (filter (\<lambda>e. thread_key e = k) starts)
                (filter (\<lambda>e. thread_key e = k) ends) None)"
  using lifecycle_isolated [of "\<lambda>e. Some (thread_key e)" k starts ends]
  by (simp add: correlate_thread_lifecycle_def)

text \<open>Both lifecycle policies account for every event: without a sample limit, every start is
  matched, pending at the end, without a key, or replaced by a later start and counted as ambiguous,
  and every end is matched or unmatched.\<close>

theorem lifecycle_accounting:
  "let t = correlate_thread_lifecycle starts ends None; n = correlate_nvtx_lifecycle starts ends None
   in length (out_pairs t) + out_unmatched_start t + out_ambiguous t = length starts \<and>
      length (out_pairs t) + out_unmatched_end t = length ends \<and>
      length (out_pairs n) + out_unmatched_start n + out_ambiguous n = length starts \<and>
      length (out_pairs n) + out_unmatched_end n = length ends"
  using lifecycle_final_spec(1,2) [of "\<lambda>e. Some (thread_key e)" starts ends]
    lifecycle_final_spec(1,2) [of correlation_key starts ends]
  by (simp add: Let_def correlate_thread_lifecycle_def correlate_nvtx_lifecycle_def correlate_lifecycle_eq)

end
