(* ===== verification/Nearest.thy ===== *)
theory Nearest
  imports Pairing
begin

text \<open>
  Nearest correlation over the buckets of equal end timestamps.
\<close>

section \<open>Nearest correlation\<close>

text \<open>\<open>range(..=t).next_back()\<close> and \<open>range(t..).next()\<close> on the keys.\<close>

definition range_before :: "u64 \<Rightarrow> (u64, event list) btree \<Rightarrow> u64 option" where
  "range_before t m =
     (case rev (filter (\<lambda>k. k \<le> t) (map fst m)) of [] \<Rightarrow> None | k # _ \<Rightarrow> Some k)"

definition range_after :: "u64 \<Rightarrow> (u64, event list) btree \<Rightarrow> u64 option" where
  "range_after t m =
     (case filter (\<lambda>k. t \<le> k) (map fst m) of [] \<Rightarrow> None | k # _ \<Rightarrow> Some k)"

definition select_nearest :: "u64 \<Rightarrow> (u64, event list) btree \<Rightarrow> u64 option" where
  "select_nearest t available =
     (case (range_before t available, range_after t available) of
        (Some before, Some after) \<Rightarrow> Some (if t - before < after - t then before else after)
      | (Some timestamp, None) \<Rightarrow> Some timestamp
      | (None, Some timestamp) \<Rightarrow> Some timestamp
      | (None, None) \<Rightarrow> None)"

text \<open>The loop over the starts: the remaining buckets, the outcome and \<open>reached_limit\<close>; \<open>None\<close> is a
  failed \<open>expect\<close>.\<close>

fun nearest_loop :: "nat \<Rightarrow> event list \<Rightarrow> (u64, event list) btree \<Rightarrow> outcome
    \<Rightarrow> ((u64, event list) btree \<times> outcome \<times> bool) option" where
  "nearest_loop limit [] available out = Some (available, out, False)"
| "nearest_loop limit (s # ss) available out =
     (if length (out_pairs out) = limit then Some (available, out, True)
      else
        (case select_nearest (ev_timestamp_ns s) available of
           None \<Rightarrow>
             Some (available,
                   out\<lparr>out_unmatched_start := out_unmatched_start out + length (s # ss)\<rparr>, False)
         | Some selected \<Rightarrow>
             (case bt_get available selected of
                None \<Rightarrow> None
              | Some bucket \<Rightarrow>
                  (if bucket = [] then None
                   else
                     nearest_loop limit ss
                       (if butlast bucket = [] then bt_remove selected available
                        else bt_insert selected (butlast bucket) available)
                       (out\<lparr>out_pairs := out_pairs out @
                          [mk_pair s (last bucket) (abs_diff selected (ev_timestamp_ns s))]\<rparr>)))))"

definition correlate_nearest :: "event list \<Rightarrow> event list \<Rightarrow> nat option \<Rightarrow> outcome option" where
  "correlate_nearest starts ends limit =
     (let available = fst (group_events (\<lambda>e. Some (ev_timestamp_ns e)) ends [] 0)
      in case nearest_loop (limit_or_max limit) starts available outcome_empty of
           None \<Rightarrow> None
         | Some (rest, out, reached_limit) \<Rightarrow>
             Some (out\<lparr>out_unmatched_end := (if reached_limit then 0 else bucket_total rest)\<rparr>))"

section \<open>Selection\<close>

lemma last_of_sorted: "sorted xs \<Longrightarrow> rev xs = k # ys \<Longrightarrow> k \<in> set xs \<and> (\<forall>x\<in>set xs. x \<le> k)"
  by (cases xs rule: rev_cases) (auto simp: sorted_append)

lemma bt_inv_sorted: "bt_inv m \<Longrightarrow> sorted (map fst m)"
  unfolding bt_inv_def by (rule strict_sorted_imp_sorted)

lemma range_before_Some:
  assumes "bt_inv m" "range_before t m = Some k"
  shows "k \<in> fst ` set m \<and> k \<le> t \<and> (\<forall>k'\<in>fst ` set m. k' \<le> t \<longrightarrow> k' \<le> k)"
proof -
  let ?ks = "filter (\<lambda>k. k \<le> t) (map fst m)"
  obtain ys where rev: "rev ?ks = k # ys" using assms(2) by (auto simp: range_before_def split: list.splits)
  have "sorted ?ks" using bt_inv_sorted [OF assms(1)] sorted_filter [of id] by simp
  from last_of_sorted [OF this rev] show ?thesis by auto
qed

lemma range_after_Some:
  assumes "bt_inv m" "range_after t m = Some k"
  shows "k \<in> fst ` set m \<and> t \<le> k \<and> (\<forall>k'\<in>fst ` set m. t \<le> k' \<longrightarrow> k \<le> k')"
proof -
  let ?ks = "filter (\<lambda>k. t \<le> k) (map fst m)"
  obtain ys where ks: "?ks = k # ys" using assms(2) by (auto simp: range_after_def split: list.splits)
  have "sorted ?ks" using bt_inv_sorted [OF assms(1)] sorted_filter [of id] by simp
  then have "\<forall>x\<in>set ?ks. k \<le> x" by (simp add: ks)
  moreover have "k \<in> set ?ks" by (simp add: ks)
  ultimately show ?thesis by auto
qed

lemma range_before_None: "range_before t m = None \<Longrightarrow> k \<in> fst ` set m \<Longrightarrow> \<not> k \<le> t"
  by (auto simp: range_before_def filter_empty_conv split: list.splits)

lemma range_after_None: "range_after t m = None \<Longrightarrow> k \<in> fst ` set m \<Longrightarrow> \<not> t \<le> k"
  by (auto simp: range_after_def filter_empty_conv split: list.splits)

lemma unat_abs_diff: "unat (abs_diff a b) = (if unat b \<le> unat a then unat a - unat b else unat b - unat a)"
  by (simp add: abs_diff_def unat_sub word_le_nat_alt)

text \<open>The selected timestamp is available and no available one is closer.\<close>

lemma select_nearest_Some:
  assumes "bt_inv m" "select_nearest t m = Some k"
  shows "k \<in> fst ` set m" "k' \<in> fst ` set m \<Longrightarrow> abs_diff k t \<le> abs_diff k' t"
proof -
  have both: "k \<in> fst ` set m \<and> (\<forall>k'\<in>fst ` set m. abs_diff k t \<le> abs_diff k' t)"
  proof (cases "range_before t m")
    case None
    then have k: "range_after t m = Some k"
      using assms(2) by (auto simp: select_nearest_def split: option.splits)
    show ?thesis
      using range_after_Some [OF assms(1) k] range_before_None [OF None]
      by (force simp: word_le_nat_alt unat_abs_diff)
  next
    case before: (Some a)
    note a = range_before_Some [OF assms(1) before]
    show ?thesis
    proof (cases "range_after t m")
      case None
      then have "k = a" using assms(2) before by (simp add: select_nearest_def)
      then show ?thesis using a range_after_None [OF None] by (force simp: word_le_nat_alt unat_abs_diff)
    next
      case after: (Some b)
      note b = range_after_Some [OF assms(1) after]
      have "k = (if t - a < b - t then a else b)" using assms(2) before after by (simp add: select_nearest_def)
      then have k: "k = (if unat t - unat a < unat b - unat t then a else b)"
        using a b by (simp add: word_less_nat_alt unat_sub word_le_nat_alt)
      have "abs_diff k t \<le> abs_diff k' t" if "k' \<in> fst ` set m" for k'
        using a b that by (cases "k' \<le> t") (auto simp: k word_le_nat_alt unat_abs_diff dest!: bspec)
      then show ?thesis using a b k by auto
    qed
  qed
  show "k \<in> fst ` set m" "k' \<in> fst ` set m \<Longrightarrow> abs_diff k t \<le> abs_diff k' t"
    using both by blast+
qed

lemma select_nearest_None:
  assumes "select_nearest t m = None"
  shows "m = []"
proof (rule ccontr)
  assume "m \<noteq> []"
  then obtain k where "k \<in> fst ` set m" by (cases m) auto
  moreover have "range_before t m = None" "range_after t m = None"
    using assms by (auto simp: select_nearest_def split: option.splits)
  ultimately show False using range_before_None range_after_None by (metis linear)
qed

section \<open>The loop\<close>

text \<open>The buckets hold the ends still available, under their timestamps.\<close>

definition available_ok :: "(u64, event list) btree \<Rightarrow> bool" where
  "available_ok m \<longleftrightarrow> bt_inv m \<and> buckets_nonempty m \<and> (\<forall>k. \<forall>e\<in>set (bucket_of m k). ts e = k)"

abbreviation contents :: "(u64, event list) btree \<Rightarrow> event multiset" where
  "contents m \<equiv> mset (concat (map snd m))"

definition take_end :: "u64 \<Rightarrow> (u64, event list) btree \<Rightarrow> (u64, event list) btree" where
  "take_end k m =
     (if butlast (bucket_of m k) = [] then bt_remove k m else bt_insert k (butlast (bucket_of m k)) m)"

lemma take_end_ok:
  assumes "available_ok m" "bucket_of m k \<noteq> []"
  shows "available_ok (take_end k m)" "contents m = add_mset (last (bucket_of m k)) (contents (take_end k m))"
proof -
  have inv: "bt_inv m" using assms(1) by (simp add: available_ok_def)
  show "available_ok (take_end k m)"
    using assms inv
    by (auto simp: available_ok_def take_end_def buckets_nonempty_def dest: in_set_butlastD)
  have "bucket_of m k = butlast (bucket_of m k) @ [last (bucket_of m k)]" using assms(2) by simp
  then have "mset (bucket_of m k) = add_mset (last (bucket_of m k)) (mset (butlast (bucket_of m k)))"
    by (metis add_mset_add_single mset.simps mset_append)
  then show "contents m = add_mset (last (bucket_of m k)) (contents (take_end k m))"
    using mset_buckets_split [OF inv, of k] buckets_insert [OF inv, of k]
    by (simp add: take_end_def del: mset_map)
qed

lemma available_member:
  assumes "available_ok m" "e \<in># contents m"
  shows "ts e \<in> fst ` set m"
proof -
  obtain k b where kb: "(k, b) \<in> set m" "e \<in> set b" using assms(2) by auto
  then have "bucket_of m k = b" using assms(1) by (simp add: available_ok_def bt_entries_bucket)
  then have "ts e = k" using assms(1) kb(2) by (simp add: available_ok_def)
  then show ?thesis using kb(1) by force
qed

lemma select_nearest_available:
  assumes "available_ok m" "select_nearest t m = Some k"
  shows "bt_get m k = Some (bucket_of m k)" "bucket_of m k \<noteq> []" "ts (last (bucket_of m k)) = k"
    "e \<in># contents m \<Longrightarrow> abs_diff k t \<le> abs_diff (ts e) t"
proof -
  have inv: "bt_inv m" using assms(1) by (simp add: available_ok_def)
  note sel = select_nearest_Some [OF inv assms(2)]
  then obtain b where "bt_get m k = Some b"
    by (metis bt_get_def map_of_eq_None_iff option.exhaust)
  moreover have "buckets_nonempty m" using assms(1) by (simp add: available_ok_def)
  ultimately show get: "bt_get m k = Some (bucket_of m k)" "bucket_of m k \<noteq> []"
    by (auto simp: bucket_of_def buckets_nonempty_def)
  then show "ts (last (bucket_of m k)) = k" using assms(1) by (simp add: available_ok_def)
  show "e \<in># contents m \<Longrightarrow> abs_diff k t \<le> abs_diff (ts e) t"
    using sel(2) available_member [OF assms(1)] by blast
qed

text \<open>Each pair takes a closest end among those its predecessors have left.\<close>

definition closest :: "event multiset \<Rightarrow> pair_t \<Rightarrow> bool" where
  "closest A p \<longleftrightarrow> pair_end p \<in># A \<and> pair_latency_ns p = abs_diff (ts (pair_end p)) (ts (pair_start p)) \<and>
     (\<forall>e\<in>#A. pair_latency_ns p \<le> abs_diff (ts e) (ts (pair_start p)))"

fun closest_chain :: "event multiset \<Rightarrow> pair_t list \<Rightarrow> bool" where
  "closest_chain A [] \<longleftrightarrow> True"
| "closest_chain A (p # ps) \<longleftrightarrow> closest A p \<and> closest_chain (A - {#pair_end p#}) ps"

lemma closest_chain_nth:
  "closest_chain A ps \<Longrightarrow> i < length ps \<Longrightarrow> closest (A - mset (map pair_end (take i ps))) (ps ! i)"
proof (induction ps arbitrary: A i)
  case (Cons p ps)
  have diff: "A - {#x#} - B = A - add_mset x B" for x :: event and B by (simp add: multiset_eq_iff)
  show ?case
  proof (cases i)
    case (Suc j)
    then show ?thesis using Cons.IH [of "A - {#pair_end p#}" j] Cons.prems by (simp add: diff)
  qed (use Cons.prems in simp)
qed simp

lemma nearest_loop_spec:
  assumes "available_ok m" "length (out_pairs out) \<le> l"
  shows "\<exists>ps rest u r.
    nearest_loop l ss m out =
      Some (rest, out\<lparr>out_pairs := out_pairs out @ ps, out_unmatched_start := out_unmatched_start out + u\<rparr>, r) \<and>
    closest_chain (contents m) ps \<and> contents m = mset (map pair_end ps) + contents rest \<and>
    map pair_start ps = take (length ps) ss \<and> length (out_pairs out) + length ps \<le> l \<and>
    length ps + u \<le> length ss \<and> (\<not> r \<longrightarrow> length ps + u = length ss)"
  using assms
proof (induction ss arbitrary: m out)
  case Nil
  then show ?case by (intro exI [of _ "[]"] exI [of _ m] exI [of _ 0] exI [of _ False]) simp
next
  case (Cons s ss)
  show ?case
  proof (cases "length (out_pairs out) = l")
    case True
    then show ?thesis by (intro exI [of _ "[]"] exI [of _ m] exI [of _ 0] exI [of _ True]) simp
  next
    case room: False
    show ?thesis
    proof (cases "select_nearest (ts s) m")
      case None
      then show ?thesis
        using room Cons.prems(2)
        by (intro exI [of _ "[]"] exI [of _ m] exI [of _ "Suc (length ss)"] exI [of _ False]) simp
    next
      case (Some k)
      note sel = select_nearest_available [OF Cons.prems(1) Some]
      let ?p = "mk_pair s (last (bucket_of m k)) (abs_diff k (ts s))"
      let ?out = "out\<lparr>out_pairs := out_pairs out @ [?p]\<rparr>"
      note tk = take_end_ok [OF Cons.prems(1) sel(2)]
      have step: "nearest_loop l (s # ss) m out = nearest_loop l ss (take_end k m) ?out"
        using room Some sel by (simp add: take_end_def)
      have "length (out_pairs ?out) \<le> l" using room Cons.prems(2) by simp
      from Cons.IH [OF tk(1) this] obtain ps rest u r where IH:
        "nearest_loop l ss (take_end k m) ?out = Some (rest,
          ?out\<lparr>out_pairs := out_pairs ?out @ ps, out_unmatched_start := out_unmatched_start ?out + u\<rparr>, r)"
        "closest_chain (contents (take_end k m)) ps"
        "contents (take_end k m) = mset (map pair_end ps) + contents rest"
        "map pair_start ps = take (length ps) ss" "length (out_pairs ?out) + length ps \<le> l"
        "length ps + u \<le> length ss" "\<not> r \<longrightarrow> length ps + u = length ss"
        by blast
      have "closest (contents m) ?p"
        using sel tk(2) by (auto simp: closest_def)
      then have "closest_chain (contents m) (?p # ps)" using IH(2) tk(2) by simp
      then show ?thesis
        using IH tk(2) step
        by (intro exI [of _ "?p # ps"] exI [of _ rest] exI [of _ u] exI [of _ r]) simp
    qed
  qed
qed

lemma nearest_buckets: "available_ok (groups_by (\<lambda>e. Some (ts e)) ends)"
  "contents (groups_by (\<lambda>e. Some (ts e)) ends) = mset ends"
  using group_events_empty [OF prod.collapse [symmetric], of "\<lambda>e. Some (ts e)" ends]
  by (auto simp: available_ok_def)

lemma nearest_spec:
  obtains out rest r where "correlate_nearest starts ends limit = Some out"
    "closest_chain (mset ends) (out_pairs out)"
    "mset ends = mset (map pair_end (out_pairs out)) + rest"
    "out_unmatched_end out = (if r then 0 else size rest)"
    "map pair_start (out_pairs out) = take (length (out_pairs out)) starts"
    "length (out_pairs out) \<le> limit_or_max limit"
    "length (out_pairs out) + out_unmatched_start out \<le> length starts"
    "\<not> r \<longrightarrow> length (out_pairs out) + out_unmatched_start out = length starts" "out_ambiguous out = 0"
proof -
  let ?m = "groups_by (\<lambda>e. Some (ts e)) ends"
  have le: "length (out_pairs outcome_empty) \<le> limit_or_max limit" by simp
  obtain ps rest u r where loop:
    "nearest_loop (limit_or_max limit) starts ?m outcome_empty =
       Some (rest, outcome_empty\<lparr>out_pairs := out_pairs outcome_empty @ ps,
         out_unmatched_start := out_unmatched_start outcome_empty + u\<rparr>, r)"
    "closest_chain (contents ?m) ps" "contents ?m = mset (map pair_end ps) + contents rest"
    "map pair_start ps = take (length ps) starts" "length (out_pairs outcome_empty) + length ps \<le> limit_or_max limit"
    "length ps + u \<le> length starts" "\<not> r \<longrightarrow> length ps + u = length starts"
    using nearest_loop_spec [OF nearest_buckets(1) [of ends] le, of starts] by blast
  show thesis
    using loop
    by (intro that [of "outcome_empty\<lparr>out_pairs := ps, out_unmatched_start := u,
        out_unmatched_end := (if r then 0 else bucket_total rest)\<rparr>" "contents rest" r])
      (simp_all add: correlate_nearest_def nearest_buckets(2) bucket_total_eq)
qed

lemma closest_chain_latency: "closest_chain A ps \<Longrightarrow> p \<in> set ps \<Longrightarrow>
    pair_latency_ns p = abs_diff (ts (pair_end p)) (ts (pair_start p))"
  by (induction A ps rule: closest_chain.induct) (auto simp: closest_def)

interpretation nr: pairing_policy correlate_nearest
proof
  fix starts ends limit assume s: "sorted_events starts"
  show "\<exists>out. correlate_nearest starts ends limit = Some out \<and> outcome_ok starts ends limit out"
  proof (rule nearest_spec [of starts ends limit])
    fix out rest r
    assume out: "correlate_nearest starts ends limit = Some out" "closest_chain (mset ends) (out_pairs out)"
      "mset ends = mset (map pair_end (out_pairs out)) + rest"
      "out_unmatched_end out = (if r then 0 else size rest)"
      "map pair_start (out_pairs out) = take (length (out_pairs out)) starts"
      "length (out_pairs out) \<le> limit_or_max limit"
      "length (out_pairs out) + out_unmatched_start out \<le> length starts" "out_ambiguous out = 0"
    have "size (mset ends) = size (mset (map pair_end (out_pairs out))) + size rest" unfolding out(3) by simp
    then have "length (out_pairs out) + out_unmatched_end out \<le> length ends" using out(4) by simp
    moreover have "sorted_events (map pair_start (out_pairs out))"
      using s unfolding out(5) by (simp add: sorted_events_def take_map [symmetric] sorted_wrt_take)
    moreover have "mset (map pair_start (out_pairs out)) \<subseteq># mset starts"
      unfolding out(5) by (rule mset_take_subset)
    ultimately have "outcome_ok starts ends limit out"
      using out closest_chain_latency [OF out(2)] by (auto simp: outcome_ok_def limit_or_max_def)
    then show ?thesis using out(1) by blast
  qed
qed

section \<open>Properties\<close>



end
