(* ===== verification/Stack_Nested.thy ===== *)
theory Stack_Nested
  imports Pairing
begin

text \<open>
  Stack-nested correlation of host function entries and returns.
\<close>

section \<open>Stack-nested correlation\<close>

record nested =
  ns_stacks :: "(u32 \<times> u32, event list) btree"
  ns_pairs :: "pair_t list"
  ns_unmatched_end :: nat

definition nested_timeline :: "event list \<Rightarrow> event list \<Rightarrow> timeline" where
  "nested_timeline starts ends =
     sort_key (\<lambda>(timestamp, boundary, _). (timestamp, boundary)) (timeline starts ends)"

definition nested_step :: "nat \<Rightarrow> u64 \<times> u8 \<times> event \<Rightarrow> nested \<Rightarrow> nested" where
  "nested_step limit entry st =
     (case entry of (_, boundary, e) \<Rightarrow>
      (let key = (ev_pid e, ev_tid e) in
       if boundary = 0 then st\<lparr>ns_stacks := bt_push key e (ns_stacks st)\<rparr>
       else
         (case bt_get (ns_stacks st) key of
            None \<Rightarrow> st\<lparr>ns_unmatched_end := ns_unmatched_end st + 1\<rparr>
          | Some stack \<Rightarrow>
              (if stack = [] then st\<lparr>ns_unmatched_end := ns_unmatched_end st + 1\<rparr>
               else
                 let start = last stack;
                     st' = st\<lparr>ns_stacks := bt_insert key (butlast stack) (ns_stacks st)\<rparr>
                 in if length (ns_pairs st) < limit
                    then st'\<lparr>ns_pairs := ns_pairs st @
                           [mk_pair start e (ev_timestamp_ns e - ev_timestamp_ns start)]\<rparr>
                    else st'))))"

definition correlate_stack_nested :: "event list \<Rightarrow> event list \<Rightarrow> nat option \<Rightarrow> outcome" where
  "correlate_stack_nested starts ends limit =
     (let st = fold (nested_step (limit_or_max limit)) (nested_timeline starts ends)
                 \<lparr>ns_stacks = [], ns_pairs = [], ns_unmatched_end = 0\<rparr>
      in \<lparr>out_pairs = sort_pairs (ns_pairs st),
          out_unmatched_start = bucket_total (ns_stacks st),
          out_unmatched_end = ns_unmatched_end st,
          out_ambiguous = 0\<rparr>)"

section \<open>The stacks\<close>

definition frame_key :: "event \<Rightarrow> u32 \<times> u32" where
  "frame_key e = (ev_pid e, ev_tid e)"

abbreviation frames :: "nested \<Rightarrow> event multiset" where
  "frames st \<equiv> mset (concat (map snd (ns_stacks st)))"

text \<open>One step: a start is pushed on the stack of its thread, an end pops it.\<close>

lemma nested_step_start:
  "b = 0 \<Longrightarrow> nested_step l (t, b, e) st = st\<lparr>ns_stacks := bt_push (frame_key e) e (ns_stacks st)\<rparr>"
  by (simp add: nested_step_def frame_key_def)

lemma nested_step_end:
  assumes "b \<noteq> 0"
  shows "nested_step l (t, b, e) st =
    (if bucket_of (ns_stacks st) (frame_key e) = [] then st\<lparr>ns_unmatched_end := ns_unmatched_end st + 1\<rparr>
     else st\<lparr>ns_stacks := bt_insert (frame_key e) (butlast (bucket_of (ns_stacks st) (frame_key e))) (ns_stacks st),
             ns_pairs := ns_pairs st @
               (if length (ns_pairs st) < l
                then [mk_pair (last (bucket_of (ns_stacks st) (frame_key e))) e
                        (ts e - ts (last (bucket_of (ns_stacks st) (frame_key e))))]
                else [])\<rparr>)"
  using assms by (auto simp: nested_step_def frame_key_def bucket_of_def Let_def split: option.splits)

text \<open>The stack of a thread holds events of that thread in time order, none of them after the rest of
  the timeline, and none strictly inside a pair of its thread; the pairs of one thread never cross.\<close>

definition crosses :: "pair_t \<Rightarrow> pair_t \<Rightarrow> bool" where
  "crosses p q \<longleftrightarrow> ts (pair_start p) < ts (pair_start q) \<and> ts (pair_start q) < ts (pair_end p) \<and>
     ts (pair_end p) < ts (pair_end q)"

definition stacks_ok :: "(u32 \<times> u32, event list) btree \<Rightarrow> timeline \<Rightarrow> bool" where
  "stacks_ok m xs \<longleftrightarrow> bt_inv m \<and> (\<forall>k. sorted_events (bucket_of m k) \<and>
     (\<forall>s\<in>set (bucket_of m k). frame_key s = k \<and> (\<forall>x\<in>set xs. ts s \<le> fst x)))"

definition pairs_ok :: "pair_t list \<Rightarrow> timeline \<Rightarrow> bool" where
  "pairs_ok ps xs \<longleftrightarrow>
     (\<forall>p\<in>set ps. frame_key (pair_start p) = frame_key (pair_end p) \<and>
        ts (pair_start p) \<le> ts (pair_end p) \<and> pair_latency_ns p = ts (pair_end p) - ts (pair_start p) \<and>
        (\<forall>x\<in>set xs. ts (pair_end p) \<le> fst x)) \<and>
     (\<forall>p\<in>set ps. \<forall>q\<in>set ps. frame_key (pair_start p) = frame_key (pair_start q) \<longrightarrow> \<not> crosses p q)"

definition frames_outside :: "(u32 \<times> u32, event list) btree \<Rightarrow> pair_t list \<Rightarrow> bool" where
  "frames_outside m ps \<longleftrightarrow> (\<forall>p\<in>set ps. \<forall>s\<in>set (bucket_of m (frame_key (pair_start p))).
     ts s \<le> ts (pair_start p) \<or> ts (pair_end p) \<le> ts s)"

definition nested_inv :: "nested \<Rightarrow> timeline \<Rightarrow> bool" where
  "nested_inv st xs \<longleftrightarrow> stacks_ok (ns_stacks st) xs \<and> pairs_ok (ns_pairs st) xs \<and>
     frames_outside (ns_stacks st) (ns_pairs st)"

lemma stacks_okD:
  assumes "stacks_ok m xs"
  shows "bt_inv m" "sorted_events (bucket_of m k)"
    "\<forall>r\<in>set (bucket_of m k). frame_key r = k \<and> (\<forall>x\<in>set xs. ts r \<le> fst x)"
  using assms unfolding stacks_ok_def by blast+

lemma nested_inv_start:
  assumes "nested_inv st ((t, b, e) # xs)" "b = 0" "timed ((t, b, e) # xs)"
  shows "nested_inv (nested_step l (t, b, e) st) xs"
proof -
  have t: "t = ts e" and late: "\<forall>y\<in>set xs. ts e \<le> fst y" using assms(3) by (auto simp: timed_def)
  have "stacks_ok (ns_stacks st) ((t, b, e) # xs)" using assms(1) by (simp add: nested_inv_def)
  note ok = stacks_okD [OF this] and inv = stacks_okD(1) [OF this]
  have "stacks_ok (bt_push (frame_key e) e (ns_stacks st)) xs"
    unfolding stacks_ok_def using ok late t by (simp add: sorted_events_def sorted_append)
  moreover have "pairs_ok (ns_pairs st) xs"
    using assms(1) by (auto simp: nested_inv_def pairs_ok_def)
  moreover have "frames_outside (bt_push (frame_key e) e (ns_stacks st)) (ns_pairs st)"
    using assms(1) inv by (auto simp: nested_inv_def frames_outside_def pairs_ok_def t)
  ultimately show ?thesis by (simp add: nested_inv_def nested_step_start [OF assms(2)])
qed

lemma nested_inv_pop:
  assumes inv: "nested_inv st ((t, b, e) # xs)" and timed: "timed ((t, b, e) # xs)"
    and s: "bucket_of (ns_stacks st) (frame_key e) = stack @ [s]"
    and ps: "ps = ns_pairs st \<or> ps = ns_pairs st @ [mk_pair s e (ts e - ts s)]"
  shows "stacks_ok (bt_insert (frame_key e) stack (ns_stacks st)) xs" "pairs_ok ps xs"
    "frames_outside (bt_insert (frame_key e) stack (ns_stacks st)) ps"
proof -
  have t: "t = ts e" and late: "\<forall>y\<in>set xs. ts e \<le> fst y" using timed by (auto simp: timed_def)
  have "stacks_ok (ns_stacks st) ((t, b, e) # xs)" using inv by (simp add: nested_inv_def)
  note ok = stacks_okD(2,3) [OF this] and bt = stacks_okD(1) [OF this]
  have stack: "sorted_events (stack @ [s])"
    "\<forall>r\<in>set (stack @ [s]). frame_key r = frame_key e \<and> ts r \<le> ts e \<and> (\<forall>x\<in>set xs. ts r \<le> fst x)"
    using ok [of "frame_key e"] s t by auto
  have below: "\<forall>r\<in>set stack. ts r \<le> ts s"
    using stack(1) by (simp add: sorted_events_def sorted_append)
  have pairs: "\<forall>p\<in>set (ns_pairs st). ts (pair_end p) \<le> ts e"
    using inv t by (auto simp: nested_inv_def pairs_ok_def)
  have out: "ts r \<le> ts (pair_start p) \<or> ts (pair_end p) \<le> ts r"
    if "p \<in> set (ns_pairs st)" "frame_key (pair_start p) = frame_key e" "r \<in> set (stack @ [s])" for p r
    using inv that s unfolding nested_inv_def frames_outside_def by metis
  show "stacks_ok (bt_insert (frame_key e) stack (ns_stacks st)) xs"
    unfolding stacks_ok_def
    using bt stack ok by (simp add: sorted_events_def sorted_append)
  have "\<forall>p\<in>set (ns_pairs st). frame_key (pair_start p) = frame_key e \<longrightarrow>
      (\<forall>r\<in>set stack. ts r \<le> ts (pair_start p) \<or> ts (pair_end p) \<le> ts r)"
    using out by simp
  then show "frames_outside (bt_insert (frame_key e) stack (ns_stacks st)) ps"
    using inv bt ps stack(2) below by (auto simp: nested_inv_def frames_outside_def)
  have new: "\<not> crosses p (mk_pair s e l) \<and> \<not> crosses (mk_pair s e l) p"
    if "p \<in> set (ns_pairs st)" "frame_key (pair_start p) = frame_key e" for p l
    using out [OF that, of s] pairs that by (auto simp: crosses_def)
  have old: "pairs_ok (ns_pairs st) ((t, b, e) # xs)" using inv by (simp add: nested_inv_def)
  have "\<not> crosses (mk_pair s e l) (mk_pair s e l)" for l by (simp add: crosses_def)
  moreover have "\<forall>p\<in>set (ns_pairs st). frame_key (pair_start p) = frame_key e \<longrightarrow>
      (\<forall>l. \<not> crosses p (mk_pair s e l) \<and> \<not> crosses (mk_pair s e l) p)"
    using new by simp
  ultimately have "pairs_ok (ns_pairs st @ [mk_pair s e (ts e - ts s)]) xs"
    using old stack(2) late by (simp add: pairs_ok_def ball_Un)
  moreover have "pairs_ok (ns_pairs st) xs" using old by (simp add: pairs_ok_def)
  ultimately show "pairs_ok ps xs" using ps by blast
qed

lemma nested_inv_step:
  assumes "nested_inv st (x # xs)" "timed (x # xs)"
  shows "nested_inv (nested_step l x st) xs"
proof -
  obtain t b e where x: "x = (t, b, e)" by (cases x)
  show ?thesis
  proof (cases "b = 0")
    case True
    then show ?thesis using nested_inv_start assms by (simp add: x)
  next
    case False
    show ?thesis
    proof (cases "bucket_of (ns_stacks st) (frame_key e)" rule: rev_cases)
      case Nil
      then show ?thesis
        using assms(1) False
        by (auto simp: x nested_step_end nested_inv_def stacks_ok_def pairs_ok_def)
    next
      case (snoc stack s)
      from nested_inv_pop [OF assms [unfolded x] snoc] show ?thesis
        using snoc False by (auto simp: x nested_step_end nested_inv_def)
    qed
  qed
qed

lemma timed_tl: "timed (x # xs) \<Longrightarrow> timed xs"
  by (auto simp: timed_def)

lemma nested_inv_fold: "nested_inv st xs \<Longrightarrow> timed xs \<Longrightarrow> nested_inv (fold (nested_step l) xs st) []"
  by (induction xs arbitrary: st) (auto dest: nested_inv_step timed_tl)

text \<open>Every event read is on a stack, in a pair, dropped by the limit, or an unmatched end.\<close>

lemma nested_fold_counts:
  assumes "bt_inv (ns_stacks st)" "length (ns_pairs st) \<le> l"
  shows "let st' = fold (nested_step l) xs st in
    mset (map pair_start (ns_pairs st')) + frames st' \<subseteq>#
      mset (map pair_start (ns_pairs st)) + frames st + mset (boundary_events True xs) \<and>
    mset (map pair_end (ns_pairs st')) \<subseteq># mset (map pair_end (ns_pairs st)) + mset (boundary_events False xs) \<and>
    length (ns_pairs st') + ns_unmatched_end st' \<le>
      length (ns_pairs st) + ns_unmatched_end st + length (boundary_events False xs) \<and>
    length (ns_pairs st') \<le> l"
  using assms
proof (induction xs arbitrary: st)
  case (Cons x xs)
  obtain t b e where x: "x = (t, b, e)" by (cases x)
  let ?st = "nested_step l x st"
  show ?case
  proof (cases "b = 0")
    case True
    from Cons.IH [of ?st] show ?thesis
      using Cons.prems True by (simp add: x nested_step_start mset_buckets_push Let_def)
  next
    case False
    show ?thesis
    proof (cases "bucket_of (ns_stacks st) (frame_key e)" rule: rev_cases)
      case Nil
      from Cons.IH [of ?st] show ?thesis
        using Cons.prems False Nil
        by (auto simp: x nested_step_end Let_def intro: subset_mset.order_trans)
    next
      case (snoc stack s)
      have "frames st = add_mset s (mset (concat (map snd (bt_insert (frame_key e) stack (ns_stacks st)))))"
        using mset_buckets_split [OF Cons.prems(1), of "frame_key e"] buckets_insert [OF Cons.prems(1)] snoc by simp
      with Cons.IH [of ?st] show ?thesis
        using Cons.prems False snoc
        by (auto simp: x nested_step_end Let_def intro: subset_mset.order_trans)
    qed
  qed
qed simp

abbreviation nested_empty :: nested where
  "nested_empty \<equiv> \<lparr>ns_stacks = [], ns_pairs = [], ns_unmatched_end = 0\<rparr>"

definition nested_final :: "nat \<Rightarrow> event list \<Rightarrow> event list \<Rightarrow> nested" where
  "nested_final l starts ends = fold (nested_step l) (nested_timeline starts ends) nested_empty"

lemma stack_nested_eq:
  "correlate_stack_nested starts ends limit =
     \<lparr>out_pairs = sort_pairs (ns_pairs (nested_final (limit_or_max limit) starts ends)),
      out_unmatched_start = bucket_total (ns_stacks (nested_final (limit_or_max limit) starts ends)),
      out_unmatched_end = ns_unmatched_end (nested_final (limit_or_max limit) starts ends),
      out_ambiguous = 0\<rparr>"
  by (simp add: correlate_stack_nested_def nested_final_def Let_def)

lemma nested_timeline_timed: "timed (nested_timeline starts ends)"
  unfolding nested_timeline_def by (rule sort_key_timed) (simp add: split_def)

lemma mset_nested_timeline: "mset (nested_timeline starts ends) = mset (timeline starts ends)"
  by (simp add: nested_timeline_def)

lemma nested_final_inv: "nested_inv (nested_final l starts ends) []"
  unfolding nested_final_def
  by (rule nested_inv_fold [OF _ nested_timeline_timed])
    (simp add: nested_inv_def stacks_ok_def pairs_ok_def frames_outside_def sorted_events_def)

lemma nested_final_counts:
  fixes l starts ends
  defines "st \<equiv> nested_final l starts ends"
  shows "mset (map pair_start (ns_pairs st)) + frames st \<subseteq># mset starts"
    "mset (map pair_end (ns_pairs st)) \<subseteq># mset ends"
    "length (ns_pairs st) + ns_unmatched_end st \<le> length ends" "length (ns_pairs st) \<le> l"
proof -
  let ?xs = "nested_timeline starts ends"
  have b: "mset (boundary_events True ?xs) = mset starts" "mset (boundary_events False ?xs) = mset ends"
    by (simp_all add: mset_boundary_events [OF mset_nested_timeline])
  then have "length (boundary_events False ?xs) = length ends" by (metis size_mset)
  with nested_fold_counts [of nested_empty l ?xs] b
  show "mset (map pair_start (ns_pairs st)) + frames st \<subseteq># mset starts"
    "mset (map pair_end (ns_pairs st)) \<subseteq># mset ends"
    "length (ns_pairs st) + ns_unmatched_end st \<le> length ends" "length (ns_pairs st) \<le> l"
    by (simp_all add: st_def nested_final_def Let_def)
qed

lemma nested_final_pair:
  "p \<in> set (ns_pairs (nested_final l starts ends)) \<Longrightarrow>
     ts (pair_start p) \<le> ts (pair_end p) \<and> pair_latency_ns p = ts (pair_end p) - ts (pair_start p) \<and>
     frame_key (pair_start p) = frame_key (pair_end p)"
  using nested_final_inv [of l starts ends] by (simp add: nested_inv_def pairs_ok_def)

lemma stack_nested_ok: "outcome_ok starts ends limit (correlate_stack_nested starts ends limit)"
proof -
  let ?st = "nested_final (limit_or_max limit) starts ends"
  note counts = nested_final_counts [of "limit_or_max limit" starts ends]
  have "size (mset (map pair_start (ns_pairs ?st)) + frames ?st) \<le> length starts"
    using size_mset_mono [OF counts(1)] by simp
  then have "length (ns_pairs ?st) + bucket_total (ns_stacks ?st) \<le> length starts"
    by (simp add: bucket_total_eq)
  moreover have "mset (map pair_start (ns_pairs ?st)) \<subseteq># mset starts"
    using counts(1) by (metis mset_subset_eq_add_left subset_mset.order_trans)
  moreover have "\<forall>p\<in>set (ns_pairs ?st). pair_latency_ns p = abs_diff (ts (pair_end p)) (ts (pair_start p))"
    using nested_final_pair by (simp add: abs_diff_def)
  moreover have "\<forall>l. limit = Some l \<longrightarrow> length (ns_pairs ?st) \<le> l"
    using counts(4) by (auto simp: limit_or_max_def)
  ultimately show ?thesis
    using counts(2,3) sorted_sort_pairs by (simp add: outcome_ok_def stack_nested_eq)
qed

interpretation sn: forward_policy "\<lambda>starts ends limit. Some (correlate_stack_nested starts ends limit)"
proof
  show "\<exists>out. Some (correlate_stack_nested starts ends limit) = Some out \<and> outcome_ok starts ends limit out"
    for starts ends limit
    using stack_nested_ok by simp
  show "forward_pair p"
    if "Some (correlate_stack_nested starts ends limit) = Some out" "p \<in> set (out_pairs out)"
    for starts ends limit out p
    using that nested_final_pair by (auto simp: stack_nested_eq forward_pair_def)
qed

section \<open>Properties\<close>

text \<open>C5: stack-nested correlation pairs an entry only with a return of the same thread, and two pairs
  of one thread are nested or disjoint in time, never crossing, whatever the sample limit.\<close>

theorem stack_nested_laminar:
  assumes "p \<in> set (out_pairs (correlate_stack_nested starts ends limit))"
    and "q \<in> set (out_pairs (correlate_stack_nested starts ends limit))"
  shows "(ev_pid (pair_start p), ev_tid (pair_start p)) = (ev_pid (pair_end p), ev_tid (pair_end p)) \<and>
    ((ev_pid (pair_start p), ev_tid (pair_start p)) = (ev_pid (pair_start q), ev_tid (pair_start q)) \<longrightarrow>
     \<not> (ts (pair_start p) < ts (pair_start q) \<and> ts (pair_start q) < ts (pair_end p) \<and>
        ts (pair_end p) < ts (pair_end q)))"
  using nested_final_inv [of "limit_or_max limit" starts ends] assms
  by (simp add: stack_nested_eq nested_inv_def pairs_ok_def crosses_def frame_key_def)

theorem stack_nested_laminar_witness:
  "let out = correlate_stack_nested [example_event 1 1 10, example_event 1 1 20]
               [example_event 1 1 30, example_event 1 1 40] (Some 5)
   in out_pairs out = [mk_pair (example_event 1 1 10) (example_event 1 1 40) 30,
                       mk_pair (example_event 1 1 20) (example_event 1 1 30) 10] \<and>
      \<not> (ts (example_event 1 1 10) < ts (example_event 1 1 20) \<and> ts (example_event 1 1 20) < ts (example_event 1 1 40) \<and>
         ts (example_event 1 1 40) < ts (example_event 1 1 30))"
proof -
  have out: "out_pairs (correlate_stack_nested [example_event 1 1 10, example_event 1 1 20]
      [example_event 1 1 30, example_event 1 1 40] (Some 5)) =
    [mk_pair (example_event 1 1 10) (example_event 1 1 40) 30, mk_pair (example_event 1 1 20) (example_event 1 1 30) 10]"
    by (simp add: correlate_stack_nested_def nested_timeline_def timeline_def Let_def limit_or_max_def
        nested_step_def bt_push_def push_bucket_def bt_get_def bt_insert_def sort_pairs_def)
  show ?thesis
    using stack_nested_laminar [of "mk_pair (example_event 1 1 10) (example_event 1 1 40) 30"
        "[example_event 1 1 10, example_event 1 1 20]" "[example_event 1 1 30, example_event 1 1 40]" "Some 5"
        "mk_pair (example_event 1 1 20) (example_event 1 1 30) 10"]
    by (simp add: out Let_def)
qed

end
