(* ===== verification/Correlate.thy ===== *)
theory Correlate
  imports First_After Exact_Match Nearest Stack_Nested
begin

text \<open>
  The dispatch on the correlation policy; every policy keeps the contract of a pairing policy, so the
  dispatch does.
\<close>

definition correlate_selected ::
  "event list \<Rightarrow> event list \<Rightarrow> match_policy \<Rightarrow> nat option \<Rightarrow> lifecycle_kinds \<Rightarrow> outcome option" where
  "correlate_selected starts ends policy limit lifecycles =
     (case policy of
        MP_Exact \<Rightarrow>
          Some (if lk_syscall lifecycles \<or> lk_python_gc lifecycles
                then correlate_thread_lifecycle starts ends limit
                else if lk_nvtx lifecycles then correlate_nvtx_lifecycle starts ends limit
                else correlate_exact starts ends limit)
      | MP_FirstAfter \<Rightarrow> Some (correlate_first_after starts ends limit)
      | MP_Nearest \<Rightarrow> correlate_nearest starts ends limit
      | MP_StackNested \<Rightarrow> Some (correlate_stack_nested starts ends limit)
      | MP_StreamOrder \<Rightarrow> Some (correlate_stream_order starts ends limit))"

lemmas policy_contracts =
  ex.keeps_contract fa.keeps_contract so.keeps_contract nr.keeps_contract sn.keeps_contract
  tlc.keeps_contract nlc.keeps_contract

interpretation cs: pairing_policy
  "\<lambda>starts ends limit. correlate_selected starts ends policy limit lifecycles"
  for policy lifecycles
proof
  fix starts ends limit
  assume "sorted_events starts" "sorted_events ends"
  note contracts = policy_contracts [OF this, of limit]
  show "\<exists>out. correlate_selected starts ends policy limit lifecycles = Some out \<and>
      outcome_ok starts ends limit out"
    using contracts by (cases policy) (auto simp: correlate_selected_def)
qed

text \<open>All policies but nearest only pair a start with an end that is not earlier.\<close>

lemma correlate_selected_forward:
  assumes "sorted_events starts" "sorted_events ends" "policy \<noteq> MP_Nearest"
    and out: "correlate_selected starts ends policy limit lifecycles = Some out" "p \<in> set (out_pairs out)"
  shows "forward_pair p"
proof (cases policy)
  case MP_Exact
  then show ?thesis
    using out ex.forward [OF assms(1,2)] tlc.forward [OF assms(1,2)] nlc.forward [OF assms(1,2)]
    by (simp add: correlate_selected_def split: if_splits)
next
  case MP_FirstAfter
  then show ?thesis using out fa.forward [OF assms(1,2)] by (simp add: correlate_selected_def)
next
  case MP_StackNested
  then show ?thesis using out sn.forward [OF assms(1,2)] by (simp add: correlate_selected_def)
next
  case MP_StreamOrder
  then show ?thesis using out so.forward [OF assms(1,2)] by (simp add: correlate_selected_def)
qed (use assms(3) in simp)

end
