(* ===== verification/Measure.thy ===== *)
theory Measure
  imports Selector Correlate
begin

text \<open>
  \<open>measure\<close> of \<open>xprobe/correlator/src/lib.rs\<close>: option checks, selection, clock domains, the duration
  window, correlation and statistics. A duration is its number of nanoseconds (\<open>Duration::as_nanos\<close>).
\<close>

record measure_options =
  mo_session_id :: string
  mo_name :: "string option"
  mo_start_selector :: string
  mo_end_selector :: string
  mo_match_policy :: match_policy
  mo_samples :: "nat option"
  mo_duration :: "nat option"
  mo_max_events :: nat
  mo_dropped_events :: u64

definition validate_options :: "measure_options \<Rightarrow> (unit, measure_error) rresult" where
  "validate_options options =
     (if mo_samples options = None \<and> mo_duration options = None then Err (ME_InvalidLimit LR_NoLimit)
      else if mo_samples options = Some 0 then Err (ME_InvalidLimit LR_ZeroSamples)
      else if mo_duration options = Some 0 then Err (ME_InvalidLimit LR_ZeroDuration)
      else if mo_max_events options = 0 then Err (ME_InvalidLimit LR_ZeroMaxEvents)
      else if mo_session_id options = [] then Err (ME_InvalidLimit LR_EmptySession)
      else Ok ())"

fun clock_group :: "clock_domain \<Rightarrow> u8" where
  "clock_group CD_HostMonotonic = 0"
| "clock_group CD_CuptiNormalizedToHostMonotonic = 0"
| "clock_group CD_Cupti = 1"

fun clock_loop :: "clock_domain \<Rightarrow> event list \<Rightarrow> bool \<Rightarrow> (bool, measure_error) rresult" where
  "clock_loop first [] has_normalized_cupti = Ok has_normalized_cupti"
| "clock_loop first (e # es) has_normalized_cupti =
     (if clock_group (ev_clock_domain e) \<noteq> clock_group first
      then Err (ME_ClockDomainsDiffer first (ev_clock_domain e))
      else clock_loop first es
             (has_normalized_cupti \<or> ev_clock_domain e = CD_CuptiNormalizedToHostMonotonic))"

definition common_clock_domain :: "event list \<Rightarrow> event list \<Rightarrow> (clock_domain, measure_error) rresult" where
  "common_clock_domain starts ends =
     (case starts @ ends of
        [] \<Rightarrow> Err ME_NoMatchedSamples
      | first # rest \<Rightarrow>
          rbind (clock_loop (ev_clock_domain first) rest
                   (ev_clock_domain first = CD_CuptiNormalizedToHostMonotonic))
            (\<lambda>has_normalized_cupti.
               Ok (if clock_group (ev_clock_domain first) = 1 then CD_Cupti
                   else if has_normalized_cupti then CD_CuptiNormalizedToHostMonotonic
                   else CD_HostMonotonic)))"

definition u64_try_from :: "nat \<Rightarrow> u64 option" where
  "u64_try_from n = (if n < 2 ^ 64 then Some (of_nat n) else None)"

definition apply_duration_window ::
  "event list \<Rightarrow> event list \<Rightarrow> nat option \<Rightarrow> (event list \<times> event list, measure_error) rresult" where
  "apply_duration_window starts ends duration =
     (case duration of
        None \<Rightarrow> Ok (starts, ends)
      | Some d \<Rightarrow>
          (case map ts (take 1 starts @ take 1 ends) of
             [] \<Rightarrow> Ok (starts, ends)
           | t # ts' \<Rightarrow>
               rbind (ok_or (u64_try_from d) (ME_InvalidLimit LR_DurationRange)) (\<lambda>duration_ns.
               rbind (ok_or (checked_add (foldl min t ts') duration_ns) (ME_InvalidLimit LR_WindowOverflow))
                 (\<lambda>end_timestamp.
                    Ok (filter (\<lambda>e. ts e \<le> end_timestamp) starts,
                        filter (\<lambda>e. ts e \<le> end_timestamp) ends)))))"

fun correlation_metadata :: "match_policy \<Rightarrow> lifecycle_kinds \<Rightarrow> string \<times> correlation_confidence" where
  "correlation_metadata MP_Exact lifecycles =
     (if lk_syscall lifecycles then (''exact_syscall_tid_lifecycle'', CC_Exact)
      else if lk_nvtx lifecycles then (''exact_nvtx_range_id'', CC_Exact)
      else if lk_python_gc lifecycles then (''exact_python_gc_tid_lifecycle'', CC_Exact)
      else (''exact_cupti_correlation_id'', CC_Exact))"
| "correlation_metadata MP_FirstAfter lifecycles = (''first_after'', CC_Heuristic)"
| "correlation_metadata MP_Nearest lifecycles = (''nearest'', CC_Heuristic)"
| "correlation_metadata MP_StackNested lifecycles = (''stack_nested_tid_lifo'', CC_High)"
| "correlation_metadata MP_StreamOrder lifecycles = (''cuda_stream_order'', CC_High)"

definition measurement_warnings :: "measure_options \<Rightarrow> event list \<Rightarrow> event list \<Rightarrow> warning list" where
  "measurement_warnings options starts ends =
     (if mo_match_policy options = MP_FirstAfter \<or> mo_match_policy options = MP_Nearest
      then [mk_warning ''HEURISTIC_CORRELATION'' ''temporal matching does not prove request-level causality'']
      else []) @
     (if list_ex (\<lambda>e. ev_clock_domain e = CD_CuptiNormalizedToHostMonotonic \<and> ev_timestamp_error_ns e = None)
           (starts @ ends)
      then [mk_warning ''CLOCK_ERROR_UNAVAILABLE''
              ''CUPTI does not report an error bound for GPU-to-host timestamp interpolation'']
      else [])"

definition collection_event_counts :: "event list \<Rightarrow> nat \<times> nat" where
  "collection_event_counts events =
     (let host = length (filter (\<lambda>e. ev_source e = ES_Ebpf) events) in (host, length events - host))"

section \<open>Statistics\<close>

definition mean :: "nat \<Rightarrow> nat \<Rightarrow> f64" where
  "mean sum_ns n = ratio sum_ns n"

definition div_ceil :: "nat \<Rightarrow> nat \<Rightarrow> nat" where
  "div_ceil a b = (a + b - 1) div b"

text \<open>An index out of range is \<open>None\<close>, the panic of the source.\<close>

definition percentile :: "u64 list \<Rightarrow> nat \<Rightarrow> u64 option" where
  "percentile vals p = slice_get vals (div_ceil (p * length vals) 100 - 1)"

definition statistics :: "u64 list \<Rightarrow> latency_statistics option" where
  "statistics vals =
     (let vs = sort vals; sum_ns = sum_list (map unat vs)
      in case (slice_get vs 0, percentile vs 50, percentile vs 90, percentile vs 95,
               percentile vs 99, if vs = [] then None else Some (last vs)) of
           (Some mn, Some p50, Some p90, Some p95, Some p99, Some mx) \<Rightarrow>
             Some \<lparr>ls_min = mn, ls_mean = mean sum_ns (length vs), ls_p50 = p50, ls_p90 = p90,
                   ls_p95 = p95, ls_p99 = p99, ls_max = mx\<rparr>
         | _ \<Rightarrow> None)"

definition event_error :: "event \<Rightarrow> u64 option" where
  "event_error e =
     (if ev_clock_domain e = CD_CuptiNormalizedToHostMonotonic then ev_timestamp_error_ns e
      else Some (case ev_timestamp_error_ns e of None \<Rightarrow> 0 | Some x \<Rightarrow> x))"

fun try_fold_max :: "u64 \<Rightarrow> u64 option list \<Rightarrow> u64 option" where
  "try_fold_max maximum [] = Some maximum"
| "try_fold_max maximum (None # xs) = None"
| "try_fold_max maximum (Some x # xs) = try_fold_max (max maximum x) xs"

definition maximum_timestamp_error :: "pair_t list \<Rightarrow> u64 option" where
  "maximum_timestamp_error pairs =
     try_fold_max 0 (map event_error (concat (map (\<lambda>p. [pair_start p, pair_end p]) pairs)))"

fun clock_alignment :: "clock_domain \<Rightarrow> string" where
  "clock_alignment CD_HostMonotonic = ''host_monotonic''"
| "clock_alignment CD_Cupti = ''cupti_same_domain''"
| "clock_alignment CD_CuptiNormalizedToHostMonotonic = ''cupti_normalized_to_host_monotonic''"

section \<open>The measurement\<close>

definition select_events :: "'rx regex_engine \<Rightarrow> 'rx selector \<Rightarrow> event list \<Rightarrow> event list" where
  "select_events eng selector events = sort_key ts (filter (selector_matches eng selector) events)"

definition lifecycles_of :: "'rx selector \<Rightarrow> 'rx selector \<Rightarrow> lifecycle_kinds" where
  "lifecycles_of start_selector end_selector =
     \<lparr>lk_syscall = is_syscall_lifecycle start_selector end_selector,
      lk_nvtx = is_nvtx_lifecycle start_selector end_selector,
      lk_python_gc = is_python_gc_lifecycle start_selector end_selector\<rparr>"

definition measurement_result_of :: "event list \<Rightarrow> measure_options \<Rightarrow> lifecycle_kinds \<Rightarrow> clock_domain \<Rightarrow>
    event list \<Rightarrow> event list \<Rightarrow> outcome \<Rightarrow> latency_statistics \<Rightarrow> measurement_result" where
  "measurement_result_of events options lifecycles clock_domain starts ends out stats =
     (let matched = length (out_pairs out);
          denominator = matched + out_unmatched_start out + out_unmatched_end out + out_ambiguous out;
          (method, confidence) = correlation_metadata (mo_match_policy options) lifecycles;
          (host_events, cuda_events) = collection_event_counts events
      in \<lparr>mr_schema_version = schema_current,
          mr_ok = True,
          mr_session_id = mo_session_id options,
          mr_status = SS_Completed,
          mr_measurement =
            \<lparr>ms_name = mo_name options,
             ms_samples =
               \<lparr>sm_matched = matched, sm_unmatched_start = out_unmatched_start out,
                sm_unmatched_end = out_unmatched_end out, sm_ambiguous = out_ambiguous out,
                sm_dropped = mo_dropped_events options\<rparr>,
             ms_latency_ns = stats\<rparr>,
          mr_correlation =
            \<lparr>cs_method = method, cs_confidence = confidence, cs_score = ratio matched denominator\<rparr>,
          mr_clock =
            \<lparr>cq_alignment = clock_alignment clock_domain,
             cq_estimated_error_ns = maximum_timestamp_error (out_pairs out)\<rparr>,
          mr_collection =
            \<lparr>cl_completeness = CP_Complete, cl_host_events = host_events, cl_cuda_events = cuda_events,
             cl_dropped_events = mo_dropped_events options, cl_cupti = None\<rparr>,
          mr_evidence =
            map (\<lambda>p. \<lparr>me_start = pair_start p, me_end = pair_end p, me_latency_ns = pair_latency_ns p\<rparr>)
              (out_pairs out),
          mr_warnings = measurement_warnings options starts ends\<rparr>)"

definition measure ::
  "'rx regex_engine \<Rightarrow> event list \<Rightarrow> measure_options \<Rightarrow> (measurement_result, measure_error) rresult" where
  "measure eng events options =
     rbind (validate_options options) (\<lambda>_.
     if length events > mo_max_events options
     then Err (ME_EventLimitExceeded (length events) (mo_max_events options))
     else if mo_dropped_events options \<noteq> 0 then Err (ME_EventsDropped (mo_dropped_events options))
     else
       rbind (selector_parse eng (mo_start_selector options)) (\<lambda>start_selector.
       rbind (selector_parse eng (mo_end_selector options)) (\<lambda>end_selector.
       rbind (validate_policy start_selector end_selector (mo_match_policy options)) (\<lambda>_.
       let starts = select_events eng start_selector events;
           ends = select_events eng end_selector events
       in rbind (common_clock_domain starts ends) (\<lambda>clock_domain.
          rbind (apply_duration_window starts ends (mo_duration options)) (\<lambda>(starts, ends).
          let lifecycles = lifecycles_of start_selector end_selector
          in rbind (expect (correlate_selected starts ends (mo_match_policy options) (mo_samples options) lifecycles))
            (\<lambda>out.
               if out_pairs out = [] then Err ME_NoMatchedSamples
               else
                 rbind (expect (statistics (map pair_latency_ns (out_pairs out)))) (\<lambda>stats.
                 Ok (measurement_result_of events options lifecycles clock_domain starts ends out stats)))))))))"

section \<open>Lemmas: statistics\<close>

lemma sorted_rank:
  assumes "sorted vs" "i < length vs"
  shows "Suc i \<le> length (filter (\<lambda>x. x \<le> vs ! i) vs)" "length (filter (\<lambda>x. x < vs ! i) vs) \<le> i"
proof -
  have "\<forall>x\<in>set (take (Suc i) vs). x \<le> vs ! i"
    using assms by (auto simp: in_set_conv_nth sorted_nth_mono)
  then have "filter (\<lambda>x. x \<le> vs ! i) (take (Suc i) vs) = take (Suc i) vs" by (simp add: filter_id_conv)
  moreover have "filter (\<lambda>x. x \<le> vs ! i) vs =
      filter (\<lambda>x. x \<le> vs ! i) (take (Suc i) vs) @ filter (\<lambda>x. x \<le> vs ! i) (drop (Suc i) vs)"
    by (metis append_take_drop_id filter_append)
  ultimately show "Suc i \<le> length (filter (\<lambda>x. x \<le> vs ! i) vs)" using assms(2) by simp
  have "\<forall>x\<in>set (drop i vs). \<not> x < vs ! i"
    using assms by (auto simp: in_set_conv_nth not_less sorted_nth_mono)
  then have "filter (\<lambda>x. x < vs ! i) (drop i vs) = []" by (simp add: filter_empty_conv)
  moreover have "filter (\<lambda>x. x < vs ! i) vs =
      filter (\<lambda>x. x < vs ! i) (take i vs) @ filter (\<lambda>x. x < vs ! i) (drop i vs)"
    by (metis append_take_drop_id filter_append)
  ultimately show "length (filter (\<lambda>x. x < vs ! i) vs) \<le> i"
    using length_filter_le [of "\<lambda>x. x < vs ! i" "take i vs"] by simp
qed

lemma div_ceil_100:
  assumes "0 < p" "p \<le> 100" "0 < n"
  shows "p * n \<le> 100 * div_ceil (p * n) 100" "100 * (div_ceil (p * n) 100 - 1) < p * n"
    "0 < div_ceil (p * n) 100" "div_ceil (p * n) 100 \<le> n"
proof -
  define m where "m = p * n"
  have m: "0 < m" "m \<le> 100 * n" using assms by (simp_all add: m_def)
  define q where "q = div_ceil m 100"
  have "q = (m + 99) div 100" by (simp add: q_def div_ceil_def add.commute)
  then have "m + 99 = 100 * q + (m + 99) mod 100" by (metis mult_div_mod_eq)
  then have q: "m \<le> 100 * q" "100 * q < m + 100"
    using mod_less_divisor [of 100 "m + 99"] by linarith+
  show "p * n \<le> 100 * div_ceil (p * n) 100" "100 * (div_ceil (p * n) 100 - 1) < p * n"
    "0 < div_ceil (p * n) 100" "div_ceil (p * n) 100 \<le> n"
    using q m by (simp_all flip: m_def q_def)
qed

text \<open>The nearest-rank percentile: at least \<open>p\<close> percent of the values are at most the result, and
  fewer than \<open>p\<close> percent are below it.\<close>

definition nearest_rank :: "u64 list \<Rightarrow> nat \<Rightarrow> u64 \<Rightarrow> bool" where
  "nearest_rank vals p v \<longleftrightarrow> v \<in> set vals \<and>
     p * length vals \<le> 100 * length (filter (\<lambda>x. x \<le> v) vals) \<and>
     100 * length (filter (\<lambda>x. x < v) vals) < p * length vals"

lemma percentile_Some:
  assumes "vs \<noteq> []" "0 < p" "p \<le> 100"
  shows "percentile vs p = Some (vs ! (div_ceil (p * length vs) 100 - 1))"
    "div_ceil (p * length vs) 100 - 1 < length vs"
  using div_ceil_100 [of p "length vs"] assms by (auto simp: percentile_def slice_get_def)

lemma percentile_nearest_rank:
  assumes "sorted vs" "vs \<noteq> []" "0 < p" "p \<le> 100" "percentile vs p = Some v"
  shows "nearest_rank vs p v"
proof -
  let ?r = "div_ceil (p * length vs) 100"
  have v: "v = vs ! (?r - 1)" and r: "?r - 1 < length vs"
    using percentile_Some [OF assms(2-4)] assms(5) by simp_all
  have len: "0 < length vs" using assms(2) by simp
  note dc = div_ceil_100 [OF assms(3,4) len]
  note rank = sorted_rank [OF assms(1) r, folded v]
  have "100 * ?r \<le> 100 * length (filter (\<lambda>x. x \<le> v) vs)" using rank(1) dc(3) by simp
  moreover have "100 * length (filter (\<lambda>x. x < v) vs) \<le> 100 * (?r - 1)" using rank(2) by simp
  ultimately show ?thesis
    using dc(1,2) v r unfolding nearest_rank_def by (simp add: nth_mem)
qed

lemma percentile_mono:
  assumes "sorted vs" "vs \<noteq> []" "0 < p" "p \<le> q" "q \<le> 100" "percentile vs p = Some a" "percentile vs q = Some b"
  shows "a \<le> b"
proof -
  have "div_ceil (p * length vs) 100 \<le> div_ceil (q * length vs) 100"
    using assms(4) unfolding div_ceil_def by (intro div_le_mono diff_le_mono add_le_mono mult_le_mono) simp_all
  then show ?thesis
    using percentile_Some [OF assms(2), of p] percentile_Some [OF assms(2), of q] assms
    by (simp add: sorted_nth_mono diff_le_mono)
qed

lemma nearest_rank_mset: "mset xs = mset ys \<Longrightarrow> nearest_rank xs p v = nearest_rank ys p v"
  unfolding nearest_rank_def by (metis mset_filter set_mset_mset size_mset)

lemma statistics_Some:
  assumes "vals \<noteq> []"
  shows "\<exists>st. statistics vals = Some st"
  using percentile_Some(1) [of "sort vals"] assms
  by (simp add: statistics_def Let_def slice_get_def) (metis set_empty set_sort)

lemma statistics_fields:
  assumes "statistics vals = Some st"
  shows "vals \<noteq> []" "ls_min st = sort vals ! 0" "ls_max st = last (sort vals)"
    "percentile (sort vals) 50 = Some (ls_p50 st)" "percentile (sort vals) 90 = Some (ls_p90 st)"
    "percentile (sort vals) 95 = Some (ls_p95 st)" "percentile (sort vals) 99 = Some (ls_p99 st)"
  using assms by (auto simp: statistics_def Let_def split: option.splits if_splits)

lemma statistics_ordered:
  assumes "statistics vals = Some st"
  shows "ls_min st \<le> ls_p50 st" "ls_p50 st \<le> ls_p90 st" "ls_p90 st \<le> ls_p95 st" "ls_p95 st \<le> ls_p99 st"
    "ls_p99 st \<le> ls_max st"
    "nearest_rank vals 50 (ls_p50 st)" "nearest_rank vals 90 (ls_p90 st)"
    "nearest_rank vals 95 (ls_p95 st)" "nearest_rank vals 99 (ls_p99 st)"
    "ls_min st \<in> set vals" "ls_max st \<in> set vals"
    "\<And>x. x \<in> set vals \<Longrightarrow> ls_min st \<le> x \<and> x \<le> ls_max st"
proof -
  note f = statistics_fields [OF assms]
  have ne: "sort vals \<noteq> []" using f(1) by (metis set_empty set_sort)
  note pmono = percentile_mono [OF sorted_sort ne]
  show "ls_p50 st \<le> ls_p90 st" "ls_p90 st \<le> ls_p95 st" "ls_p95 st \<le> ls_p99 st"
    using pmono [OF _ _ _ f(4) f(5)] pmono [OF _ _ _ f(5) f(6)] pmono [OF _ _ _ f(6) f(7)] by simp_all
  have rank: "percentile (sort vals) p = Some v \<Longrightarrow> 0 < p \<Longrightarrow> p \<le> 100 \<Longrightarrow> nearest_rank vals p v" for p v
    using percentile_nearest_rank [OF sorted_sort ne] nearest_rank_mset [of "sort vals" vals] by simp
  show ranks: "nearest_rank vals 50 (ls_p50 st)" "nearest_rank vals 90 (ls_p90 st)"
    "nearest_rank vals 95 (ls_p95 st)" "nearest_rank vals 99 (ls_p99 st)"
    using rank [OF f(4)] rank [OF f(5)] rank [OF f(6)] rank [OF f(7)] by simp_all
  show mem: "ls_min st \<in> set vals" "ls_max st \<in> set vals"
    using f(2,3) ne by (metis length_greater_0_conv nth_mem set_sort, metis last_in_set set_sort)
  show bounds: "\<And>x. x \<in> set vals \<Longrightarrow> ls_min st \<le> x \<and> x \<le> ls_max st"
  proof -
    fix x assume "x \<in> set vals"
    then obtain i where i: "i < length (sort vals)" "x = sort vals ! i" by (metis in_set_conv_nth set_sort)
    have "last (sort vals) = sort vals ! (length (sort vals) - 1)" using ne by (rule last_conv_nth)
    then show "ls_min st \<le> x \<and> x \<le> ls_max st"
      using f(2,3) i sorted_nth_mono [OF sorted_sort, of 0 i vals]
        sorted_nth_mono [OF sorted_sort, of i "length vals - 1" vals] by simp
  qed
  show "ls_min st \<le> ls_p50 st" "ls_p99 st \<le> ls_max st"
    using bounds ranks by (simp_all add: nearest_rank_def)
qed

section \<open>Lemmas: window, clocks, errors\<close>

lemma clock_loop_Ok: "clock_loop first es b = Ok r \<longleftrightarrow>
    (\<forall>e\<in>set es. clock_group (ev_clock_domain e) = clock_group first) \<and>
    (r \<longleftrightarrow> b \<or> (\<exists>e\<in>set es. ev_clock_domain e = CD_CuptiNormalizedToHostMonotonic))"
  by (induction es arbitrary: b) auto

lemma clock_loop_no_panic: "clock_loop first es b \<noteq> Panic"
  by (induction es arbitrary: b) auto

lemma common_clock_domain_Ok:
  assumes "common_clock_domain starts ends = Ok d" "e \<in> set (starts @ ends)"
  shows "clock_group (ev_clock_domain e) = clock_group d"
proof (cases "starts @ ends")
  case Nil
  then show ?thesis using assms(2) by simp
next
  case (Cons f rest)
  then obtain b where b: "clock_loop (ev_clock_domain f) rest
      (ev_clock_domain f = CD_CuptiNormalizedToHostMonotonic) = Ok b"
    and d: "d = (if clock_group (ev_clock_domain f) = 1 then CD_Cupti
      else if b then CD_CuptiNormalizedToHostMonotonic else CD_HostMonotonic)"
    using assms(1) by (auto simp: common_clock_domain_def rust_simps)
  have "clock_group d = clock_group (ev_clock_domain f)"
    by (cases "ev_clock_domain f") (simp_all add: d)
  then show ?thesis using b assms(2) by (auto simp: Cons clock_loop_Ok)
qed

lemma common_clock_domain_no_panic: "common_clock_domain starts ends \<noteq> Panic"
  by (auto simp: common_clock_domain_def rust_simps clock_loop_no_panic split: list.split)

lemma duration_window_no_panic: "apply_duration_window starts ends d \<noteq> Panic"
  by (auto simp: apply_duration_window_def rust_simps split: option.split list.split)

text \<open>The window keeps the events up to its end, which is no more than the duration after the first.\<close>

lemma first_timestamp_min:
  assumes "sorted_events starts" "sorted_events ends" "map ts (take 1 starts @ take 1 ends) = t # ts'"
    and "x \<in> set (starts @ ends)"
  shows "foldl min t ts' \<le> ts x"
  using assms by (cases starts; cases ends) (auto simp: sorted_events_def min_le_iff_disj)

lemma duration_window_Ok:
  assumes "apply_duration_window starts ends d = Ok (starts', ends')"
    and sorted: "sorted_events starts" "sorted_events ends"
  obtains P where "starts' = filter P starts" "ends' = filter P ends"
    "\<forall>n. d = Some n \<longrightarrow> (\<forall>x\<in>set (starts @ ends). \<forall>y\<in>set (starts' @ ends'). unat (ts y) \<le> unat (ts x) + n)"
proof (cases d)
  case None
  then show ?thesis using assms that [of "\<lambda>_. True"] by (simp add: apply_duration_window_def)
next
  case (Some n)
  show ?thesis
  proof (cases "map ts (take 1 starts @ take 1 ends)")
    case Nil
    then have "starts = []" "ends = []" by (cases starts; cases ends; simp)+
    then show ?thesis using assms Some that [of "\<lambda>_. True"] by (simp add: apply_duration_window_def)
  next
    case (Cons t ts')
    from assms Some Cons obtain w limit where w: "u64_try_from n = Some w"
      "checked_add (foldl min t ts') w = Some limit"
      "starts' = filter (\<lambda>e. ts e \<le> limit) starts" "ends' = filter (\<lambda>e. ts e \<le> limit) ends"
      by (auto simp: apply_duration_window_def rust_simps)
    have n: "unat w = n" using w(1) by (auto simp: u64_try_from_def unat_of_nat split: if_splits)
    show ?thesis
    proof (rule that [OF w(3,4)], intro allI impI ballI)
      fix n' x y
      assume "d = Some n'" and x: "x \<in> set (starts @ ends)" and y: "y \<in> set (starts' @ ends')"
      have "unat (ts y) \<le> unat limit" using y w(3,4) by (auto simp: word_le_nat_alt)
      also have "unat limit = unat (foldl min t ts') + n" using conjunct2 [OF checked_add_SomeD [OF w(2)]] n by simp
      also have "unat (foldl min t ts') \<le> unat (ts x)"
        using first_timestamp_min [OF sorted Cons x] by (simp add: word_le_nat_alt)
      finally show "unat (ts y) \<le> unat (ts x) + n'" using \<open>d = Some n'\<close> Some by simp
    qed
  qed
qed

lemma try_fold_max_Some:
  "try_fold_max m xs = Some r \<Longrightarrow> m \<le> r \<and> (\<forall>x\<in>set xs. \<exists>v. x = Some v \<and> v \<le> r) \<and> (r = m \<or> Some r \<in> set xs)"
  by (induction m xs rule: try_fold_max.induct) (auto simp: max_def split: if_splits)

lemma try_fold_max_None: "try_fold_max m xs = None \<longleftrightarrow> None \<in> set xs"
  by (induction m xs rule: try_fold_max.induct) auto

lemma fold_error_bound:
  assumes "try_fold_max 0 (map event_error es) = Some b" "e \<in> set es" "ev_timestamp_error_ns e = Some x"
  shows "x \<le> b"
proof -
  have "event_error e = Some x" using assms(3) by (simp add: event_error_def)
  then show ?thesis using try_fold_max_Some [OF assms(1)] assms(2) by fastforce
qed

lemma fold_error_None:
  "try_fold_max 0 (map event_error es) = None \<longleftrightarrow>
     (\<exists>e\<in>set es. ev_clock_domain e = CD_CuptiNormalizedToHostMonotonic \<and> ev_timestamp_error_ns e = None)"
  unfolding try_fold_max_None by (force simp: event_error_def split: if_splits)

section \<open>Lemmas: the measurement\<close>

lemma select_events_sorted: "sorted_events (select_events eng sel events)"
  using sorted_sort_key [of ts] by (simp add: select_events_def sorted_events_def)

lemma mset_select_events: "mset (select_events eng sel events) = mset (filter (selector_matches eng sel) events)"
  by (simp add: select_events_def)

lemma sorted_events_filter: "sorted_events es \<Longrightarrow> sorted_events (filter P es)"
  by (simp add: sorted_events_def sorted_filter)

lemma measure_Ok:
  assumes "measure eng events options = Ok r"
  obtains ssel esel domain starts ends out stats where
    "validate_options options = Ok ()" "length events \<le> mo_max_events options" "mo_dropped_events options = 0"
    "selector_parse eng (mo_start_selector options) = Ok ssel"
    "selector_parse eng (mo_end_selector options) = Ok esel"
    "validate_policy ssel esel (mo_match_policy options) = Ok ()"
    "common_clock_domain (select_events eng ssel events) (select_events eng esel events) = Ok domain"
    "apply_duration_window (select_events eng ssel events) (select_events eng esel events)
       (mo_duration options) = Ok (starts, ends)"
    "correlate_selected starts ends (mo_match_policy options) (mo_samples options)
       (lifecycles_of ssel esel) = Some out"
    "out_pairs out \<noteq> []" "statistics (map pair_latency_ns (out_pairs out)) = Some stats"
    "r = measurement_result_of events options (lifecycles_of ssel esel) domain starts ends out stats"
  using assms by (auto simp: measure_def Let_def rust_simps split: if_splits)

text \<open>What a successful measurement gives: the two slices are sorted selections of the capture, and the
  outcome keeps the contract of its policy.\<close>

lemma measure_outcome:
  assumes "measure eng events options = Ok r"
  obtains ssel esel domain starts ends out stats where
    "selector_parse eng (mo_start_selector options) = Ok ssel"
    "selector_parse eng (mo_end_selector options) = Ok esel"
    "sorted_events starts" "sorted_events ends"
    "mset starts \<subseteq># mset (filter (selector_matches eng ssel) events)"
    "mset ends \<subseteq># mset (filter (selector_matches eng esel) events)"
    "\<And>e. e \<in> set (starts @ ends) \<Longrightarrow> clock_group (ev_clock_domain e) = clock_group domain"
    "\<And>n x y. mo_duration options = Some n \<Longrightarrow> x \<in> set (starts @ ends) \<Longrightarrow> y \<in> set (starts @ ends) \<Longrightarrow>
       unat (ts y) \<le> unat (ts x) + n"
    "correlate_selected starts ends (mo_match_policy options) (mo_samples options)
       (lifecycles_of ssel esel) = Some out"
    "outcome_ok starts ends (mo_samples options) out"
    "out_pairs out \<noteq> []" "statistics (map pair_latency_ns (out_pairs out)) = Some stats"
    "mo_dropped_events options = 0" "length events \<le> mo_max_events options"
    "r = measurement_result_of events options (lifecycles_of ssel esel) domain starts ends out stats"
proof (rule measure_Ok [OF assms])
  fix ssel esel domain starts ends out stats
  let ?s = "select_events eng ssel events" and ?e = "select_events eng esel events"
  assume m: "length events \<le> mo_max_events options" "mo_dropped_events options = 0"
    "selector_parse eng (mo_start_selector options) = Ok ssel"
    "selector_parse eng (mo_end_selector options) = Ok esel"
    "common_clock_domain ?s ?e = Ok domain"
    "apply_duration_window ?s ?e (mo_duration options) = Ok (starts, ends)"
    "correlate_selected starts ends (mo_match_policy options) (mo_samples options)
       (lifecycles_of ssel esel) = Some out"
    "out_pairs out \<noteq> []" "statistics (map pair_latency_ns (out_pairs out)) = Some stats"
    "r = measurement_result_of events options (lifecycles_of ssel esel) domain starts ends out stats"
  obtain P where P: "starts = filter P ?s" "ends = filter P ?e"
    and window: "\<forall>n. mo_duration options = Some n \<longrightarrow>
       (\<forall>x\<in>set (?s @ ?e). \<forall>y\<in>set (starts @ ends). unat (ts y) \<le> unat (ts x) + n)"
    by (rule duration_window_Ok [OF m(6) select_events_sorted select_events_sorted])
  have sorted: "sorted_events starts" "sorted_events ends"
    by (simp_all add: P sorted_events_filter select_events_sorted)
  have sub: "set (starts @ ends) \<subseteq> set (?s @ ?e)" by (auto simp: P)
  have "mset starts \<subseteq># mset (filter (selector_matches eng ssel) events)"
    "mset ends \<subseteq># mset (filter (selector_matches eng esel) events)"
    by (simp_all add: P mset_select_events multiset_filter_subset)
  moreover have "clock_group (ev_clock_domain e) = clock_group domain" if "e \<in> set (starts @ ends)" for e
    using common_clock_domain_Ok [OF m(5)] sub that by blast
  moreover have "unat (ts y) \<le> unat (ts x) + n"
    if "mo_duration options = Some n" "x \<in> set (starts @ ends)" "y \<in> set (starts @ ends)" for n x y
    using window sub that by blast
  ultimately show thesis
    using that [OF m(3,4) sorted _ _ _ _ m(7) cs.contract [OF sorted m(7)] m(8,9,2,1,10)] by blast
qed

lemma mset_subset_filter: "mset xs \<subseteq># mset (filter P ys) \<Longrightarrow> x \<in> set xs \<Longrightarrow> x \<in> set ys \<and> P x"
  using mset_subset_set [of id xs "filter P ys" x] by simp

lemma measurement_result_fields [simp]:
  "mr_evidence (measurement_result_of events options lk domain starts ends out stats) =
     map (\<lambda>p. \<lparr>me_start = pair_start p, me_end = pair_end p, me_latency_ns = pair_latency_ns p\<rparr>) (out_pairs out)"
  "ms_latency_ns (mr_measurement (measurement_result_of events options lk domain starts ends out stats)) = stats"
  "ms_samples (mr_measurement (measurement_result_of events options lk domain starts ends out stats)) =
     \<lparr>sm_matched = length (out_pairs out), sm_unmatched_start = out_unmatched_start out,
      sm_unmatched_end = out_unmatched_end out, sm_ambiguous = out_ambiguous out,
      sm_dropped = mo_dropped_events options\<rparr>"
  "cs_score (mr_correlation (measurement_result_of events options lk domain starts ends out stats)) =
     ratio (length (out_pairs out))
       (length (out_pairs out) + out_unmatched_start out + out_unmatched_end out + out_ambiguous out)"
  "cq_estimated_error_ns (mr_clock (measurement_result_of events options lk domain starts ends out stats)) =
     maximum_timestamp_error (out_pairs out)"
  by (simp_all add: measurement_result_of_def Let_def split_def)

section \<open>Example capture\<close>

definition example_engine :: "string regex_engine" where
  "example_engine = \<lparr>rx_new = (\<lambda>pattern. Inr pattern), rx_is_match = (\<lambda>_ _. True)\<rparr>"

definition example_memset :: "event_type \<Rightarrow> u32 \<Rightarrow> u64 \<Rightarrow> event" where
  "example_memset event_type correlation timestamp =
     (example_activity 1 7 correlation timestamp)\<lparr>ev_event_type := event_type, ev_clock_domain := CD_Cupti\<rparr>"

definition example_events :: "event list" where
  "example_events = [example_memset ET_GpuMemsetStart 5 10, example_memset ET_GpuMemsetEnd 5 25]"

definition example_options :: measure_options where
  "example_options =
     \<lparr>mo_session_id = ''s'', mo_name = None, mo_start_selector = ''cuda:memset_start'',
      mo_end_selector = ''cuda:memset_end'', mo_match_policy = MP_StreamOrder, mo_samples = Some 4,
      mo_duration = Some 100, mo_max_events = 10, mo_dropped_events = 0\<rparr>"

lemma example_memset_simps [simp]:
  "ts (example_memset event_type c t) = t" "ev_event_type (example_memset event_type c t) = event_type"
  "ev_clock_domain (example_memset event_type c t) = CD_Cupti"
  "stream_key (example_memset event_type c t) = Some (1, 0, 1, 7)"
  by (simp_all add: example_memset_def) (simp add: stream_key_def example_activity_def)

lemma example_selectors:
  "selector_parse example_engine ''cuda:memset_start'' = Ok (S_Memset ET_GpuMemsetStart)"
  "selector_parse example_engine ''cuda:memset_end'' = Ok (S_Memset ET_GpuMemsetEnd)"
  by code_simp+

lemma example_outcome:
  "correlate_stream_order [example_memset ET_GpuMemsetStart 5 10] [example_memset ET_GpuMemsetEnd 5 25] (Some 4) =
     \<lparr>out_pairs = [mk_pair (example_memset ET_GpuMemsetStart 5 10) (example_memset ET_GpuMemsetEnd 5 25) 15],
      out_unmatched_start = 0, out_unmatched_end = 0, out_ambiguous = 0\<rparr>"
  by (simp add: correlate_stream_order_def bt_push_def push_bucket_def bt_get_def bt_remove_def
      truncate_pairs_def sort_pairs_def bucket_total_def outcome_empty_def)

lemma example_measure: "\<exists>r. measure example_engine example_events example_options = Ok r"
  using statistics_Some [of "[15]"]
  by (auto simp: measure_def example_options_def example_events_def validate_options_def example_selectors
      select_events_def validate_policy_def common_clock_domain_def apply_duration_window_def u64_try_from_def
      ok_or_def checked_add_def correlate_selected_def expect_def example_outcome Let_def)

section \<open>Properties\<close>




text \<open>C3: the latency statistics are those of the evidence: the minimum and the maximum are attained and
  bound every latency, the percentiles are nearest-rank percentiles of the latencies, and they are
  ordered between the minimum and the maximum.\<close>

theorem measure_statistics:
  assumes "measure eng events options = Ok r"
  shows "let ls = map me_latency_ns (mr_evidence r); st = ms_latency_ns (mr_measurement r)
   in ls_min st \<in> set ls \<and> ls_max st \<in> set ls \<and> (\<forall>l\<in>set ls. ls_min st \<le> l \<and> l \<le> ls_max st) \<and>
      nearest_rank ls 50 (ls_p50 st) \<and> nearest_rank ls 90 (ls_p90 st) \<and>
      nearest_rank ls 95 (ls_p95 st) \<and> nearest_rank ls 99 (ls_p99 st) \<and>
      ls_min st \<le> ls_p50 st \<and> ls_p50 st \<le> ls_p90 st \<and> ls_p90 st \<le> ls_p95 st \<and>
      ls_p95 st \<le> ls_p99 st \<and> ls_p99 st \<le> ls_max st"
proof (rule measure_outcome [OF assms])
  fix ssel esel domain starts ends out stats
  assume st: "statistics (map pair_latency_ns (out_pairs out)) = Some stats"
    and r: "r = measurement_result_of events options (lifecycles_of ssel esel) domain starts ends out stats"
  have "map me_latency_ns (mr_evidence r) = map pair_latency_ns (out_pairs out)" by (simp add: r comp_def)
  moreover have "ms_latency_ns (mr_measurement r) = stats" by (simp add: r)
  ultimately show ?thesis
    unfolding Let_def using statistics_ordered [OF st] by metis
qed

theorem measure_statistics_witness:
  "\<exists>r. measure example_engine example_events example_options = Ok r \<and>
     ls_p50 (ms_latency_ns (mr_measurement r)) \<le> ls_max (ms_latency_ns (mr_measurement r))"
  using example_measure measure_statistics [of example_engine example_events example_options]
  by (fastforce simp: Let_def)

text \<open>C10: the sample counters of a measurement are consistent: the matched count is the length of the
  evidence, positive and within the requested number of samples, matched and unmatched samples together
  never exceed twice the event limit, nothing was dropped, and the score is a finite number in (0, 1].\<close>

theorem measure_counters:
  assumes "measure eng events options = Ok r"
  shows "let sm = ms_samples (mr_measurement r)
   in sm_matched sm = length (mr_evidence r) \<and> 0 < sm_matched sm \<and> sm_dropped sm = 0 \<and>
      (\<forall>n. mo_samples options = Some n \<longrightarrow> sm_matched sm \<le> n) \<and>
      sm_matched sm + sm_unmatched_start sm + sm_unmatched_end sm + sm_ambiguous sm
        \<le> 2 * mo_max_events options \<and>
      (\<exists>q. cs_score (mr_correlation r) = F64_Fin q \<and> 0 < q \<and> q \<le> 1)"
proof (rule measure_outcome [OF assms])
  fix ssel esel domain starts ends out stats
  assume sorted: "sorted_events starts" "sorted_events ends"
    and sub: "mset starts \<subseteq># mset (filter (selector_matches eng ssel) events)"
      "mset ends \<subseteq># mset (filter (selector_matches eng esel) events)"
    and out: "correlate_selected starts ends (mo_match_policy options) (mo_samples options)
       (lifecycles_of ssel esel) = Some out" "outcome_ok starts ends (mo_samples options) out"
       "out_pairs out \<noteq> []"
    and bounds: "mo_dropped_events options = 0" "length events \<le> mo_max_events options"
    and r: "r = measurement_result_of events options (lifecycles_of ssel esel) domain starts ends out stats"
  have "length starts \<le> length events" "length ends \<le> length events"
    using size_mset_mono [OF sub(1)] size_mset_mono [OF sub(2)] length_filter_le order_trans
    unfolding size_mset by blast+
  then have "length (out_pairs out) + out_unmatched_start out + out_unmatched_end out + out_ambiguous out
      \<le> 2 * mo_max_events options"
    using out(2) bounds(2) by (simp add: outcome_ok_def)
  then show ?thesis
    using cs.score_unit_interval [OF sorted out(1,3) refl] out(2,3) bounds(1)
    by (auto simp: r outcome_ok_def Let_def)
qed

theorem measure_counters_witness:
  "\<exists>r. measure example_engine example_events example_options = Ok r \<and>
     0 < sm_matched (ms_samples (mr_measurement r)) \<and> sm_matched (ms_samples (mr_measurement r)) \<le> 4"
  using example_measure measure_counters [of example_engine example_events example_options]
  by (fastforce simp: Let_def example_options_def)

text \<open>C11: with a duration limit, all the timestamps of the evidence lie in one window of that length,
  computed without wrap-around.\<close>

theorem measure_window:
  assumes "measure eng events options = Ok r" and "mo_duration options = Some n"
    and "p \<in> set (mr_evidence r)" "q \<in> set (mr_evidence r)"
    and "x \<in> {me_start p, me_end p}" "y \<in> {me_start q, me_end q}"
  shows "unat (ts y) \<le> unat (ts x) + n"
proof (rule measure_outcome [OF assms(1)])
  fix ssel esel domain starts ends out stats
  assume sorted: "sorted_events starts" "sorted_events ends"
    and window: "\<And>n x y. mo_duration options = Some n \<Longrightarrow> x \<in> set (starts @ ends) \<Longrightarrow> y \<in> set (starts @ ends) \<Longrightarrow>
       unat (ts y) \<le> unat (ts x) + n"
    and out: "correlate_selected starts ends (mo_match_policy options) (mo_samples options)
       (lifecycles_of ssel esel) = Some out"
    and r: "r = measurement_result_of events options (lifecycles_of ssel esel) domain starts ends out stats"
  have "x \<in> set (starts @ ends)" "y \<in> set (starts @ ends)"
    using cs.evidence_from_slices [OF sorted out] assms(3-6) by (auto simp: r)
  then show ?thesis by (rule window [OF assms(2)])
qed

theorem measure_window_witness:
  "\<exists>r p. measure example_engine example_events example_options = Ok r \<and> p \<in> set (mr_evidence r) \<and>
     unat (ts (me_end p)) \<le> unat (ts (me_start p)) + 100"
proof -
  obtain r where r: "measure example_engine example_events example_options = Ok r" using example_measure by blast
  have "mr_evidence r \<noteq> []" by (rule measure_outcome [OF r]) simp
  then obtain p where p: "p \<in> set (mr_evidence r)" by (cases "mr_evidence r") auto
  have "unat (ts (me_end p)) \<le> unat (ts (me_start p)) + 100"
    using measure_window [OF r _ p p, of 100 "me_start p" "me_end p"] by (simp add: example_options_def)
  then show ?thesis using r p by blast
qed

text \<open>C12: a measurement fails closed: with valid options, a capture over the event limit or with
  dropped events is an error with its own code, and never a result.\<close>

theorem measure_fails_closed:
  assumes "validate_options options = Ok ()"
    and "mo_max_events options < length events \<or> mo_dropped_events options \<noteq> 0"
  shows "\<exists>err. measure eng events options = Err err \<and>
    measure_error_code err =
      (if mo_max_events options < length events then EC_EventRateTooHigh else EC_EventsDropped)"
  using assms by (auto simp: measure_def)

theorem measure_fails_closed_witness:
  "\<exists>err. measure example_engine example_events (example_options\<lparr>mo_dropped_events := 1\<rparr>) = Err err \<and>
     measure_error_code err = EC_EventsDropped"
  using measure_fails_closed [of "example_options\<lparr>mo_dropped_events := 1\<rparr>" example_events example_engine]
  by (simp add: example_options_def example_events_def validate_options_def)

text \<open>C13: the reported clock error is a bound: when it is given, it is at least the timestamp error of
  every event of the evidence, and it is withheld exactly when some normalized CUPTI timestamp of the
  evidence has no error estimate.\<close>

theorem measure_clock_error:
  assumes "measure eng events options = Ok r"
  shows "let es = concat (map (\<lambda>m. [me_start m, me_end m]) (mr_evidence r))
   in (\<forall>b. cq_estimated_error_ns (mr_clock r) = Some b \<longrightarrow>
         (\<forall>e\<in>set es. \<forall>x. ev_timestamp_error_ns e = Some x \<longrightarrow> x \<le> b)) \<and>
      (cq_estimated_error_ns (mr_clock r) = None \<longleftrightarrow>
         (\<exists>e\<in>set es. ev_clock_domain e = CD_CuptiNormalizedToHostMonotonic \<and> ev_timestamp_error_ns e = None))"
proof (rule measure_outcome [OF assms])
  fix ssel esel domain starts ends out stats
  assume r: "r = measurement_result_of events options (lifecycles_of ssel esel) domain starts ends out stats"
  let ?es = "concat (map (\<lambda>p. [pair_start p, pair_end p]) (out_pairs out))"
  have es: "concat (map (\<lambda>m. [me_start m, me_end m]) (mr_evidence r)) = ?es" by (simp add: r comp_def)
  have err: "cq_estimated_error_ns (mr_clock r) = try_fold_max 0 (map event_error ?es)"
    by (simp add: r maximum_timestamp_error_def)
  show ?thesis unfolding Let_def es err using fold_error_bound [of ?es] fold_error_None [of ?es] by blast
qed

theorem measure_clock_error_witness:
  "\<exists>r. measure example_engine example_events example_options = Ok r \<and>
     (cq_estimated_error_ns (mr_clock r) = None \<longleftrightarrow>
       (\<exists>e\<in>set (concat (map (\<lambda>m. [me_start m, me_end m]) (mr_evidence r))).
          ev_clock_domain e = CD_CuptiNormalizedToHostMonotonic \<and> ev_timestamp_error_ns e = None))"
  using example_measure measure_clock_error [of example_engine example_events example_options]
  unfolding Let_def by blast

end
