(* ===== verification/Bytes.thy ===== *)
theory Bytes
  imports Protocol
begin

text \<open>
  Byte buffers: slices, little-endian fields, in-place writes, chunks and UTF-8 validity, the parts of
  the Rust standard library that the binary protocols use. An index out of range is a \<open>Panic\<close>.
\<close>

section \<open>Definitions\<close>

type_synonym bytes = "u8 list"

definition slice :: "'a list \<Rightarrow> nat \<Rightarrow> nat \<Rightarrow> ('a list, 'e) rresult" where
  "slice xs a b = (if a \<le> b \<and> b \<le> length xs then Ok (take (b - a) (drop a xs)) else Panic)"

text \<open>\<open>from_le_bytes\<close> and \<open>to_le_bytes\<close>; the native order of the supported hosts is little endian.\<close>

fun le_nat :: "bytes \<Rightarrow> nat" where
  "le_nat [] = 0"
| "le_nat (b # bs) = unat b + 256 * le_nat bs"

fun le_bytes :: "nat \<Rightarrow> nat \<Rightarrow> bytes" where
  "le_bytes 0 v = []"
| "le_bytes (Suc n) v = of_nat v # le_bytes n (v div 256)"

definition u32_bytes :: "u32 \<Rightarrow> bytes" where
  "u32_bytes w = le_bytes 4 (unat w)"

definition u64_bytes :: "u64 \<Rightarrow> bytes" where
  "u64_bytes w = le_bytes 8 (unat w)"

definition read_u32 :: "bytes \<Rightarrow> nat \<Rightarrow> (u32, 'e) rresult" where
  "read_u32 bs offset = rbind (slice bs offset (offset + 4)) (\<lambda>field. Ok (of_nat (le_nat field)))"

definition read_u64 :: "bytes \<Rightarrow> nat \<Rightarrow> (u64, 'e) rresult" where
  "read_u64 bs offset = rbind (slice bs offset (offset + 8)) (\<lambda>field. Ok (of_nat (le_nat field)))"

text \<open>\<open>dst[offset..offset + src.len()].copy_from_slice(src)\<close>.\<close>

definition copy_at :: "nat \<Rightarrow> 'a list \<Rightarrow> 'a list \<Rightarrow> ('a list, 'e) rresult" where
  "copy_at offset src dst =
     (if offset + length src \<le> length dst
      then Ok (take offset dst @ src @ drop (offset + length src) dst) else Panic)"

text \<open>\<open>chunks_exact(n)\<close>: a remainder shorter than \<open>n\<close> is dropped.\<close>

function chunks_exact :: "nat \<Rightarrow> 'a list \<Rightarrow> 'a list list" where
  "chunks_exact n xs =
     (if n = 0 \<or> length xs < n then [] else take n xs # chunks_exact n (drop n xs))"
  by pat_completeness auto
termination
  by (relation "measure (\<lambda>(n, xs). length xs)") auto

text \<open>A name field: the bytes before the first zero byte, or all of them.\<close>

definition name_length :: "bytes \<Rightarrow> nat" where
  "name_length bs = length (takeWhile (\<lambda>b. b \<noteq> 0) bs)"

definition bytes_of_string :: "string \<Rightarrow> bytes" where
  "bytes_of_string s = map (\<lambda>c. of_nat (of_char c)) s"

definition string_of_bytes :: "bytes \<Rightarrow> string" where
  "string_of_bytes bs = map (\<lambda>b. char_of (unat b)) bs"

text \<open>\<open>str::from_utf8\<close>: the well-formed byte sequences of the Unicode standard.\<close>

definition in_range :: "nat \<Rightarrow> nat \<Rightarrow> u8 \<Rightarrow> bool" where
  "in_range lo hi b \<longleftrightarrow> lo \<le> unat b \<and> unat b \<le> hi"

abbreviation cont :: "u8 \<Rightarrow> bool" where
  "cont \<equiv> in_range 0x80 0xBF"

fun utf8_valid :: "bytes \<Rightarrow> bool" where
  "utf8_valid [] = True"
| "utf8_valid (b # rest) =
     (if in_range 0 0x7F b then utf8_valid rest
      else if in_range 0xC2 0xDF b then
        (case rest of c # r \<Rightarrow> cont c \<and> utf8_valid r | _ \<Rightarrow> False)
      else if in_range 0xE0 0xEF b then
        (case rest of
           c # d # r \<Rightarrow>
             in_range (if b = 0xE0 then 0xA0 else 0x80) (if b = 0xED then 0x9F else 0xBF) c \<and> cont d \<and>
             utf8_valid r
         | _ \<Rightarrow> False)
      else if in_range 0xF0 0xF4 b then
        (case rest of
           c # d # e # r \<Rightarrow>
             in_range (if b = 0xF0 then 0x90 else 0x80) (if b = 0xF4 then 0x8F else 0xBF) c \<and> cont d \<and> cont e \<and>
             utf8_valid r
         | _ \<Rightarrow> False)
      else False)"

definition from_utf8 :: "bytes \<Rightarrow> string option" where
  "from_utf8 bs = (if utf8_valid bs then Some (string_of_bytes bs) else None)"

section \<open>Lemmas\<close>

declare chunks_exact.simps [simp del]

lemma unat_bound: "unat (w :: 'a::len word) < 2 ^ LENGTH('a)"
  by (rule unsigned_less)

lemma length_le_bytes [simp]: "length (le_bytes n v) = n"
  by (induction n v rule: le_bytes.induct) auto

lemma unat_u8_of_nat: "unat (of_nat v :: u8) = v mod 256"
  by (simp add: unat_of_nat)

lemma le_nat_le_bytes: "le_nat (le_bytes n v) = v mod 256 ^ n"
proof (induction n v rule: le_bytes.induct)
  case (2 n v)
  have "v mod 256 ^ Suc n = v mod 256 + 256 * (v div 256 mod 256 ^ n)"
    by (simp add: mod_mult2_eq)
  then show ?case using 2 by (simp add: unat_u8_of_nat)
qed simp

lemma le_nat_bound: "le_nat bs < 256 ^ length bs"
proof (induction bs)
  case (Cons b bs)
  have "unat b < 256" using unat_bound [of b] by simp
  then show ?case using Cons by simp
qed simp

lemma u32_round_trip: "of_nat (le_nat (u32_bytes w)) = w"
  using unat_bound [of w] by (simp add: u32_bytes_def le_nat_le_bytes)

lemma u64_round_trip: "of_nat (le_nat (u64_bytes w)) = w"
  using unat_bound [of w] by (simp add: u64_bytes_def le_nat_le_bytes)

lemma length_field_bytes [simp]: "length (u32_bytes v) = 4" "length (u64_bytes w) = 8"
  by (simp_all add: u32_bytes_def u64_bytes_def)

lemma read_in_range:
  "offset + 4 \<le> length bs \<Longrightarrow> read_u32 bs offset = Ok (of_nat (le_nat (take 4 (drop offset bs))))"
  "offset + 8 \<le> length bs \<Longrightarrow> read_u64 bs offset = Ok (of_nat (le_nat (take 8 (drop offset bs))))"
  by (simp_all add: read_u32_def read_u64_def slice_def)

lemma copy_at_Ok [simp]: "copy_at offset src dst = Ok out \<Longrightarrow> length out = length dst"
  by (auto simp: copy_at_def split: if_splits)

lemma chunks_exact_append:
  "length c = n \<Longrightarrow> 0 < n \<Longrightarrow> chunks_exact n (c @ xs) = c # chunks_exact n xs"
  by (subst chunks_exact.simps) simp

lemma chunks_exact_Nil [simp]: "chunks_exact n [] = []"
  by (subst chunks_exact.simps) auto

lemma chunks_exact_concat:
  "\<forall>c\<in>set cs. length c = n \<Longrightarrow> 0 < n \<Longrightarrow> chunks_exact n (concat cs) = cs"
  by (induction cs) (simp_all add: chunks_exact_append)

lemma chunks_exact_length: "c \<in> set (chunks_exact n xs) \<Longrightarrow> length c = n"
proof (induction n xs rule: chunks_exact.induct)
  case (1 n xs)
  then show ?case by (subst (asm) chunks_exact.simps) (auto split: if_splits)
qed

lemma length_chunks_exact: "0 < n \<Longrightarrow> length (chunks_exact n xs) = length xs div n"
proof (induction n xs rule: chunks_exact.induct)
  case (1 n xs)
  then show ?case by (subst chunks_exact.simps) (auto simp: div_if)
qed

lemma bytes_string_round_trip [simp]:
  "string_of_bytes (bytes_of_string s) = s"
  by (simp add: string_of_bytes_def bytes_of_string_def comp_def unat_u8_of_nat)

lemma length_bytes_of_string [simp]: "length (bytes_of_string s) = length s"
  by (simp add: bytes_of_string_def)

lemma name_length_padded:
  assumes "0 \<notin> set bs"
  shows "name_length (bs @ 0 # rest) = length bs" "take (length bs) (bs @ 0 # rest) = bs"
  using assms by (auto simp: name_length_def takeWhile_append)

end
