(* ===== verification/Cupti_Abi.thy ===== *)
theory Cupti_Abi
  imports Bytes
begin

text \<open>
  The binary protocol between the collector and the CUPTI agent, collector side
  (\<open>xprobe/collector/src/cupti.rs\<close>): the types of both directions and the decoder of a capture. The socket
  itself is not modelled: a request is its bytes, a reply the bytes read to the end of the stream.
\<close>

unbundle bit_operations_syntax

section \<open>Types\<close>

datatype cupti_record_kind =
    RK_CudaApiEntry | RK_CudaApiExit | RK_GpuKernelStart | RK_GpuKernelEnd | RK_GpuMemcpyStart
  | RK_GpuMemcpyEnd | RK_GpuMemsetStart | RK_GpuMemsetEnd | RK_NvtxRangeStart | RK_NvtxRangeEnd

fun record_kind_u32 :: "cupti_record_kind \<Rightarrow> u32" where
  "record_kind_u32 RK_CudaApiEntry = 1"
| "record_kind_u32 RK_CudaApiExit = 2"
| "record_kind_u32 RK_GpuKernelStart = 3"
| "record_kind_u32 RK_GpuKernelEnd = 4"
| "record_kind_u32 RK_GpuMemcpyStart = 5"
| "record_kind_u32 RK_GpuMemcpyEnd = 6"
| "record_kind_u32 RK_GpuMemsetStart = 7"
| "record_kind_u32 RK_GpuMemsetEnd = 8"
| "record_kind_u32 RK_NvtxRangeStart = 9"
| "record_kind_u32 RK_NvtxRangeEnd = 10"

datatype cupti_api_domain = AD_Any | AD_Driver | AD_Runtime

fun api_domain_u32 :: "cupti_api_domain \<Rightarrow> u32" where
  "api_domain_u32 AD_Any = 0"
| "api_domain_u32 AD_Driver = 1"
| "api_domain_u32 AD_Runtime = 2"

datatype cupti_memcpy_kind =
  CM_Any | CM_HostToDevice | CM_DeviceToHost | CM_DeviceToDevice | CM_HostToHost | CM_PeerToPeer

fun memcpy_kind_u32 :: "cupti_memcpy_kind \<Rightarrow> u32" where
  "memcpy_kind_u32 CM_Any = 0"
| "memcpy_kind_u32 CM_HostToDevice = 1"
| "memcpy_kind_u32 CM_DeviceToHost = 2"
| "memcpy_kind_u32 CM_DeviceToDevice = 3"
| "memcpy_kind_u32 CM_HostToHost = 4"
| "memcpy_kind_u32 CM_PeerToPeer = 5"

datatype cupti_capture_mode = MO_Exact | MO_Aggregate

fun capture_mode_u32 :: "cupti_capture_mode \<Rightarrow> u32" where
  "capture_mode_u32 MO_Exact = 0"
| "capture_mode_u32 MO_Aggregate = 1"

datatype cupti_name_filter =
  NF_Any | NF_Exact string | NF_Prefix string | NF_Suffix string | NF_Contains string

record cupti_event_filter =
  ef_record_kind :: cupti_record_kind
  ef_api_domain :: cupti_api_domain
  ef_memcpy_kind :: cupti_memcpy_kind
  ef_name :: cupti_name_filter

record cupti_arm_config =
  ac_record_capacity :: u64
  ac_capture_mode :: cupti_capture_mode
  ac_filters :: "cupti_event_filter list"

datatype cupti_aggregate_activity = GA_Kernel | GA_Memcpy | GA_Memset

record cupti_aggregate_group =
  ag_activity :: cupti_aggregate_activity
  ag_name :: "string option"
  ag_name_complete :: "bool option"
  ag_device_id :: "u32 option"
  ag_memcpy_kind :: "memcpy_kind option"
  ag_count :: u64
  ag_total_duration_ns :: u64
  ag_min_duration_ns :: u64
  ag_max_duration_ns :: u64
  ag_total_bytes :: "u64 option"

datatype cupti_capture_state = CS_Idle | CS_Active | CS_LimitReached | CS_Stopped | CS_Failed

datatype cupti_stop_reason = SR_None | SR_Requested | SR_RecordLimit | SR_CuptiError | SR_OutputError

record cupti_capture =
  ca_nvtx_callbacks_active :: bool
  ca_record_offset :: u64
  ca_state :: cupti_capture_state
  ca_stop_reason :: cupti_stop_reason
  ca_record_capacity :: u64
  ca_observed_records :: u64
  ca_agent_dropped_records :: u64
  ca_cupti_dropped_records :: u64
  ca_dropped_records :: u64
  ca_unknown_records :: u64
  ca_events :: "event list"
  ca_aggregate_groups :: "cupti_aggregate_group list"

datatype cupti_decode_error =
    DE_HeaderTooShort nat
  | DE_InvalidMagic
  | DE_UnsupportedAbi u32
  | DE_UnsupportedFeatureFlags u32
  | DE_InvalidHeaderSize u32 u32 u32 \<comment> \<open>version, actual, expected\<close>
  | DE_InvalidRecordSize u32
  | DE_CaptureLengthOverflow
  | DE_InvalidCaptureLength nat nat \<comment> \<open>expected, actual\<close>
  | DE_UnknownRecordKind nat u32
  | DE_InvalidName nat
  | DE_InvalidTimestamp nat u32
  | DE_InvalidNvtxRecord nat string
  | DE_InvalidAggregateRecord nat string
  | DE_InvalidCaptureState u32
  | DE_InvalidStopReason u32
  | DE_InvalidCounters u64 u64 u64 u64 \<comment> \<open>offset, records, capacity, observed\<close>
  | DE_CounterOverflow

text \<open>The \<open>InvalidControl\<close> messages of \<open>CuptiSnapshotError\<close>; its other variants are I/O errors.\<close>

datatype control_error =
    CE_ZeroCapacity \<comment> \<open>CUPTI record capacity must be positive\<close>
  | CE_FilterCount nat \<comment> \<open>CUPTI capture requires one or two endpoint filters, found ..\<close>
  | CE_ArmOffset \<comment> \<open>CUPTI ARM record offset must be zero\<close>
  | CE_FilterName \<comment> \<open>CUPTI filter name must be a NUL-free string shorter than 128 bytes\<close>

section \<open>Constants\<close>

definition output_magic :: bytes where
  "output_magic = bytes_of_string ''XPCUPTI'' @ [0]"

definition control_magic :: bytes where
  "control_magic = bytes_of_string ''XPCTRL'' @ [0, 0]"

definition feature_host_monotonic :: u32 where "feature_host_monotonic = 1"
definition feature_transfer :: u32 where "feature_transfer = 2"
definition feature_aggregate :: u32 where "feature_aggregate = 4"
definition feature_nvtx :: u32 where "feature_nvtx = 8"

definition supported_features :: u32 where
  "supported_features = feature_host_monotonic OR feature_transfer OR feature_aggregate OR feature_nvtx"

definition has_feature :: "u32 \<Rightarrow> u32 \<Rightarrow> bool" where
  "has_feature flags feature \<longleftrightarrow> flags AND feature \<noteq> 0"

section \<open>Records\<close>

definition decode_capture_state :: "u32 \<Rightarrow> (cupti_capture_state, cupti_decode_error) rresult" where
  "decode_capture_state v =
     (if v = 0 then Ok CS_Idle else if v = 1 then Ok CS_Active else if v = 2 then Ok CS_LimitReached
      else if v = 3 then Ok CS_Stopped else if v = 4 then Ok CS_Failed
      else Err (DE_InvalidCaptureState v))"

definition decode_stop_reason :: "u32 \<Rightarrow> (cupti_stop_reason, cupti_decode_error) rresult" where
  "decode_stop_reason v =
     (if v = 0 then Ok SR_None else if v = 1 then Ok SR_Requested else if v = 2 then Ok SR_RecordLimit
      else if v = 3 then Ok SR_CuptiError else if v = 4 then Ok SR_OutputError
      else Err (DE_InvalidStopReason v))"

definition decode_memcpy_kind :: "u32 \<Rightarrow> memcpy_kind" where
  "decode_memcpy_kind kind =
     (if kind = 1 \<or> kind = 3 then MK_HostToDevice
      else if kind = 2 \<or> kind = 4 then MK_DeviceToHost
      else if 5 \<le> kind \<and> kind \<le> 8 then MK_DeviceToDevice
      else if kind = 9 then MK_HostToHost
      else if kind = 10 then MK_PeerToPeer
      else MK_Unknown)"

definition decode_semantic_memcpy_kind :: "u32 \<Rightarrow> memcpy_kind" where
  "decode_semantic_memcpy_kind kind =
     (if kind = 1 then MK_HostToDevice
      else if kind = 2 then MK_DeviceToHost
      else if kind = 3 then MK_DeviceToDevice
      else if kind = 4 then MK_HostToHost
      else if kind = 5 then MK_PeerToPeer
      else MK_Unknown)"

definition optional_unknown :: "u32 \<Rightarrow> u32 option" where
  "optional_unknown v = (if v = - 1 then None else Some v)"

definition optional_nonzero :: "u32 \<Rightarrow> u32 option" where
  "optional_nonzero v = (if v = 0 then None else Some v)"

definition read_split_u64 :: "bytes \<Rightarrow> nat \<Rightarrow> (u64, 'e) rresult" where
  "read_split_u64 record offset =
     rbind (read_u32 record offset) (\<lambda>low.
     rbind (read_u32 record (offset + 4)) (\<lambda>high.
     Ok (ucast low OR push_bit 32 (ucast high))))"

definition decode_dim :: "bytes \<Rightarrow> nat \<Rightarrow> (dim3 option, 'e) rresult" where
  "decode_dim record offset =
     rbind (read_u32 record offset) (\<lambda>x.
     rbind (read_u32 record (offset + 4)) (\<lambda>y.
     rbind (read_u32 record (offset + 8)) (\<lambda>z.
     Ok (if x \<noteq> 0 \<or> y \<noteq> 0 \<or> z \<noteq> 0 then Some \<lparr>dim_x = x, dim_y = y, dim_z = z\<rparr> else None))))"

definition decode_record_kind ::
  "u32 \<Rightarrow> nat \<Rightarrow> u32 \<Rightarrow> (event_source \<times> event_type, cupti_decode_error) rresult" where
  "decode_record_kind kind index feature_flags =
     (if kind = 1 then Ok (ES_CuptiCallback, ET_CudaApiEntry)
      else if kind = 2 then Ok (ES_CuptiCallback, ET_CudaApiExit)
      else if kind = 3 then Ok (ES_CuptiActivity, ET_GpuKernelStart)
      else if kind = 4 then Ok (ES_CuptiActivity, ET_GpuKernelEnd)
      else if kind = 5 \<and> has_feature feature_flags feature_transfer then Ok (ES_CuptiActivity, ET_GpuMemcpyStart)
      else if kind = 6 \<and> has_feature feature_flags feature_transfer then Ok (ES_CuptiActivity, ET_GpuMemcpyEnd)
      else if kind = 7 \<and> has_feature feature_flags feature_transfer then Ok (ES_CuptiActivity, ET_GpuMemsetStart)
      else if kind = 8 \<and> has_feature feature_flags feature_transfer then Ok (ES_CuptiActivity, ET_GpuMemsetEnd)
      else if kind = 9 \<and> has_feature feature_flags feature_nvtx then Ok (ES_CuptiCallback, ET_NvtxRangeStart)
      else if kind = 10 \<and> has_feature feature_flags feature_nvtx then Ok (ES_CuptiCallback, ET_NvtxRangeEnd)
      else Err (DE_UnknownRecordKind index kind))"

definition decode_nvtx_event ::
  "bytes \<Rightarrow> nat \<Rightarrow> bool \<Rightarrow> string \<Rightarrow> (nvtx_event option, cupti_decode_error) rresult" where
  "decode_nvtx_event record index is_nvtx name =
     (if \<not> is_nvtx then Ok None
      else
        rbind (read_u32 record 52) (\<lambda>kind.
        rbind (if kind = 1 then Ok NR_Thread else if kind = 2 then Ok NR_Process
               else Err (DE_InvalidNvtxRecord index ''range kind is neither thread nor process''))
          (\<lambda>range_kind.
        rbind (read_split_u64 record 44) (\<lambda>range_id.
        if range_id = 0 then Err (DE_InvalidNvtxRecord index ''range ID is zero'')
        else
          rbind (read_u32 record 56) (\<lambda>start_tid.
          if start_tid = 0 then Err (DE_InvalidNvtxRecord index ''start thread ID is zero'')
          else
            rbind (read_u32 record 60) (\<lambda>name_complete.
            if name_complete > 1
            then Err (DE_InvalidNvtxRecord index ''name completeness flag is not boolean'')
            else Ok (Some \<lparr>nv_name = name, nv_name_complete = (name_complete \<noteq> 0),
                           nv_range_kind = range_kind, nv_range_id = range_id,
                           nv_start_tid = start_tid\<rparr>)))))))"

text \<open>The name of a record: its field, cut at the first zero byte, as a string.\<close>

definition decode_name :: "bytes \<Rightarrow> nat \<Rightarrow> (string \<times> nat, cupti_decode_error) rresult" where
  "decode_name record index =
     rbind (slice record 72 200) (\<lambda>name_bytes.
     rbind (slice name_bytes 0 (name_length name_bytes)) (\<lambda>prefix.
     rbind (ok_or (from_utf8 prefix) (DE_InvalidName index)) (\<lambda>name.
     Ok (name, name_length name_bytes))))"

text \<open>\<open>flag.then(|| value)\<close>.\<close>

definition then_some :: "bool \<Rightarrow> ('a, 'e) rresult \<Rightarrow> ('a option, 'e) rresult" where
  "then_some flag r = (if flag then rbind r (\<lambda>x. Ok (Some x)) else Ok None)"

definition decode_attributes :: "bytes \<Rightarrow> u32 \<Rightarrow> string \<Rightarrow> ((string, json) btree, cupti_decode_error) rresult" where
  "decode_attributes record kind name =
     rbind (if kind = 1 \<or> kind = 2
            then rbind (read_u32 record 36) (\<lambda>domain.
              Ok (bt_insert ''cuda_api_domain''
                    (JString (if domain = 1 then ''driver_api'' else if domain = 2 then ''runtime_api''
                              else ''unknown''))
                    (bt_insert ''cuda_api_name'' (JString name) [])))
            else Ok []) (\<lambda>attributes.
     if kind = 7 \<or> kind = 8
     then rbind (read_u32 record 56) (\<lambda>v. Ok (bt_insert ''memset_value'' (JNumber (uint v)) attributes))
     else Ok attributes)"

definition decode_cuda :: "bytes \<Rightarrow> u32 \<Rightarrow> string \<Rightarrow> u64 \<Rightarrow> (cuda_event, cupti_decode_error) rresult" where
  "decode_cuda record kind name timestamp_ns =
     (let is_kernel = (kind = 3 \<or> kind = 4); is_memcpy = (kind = 5 \<or> kind = 6);
          is_transfer = (5 \<le> kind \<and> kind \<le> 8); is_start = (kind = 3 \<or> kind = 5 \<or> kind = 7);
          is_end = (kind = 4 \<or> kind = 6 \<or> kind = 8) in
      rbind (read_u32 record 20) (\<lambda>device_id.
      rbind (read_u32 record 24) (\<lambda>context_id.
      rbind (read_u32 record 28) (\<lambda>stream_id.
      rbind (read_u32 record 32) (\<lambda>correlation_id.
      rbind (read_u32 record 68) (\<lambda>runtime_correlation_id.
      rbind (read_u32 record 36) (\<lambda>callback_domain.
      rbind (read_u32 record 40) (\<lambda>callback_id.
      rbind (then_some is_kernel (decode_dim record 44)) (\<lambda>grid.
      rbind (then_some is_kernel (decode_dim record 56)) (\<lambda>block.
      rbind (then_some is_transfer (read_split_u64 record 44)) (\<lambda>transfer_bytes.
      rbind (then_some is_memcpy (read_u32 record 52)) (\<lambda>memcpy.
      Ok \<lparr>ce_device_id = optional_unknown device_id,
          ce_context_id = optional_unknown context_id,
          ce_stream_id = map_option ucast (optional_unknown stream_id),
          ce_correlation_id = optional_nonzero correlation_id,
          ce_runtime_correlation_id = optional_nonzero runtime_correlation_id,
          ce_callback_domain = optional_nonzero callback_domain,
          ce_callback_id = optional_nonzero callback_id,
          ce_kernel_name = (if is_kernel then Some name else None),
          ce_kernel_name_mangled = None,
          ce_start_ns = (if is_start then Some timestamp_ns else None),
          ce_end_ns = (if is_end then Some timestamp_ns else None),
          ce_grid = Option.bind grid (\<lambda>g. g),
          ce_block = Option.bind block (\<lambda>b. b),
          ce_bytes = transfer_bytes,
          ce_memcpy_kind = map_option decode_memcpy_kind memcpy\<rparr>))))))))))))"

definition decode_record :: "bytes \<Rightarrow> nat \<Rightarrow> string \<Rightarrow> u32 \<Rightarrow> (event, cupti_decode_error) rresult" where
  "decode_record record index session_id feature_flags =
     rbind (read_u32 record 8) (\<lambda>kind.
     rbind (decode_record_kind kind index feature_flags) (\<lambda>(source, event_type).
     rbind (read_u64 record 0) (\<lambda>timestamp_raw.
     if timestamp_raw = 0 then Err (DE_InvalidTimestamp index kind)
     else
       rbind (decode_name record index) (\<lambda>(name, _).
       let is_api = (kind = 1 \<or> kind = 2); is_nvtx = (kind = 9 \<or> kind = 10);
           clock_domain =
             (if is_api \<or> is_nvtx then CD_HostMonotonic
              else if has_feature feature_flags feature_host_monotonic then CD_CuptiNormalizedToHostMonotonic
              else CD_Cupti)
       in
       rbind (decode_attributes record kind name) (\<lambda>attributes.
       rbind (decode_nvtx_event record index is_nvtx name) (\<lambda>nvtx.
       rbind (read_u32 record 12) (\<lambda>pid.
       rbind (read_u32 record 16) (\<lambda>tid.
       rbind (then_some (\<not> is_nvtx) (decode_cuda record kind name timestamp_raw)) (\<lambda>cuda.
       Ok \<lparr>ev_schema_version = schema_current, ev_session_id = session_id, ev_event_id = [],
           ev_sequence = 0, ev_source = source, ev_event_type = event_type, ev_pid = pid, ev_tid = tid,
           ev_cpu = None, ev_timestamp_raw = timestamp_raw, ev_timestamp_ns = timestamp_raw,
           ev_clock_domain = clock_domain, ev_timestamp_error_ns = None, ev_process_start_time = None,
           ev_host = None, ev_cuda = cuda, ev_nvtx = nvtx, ev_attributes = attributes\<rparr>)))))))))"

definition decode_aggregate_record ::
  "bytes \<Rightarrow> nat \<Rightarrow> (cupti_aggregate_group, cupti_decode_error) rresult" where
  "decode_aggregate_record record index =
     rbind (read_u64 record 0) (\<lambda>cnt.
     rbind (read_u64 record 8) (\<lambda>total_duration_ns.
     rbind (read_u64 record 16) (\<lambda>min_duration_ns.
     rbind (read_u64 record 24) (\<lambda>max_duration_ns.
     if cnt = 0 then Err (DE_InvalidAggregateRecord index ''count is zero'')
     else if min_duration_ns > max_duration_ns \<or> total_duration_ns div cnt < min_duration_ns \<or>
             total_duration_ns div cnt > max_duration_ns
       then Err (DE_InvalidAggregateRecord index ''duration counters are inconsistent'')
     else
       rbind (read_u32 record 40) (\<lambda>kind.
       rbind (if kind = 3 then Ok (GA_Kernel, True, False)
              else if kind = 5 then Ok (GA_Memcpy, False, True)
              else if kind = 7 then Ok (GA_Memset, False, True)
              else Err (DE_InvalidAggregateRecord index ''activity kind is unsupported''))
         (\<lambda>(activity, has_name, has_bytes).
       rbind (decode_name record index) (\<lambda>(name, len).
       if has_name \<and> name = [] then Err (DE_InvalidAggregateRecord index ''kernel name is empty'')
       else
         rbind (then_some (activity = GA_Memcpy) (read_u32 record 48)) (\<lambda>memcpy.
         rbind (read_u32 record 44) (\<lambda>device_id.
         rbind (then_some has_bytes (read_u64 record 32)) (\<lambda>total_bytes.
         Ok \<lparr>ag_activity = activity,
             ag_name = (if has_name then Some name else None),
             ag_name_complete = (if has_name then Some (len + 1 < 128) else None),
             ag_device_id = optional_unknown device_id,
             ag_memcpy_kind = map_option decode_semantic_memcpy_kind memcpy,
             ag_count = cnt, ag_total_duration_ns = total_duration_ns,
             ag_min_duration_ns = min_duration_ns, ag_max_duration_ns = max_duration_ns,
             ag_total_bytes = total_bytes\<rparr>))))))))))"

section \<open>Captures\<close>

definition event_id_of :: "u64 \<Rightarrow> string" where
  "event_id_of sequence = ''evt_'' @ render_nat 10 (unat sequence)"

fun renumber :: "u64 \<Rightarrow> event list \<Rightarrow> (event list, cupti_decode_error) rresult" where
  "renumber sequence [] = Ok []"
| "renumber sequence (e # es) =
     rbind (ok_or (checked_add sequence 1) DE_CaptureLengthOverflow) (\<lambda>next.
     rbind (renumber next es) (\<lambda>es'.
     Ok (e\<lparr>ev_sequence := sequence, ev_event_id := event_id_of sequence\<rparr> # es')))"

definition decode_payload ::
  "bytes \<Rightarrow> u64 \<Rightarrow> string \<Rightarrow> u32 \<Rightarrow> (event list \<times> cupti_aggregate_group list, cupti_decode_error) rresult" where
  "decode_payload bs record_offset session_id feature_flags =
     rbind (slice bs 88 (length bs)) (\<lambda>payload.
     let records = List.enumerate 0 (chunks_exact 200 payload) in
     if has_feature feature_flags feature_aggregate then
       rbind (rcollect (\<lambda>(index, record). decode_aggregate_record record index) records) (\<lambda>groups.
       Ok ([], groups))
     else
       rbind (rcollect (\<lambda>(index, record). decode_record record index session_id feature_flags) records)
         (\<lambda>events.
       rbind (renumber record_offset (sort_key ev_timestamp_ns events)) (\<lambda>events.
       Ok (events, []))))"

definition decode_capture :: "bytes \<Rightarrow> string \<Rightarrow> (cupti_capture, cupti_decode_error) rresult" where
  "decode_capture bs session_id =
     (if length bs < 88 then Err (DE_HeaderTooShort (length bs))
      else
      rbind (slice bs 0 8) (\<lambda>magic.
      if magic \<noteq> output_magic then Err DE_InvalidMagic
      else
      rbind (read_u32 bs 8) (\<lambda>abi_version.
      if abi_version \<noteq> 4 then Err (DE_UnsupportedAbi abi_version)
      else
      rbind (read_u32 bs 12) (\<lambda>header_size.
      if header_size \<noteq> 88 then Err (DE_InvalidHeaderSize abi_version header_size 88)
      else
      rbind (read_u32 bs 16) (\<lambda>record_size.
      if record_size \<noteq> 200 then Err (DE_InvalidRecordSize record_size)
      else
      rbind (read_u32 bs 20) (\<lambda>feature_flags.
      let unsupported_features = feature_flags AND NOT supported_features in
      if unsupported_features \<noteq> 0 then Err (DE_UnsupportedFeatureFlags unsupported_features)
      else
      rbind (rbind (read_u32 bs 24) decode_capture_state) (\<lambda>state.
      rbind (rbind (read_u32 bs 28) decode_stop_reason) (\<lambda>stop_reason.
      rbind (read_u64 bs 32) (\<lambda>record_count.
      rbind (read_u64 bs 40) (\<lambda>record_capacity.
      rbind (read_u64 bs 48) (\<lambda>observed_records.
      rbind (read_u64 bs 80) (\<lambda>record_offset.
      rbind (ok_or (checked_add record_offset record_count) DE_CounterOverflow) (\<lambda>committed_records.
      if committed_records > record_capacity \<or> observed_records < committed_records
      then Err (DE_InvalidCounters record_offset record_count record_capacity observed_records)
      else if usize_max < unat record_count * 200 then Err DE_CaptureLengthOverflow
      else if usize_max < 88 + unat record_count * 200 then Err DE_CaptureLengthOverflow
      else if length bs \<noteq> 88 + unat record_count * 200
        then Err (DE_InvalidCaptureLength (88 + unat record_count * 200) (length bs))
      else if has_feature feature_flags feature_aggregate \<and> record_offset \<noteq> 0
        then Err (DE_InvalidCounters record_offset record_count record_capacity observed_records)
      else
      rbind (decode_payload bs record_offset session_id feature_flags) (\<lambda>(events, aggregate_groups).
      rbind (read_u64 bs 56) (\<lambda>agent_dropped_records.
      rbind (read_u64 bs 64) (\<lambda>cupti_dropped_records.
      rbind (ok_or (checked_add agent_dropped_records cupti_dropped_records) DE_CounterOverflow)
        (\<lambda>dropped_records.
      rbind (read_u64 bs 72) (\<lambda>unknown_records.
      Ok \<lparr>ca_nvtx_callbacks_active = has_feature feature_flags feature_nvtx,
          ca_record_offset = record_offset, ca_state = state, ca_stop_reason = stop_reason,
          ca_record_capacity = record_capacity, ca_observed_records = observed_records,
          ca_agent_dropped_records = agent_dropped_records,
          ca_cupti_dropped_records = cupti_dropped_records, ca_dropped_records = dropped_records,
          ca_unknown_records = unknown_records, ca_events = events,
          ca_aggregate_groups = aggregate_groups\<rparr>))))))))))))))))))"

section \<open>No panic\<close>

lemma slice_no_Panic: "a \<le> b \<Longrightarrow> b \<le> length xs \<Longrightarrow> slice xs a b \<noteq> Panic"
  by (simp add: slice_def)

lemma read_no_Panic:
  "offset + 4 \<le> length bs \<Longrightarrow> read_u32 bs offset \<noteq> Panic"
  "offset + 8 \<le> length bs \<Longrightarrow> read_u64 bs offset \<noteq> Panic"
  by (simp_all add: read_in_range)

lemma then_some_no_Panic: "r \<noteq> Panic \<Longrightarrow> then_some b r \<noteq> Panic"
  by (cases r) (simp_all add: then_some_def)

lemma field_decoders_no_Panic:
  "decode_capture_state v \<noteq> Panic" "decode_stop_reason v \<noteq> Panic" "decode_record_kind k i f \<noteq> Panic"
  by (simp_all add: decode_capture_state_def decode_stop_reason_def decode_record_kind_def)

lemma composite_fields_no_Panic:
  "offset + 8 \<le> length bs \<Longrightarrow> read_split_u64 bs offset \<noteq> Panic"
  "offset + 12 \<le> length bs \<Longrightarrow> decode_dim bs offset \<noteq> Panic"
  by (simp_all add: read_split_u64_def decode_dim_def read_in_range)

lemma decode_name_no_Panic: "length record = 200 \<Longrightarrow> decode_name record index \<noteq> Panic"
  by (auto simp: decode_name_def slice_def rust_simps name_length_def
      intro!: le_trans [OF length_takeWhile_le])

lemma decode_nvtx_event_no_Panic: "length record = 200 \<Longrightarrow> decode_nvtx_event record index b name \<noteq> Panic"
  unfolding decode_nvtx_event_def
  by (intro if_no_Panic rbind_no_Panic) (simp_all add: read_no_Panic composite_fields_no_Panic)

lemma decode_attributes_no_Panic: "length record = 200 \<Longrightarrow> decode_attributes record kind name \<noteq> Panic"
  unfolding decode_attributes_def
  by (intro if_no_Panic rbind_no_Panic) (simp_all add: read_no_Panic)

lemma decode_cuda_no_Panic: "length record = 200 \<Longrightarrow> decode_cuda record kind name ts \<noteq> Panic"
  unfolding decode_cuda_def Let_def
  by (intro if_no_Panic rbind_no_Panic then_some_no_Panic)
    (simp_all add: read_no_Panic composite_fields_no_Panic)

lemma decode_record_no_Panic: "length record = 200 \<Longrightarrow> decode_record record index sid flags \<noteq> Panic"
  unfolding decode_record_def Let_def case_prod_beta
  by (intro if_no_Panic rbind_no_Panic then_some_no_Panic)
    (simp_all add: read_no_Panic field_decoders_no_Panic decode_name_no_Panic decode_nvtx_event_no_Panic
      decode_attributes_no_Panic decode_cuda_no_Panic)

lemma decode_aggregate_record_no_Panic:
  "length record = 200 \<Longrightarrow> decode_aggregate_record record index \<noteq> Panic"
  unfolding decode_aggregate_record_def Let_def case_prod_beta
  by (intro if_no_Panic rbind_no_Panic then_some_no_Panic) (simp_all add: read_no_Panic decode_name_no_Panic)

lemma renumber_no_Panic: "renumber s es \<noteq> Panic"
  by (induction s es rule: renumber.induct) (auto simp: rust_simps)

lemma decode_payload_no_Panic:
  assumes "88 \<le> length bs"
  shows "decode_payload bs offset sid flags \<noteq> Panic"
proof -
  have len: "length r = 200"
    if "(i, r) \<in> set (List.enumerate 0 (chunks_exact 200 payload))" for i r payload
    using that by (auto simp: in_set_enumerate_eq intro: chunks_exact_length [OF nth_mem])
  show ?thesis
    unfolding decode_payload_def Let_def case_prod_beta
    by (intro if_no_Panic rbind_no_Panic rcollect_no_Panic)
      (use assms in \<open>auto simp: slice_def renumber_no_Panic
         intro!: decode_aggregate_record_no_Panic decode_record_no_Panic len\<close>)
qed

lemma decode_capture_no_Panic: "decode_capture bs session_id \<noteq> Panic"
proof (cases "length bs < 88")
  case False
  then show ?thesis
    unfolding decode_capture_def Let_def case_prod_beta
    by (intro if_no_Panic rbind_no_Panic)
      (simp_all add: slice_no_Panic read_no_Panic decode_payload_no_Panic field_decoders_no_Panic rust_simps)
qed (simp add: decode_capture_def)


section \<open>What a decoded capture says\<close>

text \<open>Sequence numbers and event ids follow the order of the list, from the record offset on.\<close>

definition numbered :: "u64 \<Rightarrow> event list \<Rightarrow> event list" where
  "numbered s es =
     map (\<lambda>(i, e). e\<lparr>ev_sequence := s + of_nat i, ev_event_id := event_id_of (s + of_nat i)\<rparr>)
       (List.enumerate 0 es)"

lemma numbered_Cons:
  "numbered s (e # es) = e\<lparr>ev_sequence := s, ev_event_id := event_id_of s\<rparr> # numbered (s + 1) es"
  by (simp add: numbered_def enumerate_Suc_eq comp_def case_prod_beta ac_simps)

lemma numbered_Nil [simp]: "numbered s [] = []"
  by (simp add: numbered_def)

lemma renumber_eq: "renumber s es = Ok es' \<Longrightarrow> es' = numbered s es"
  by (induction s es arbitrary: es' rule: renumber.induct)
    (auto simp: rust_simps numbered_Cons checked_add_def split: if_splits)

lemma renumber_Ok: "unat s + length es < 2 ^ 64 \<Longrightarrow> renumber s es = Ok (numbered s es)"
proof (induction es arbitrary: s)
  case Nil
  then show ?case by (simp add: numbered_def)
next
  case (Cons e es)
  then have *: "unat s + 1 < 2 ^ 64" by simp
  then have "unat (s + 1) = unat s + 1"
    by (simp add: unat_word_ariths)
  with Cons * show ?case by (simp add: checked_add_def ok_or_def numbered_Cons)
qed

text \<open>The checks a capture has passed when it is decoded.\<close>

lemma decode_capture_facts:
  assumes "decode_capture bs sid = Ok c"
  obtains flags n where
    "read_u32 bs 20 = (Ok flags :: (u32, cupti_decode_error) rresult)"
    "length bs = 88 + n * 200"
    "unat (ca_record_offset c) + n \<le> unat (ca_record_capacity c)"
    "unat (ca_record_offset c) + n \<le> unat (ca_observed_records c)"
    "has_feature flags feature_aggregate \<Longrightarrow> ca_record_offset c = 0"
    "decode_payload bs (ca_record_offset c) sid flags = Ok (ca_events c, ca_aggregate_groups c)"
    "unat (ca_dropped_records c) = unat (ca_agent_dropped_records c) + unat (ca_cupti_dropped_records c)"
proof -
  have add: "unat c' = unat a + unat b" if "checked_add a b = Some c'" for a b c' :: u64
    using that by (auto simp: checked_add_def unat_word_ariths split: if_splits)
  from assms obtain flags count committed where
    1: "read_u32 bs 20 = (Ok flags :: (u32, cupti_decode_error) rresult)" and
    2: "read_u64 bs 32 = (Ok count :: (u64, cupti_decode_error) rresult)" and
    3: "checked_add (ca_record_offset c) count = Some committed" and
    4: "committed \<le> ca_record_capacity c" "committed \<le> ca_observed_records c" and
    5: "length bs = 88 + unat count * 200" and
    6: "has_feature flags feature_aggregate \<longrightarrow> ca_record_offset c = 0" and
    7: "decode_payload bs (ca_record_offset c) sid flags = Ok (ca_events c, ca_aggregate_groups c)" and
    8: "checked_add (ca_agent_dropped_records c) (ca_cupti_dropped_records c) = Some (ca_dropped_records c)"
    unfolding decode_capture_def Let_def
    by (auto simp: rust_simps not_less split: if_split_asm prod.split_asm)
  show thesis
    by (rule that [OF 1 5]) (use 3 4 6 7 8 add [OF 3] in \<open>auto simp: word_le_nat_alt add\<close>)
qed

lemma decode_payload_events:
  assumes "decode_payload bs offset sid flags = Ok (events, groups)" "\<not> has_feature flags feature_aggregate"
  obtains es where
    "list_all2 (\<lambda>x e. decode_record (snd x) (fst x) sid flags = Ok e)
       (List.enumerate 0 (chunks_exact 200 (drop 88 bs))) es"
    "events = numbered offset (sort_key ev_timestamp_ns es)" "groups = []"
  using assms
  by (auto simp: decode_payload_def Let_def rust_simps rcollect_Ok_iff slice_def case_prod_beta
      dest: renumber_eq split: if_splits)

lemma decode_payload_groups:
  assumes "decode_payload bs offset sid flags = Ok (events, groups)" "has_feature flags feature_aggregate"
  shows "list_all2 (\<lambda>x g. decode_aggregate_record (snd x) (fst x) = Ok g)
           (List.enumerate 0 (chunks_exact 200 (drop 88 bs))) groups \<and> events = []"
  using assms
  by (auto simp: decode_payload_def Let_def rust_simps rcollect_Ok_iff slice_def case_prod_beta split: if_splits)

text \<open>What one decoded record says.\<close>

lemma decode_record_kind_facts:
  assumes "decode_record_kind kind i flags = Ok st"
  shows "snd st \<in> {ET_NvtxRangeStart, ET_NvtxRangeEnd} \<longleftrightarrow> kind = 9 \<or> kind = 10"
    "fst st = ES_CuptiCallback \<longleftrightarrow> kind = 1 \<or> kind = 2 \<or> kind = 9 \<or> kind = 10"
  using assms by (auto simp: decode_record_kind_def split: if_split_asm)

lemma decode_nvtx_event_facts: "decode_nvtx_event r i b name = Ok nv \<Longrightarrow> nv \<noteq> None \<longleftrightarrow> b"
  by (auto simp: decode_nvtx_event_def rust_simps split: if_split_asm)

lemma then_some_Ok: "then_some b r = Ok x \<Longrightarrow> x \<noteq> None \<longleftrightarrow> b"
  by (auto simp: then_some_def rust_simps split: if_split_asm)

lemma decode_record_facts:
  assumes "decode_record r i sid flags = Ok e"
  shows "ev_session_id e = sid" "ev_timestamp_ns e \<noteq> 0" "ev_timestamp_raw e = ev_timestamp_ns e"
    "ev_nvtx e = None \<longleftrightarrow> ev_cuda e \<noteq> None"
    "ev_nvtx e \<noteq> None \<longleftrightarrow> ev_event_type e \<in> {ET_NvtxRangeStart, ET_NvtxRangeEnd}"
    "ev_clock_domain e = CD_HostMonotonic \<longleftrightarrow> ev_source e = ES_CuptiCallback"
proof -
  note A = assms [unfolded decode_record_def Let_def case_prod_beta]
  from A show "ev_session_id e = sid" "ev_timestamp_ns e \<noteq> 0" "ev_timestamp_raw e = ev_timestamp_ns e"
    by (auto simp: rust_simps split: if_split_asm)
  from A obtain kind name where k:
    "decode_record_kind kind i flags = Ok (ev_source e, ev_event_type e)"
    "decode_nvtx_event r i (kind = 9 \<or> kind = 10) name = Ok (ev_nvtx e)"
    "then_some (\<not> (kind = 9 \<or> kind = 10)) (decode_cuda r kind name (ev_timestamp_ns e)) = Ok (ev_cuda e)"
    "ev_clock_domain e = (if (kind = 1 \<or> kind = 2) \<or> kind = 9 \<or> kind = 10 then CD_HostMonotonic
       else if has_feature flags feature_host_monotonic then CD_CuptiNormalizedToHostMonotonic else CD_Cupti)"
    apply (elim rbind_OkE guard_OkE)
    subgoal for kind source_type timestamp name by (rule that [of kind "fst name"]) auto
    done
  show "ev_nvtx e = None \<longleftrightarrow> ev_cuda e \<noteq> None"
    using decode_nvtx_event_facts [OF k(2)] then_some_Ok [OF k(3)] by blast
  show "ev_nvtx e \<noteq> None \<longleftrightarrow> ev_event_type e \<in> {ET_NvtxRangeStart, ET_NvtxRangeEnd}"
    using decode_nvtx_event_facts [OF k(2)] decode_record_kind_facts(1) [OF k(1)] by simp
  show "ev_clock_domain e = CD_HostMonotonic \<longleftrightarrow> ev_source e = ES_CuptiCallback"
    using k(4) decode_record_kind_facts(2) [OF k(1)] by simp
qed

lemma decode_aggregate_record_facts:
  assumes "decode_aggregate_record r i = Ok g"
  shows "0 < unat (ag_count g)"
    "unat (ag_min_duration_ns g) * unat (ag_count g) \<le> unat (ag_total_duration_ns g)"
    "unat (ag_total_duration_ns g) < (unat (ag_max_duration_ns g) + 1) * unat (ag_count g)"
    "ag_min_duration_ns g \<le> ag_max_duration_ns g"
    "ag_activity g = GA_Kernel \<longleftrightarrow> ag_name g \<noteq> None" "ag_name g \<noteq> Some []"
    "ag_activity g = GA_Kernel \<longleftrightarrow> ag_total_bytes g = None"
    "ag_activity g = GA_Memcpy \<longleftrightarrow> ag_memcpy_kind g \<noteq> None"
proof -
  note A = assms [unfolded decode_aggregate_record_def Let_def case_prod_beta]
  from A have cnt: "0 < unat (ag_count g)"
    by (auto simp: rust_simps unat_gt_0 split: if_split_asm)
  from A have le: "ag_min_duration_ns g \<le> ag_total_duration_ns g div ag_count g"
    "ag_total_duration_ns g div ag_count g \<le> ag_max_duration_ns g"
    "ag_min_duration_ns g \<le> ag_max_duration_ns g"
    by (auto simp: rust_simps not_less split: if_split_asm)
  show "0 < unat (ag_count g)" by (fact cnt)
  show "ag_min_duration_ns g \<le> ag_max_duration_ns g" by (fact le)
  show "unat (ag_min_duration_ns g) * unat (ag_count g) \<le> unat (ag_total_duration_ns g)"
    using le(1) cnt by (simp add: word_le_nat_alt unat_div less_eq_div_iff_mult_less_eq)
  show "unat (ag_total_duration_ns g) < (unat (ag_max_duration_ns g) + 1) * unat (ag_count g)"
    using le(2) cnt by (simp add: word_le_nat_alt unat_div div_less_iff_less_mult less_Suc_eq_le [symmetric]
        del: mult_Suc)
  from A obtain kind :: u32 and x name memcpy where x:
    "(if kind = 3 then Ok (GA_Kernel, True, False)
      else if kind = 5 then Ok (GA_Memcpy, False, True)
      else if kind = 7 then Ok (GA_Memset, False, True)
      else Err (DE_InvalidAggregateRecord i ''activity kind is unsupported'')) = Ok x"
    "\<not> (fst (snd x) \<and> name = [])" "ag_activity g = fst x"
    "ag_name g = (if fst (snd x) then Some name else None)"
    "ag_memcpy_kind g = map_option decode_semantic_memcpy_kind memcpy"
    and opt: "then_some (fst x = GA_Memcpy) (read_u32 r 48) = (Ok memcpy :: (_, cupti_decode_error) rresult)"
    "then_some (snd (snd x)) (read_u64 r 32) = (Ok (ag_total_bytes g) :: (_, cupti_decode_error) rresult)"
    apply (elim rbind_OkE guard_OkE)
    subgoal for a b c d kind x name memcpy
      by (rule that [of kind x "fst name" memcpy]) (simp_all (no_asm_simp), auto)
    done
  show "ag_activity g = GA_Kernel \<longleftrightarrow> ag_name g \<noteq> None" "ag_name g \<noteq> Some []"
    "ag_activity g = GA_Kernel \<longleftrightarrow> ag_total_bytes g = None"
    "ag_activity g = GA_Memcpy \<longleftrightarrow> ag_memcpy_kind g \<noteq> None"
    using x opt [THEN then_some_Ok] by (auto split: if_split_asm)
qed

lemma numbered_nth:
  assumes "i < length es"
  shows "numbered s es ! i =
           (es ! i)\<lparr>ev_sequence := s + of_nat i, ev_event_id := event_id_of (s + of_nat i)\<rparr>"
  using assms by (simp add: numbered_def nth_enumerate_eq)

lemma length_numbered [simp]: "length (numbered s es) = length es"
  by (simp add: numbered_def)

lemma numbered_timestamps [simp]: "map ev_timestamp_ns (numbered s es) = map ev_timestamp_ns es"
  by (rule nth_equalityI) (simp_all add: numbered_nth)

lemma unat_offset_add: "unat (s::u64) + i < 2 ^ 64 \<Longrightarrow> unat (s + of_nat i) = unat s + i"
  by (simp add: unat_word_ariths unat_of_nat)

lemma decode_capture_exact:
  assumes "decode_capture bs sid = Ok c"
  obtains es flags where "ca_events c = numbered (ca_record_offset c) (sort_key ev_timestamp_ns es)"
    "\<And>e. e \<in> set es \<Longrightarrow> \<exists>i r. decode_record r i sid flags = Ok e"
    "unat (ca_record_offset c) + length es \<le> unat (ca_record_capacity c)"
    "unat (ca_record_offset c) + length es \<le> unat (ca_observed_records c)"
proof -
  from assms obtain flags n where f:
    "length bs = 88 + n * 200"
    "unat (ca_record_offset c) + n \<le> unat (ca_record_capacity c)"
    "unat (ca_record_offset c) + n \<le> unat (ca_observed_records c)"
    "decode_payload bs (ca_record_offset c) sid flags = Ok (ca_events c, ca_aggregate_groups c)"
    by (rule decode_capture_facts)
  show thesis
  proof (cases "has_feature flags feature_aggregate")
    case True
    then have "ca_events c = []"
      using decode_payload_groups [OF f(4)] by simp
    then show thesis using f(2,3) by (intro that [of "[]" flags]) simp_all
  next
    case False
    from f(4) False obtain es where es:
      "list_all2 (\<lambda>x e. decode_record (snd x) (fst x) sid flags = Ok e)
         (List.enumerate 0 (chunks_exact 200 (drop 88 bs))) es"
      "ca_events c = numbered (ca_record_offset c) (sort_key ev_timestamp_ns es)"
      by (rule decode_payload_events)
    have "length es = n"
      using list_all2_lengthD [OF es(1)] f(1) by (simp add: length_chunks_exact)
    moreover have "\<exists>i r. decode_record r i sid flags = Ok e" if "e \<in> set es" for e
    proof -
      from that obtain j where "j < length es" "es ! j = e" by (auto simp: in_set_conv_nth)
      with list_all2_nthD2 [OF es(1), of j] show ?thesis by blast
    qed
    ultimately show thesis using es(2) f(2,3) by (intro that [of es flags]) simp_all
  qed
qed

lemma event_id_of_inject: "event_id_of a = event_id_of b \<longleftrightarrow> a = b"
  using render_nat_inject [of 10 "unat a" "unat b"]
  by (auto simp: event_id_of_def dest: word_unat_eq_iff [THEN iffD2])

text \<open>The invariant of an event stream: timestamp order, the session's id, and sequence numbers and event
  ids that follow the order from an offset on; a CUPTI snapshot also has one payload per event.\<close>

definition event_stream_ok :: "string \<Rightarrow> u64 \<Rightarrow> event list \<Rightarrow> bool" where
  "event_stream_ok session_id offset events \<longleftrightarrow>
     sorted (map ev_timestamp_ns events) \<and>
     (\<forall>i \<in> set [0..<length events].
        unat (ev_sequence (events ! i)) = unat offset + i \<and>
        ev_event_id (events ! i) = event_id_of (ev_sequence (events ! i))) \<and>
     (\<forall>e \<in> set events. ev_session_id e = session_id)"

definition snapshot_events_ok :: "string \<Rightarrow> u64 \<Rightarrow> event list \<Rightarrow> bool" where
  "snapshot_events_ok session_id offset events \<longleftrightarrow>
     event_stream_ok session_id offset events \<and>
     (\<forall>e \<in> set events. ev_timestamp_ns e \<noteq> 0 \<and> (ev_nvtx e = None \<longleftrightarrow> ev_cuda e \<noteq> None))"

lemma event_stream_distinct:
  assumes "event_stream_ok sid offset events"
  shows "distinct (map ev_event_id events)"
proof -
  have seq: "unat (ev_sequence (events ! i)) = unat offset + i"
    "ev_event_id (events ! i) = event_id_of (ev_sequence (events ! i))" if "i < length events" for i
    using assms that by (auto simp: event_stream_ok_def)
  have "ev_event_id (events ! i) \<noteq> ev_event_id (events ! j)"
    if "i < length events" "j < length events" "i \<noteq> j" for i j
  proof
    assume "ev_event_id (events ! i) = ev_event_id (events ! j)"
    then have "ev_sequence (events ! i) = ev_sequence (events ! j)"
      using seq(2) that by (simp add: event_id_of_inject)
    then show False using seq(1) [of i] seq(1) [of j] that by simp
  qed
  then show ?thesis by (simp add: distinct_conv_nth)
qed

lemma numbered_ok:
  assumes "\<And>e. e \<in> set es \<Longrightarrow> \<exists>i r. decode_record r i sid flags = Ok e"
    and "unat offset + length es < 2 ^ 64"
  shows "snapshot_events_ok sid offset (numbered offset (sort_key ev_timestamp_ns es))"
proof -
  let ?es = "sort_key ev_timestamp_ns es"
  have "ev_session_id (?es ! i) = sid \<and> ev_timestamp_ns (?es ! i) \<noteq> 0 \<and>
      (ev_nvtx (?es ! i) = None \<longleftrightarrow> ev_cuda (?es ! i) \<noteq> None)" if "i < length es" for i
  proof -
    have "?es ! i \<in> set es" using that nth_mem [of i ?es] by simp
    then obtain k r where "decode_record r k sid flags = Ok (?es ! i)" using assms(1) by blast
    then show ?thesis by (simp add: decode_record_facts)
  qed
  moreover have "unat (offset + of_nat i) = unat offset + i" if "i < length es" for i
    using assms(2) that by (intro unat_offset_add) simp
  ultimately show ?thesis
    by (auto simp: snapshot_events_ok_def event_stream_ok_def numbered_nth in_set_conv_nth)
qed

text \<open>C0: every decoded snapshot has consistent events: they are in timestamp order with non-zero
  timestamps and the session's id, the sequence number of the \<open>i\<close>-th one is the snapshot's record offset
  plus \<open>i\<close> (without wrap-around) and its id is derived from it, ids are distinct, an event carries
  exactly one of the CUDA and NVTX payloads, and the snapshot lies within the capacity and the number
  of records that the agent reports; the total of dropped records is the exact sum of its two parts.\<close>

theorem decode_capture_events:
  assumes "decode_capture bs session_id = Ok c"
  shows "snapshot_events_ok session_id (ca_record_offset c) (ca_events c) \<and>
    distinct (map ev_event_id (ca_events c)) \<and>
    unat (ca_record_offset c) + length (ca_events c) \<le> unat (ca_record_capacity c) \<and>
    unat (ca_record_offset c) + length (ca_events c) \<le> unat (ca_observed_records c) \<and>
    unat (ca_dropped_records c) = unat (ca_agent_dropped_records c) + unat (ca_cupti_dropped_records c)"
proof -
  from assms obtain es flags where es:
    "ca_events c = numbered (ca_record_offset c) (sort_key ev_timestamp_ns es)"
    "\<And>e. e \<in> set es \<Longrightarrow> \<exists>i r. decode_record r i session_id flags = Ok e"
    "unat (ca_record_offset c) + length es \<le> unat (ca_record_capacity c)"
    "unat (ca_record_offset c) + length es \<le> unat (ca_observed_records c)"
    by (rule decode_capture_exact) blast
  have "unat (ca_record_offset c) + length es < 2 ^ 64"
    using es(3) unat_bound [of "ca_record_capacity c"] by simp
  with es(2) have ok: "snapshot_events_ok session_id (ca_record_offset c) (ca_events c)"
    unfolding es(1) by (rule numbered_ok)
  have "unat (ca_dropped_records c) = unat (ca_agent_dropped_records c) + unat (ca_cupti_dropped_records c)"
    using assms by (rule decode_capture_facts)
  then show ?thesis
    using ok event_stream_distinct es by (auto simp: snapshot_events_ok_def)
qed

text \<open>C0: a decoded aggregate snapshot has one group per record, and every group is consistent: it
  counts at least one activity, its total duration lies between \<open>count\<close> times the shortest and \<open>count\<close>
  times the longest duration (up to the rounding of the division the decoder uses), kernel groups and
  only they have a name, which is not empty, and only memory operations have a byte count.\<close>

theorem decode_capture_groups:
  assumes "decode_capture bs session_id = Ok c" "g \<in> set (ca_aggregate_groups c)"
  shows "ca_events c = [] \<and> ca_record_offset c = 0 \<and> 0 < unat (ag_count g) \<and>
    ag_min_duration_ns g \<le> ag_max_duration_ns g \<and>
    unat (ag_min_duration_ns g) * unat (ag_count g) \<le> unat (ag_total_duration_ns g) \<and>
    unat (ag_total_duration_ns g) < (unat (ag_max_duration_ns g) + 1) * unat (ag_count g) \<and>
    (ag_activity g = GA_Kernel \<longleftrightarrow> ag_name g \<noteq> None) \<and> ag_name g \<noteq> Some [] \<and>
    (ag_activity g = GA_Kernel \<longleftrightarrow> ag_total_bytes g = None) \<and>
    (ag_activity g = GA_Memcpy \<longleftrightarrow> ag_memcpy_kind g \<noteq> None)"
proof -
  from assms(1) obtain flags n where f:
    "has_feature flags feature_aggregate \<Longrightarrow> ca_record_offset c = 0"
    "decode_payload bs (ca_record_offset c) session_id flags = Ok (ca_events c, ca_aggregate_groups c)"
    by (rule decode_capture_facts) blast
  have agg: "has_feature flags feature_aggregate"
    using assms(2) by (metis decode_payload_events [OF f(2)] empty_iff list.set(1))
  note all2 = decode_payload_groups [OF f(2) agg]
  from assms(2) obtain j where "j < length (ca_aggregate_groups c)" "ca_aggregate_groups c ! j = g"
    by (auto simp: in_set_conv_nth)
  then obtain r i where "decode_aggregate_record r i = Ok g"
    using list_all2_nthD2 [OF conjunct1 [OF all2], of j] by blast
  from decode_aggregate_record_facts [OF this] show ?thesis
    using all2 f(1) [OF agg] by (intro conjI) simp_all
qed

end
