(* ===== verification/Cupti_Control.thy ===== *)
theory Cupti_Control
  imports Cupti_Abi
begin

text \<open>
  The control requests that the collector sends to the CUPTI agent (\<open>encode_control\<close> of
  \<open>xprobe/collector/src/cupti.rs\<close>) and their layout as the agent's C structures.
\<close>

section \<open>The control request\<close>

fun name_filter_parts :: "cupti_name_filter \<Rightarrow> u32 \<times> string" where
  "name_filter_parts NF_Any = (0, [])"
| "name_filter_parts (NF_Exact name) = (1, name)"
| "name_filter_parts (NF_Prefix name) = (2, name)"
| "name_filter_parts (NF_Suffix name) = (3, name)"
| "name_filter_parts (NF_Contains name) = (4, name)"

definition encode_filter :: "nat \<Rightarrow> cupti_event_filter \<Rightarrow> bytes \<Rightarrow> (bytes, control_error) rresult" where
  "encode_filter index f control =
     (let offset = 40 + index * 144 in
      rbind (copy_at offset (u32_bytes (record_kind_u32 (ef_record_kind f))) control) (\<lambda>control.
      rbind (copy_at (offset + 4) (u32_bytes (api_domain_u32 (ef_api_domain f))) control) (\<lambda>control.
      rbind (copy_at (offset + 8) (u32_bytes (memcpy_kind_u32 (ef_memcpy_kind f))) control) (\<lambda>control.
      case name_filter_parts (ef_name f) of (name_match, name) \<Rightarrow>
        (let name_bytes = bytes_of_string name in
         if length name_bytes \<ge> 128 \<or> 0 \<in> set name_bytes then Err CE_FilterName
         else
           rbind (copy_at (offset + 12) (u32_bytes name_match) control) (\<lambda>control.
           copy_at (offset + 16) name_bytes control))))))"

fun encode_filters :: "nat \<Rightarrow> cupti_event_filter list \<Rightarrow> bytes \<Rightarrow> (bytes, control_error) rresult" where
  "encode_filters index [] control = Ok control"
| "encode_filters index (f # fs) control =
     rbind (encode_filter index f control) (\<lambda>control. encode_filters (index + 1) fs control)"

definition encode_control ::
  "u32 \<Rightarrow> u64 \<Rightarrow> cupti_arm_config option \<Rightarrow> (bytes, control_error) rresult" where
  "encode_control command record_offset config =
     rbind (copy_at 0 control_magic (replicate 328 0)) (\<lambda>control.
     rbind (copy_at 8 (u32_bytes 4) control) (\<lambda>control.
     rbind (copy_at 12 (u32_bytes command) control) (\<lambda>control.
     rbind (copy_at 24 (u64_bytes record_offset) control) (\<lambda>control.
     case config of
       None \<Rightarrow> Ok control
     | Some config \<Rightarrow>
         (if ac_record_capacity config = 0 then Err CE_ZeroCapacity
          else if ac_filters config = [] \<or> length (ac_filters config) > 2
            then Err (CE_FilterCount (length (ac_filters config)))
          else if record_offset \<noteq> 0 then Err CE_ArmOffset
          else
            rbind (copy_at 16 (u64_bytes (ac_record_capacity config)) control) (\<lambda>control.
            rbind (copy_at 32 (u32_bytes (capture_mode_u32 (ac_capture_mode config))) control) (\<lambda>control.
            encode_filters 0 (ac_filters config) control)))))))"

section \<open>The layout of a control request\<close>

text \<open>The structures \<open>xprobe_cupti_filter\<close> and \<open>xprobe_cupti_control_request\<close> of the agent's header,
  field by field; an unused filter is all zero.\<close>

definition filter_layout :: "u32 \<Rightarrow> u32 \<Rightarrow> u32 \<Rightarrow> u32 \<Rightarrow> bytes \<Rightarrow> bytes" where
  "filter_layout record_kind api_domain memcpy_kind name_match name =
     u32_bytes record_kind @ u32_bytes api_domain @ u32_bytes memcpy_kind @ u32_bytes name_match @
     name @ replicate (128 - length name) 0"

definition control_layout :: "u32 \<Rightarrow> u64 \<Rightarrow> u64 \<Rightarrow> u32 \<Rightarrow> bytes list \<Rightarrow> bytes" where
  "control_layout command record_capacity record_offset capture_mode filters =
     control_magic @ u32_bytes 4 @ u32_bytes command @ u64_bytes record_capacity @
     u64_bytes record_offset @ u32_bytes capture_mode @ u32_bytes 0 @ concat filters @
     replicate (288 - 144 * length filters) 0"

definition filter_name_ok :: "cupti_event_filter \<Rightarrow> bool" where
  "filter_name_ok f \<longleftrightarrow>
     (let name = bytes_of_string (snd (name_filter_parts (ef_name f))) in length name < 128 \<and> 0 \<notin> set name)"

definition event_filter_layout :: "cupti_event_filter \<Rightarrow> bytes" where
  "event_filter_layout f =
     filter_layout (record_kind_u32 (ef_record_kind f)) (api_domain_u32 (ef_api_domain f))
       (memcpy_kind_u32 (ef_memcpy_kind f)) (fst (name_filter_parts (ef_name f)))
       (bytes_of_string (snd (name_filter_parts (ef_name f))))"

lemma copy_at_append:
  assumes "offset = length a" "length src = length b"
  shows "copy_at offset src (a @ b @ c) = Ok (a @ src @ c)"
  unfolding copy_at_def assms by simp

lemma le_bytes_0: "le_bytes n 0 = replicate n 0"
  by (induction n) simp_all

lemma length_event_filter_layout: "filter_name_ok f \<Longrightarrow> length (event_filter_layout f) = 144"
  by (simp add: event_filter_layout_def filter_layout_def filter_name_ok_def Let_def)

lemma encode_filter_eq:
  assumes "length pre = 40 + index * 144"
  shows "encode_filter index f (pre @ replicate 144 0 @ post) =
    (if filter_name_ok f then Ok (pre @ event_filter_layout f @ post) else Err CE_FilterName)"
proof -
  let ?n = "bytes_of_string (snd (name_filter_parts (ef_name f)))"
  let ?z = "\<lambda>k. replicate k (0::u8)"
  let ?kind = "u32_bytes (record_kind_u32 (ef_record_kind f))"
  let ?dom = "u32_bytes (api_domain_u32 (ef_api_domain f))"
  let ?mem = "u32_bytes (memcpy_kind_u32 (ef_memcpy_kind f))"
  let ?m = "u32_bytes (fst (name_filter_parts (ef_name f)))"
  let ?p = "40 + index * 144"
  have z: "?z 144 = ?z 4 @ ?z 4 @ ?z 4 @ ?z 4 @ ?z 128"
    unfolding replicate_add [symmetric] by (rule arg_cong [where f = ?z]) simp
  have 1: "copy_at ?p ?kind (pre @ ?z 144 @ post) = Ok (pre @ ?kind @ ?z 4 @ ?z 4 @ ?z 4 @ ?z 128 @ post)"
    unfolding z append_assoc by (rule copy_at_append) (use assms in simp_all)
  have 2: "copy_at (?p + 4) ?dom (pre @ ?kind @ ?z 4 @ ?z 4 @ ?z 4 @ ?z 128 @ post) =
      Ok (pre @ ?kind @ ?dom @ ?z 4 @ ?z 4 @ ?z 128 @ post)"
    using copy_at_append [of "?p + 4" "pre @ ?kind" ?dom "?z 4"] assms by simp
  have 3: "copy_at (?p + 8) ?mem (pre @ ?kind @ ?dom @ ?z 4 @ ?z 4 @ ?z 128 @ post) =
      Ok (pre @ ?kind @ ?dom @ ?mem @ ?z 4 @ ?z 128 @ post)"
    using copy_at_append [of "?p + 8" "pre @ ?kind @ ?dom" ?mem "?z 4"] assms by simp
  have 4: "copy_at (?p + 12) ?m (pre @ ?kind @ ?dom @ ?mem @ ?z 4 @ ?z 128 @ post) =
      Ok (pre @ ?kind @ ?dom @ ?mem @ ?m @ ?z 128 @ post)"
    using copy_at_append [of "?p + 12" "pre @ ?kind @ ?dom @ ?mem" ?m "?z 4"] assms by simp
  have 5: "copy_at (?p + 16) ?n (pre @ ?kind @ ?dom @ ?mem @ ?m @ ?z 128 @ post) =
      Ok (pre @ ?kind @ ?dom @ ?mem @ ?m @ ?n @ ?z (128 - length ?n) @ post)" if "length ?n < 128"
  proof -
    have "?z 128 = ?z (length ?n) @ ?z (128 - length ?n)" using that by (simp flip: replicate_add)
    then show ?thesis
      using copy_at_append [of "?p + 16" "pre @ ?kind @ ?dom @ ?mem @ ?m" ?n "?z (length ?n)"] assms
      by simp
  qed
  show ?thesis
    unfolding encode_filter_def Let_def 1 rbind.simps 2 3 case_prod_beta 4
    using 5 by (auto simp: filter_name_ok_def event_filter_layout_def filter_layout_def Let_def not_less)
qed

lemma encode_filters_eq:
  assumes "length pre = 40 + index * 144"
  shows "encode_filters index fs (pre @ replicate (144 * length fs) 0 @ post) =
    (if list_all filter_name_ok fs then Ok (pre @ concat (map event_filter_layout fs) @ post)
     else Err CE_FilterName)"
  using assms
proof (induction fs arbitrary: index pre)
  case (Cons f fs)
  have z: "replicate (144 * length (f # fs)) (0::u8) = replicate 144 0 @ replicate (144 * length fs) 0"
    by (simp flip: replicate_add)
  show ?case
  proof (cases "filter_name_ok f")
    case True
    then show ?thesis
      using Cons.IH [of "pre @ event_filter_layout f" "index + 1"] Cons.prems
      unfolding encode_filters.simps z append_assoc encode_filter_eq [OF Cons.prems]
      by (simp add: length_event_filter_layout)
  next
    case False
    then show ?thesis
      unfolding encode_filters.simps z append_assoc encode_filter_eq [OF Cons.prems] by simp
  qed
qed simp

text \<open>C15: a control request is exactly the agent's C structure: without a configuration it has the
  magic, version, command and offset and is otherwise zero; with one, the request is refused for a zero
  capacity, no or more than two filters, a non-zero offset or a name that does not fit its field with a
  terminator, in that order, and otherwise carries the capacity, the mode and the filters in their slots.\<close>

theorem encode_control_layout:
  "encode_control command record_offset config =
     (case config of
        None \<Rightarrow> Ok (control_layout command 0 record_offset 0 [])
      | Some cfg \<Rightarrow>
          if ac_record_capacity cfg = 0 then Err CE_ZeroCapacity
          else if ac_filters cfg = [] \<or> 2 < length (ac_filters cfg)
            then Err (CE_FilterCount (length (ac_filters cfg)))
          else if record_offset \<noteq> 0 then Err CE_ArmOffset
          else if \<not> list_all filter_name_ok (ac_filters cfg) then Err CE_FilterName
          else Ok (control_layout command (ac_record_capacity cfg) record_offset
                 (capture_mode_u32 (ac_capture_mode cfg)) (map event_filter_layout (ac_filters cfg))))"
proof -
  let ?z = "\<lambda>k. replicate k (0::u8)"
  have z: "?z 328 = ?z 8 @ ?z 4 @ ?z 4 @ ?z 8 @ ?z 8 @ ?z 4 @ ?z 4 @ ?z 288"
    unfolding replicate_add [symmetric] by (rule arg_cong [where f = ?z]) simp
  have zb: "u64_bytes 0 = ?z 8" "u32_bytes 0 = ?z 4"
    by (simp_all only: u64_bytes_def u32_bytes_def unsigned_0 le_bytes_0)
  have m: "length control_magic = 8" by (simp add: control_magic_def)
  define hd where "hd = control_magic @ u32_bytes 4 @ u32_bytes command"
  have 1: "copy_at 0 control_magic (?z 328) =
      Ok (control_magic @ ?z 4 @ ?z 4 @ ?z 8 @ ?z 8 @ ?z 4 @ ?z 4 @ ?z 288)"
    unfolding z using copy_at_append [of 0 "[]" control_magic "?z 8"] m by simp
  have 2: "copy_at 8 (u32_bytes 4) (control_magic @ ?z 4 @ ?z 4 @ ?z 8 @ ?z 8 @ ?z 4 @ ?z 4 @ ?z 288) =
      Ok (control_magic @ u32_bytes 4 @ ?z 4 @ ?z 8 @ ?z 8 @ ?z 4 @ ?z 4 @ ?z 288)"
    using copy_at_append [of 8 control_magic "u32_bytes 4" "?z 4"] m by simp
  have 3: "copy_at 12 (u32_bytes command)
        (control_magic @ u32_bytes 4 @ ?z 4 @ ?z 8 @ ?z 8 @ ?z 4 @ ?z 4 @ ?z 288) =
      Ok (hd @ ?z 8 @ ?z 8 @ ?z 4 @ ?z 4 @ ?z 288)"
    using copy_at_append [of 12 "control_magic @ u32_bytes 4" "u32_bytes command" "?z 4"] m
    by (simp add: hd_def)
  have hd: "length hd = 16" using m by (simp add: hd_def)
  have 4: "copy_at 24 (u64_bytes record_offset) (hd @ ?z 8 @ ?z 8 @ ?z 4 @ ?z 4 @ ?z 288) =
      Ok (hd @ ?z 8 @ u64_bytes record_offset @ ?z 4 @ ?z 4 @ ?z 288)"
    using copy_at_append [of 24 "hd @ ?z 8" "u64_bytes record_offset" "?z 8"] hd by simp
  have 5: "copy_at 16 (u64_bytes cap) (hd @ ?z 8 @ u64_bytes record_offset @ ?z 4 @ ?z 4 @ ?z 288) =
      Ok (hd @ u64_bytes cap @ u64_bytes record_offset @ ?z 4 @ ?z 4 @ ?z 288)" for cap
    using copy_at_append [of 16 "hd" "u64_bytes cap" "?z 8"] hd by simp
  have 6: "copy_at 32 (u32_bytes mode) (hd @ u64_bytes cap @ u64_bytes record_offset @ ?z 4 @ ?z 4 @ ?z 288) =
      Ok (hd @ u64_bytes cap @ u64_bytes record_offset @ u32_bytes mode @ ?z 4 @ ?z 288)" for cap mode
    using copy_at_append [of 32 "hd @ u64_bytes cap @ u64_bytes record_offset" "u32_bytes mode" "?z 4"] hd
    by simp
  have 7: "encode_filters 0 fs (hd @ u64_bytes cap @ u64_bytes record_offset @ u32_bytes mode @ ?z 4 @ ?z 288) =
      (if list_all filter_name_ok fs
       then Ok (control_layout command cap record_offset mode (map event_filter_layout fs))
       else Err CE_FilterName)" if "length fs \<le> 2" for cap mode fs
  proof -
    have "?z 288 = ?z (144 * length fs) @ ?z (288 - 144 * length fs)"
      unfolding replicate_add [symmetric] by (rule arg_cong [where f = ?z]) (use that in simp)
    then show ?thesis
      using encode_filters_eq [of "hd @ u64_bytes cap @ u64_bytes record_offset @ u32_bytes mode @ ?z 4" 0 fs
        "?z (288 - 144 * length fs)"] hd
      by (simp add: control_layout_def hd_def zb)
  qed
  have 8: "hd @ ?z 8 @ u64_bytes record_offset @ ?z 4 @ ?z 4 @ ?z 288 = control_layout command 0 record_offset 0 []"
    by (simp add: control_layout_def hd_def zb)
  note run = encode_control_def 1 rbind.simps 2 3 4 5 6
  show ?thesis
  proof (cases config)
    case None
    then show ?thesis unfolding run by (simp add: 8)
  next
    case (Some cfg)
    show ?thesis
    proof (cases "length (ac_filters cfg) \<le> 2")
      case True
      show ?thesis unfolding run Some option.case 7 [OF True] by simp
    next
      case False
      then show ?thesis unfolding run Some by simp
    qed
  qed
qed

end
