(* ===== verification/Completed.thy ===== *)
theory Completed
  imports Cupti_Abi
begin

text \<open>
  Completed captures (\<open>xprobe/collector/src/completed.rs\<close>): recognising and decoding one capture file,
  and merging the captures of one target into the event stream of a measurement. The JSON reader is
  \<open>serde_json\<close> and a parameter: the documents of a byte string, in order, and the typed readings of one
  document.
\<close>

section \<open>Definitions\<close>

datatype json_error = JsonError string

record json_reader =
  jr_documents :: "bytes \<Rightarrow> (json_error + json) list"
  jr_event :: "json \<Rightarrow> json_error + event"
  jr_host_capture :: "json \<Rightarrow> json_error + host_capture_result"

record completed_cupti_statistics =
  cu_complete :: bool
  cu_record_capacity :: u64
  cu_observed_records :: u64
  cu_dropped_records :: u64

record completed_capture =
  cp_dropped_records :: u64
  cp_unknown_records :: u64
  cp_record_limit_reached :: "u64 option"
  cp_capture_failed :: bool
  cp_cupti :: "completed_cupti_statistics option"
  cp_events :: "event list"

datatype completed_capture_error =
    CCE_EmptyInput
  | CCE_Cupti cupti_decode_error
  | CCE_Json json_error
  | CCE_HostCaptureFollowedByAnotherDocument
  | CCE_HostCaptureInsideEventStream
  | CCE_CounterOverflow
  | CCE_TargetMismatch u32 u32 \<comment> \<open>expected, actual\<close>

text \<open>\<open>is_ascii_whitespace\<close>: space, tab, line feed, form feed and carriage return.\<close>

definition is_ascii_whitespace :: "u8 \<Rightarrow> bool" where
  "is_ascii_whitespace b \<longleftrightarrow> b = 32 \<or> b = 9 \<or> b = 10 \<or> b = 12 \<or> b = 13"

text \<open>\<open>value.get(key)\<close>: a member of an object, nothing for any other value.\<close>

fun json_get :: "json \<Rightarrow> string \<Rightarrow> json option" where
  "json_get (JObject members) key = map_of members key"
| "json_get _ key = None"

definition completed_of_cupti :: "cupti_capture \<Rightarrow> completed_capture" where
  "completed_of_cupti capture =
     \<lparr>cp_dropped_records = ca_dropped_records capture,
      cp_unknown_records = ca_unknown_records capture,
      cp_record_limit_reached =
        (if ca_state capture = CS_LimitReached then Some (ca_record_capacity capture) else None),
      cp_capture_failed = (ca_state capture = CS_Idle \<or> ca_state capture = CS_Failed),
      cp_cupti = Some \<lparr>cu_complete = (ca_state capture = CS_Stopped),
                       cu_record_capacity = ca_record_capacity capture,
                       cu_observed_records = ca_observed_records capture,
                       cu_dropped_records = ca_dropped_records capture\<rparr>,
      cp_events = ca_events capture\<rparr>"

text \<open>\<open>?\<close> on a result of the JSON reader.\<close>

definition json_result :: "json_error + 'a \<Rightarrow> ('a, completed_capture_error) rresult" where
  "json_result r = (case r of Inl e \<Rightarrow> Err (CCE_Json e) | Inr a \<Rightarrow> Ok a)"

text \<open>The documents after the first one, each an event.\<close>

fun decode_event_documents ::
  "json_reader \<Rightarrow> (json_error + json) list \<Rightarrow> (event list, completed_capture_error) rresult" where
  "decode_event_documents reader [] = Ok []"
| "decode_event_documents reader (document # documents) =
     rbind (json_result document) (\<lambda>document.
     if json_get document ''events'' \<noteq> None then Err CCE_HostCaptureInsideEventStream
     else
       rbind (json_result (jr_event reader document)) (\<lambda>event.
       rbind (decode_event_documents reader documents) (\<lambda>events.
       Ok (event # events))))"

definition decode_json :: "json_reader \<Rightarrow> bytes \<Rightarrow> (completed_capture, completed_capture_error) rresult" where
  "decode_json reader bs =
     (case jr_documents reader bs of
        [] \<Rightarrow> Err CCE_EmptyInput
      | document # documents \<Rightarrow>
          rbind (json_result document) (\<lambda>first.
          if json_get first ''events'' \<noteq> None then
            (case documents of
               next # _ \<Rightarrow> rbind (json_result next) (\<lambda>_. Err CCE_HostCaptureFollowedByAnotherDocument)
             | [] \<Rightarrow>
                 rbind (json_result (jr_host_capture reader first)) (\<lambda>capture.
                 Ok \<lparr>cp_dropped_records = hc_dropped capture, cp_unknown_records = 0,
                     cp_record_limit_reached =
                       (if hc_record_limit_reached capture then Some (hc_captured capture) else None),
                     cp_capture_failed = False, cp_cupti = None, cp_events = hc_events capture\<rparr>))
          else
            rbind (json_result (jr_event reader first)) (\<lambda>event.
            rbind (decode_event_documents reader documents) (\<lambda>events.
            Ok \<lparr>cp_dropped_records = 0, cp_unknown_records = 0, cp_record_limit_reached = None,
                cp_capture_failed = False, cp_cupti = None, cp_events = event # events\<rparr>))))"

definition decode_completed ::
  "json_reader \<Rightarrow> bytes \<Rightarrow> string \<Rightarrow> (completed_capture, completed_capture_error) rresult" where
  "decode_completed reader bs session_id =
     rbind (ok_or (List.find (\<lambda>b. \<not> is_ascii_whitespace b) bs) CCE_EmptyInput) (\<lambda>first.
     if first = 123 then decode_json reader bs
     else rbind (map_err CCE_Cupti (decode_capture bs session_id)) (\<lambda>capture.
       Ok (completed_of_cupti capture)))"

definition merge_cupti ::
  "completed_cupti_statistics option \<Rightarrow> completed_cupti_statistics option \<Rightarrow>
   (completed_cupti_statistics option, completed_capture_error) rresult" where
  "merge_cupti merged capture =
     (case (capture, merged) of
        (None, _) \<Rightarrow> Ok merged
      | (Some cupti, None) \<Rightarrow> Ok (Some cupti)
      | (Some cupti, Some existing) \<Rightarrow>
          rbind (ok_or (checked_add (cu_record_capacity existing) (cu_record_capacity cupti)) CCE_CounterOverflow)
            (\<lambda>record_capacity.
          rbind (ok_or (checked_add (cu_observed_records existing) (cu_observed_records cupti)) CCE_CounterOverflow)
            (\<lambda>observed_records.
          rbind (ok_or (checked_add (cu_dropped_records existing) (cu_dropped_records cupti)) CCE_CounterOverflow)
            (\<lambda>dropped_records.
          Ok (Some \<lparr>cu_complete = (cu_complete existing \<and> cu_complete cupti),
                    cu_record_capacity = record_capacity, cu_observed_records = observed_records,
                    cu_dropped_records = dropped_records\<rparr>)))))"

text \<open>The loop over the events of one capture: the target of the first event is the target of all.\<close>

fun check_target ::
  "u32 option \<Rightarrow> event list \<Rightarrow> (u32 option, completed_capture_error) rresult" where
  "check_target target_pid [] = Ok target_pid"
| "check_target target_pid (event # events) =
     (case target_pid of
        Some expected \<Rightarrow>
          (if ev_pid event \<noteq> expected then Err (CCE_TargetMismatch expected (ev_pid event))
           else check_target target_pid events)
      | None \<Rightarrow> check_target (Some (ev_pid event)) events)"

definition merge_step ::
  "completed_capture \<Rightarrow> u32 option \<Rightarrow> completed_capture \<Rightarrow>
   (completed_capture \<times> u32 option, completed_capture_error) rresult" where
  "merge_step merged target_pid capture =
     rbind (ok_or (checked_add (cp_dropped_records merged) (cp_dropped_records capture)) CCE_CounterOverflow)
       (\<lambda>dropped_records.
     rbind (ok_or (checked_add (cp_unknown_records merged) (cp_unknown_records capture)) CCE_CounterOverflow)
       (\<lambda>unknown_records.
     rbind (merge_cupti (cp_cupti merged) (cp_cupti capture)) (\<lambda>cupti.
     rbind (check_target target_pid (cp_events capture)) (\<lambda>target_pid.
     Ok (\<lparr>cp_dropped_records = dropped_records, cp_unknown_records = unknown_records,
          cp_record_limit_reached = max (cp_record_limit_reached merged) (cp_record_limit_reached capture),
          cp_capture_failed = (cp_capture_failed merged \<or> cp_capture_failed capture),
          cp_cupti = cupti, cp_events = cp_events merged @ cp_events capture\<rparr>, target_pid)))))"

fun merge_loop ::
  "completed_capture \<Rightarrow> u32 option \<Rightarrow> completed_capture list \<Rightarrow>
   (completed_capture, completed_capture_error) rresult" where
  "merge_loop merged target_pid [] = Ok merged"
| "merge_loop merged target_pid (capture # captures) =
     rbind (merge_step merged target_pid capture) (\<lambda>(merged, target_pid).
     merge_loop merged target_pid captures)"

definition empty_capture :: completed_capture where
  "empty_capture =
     \<lparr>cp_dropped_records = 0, cp_unknown_records = 0, cp_record_limit_reached = None,
      cp_capture_failed = False, cp_cupti = None, cp_events = []\<rparr>"

text \<open>The last loop: a position that does not fit \<open>u64\<close> is an error.\<close>

fun reidentify :: "string \<Rightarrow> nat \<Rightarrow> event list \<Rightarrow> (event list, completed_capture_error) rresult" where
  "reidentify session_id index [] = Ok []"
| "reidentify session_id index (event # events) =
     rbind (if index < 2 ^ 64 then Ok (of_nat index) else Err CCE_CounterOverflow) (\<lambda>sequence.
     rbind (reidentify session_id (index + 1) events) (\<lambda>events.
     Ok (event\<lparr>ev_session_id := session_id, ev_sequence := sequence, ev_event_id := event_id_of sequence\<rparr>
         # events)))"

definition merge_captures ::
  "completed_capture list \<Rightarrow> string \<Rightarrow> (completed_capture, completed_capture_error) rresult" where
  "merge_captures captures session_id =
     rbind (merge_loop empty_capture None captures) (\<lambda>merged.
     rbind (reidentify session_id 0 (sort_key ev_timestamp_ns (cp_events merged))) (\<lambda>events.
     Ok (merged\<lparr>cp_events := events\<rparr>)))"

section \<open>Decoding\<close>

lemma json_result_simps [rust_simps]:
  "json_result r = Ok a \<longleftrightarrow> r = Inr a"
  "json_result r \<noteq> Panic"
  by (auto simp: json_result_def split: sum.splits)

lemma decode_event_documents_no_Panic: "decode_event_documents reader documents \<noteq> Panic"
  by (induction documents) (auto simp: rust_simps)

lemma decode_json_no_Panic: "decode_json reader bs \<noteq> Panic"
  by (auto simp: decode_json_def rust_simps decode_event_documents_no_Panic split: list.splits)


section \<open>Merging\<close>

text \<open>The totals of a counter over the captures.\<close>

definition capture_total :: "(completed_capture \<Rightarrow> u64) \<Rightarrow> completed_capture list \<Rightarrow> nat" where
  "capture_total f captures = sum_list (map (\<lambda>c. unat (f c)) captures)"

definition cupti_value :: "(completed_cupti_statistics \<Rightarrow> u64) \<Rightarrow> completed_cupti_statistics option \<Rightarrow> nat" where
  "cupti_value f c = (case c of None \<Rightarrow> 0 | Some s \<Rightarrow> unat (f s))"

definition cupti_total :: "(completed_cupti_statistics \<Rightarrow> u64) \<Rightarrow> completed_capture list \<Rightarrow> nat" where
  "cupti_total f captures = sum_list (map (\<lambda>c. cupti_value f (cp_cupti c)) captures)"

definition same_target :: "u32 option \<Rightarrow> event list \<Rightarrow> bool" where
  "same_target target_pid events \<longleftrightarrow>
     (\<forall>e \<in> set events. Some (ev_pid e) = (case target_pid of None \<Rightarrow> Some (ev_pid (hd events)) | t \<Rightarrow> t))"

definition next_target :: "u32 option \<Rightarrow> event list \<Rightarrow> u32 option" where
  "next_target target_pid events =
     (if target_pid = None \<and> events \<noteq> [] then Some (ev_pid (hd events)) else target_pid)"

lemma check_target_eq:
  "check_target t es = Ok t' \<longleftrightarrow> same_target t es \<and> t' = next_target t es"
  by (induction t es rule: check_target.induct)
    (auto simp: same_target_def next_target_def split: option.splits)

lemma check_target_no_Panic: "check_target t es \<noteq> Panic"
  by (induction t es rule: check_target.induct) (auto split: option.splits)

lemma same_target_append: "same_target t (as @ bs) \<longleftrightarrow> same_target t as \<and> same_target (next_target t as) bs"
  by (cases as; cases t; auto simp: same_target_def next_target_def)

lemma checked_add_Some_unat:
  "checked_add a b = Some c \<longleftrightarrow> unat a + unat b < 2 ^ LENGTH('a) \<and> unat c = unat a + unat (b :: 'a::len word)"
proof -
  have "unat (a + b) = unat a + unat b" if "unat a + unat b < 2 ^ LENGTH('a)"
    using that by (simp add: unat_word_ariths)
  then show ?thesis by (auto simp: checked_add_def word_unat_eq_iff)
qed

text \<open>The three counters of the CUPTI statistics.\<close>

definition cupti_counters :: "(completed_cupti_statistics \<Rightarrow> u64) list" where
  "cupti_counters = [cu_record_capacity, cu_observed_records, cu_dropped_records]"

lemma cupti_value_bound: "cupti_value f c < 2 ^ 64"
  using unat_bound [where 'a = 64] by (auto simp: cupti_value_def split: option.splits)

lemma merge_cupti_Ok:
  assumes "merge_cupti a b = Ok c" "f \<in> set cupti_counters"
  shows "cupti_value f c = cupti_value f a + cupti_value f b"
proof (cases "\<exists>x y. a = Some x \<and> b = Some y")
  case True
  then obtain x y where xy: "a = Some x" "b = Some y" by blast
  from assms(1) obtain cap obs drp where c:
    "checked_add (cu_record_capacity x) (cu_record_capacity y) = Some cap"
    "checked_add (cu_observed_records x) (cu_observed_records y) = Some obs"
    "checked_add (cu_dropped_records x) (cu_dropped_records y) = Some drp"
    "c = Some \<lparr>cu_complete = (cu_complete x \<and> cu_complete y), cu_record_capacity = cap,
       cu_observed_records = obs, cu_dropped_records = drp\<rparr>"
    unfolding merge_cupti_def xy by (auto simp: rust_simps)
  note sums = c(1-3) [unfolded checked_add_Some_unat, THEN conjunct2]
  from assms(2) have "f = cu_record_capacity \<or> f = cu_observed_records \<or> f = cu_dropped_records"
    by (simp add: cupti_counters_def)
  then show ?thesis
    by (elim disjE) (simp_all add: xy c(4) cupti_value_def sums)
next
  case False
  then have "c = (case b of None \<Rightarrow> a | Some _ \<Rightarrow> b)" "a = None \<or> b = None"
    using assms(1) by (auto simp: merge_cupti_def split: option.splits)
  then show ?thesis by (auto simp: cupti_value_def split: option.splits)
qed

definition cupti_complete :: "completed_cupti_statistics option \<Rightarrow> bool" where
  "cupti_complete c = (case c of None \<Rightarrow> True | Some s \<Rightarrow> cu_complete s)"

lemma merge_cupti_complete:
  assumes "merge_cupti a b = Ok c"
  shows "cupti_complete c \<longleftrightarrow> cupti_complete a \<and> cupti_complete b"
  using assms
  by (cases a; cases b) (simp_all add: merge_cupti_def cupti_complete_def rust_simps, auto)

lemma merge_cupti_fits:
  assumes "\<And>f. f \<in> set cupti_counters \<Longrightarrow> cupti_value f a + cupti_value f b < 2 ^ 64"
  obtains c where "merge_cupti a b = Ok c"
  using assms [of cu_record_capacity] assms [of cu_observed_records] assms [of cu_dropped_records] that
  by (cases a; cases b) (auto simp: merge_cupti_def cupti_value_def cupti_counters_def checked_add_def ok_or_def)

lemma merge_cupti_no_Panic: "merge_cupti a b \<noteq> Panic"
  by (auto simp: merge_cupti_def rust_simps split: option.splits)

lemma merge_step_Ok:
  assumes "merge_step m t c = Ok (m', t')"
  shows "unat (cp_dropped_records m') = unat (cp_dropped_records m) + unat (cp_dropped_records c)"
    "unat (cp_unknown_records m') = unat (cp_unknown_records m) + unat (cp_unknown_records c)"
    "cp_events m' = cp_events m @ cp_events c" "same_target t (cp_events c)" "t' = next_target t (cp_events c)"
    "cp_capture_failed m' \<longleftrightarrow> cp_capture_failed m \<or> cp_capture_failed c"
    "cp_record_limit_reached m' = max (cp_record_limit_reached m) (cp_record_limit_reached c)"
    "merge_cupti (cp_cupti m) (cp_cupti c) = Ok (cp_cupti m')"
  using assms by (auto simp: merge_step_def rust_simps checked_add_Some_unat check_target_eq)

lemma merge_step_fits:
  assumes "unat (cp_dropped_records m) + unat (cp_dropped_records c) < 2 ^ 64"
    "unat (cp_unknown_records m) + unat (cp_unknown_records c) < 2 ^ 64"
    "\<And>f. f \<in> set cupti_counters \<Longrightarrow> cupti_value f (cp_cupti m) + cupti_value f (cp_cupti c) < 2 ^ 64"
    "same_target t (cp_events c)"
  obtains m' where "merge_step m t c = Ok (m', next_target t (cp_events c))"
proof -
  from assms(3) obtain cu where "merge_cupti (cp_cupti m) (cp_cupti c) = Ok cu"
    by (rule merge_cupti_fits)
  moreover have "check_target t (cp_events c) = Ok (next_target t (cp_events c))"
    using assms(4) by (simp add: check_target_eq)
  ultimately show thesis
    using assms(1,2) that by (simp add: merge_step_def checked_add_def ok_or_def)
qed

lemma merge_loop_no_Panic: "merge_loop m t cs \<noteq> Panic"
  by (induction m t cs rule: merge_loop.induct)
    (auto simp: rust_simps merge_step_def merge_cupti_no_Panic check_target_no_Panic)

text \<open>What the captures must satisfy to be merged with an accumulated state.\<close>

definition mergeable :: "completed_capture \<Rightarrow> u32 option \<Rightarrow> completed_capture list \<Rightarrow> bool" where
  "mergeable m t captures \<longleftrightarrow>
     unat (cp_dropped_records m) + capture_total cp_dropped_records captures < 2 ^ 64 \<and>
     unat (cp_unknown_records m) + capture_total cp_unknown_records captures < 2 ^ 64 \<and>
     list_all (\<lambda>f. cupti_value f (cp_cupti m) + cupti_total f captures < 2 ^ 64) cupti_counters \<and>
     same_target t (concat (map cp_events captures))"

lemmas total_defs = capture_total_def cupti_total_def

lemma merge_loop_fits: "mergeable m t cs \<Longrightarrow> \<exists>m'. merge_loop m t cs = Ok m'"
proof (induction cs arbitrary: m t)
  case (Cons c cs)
  note M = Cons.prems [unfolded mergeable_def total_defs list_all_iff, simplified]
  obtain m' where step: "merge_step m t c = Ok (m', next_target t (cp_events c))"
  proof (rule merge_step_fits [of m c t])
    show "cupti_value f (cp_cupti m) + cupti_value f (cp_cupti c) < 2 ^ 64" if "f \<in> set cupti_counters" for f
      using bspec [OF conjunct1 [OF conjunct2 [OF conjunct2 [OF M]]] that] by simp
  qed (use M in \<open>auto simp: same_target_append\<close>)
  note S = merge_step_Ok [OF step]
  have "mergeable m' (next_target t (cp_events c)) cs"
    using M S merge_cupti_Ok [OF S(8)]
    by (auto simp: mergeable_def total_defs list_all_iff same_target_append add.assoc)
  then show ?case using step Cons.IH by simp
qed simp

lemma merge_loop_Ok:
  assumes "merge_loop m t cs = Ok m'"
  shows "mergeable m t cs \<and>
    unat (cp_dropped_records m') = unat (cp_dropped_records m) + capture_total cp_dropped_records cs \<and>
    unat (cp_unknown_records m') = unat (cp_unknown_records m) + capture_total cp_unknown_records cs \<and>
    (\<forall>f\<in>set cupti_counters. cupti_value f (cp_cupti m') = cupti_value f (cp_cupti m) + cupti_total f cs) \<and>
    (cupti_complete (cp_cupti m') \<longleftrightarrow>
       cupti_complete (cp_cupti m) \<and> list_all (\<lambda>c. cupti_complete (cp_cupti c)) cs) \<and>
    cp_events m' = cp_events m @ concat (map cp_events cs) \<and>
    (cp_capture_failed m' \<longleftrightarrow> cp_capture_failed m \<or> list_ex cp_capture_failed cs) \<and>
    cp_record_limit_reached m' = fold max (map cp_record_limit_reached cs) (cp_record_limit_reached m)"
  using assms
proof (induction cs arbitrary: m t)
  case Nil
  then show ?case
    using unat_bound [of "cp_dropped_records m'"] unat_bound [of "cp_unknown_records m'"]
    by (auto simp: mergeable_def total_defs same_target_def list_all_iff cupti_value_bound [simplified])
next
  case (Cons c cs)
  then obtain m1 t1 where step: "merge_step m t c = Ok (m1, t1)" and rest: "merge_loop m1 t1 cs = Ok m'"
    by (auto simp: rust_simps)
  note S = merge_step_Ok [OF step]
  note C = merge_cupti_Ok [OF S(8)] merge_cupti_complete [OF S(8)]
  from Cons.IH [OF rest] S C show ?case
    by (auto simp: mergeable_def total_defs list_all_iff same_target_append add.assoc max.commute)
qed

text \<open>Relabelling keeps everything but the session, the sequence number and the id of an event.\<close>

definition unlabelled :: "event \<Rightarrow> event" where
  "unlabelled e = e\<lparr>ev_session_id := [], ev_sequence := 0, ev_event_id := []\<rparr>"

lemma reidentify_eq:
  "index + length es \<le> 2 ^ 64 \<Longrightarrow>
     reidentify sid index es =
       Ok (map (\<lambda>(i, e). e\<lparr>ev_session_id := sid, ev_sequence := of_nat i, ev_event_id := event_id_of (of_nat i)\<rparr>)
             (List.enumerate index es))"
  by (induction es arbitrary: index) simp_all

lemma reidentify_Ok_bound: "reidentify sid index es = Ok es' \<Longrightarrow> index \<le> 2 ^ 64 \<Longrightarrow> index + length es \<le> 2 ^ 64"
proof (induction es arbitrary: index es')
  case (Cons e es)
  then obtain es1 where "index < 2 ^ 64" "reidentify sid (index + 1) es = Ok es1"
    by (auto simp: rust_simps split: if_splits)
  with Cons.IH [of "index + 1" es1] show ?case by simp
qed simp

lemma reidentify_no_Panic: "reidentify sid index es \<noteq> Panic"
  by (induction es arbitrary: index) (auto simp: rust_simps)

lemma reidentify_stream:
  assumes "reidentify sid 0 (sort_key ev_timestamp_ns es) = Ok es'"
  shows "event_stream_ok sid 0 es'" "image_mset unlabelled (mset es') = image_mset unlabelled (mset es)"
    "ev_pid ` set es' = ev_pid ` set es"
proof -
  let ?es = "sort_key ev_timestamp_ns es"
  let ?f = "\<lambda>i e. e\<lparr>ev_session_id := sid, ev_sequence := of_nat i, ev_event_id := event_id_of (of_nat i)\<rparr>"
  have len: "length es \<le> 2 ^ 64" using reidentify_Ok_bound [OF assms] by simp
  then have es': "es' = map (\<lambda>(i, e). ?f i e) (List.enumerate 0 ?es)"
    using assms reidentify_eq [of 0 ?es sid] by simp
  then have nth: "es' ! i = ?f i (?es ! i)" if "i < length es" for i
    using that by (simp add: nth_enumerate_eq)
  have [simp]: "length es' = length es" using es' by simp
  have ts: "map ev_timestamp_ns es' = map ev_timestamp_ns ?es"
    by (rule nth_equalityI) (simp_all add: nth)
  have "unat (of_nat i :: u64) = i" if "i < length es" for i
    using that len by (simp add: unat_of_nat)
  then show "event_stream_ok sid 0 es'"
    using nth by (auto simp: event_stream_ok_def ts in_set_conv_nth)
  have "map unlabelled es' = map unlabelled ?es"
    by (rule nth_equalityI) (simp_all add: nth unlabelled_def)
  then have "mset (map unlabelled es') = mset (map unlabelled ?es)" by simp
  then show "image_mset unlabelled (mset es') = image_mset unlabelled (mset es)" by simp
  have "map ev_pid es' = map ev_pid ?es"
    by (rule nth_equalityI) (simp_all add: nth)
  then have "set (map ev_pid es') = set (map ev_pid ?es)" by simp
  then show "ev_pid ` set es' = ev_pid ` set es" by simp
qed

text \<open>Merging completed captures succeeds exactly when the dropped, unknown and CUPTI counters have
  totals that fit 64 bits and all events belong to one process; it never panics.\<close>

theorem merge_captures_accepts:
  "merge_captures captures session_id \<noteq> Panic \<and>
   ((\<exists>m. merge_captures captures session_id = Ok m) \<longleftrightarrow>
      mergeable empty_capture None captures \<and> length (concat (map cp_events captures)) \<le> 2 ^ 64)"
proof
  show "merge_captures captures session_id \<noteq> Panic"
    by (auto simp: merge_captures_def rust_simps merge_loop_no_Panic reidentify_no_Panic)
  show "(\<exists>m. merge_captures captures session_id = Ok m) \<longleftrightarrow>
      mergeable empty_capture None captures \<and> length (concat (map cp_events captures)) \<le> 2 ^ 64"
  proof
    assume "\<exists>m. merge_captures captures session_id = Ok m"
    then obtain m es where "merge_loop empty_capture None captures = Ok m"
      "reidentify session_id 0 (sort_key ev_timestamp_ns (cp_events m)) = Ok es"
      by (auto simp: merge_captures_def rust_simps)
    with merge_loop_Ok [of empty_capture None captures m] reidentify_Ok_bound [of session_id 0 _ es]
    show "mergeable empty_capture None captures \<and> length (concat (map cp_events captures)) \<le> 2 ^ 64"
      by (fastforce simp: empty_capture_def)
  next
    assume *: "mergeable empty_capture None captures \<and> length (concat (map cp_events captures)) \<le> 2 ^ 64"
    then obtain m where m: "merge_loop empty_capture None captures = Ok m"
      using merge_loop_fits by blast
    then have "length (cp_events m) \<le> 2 ^ 64"
      using merge_loop_Ok [OF m] * by (simp add: empty_capture_def)
    then show "\<exists>m. merge_captures captures session_id = Ok m"
      using m by (simp add: merge_captures_def reidentify_eq)
  qed
qed

text \<open>C0: a merged capture is one deterministic event stream: in timestamp order, renumbered from zero
  with matching distinct ids under the session's id, with exactly the events of the inputs apart from
  those labels, all of one process; its counters are the exact sums of the inputs' counters, it has
  failed when an input has, its limit is the largest one, and its CUPTI part is complete only when
  every CUPTI input is.\<close>

theorem merge_captures_stream:
  assumes "merge_captures captures session_id = Ok m"
  shows "event_stream_ok session_id 0 (cp_events m) \<and> distinct (map ev_event_id (cp_events m)) \<and>
    image_mset unlabelled (mset (cp_events m)) =
      image_mset unlabelled (mset (concat (map cp_events captures))) \<and>
    (\<exists>pid. \<forall>e \<in> set (cp_events m). ev_pid e = pid) \<and>
    unat (cp_dropped_records m) = capture_total cp_dropped_records captures \<and>
    unat (cp_unknown_records m) = capture_total cp_unknown_records captures \<and>
    (\<forall>f \<in> set cupti_counters. cupti_value f (cp_cupti m) = cupti_total f captures) \<and>
    (cp_capture_failed m \<longleftrightarrow> list_ex cp_capture_failed captures) \<and>
    cp_record_limit_reached m = fold max (map cp_record_limit_reached captures) None \<and>
    (cupti_complete (cp_cupti m) \<longleftrightarrow> list_all (\<lambda>c. cupti_complete (cp_cupti c)) captures)"
proof -
  from assms obtain m0 es where m0: "merge_loop empty_capture None captures = Ok m0"
    and es: "reidentify session_id 0 (sort_key ev_timestamp_ns (cp_events m0)) = Ok es"
    and m: "m = m0\<lparr>cp_events := es\<rparr>"
    by (auto simp: merge_captures_def rust_simps)
  note L = merge_loop_Ok [OF m0] and R = reidentify_stream [OF es]
  have ev: "cp_events m0 = concat (map cp_events captures)"
    using L by (simp add: empty_capture_def)
  have "same_target None (cp_events m0)"
    using L by (simp add: mergeable_def ev)
  then have "\<exists>pid. \<forall>e \<in> set es. ev_pid e = pid"
    using R(3) by (auto simp: same_target_def)
  moreover have "cupti_value f None = 0" "cupti_complete None" for f
    by (simp_all add: cupti_value_def cupti_complete_def)
  ultimately show ?thesis
    using L R(1,2) event_stream_distinct [OF R(1)] by (simp add: m ev empty_capture_def)
qed

end
