(* ===== verification/Exporter.thy ===== *)
theory Exporter
  imports Completed Pairing
begin

text \<open>
  The trace exporters (\<open>xprobe/exporter/src/lib.rs\<close>): events as JSON lines and as a Chrome trace. The
  text of a JSON value is \<open>serde_json\<close>'s and a parameter; the values themselves are built here. An
  object is a \<open>serde_json::Map\<close>, ordered by key.
\<close>

section \<open>Definitions\<close>

record json_writer =
  jw_event :: "event \<Rightarrow> json_error + string"
  jw_pretty :: "json \<Rightarrow> json_error + string"

fun events_to_jsonl :: "json_writer \<Rightarrow> event list \<Rightarrow> json_error + string" where
  "events_to_jsonl writer [] = Inr []"
| "events_to_jsonl writer (event # events) =
     (case jw_event writer event of
        Inl e \<Rightarrow> Inl e
      | Inr line \<Rightarrow>
          (case events_to_jsonl writer events of
             Inl e \<Rightarrow> Inl e
           | Inr rest \<Rightarrow> Inr (line @ [CHR 0x0A] @ rest)))"

definition json_object :: "(string \<times> json) list \<Rightarrow> json" where
  "json_object members = JObject (foldl (\<lambda>m (k, v). bt_insert k v m) [] members)"

definition json_option :: "('a \<Rightarrow> json) \<Rightarrow> 'a option \<Rightarrow> json" where
  "json_option f x = (case x of None \<Rightarrow> JNull | Some a \<Rightarrow> f a)"

definition json_word :: "'a::len word \<Rightarrow> json" where
  "json_word w = JNumber (int (unat w))"

fun event_category :: "event_source \<Rightarrow> string" where
  "event_category ES_Ebpf = ''host''"
| "event_category ES_CuptiCallback = ''cuda.api''"
| "event_category ES_CuptiActivity = ''cuda.activity''"
| "event_category ES_Marker = ''marker''"

fun event_type_name :: "event_type \<Rightarrow> string" where
  "event_type_name ET_HostFunctionEntry = ''host_function_entry''"
| "event_type_name ET_HostFunctionExit = ''host_function_exit''"
| "event_type_name ET_KernelFunctionEntry = ''kernel_function_entry''"
| "event_type_name ET_KernelFunctionExit = ''kernel_function_exit''"
| "event_type_name ET_Tracepoint = ''tracepoint''"
| "event_type_name ET_SyscallEntry = ''syscall_entry''"
| "event_type_name ET_SyscallExit = ''syscall_exit''"
| "event_type_name ET_CudaApiEntry = ''cuda_api_entry''"
| "event_type_name ET_CudaApiExit = ''cuda_api_exit''"
| "event_type_name ET_GpuKernelStart = ''gpu_kernel_start''"
| "event_type_name ET_GpuKernelEnd = ''gpu_kernel_end''"
| "event_type_name ET_GpuMemcpyStart = ''gpu_memcpy_start''"
| "event_type_name ET_GpuMemcpyEnd = ''gpu_memcpy_end''"
| "event_type_name ET_GpuMemsetStart = ''gpu_memset_start''"
| "event_type_name ET_GpuMemsetEnd = ''gpu_memset_end''"
| "event_type_name ET_NvtxRangeStart = ''nvtx_range_start''"
| "event_type_name ET_NvtxRangeEnd = ''nvtx_range_end''"
| "event_type_name ET_PythonGcStart = ''python_gc_start''"
| "event_type_name ET_PythonGcEnd = ''python_gc_end''"
| "event_type_name ET_Marker = ''marker''"

text \<open>\<open>or_else\<close> on options.\<close>

definition or_else :: "'a option \<Rightarrow> 'a option \<Rightarrow> 'a option" where
  "or_else a b = (case a of None \<Rightarrow> b | Some x \<Rightarrow> Some x)"

definition event_name :: "event \<Rightarrow> string" where
  "event_name event =
     (case or_else (or_else (or_else
        (Option.bind (ev_host event) he_symbol)
        (attribute_str event ''cuda_api_name''))
        (Option.bind (ev_cuda event) ce_kernel_name))
        (map_option nv_name (ev_nvtx event)) of
        Some name \<Rightarrow> name
      | None \<Rightarrow> event_type_name (ev_event_type event))"

text \<open>The serialised forms of the enums and structs inside a Chrome event.\<close>

fun clock_domain_name :: "clock_domain \<Rightarrow> string" where
  "clock_domain_name CD_HostMonotonic = ''host_monotonic''"
| "clock_domain_name CD_Cupti = ''cupti''"
| "clock_domain_name CD_CuptiNormalizedToHostMonotonic = ''cupti_normalized_to_host_monotonic''"

fun nvtx_range_kind_name :: "nvtx_range_kind \<Rightarrow> string" where
  "nvtx_range_kind_name NR_Thread = ''thread''"
| "nvtx_range_kind_name NR_Process = ''process''"

definition nvtx_json :: "nvtx_event \<Rightarrow> json" where
  "nvtx_json nvtx = json_object
     [(''name'', JString (nv_name nvtx)), (''name_complete'', JBool (nv_name_complete nvtx)),
      (''range_kind'', JString (nvtx_range_kind_name (nv_range_kind nvtx))),
      (''range_id'', json_word (nv_range_id nvtx)), (''start_tid'', json_word (nv_start_tid nvtx))]"

definition chrome_event :: "event \<Rightarrow> json" where
  "chrome_event event =
     (let cuda = ev_cuda event in
      json_object
        [(''name'', JString (event_name event)),
         (''cat'', JString (event_category (ev_source event))),
         (''ph'', JString ''i''),
         (''s'', JString ''t''),
         (''ts'', json_word (ev_timestamp_ns event div 1000)),
         (''pid'', json_word (ev_pid event)),
         (''tid'', json_word (case Option.bind cuda ce_stream_id of
                                 Some stream \<Rightarrow> stream | None \<Rightarrow> ucast (ev_tid event))),
         (''args'', json_object
            [(''event_id'', JString (ev_event_id event)),
             (''event_type'', JString (event_type_name (ev_event_type event))),
             (''timestamp_ns'', json_word (ev_timestamp_ns event)),
             (''timestamp_raw'', json_word (ev_timestamp_raw event)),
             (''clock_domain'', JString (clock_domain_name (ev_clock_domain event))),
             (''correlation_id'', json_option json_word (Option.bind cuda ce_correlation_id)),
             (''context_id'', json_option json_word (Option.bind cuda ce_context_id)),
             (''stream_id'', json_option json_word (Option.bind cuda ce_stream_id)),
             (''nvtx'', json_option nvtx_json (ev_nvtx event)),
             (''attributes'', JObject (ev_attributes event))])])"

definition chrome_trace :: "event list \<Rightarrow> json" where
  "chrome_trace events = json_object
     [(''displayTimeUnit'', JString ''ns''), (''traceEvents'', JArray (map chrome_event events))]"

definition events_to_chrome_trace :: "json_writer \<Rightarrow> event list \<Rightarrow> json_error + string" where
  "events_to_chrome_trace writer events = jw_pretty writer (chrome_trace events)"

section \<open>Properties\<close>

lemma foldl_insert_get:
  "bt_inv m \<Longrightarrow>
     map_of (foldl (\<lambda>m (k, v). bt_insert k v m) m kvs) k =
       (case map_of (rev kvs) k of None \<Rightarrow> map_of m k | Some v \<Rightarrow> Some v)"
proof (induction kvs arbitrary: m)
  case (Cons kv kvs)
  obtain a v where kv: "kv = (a, v)" by (cases kv)
  have "map_of (bt_insert a v m) k = (if k = a then Some v else map_of m k)"
    using Cons.prems by (simp add: bt_insert_def map_of_bt_entry)
  with Cons kv show ?case by (auto simp: map_add_def split: option.splits)
qed simp

lemma json_get_object: "json_get (json_object members) key = map_of (rev members) key"
  by (simp add: json_object_def foldl_insert_get bt_inv_def split: option.splits)

lemma unat_div_1000: "unat ((w::u64) div 1000) = unat w div 1000"
  by (simp add: unat_div)

text \<open>A Chrome trace keeps one instant per event, in order. Its \<open>ts\<close> is the event's time in whole
  microseconds, rounded down, so that the order of the events' times is the order of the instants; its
  arguments keep the exact time in nanoseconds and the event's id.\<close>

theorem chrome_trace_times:
  "json_get (chrome_trace events) ''traceEvents'' = Some (JArray (map chrome_event events)) \<and>
   (\<forall>e. \<exists>ts args.
      json_get (chrome_event e) ''ts'' = Some (JNumber (int ts)) \<and>
      1000 * ts \<le> unat (ev_timestamp_ns e) \<and> unat (ev_timestamp_ns e) < 1000 * ts + 1000 \<and>
      json_get (chrome_event e) ''args'' = Some args \<and>
      json_get args ''timestamp_ns'' = Some (JNumber (int (unat (ev_timestamp_ns e)))) \<and>
      json_get args ''event_id'' = Some (JString (ev_event_id e)))"
proof (intro conjI allI)
  show "json_get (chrome_trace events) ''traceEvents'' = Some (JArray (map chrome_event events))"
    by (simp add: chrome_trace_def json_get_object)
  fix e :: event
  show "\<exists>ts args. json_get (chrome_event e) ''ts'' = Some (JNumber (int ts)) \<and>
      1000 * ts \<le> unat (ev_timestamp_ns e) \<and> unat (ev_timestamp_ns e) < 1000 * ts + 1000 \<and>
      json_get (chrome_event e) ''args'' = Some args \<and>
      json_get args ''timestamp_ns'' = Some (JNumber (int (unat (ev_timestamp_ns e)))) \<and>
      json_get args ''event_id'' = Some (JString (ev_event_id e))"
    by (intro exI [of _ "unat (ev_timestamp_ns e) div 1000"])
      (auto simp: chrome_event_def Let_def json_get_object json_word_def unat_div_1000)
qed

text \<open>C17: exported JSON lines are a completed capture again: when the JSON library writes each event as
  an object whose text it reads back as that event, decoding the exported text of a non-empty event
  list gives a capture with the same events, in the same order, and no losses.\<close>

theorem jsonl_round_trip:
  assumes "events \<noteq> []"
    and "\<And>e. e \<in> set events \<Longrightarrow> jw_event writer e = Inr (CHR ''{'' # body e)"
    and "jr_documents reader (bytes_of_string (concat (map (\<lambda>e. CHR ''{'' # body e @ [CHR 0x0A]) events))) =
           map (\<lambda>e. Inr (doc e)) events"
    and "\<And>e. e \<in> set events \<Longrightarrow> jr_event reader (doc e) = Inr e \<and> json_get (doc e) ''events'' = None"
  shows "\<exists>out. events_to_jsonl writer events = Inr out \<and>
    decode_completed reader (bytes_of_string out) session_id =
      Ok \<lparr>cp_dropped_records = 0, cp_unknown_records = 0, cp_record_limit_reached = None,
          cp_capture_failed = False, cp_cupti = None, cp_events = events\<rparr>"
proof -
  let ?out = "concat (map (\<lambda>e. CHR ''{'' # body e @ [CHR 0x0A]) events)"
  have out: "events_to_jsonl writer es = Inr (concat (map (\<lambda>e. CHR ''{'' # body e @ [CHR 0x0A]) es))"
    if "set es \<subseteq> set events" for es
    using that assms(2) by (induction es) simp_all
  have docs: "decode_event_documents reader (map (\<lambda>e. Inr (doc e)) es) = Ok es" if "set es \<subseteq> set events" for es
    using that assms(4) by (induction es) (simp_all add: json_result_def)
  obtain e es where events: "events = e # es" using assms(1) by (cases events) auto
  have first: "List.find (\<lambda>b. \<not> is_ascii_whitespace b) (bytes_of_string ?out) = Some 123"
    by (simp add: events bytes_of_string_def is_ascii_whitespace_def)
  have "decode_completed reader (bytes_of_string ?out) session_id = decode_json reader (bytes_of_string ?out)"
    by (simp add: decode_completed_def first ok_or_def)
  moreover have "decode_json reader (bytes_of_string ?out) =
      Ok \<lparr>cp_dropped_records = 0, cp_unknown_records = 0, cp_record_limit_reached = None,
          cp_capture_failed = False, cp_cupti = None, cp_events = events\<rparr>"
    using assms(3,4) docs [of es] by (simp add: decode_json_def events json_result_def subset_insertI)
  ultimately show ?thesis using out [of events] by auto
qed

theorem jsonl_round_trip_witness:
  "\<exists>out. events_to_jsonl \<lparr>jw_event = \<lambda>e. Inr ''{}'', jw_pretty = \<lambda>j. Inr []\<rparr> [example_event 1 1 5] = Inr out \<and>
    decode_completed
      \<lparr>jr_documents = \<lambda>bs. [Inr (JObject [])], jr_event = \<lambda>j. Inr (example_event 1 1 5),
       jr_host_capture = \<lambda>j. Inl (JsonError [])\<rparr> (bytes_of_string out) ''s'' =
      Ok \<lparr>cp_dropped_records = 0, cp_unknown_records = 0, cp_record_limit_reached = None,
          cp_capture_failed = False, cp_cupti = None, cp_events = [example_event 1 1 5]\<rparr>"
  by (rule jsonl_round_trip [where body = "\<lambda>e. ''}''" and doc = "\<lambda>e. JObject []"]) simp_all

end
