(* ===== verification/Text.thy ===== *)
theory Text
  imports Bytes
begin

text \<open>
  Text and paths: the parts of \<open>str\<close>, \<open>String\<close> and \<open>std::path\<close> that the procfs, ELF and linker-cache
  readers use. Strings are UTF-8 byte strings; the white space of \<open>char::is_whitespace\<close> outside ASCII is
  recognised by its encoding, which on valid UTF-8 can only match at the start of a character.
\<close>

section \<open>White space\<close>

text \<open>The number of bytes of the white space character at the start of a string, 0 when there is none.\<close>

definition whitespace_len :: "string \<Rightarrow> nat" where
  "whitespace_len s =
     (case map of_char s :: nat list of
        [] \<Rightarrow> 0
      | b # bs \<Rightarrow>
          (if b = 0x20 \<or> (0x09 \<le> b \<and> b \<le> 0x0D) then 1
           else if b = 0xC2 then (case bs of c # _ \<Rightarrow> (if c = 0x85 \<or> c = 0xA0 then 2 else 0) | _ \<Rightarrow> 0)
           else if b = 0xE1 then (case bs of c # d # _ \<Rightarrow> (if c = 0x9A \<and> d = 0x80 then 3 else 0) | _ \<Rightarrow> 0)
           else if b = 0xE2 then
             (case bs of
                c # d # _ \<Rightarrow>
                  (if c = 0x80 \<and> (0x80 \<le> d \<and> d \<le> 0x8A \<or> d = 0xA8 \<or> d = 0xA9 \<or> d = 0xAF) \<or>
                      c = 0x81 \<and> d = 0x9F then 3 else 0)
              | _ \<Rightarrow> 0)
           else if b = 0xE3 then (case bs of c # d # _ \<Rightarrow> (if c = 0x80 \<and> d = 0x80 then 3 else 0) | _ \<Rightarrow> 0)
           else 0))"

function trim_start :: "string \<Rightarrow> string" where
  "trim_start s = (if whitespace_len s = 0 \<or> s = [] then s else trim_start (drop (whitespace_len s) s))"
  by pat_completeness auto
termination
  by (relation "measure length") auto

text \<open>The first word of a string without leading white space, and what follows it.\<close>

fun take_word :: "string \<Rightarrow> string \<times> string" where
  "take_word [] = ([], [])"
| "take_word (c # s) =
     (if whitespace_len (c # s) \<noteq> 0 then ([], c # s)
      else (case take_word s of (w, r) \<Rightarrow> (c # w, r)))"

declare trim_start.simps [simp del]

lemma take_word_append: "fst (take_word s) @ snd (take_word s) = s"
  by (induction s rule: take_word.induct) (auto split: prod.splits)

lemma length_take_word: "length (snd (take_word s)) \<le> length s"
  using arg_cong [OF take_word_append [of s], of length] by simp

lemma length_trim_start: "length (trim_start s) \<le> length s"
proof (induction s rule: trim_start.induct)
  case (1 s)
  then show ?case by (subst trim_start.simps) (auto intro: order_trans)
qed

lemma whitespace_len_Nil [simp]: "whitespace_len [] = 0"
  by (simp add: whitespace_len_def)

lemma trim_start_no_space: "whitespace_len (trim_start s) = 0"
proof (induction s rule: trim_start.induct)
  case (1 s)
  show ?case
  proof (cases "whitespace_len s = 0 \<or> s = []")
    case True
    then show ?thesis by (subst trim_start.simps) auto
  next
    case False
    then show ?thesis using 1 by (subst trim_start.simps) simp
  qed
qed

function split_whitespace :: "string \<Rightarrow> string list" where
  "split_whitespace s =
     (let t = trim_start s in
      if t = [] then [] else (case take_word t of (w, r) \<Rightarrow> w # split_whitespace r))"
  by pat_completeness auto
termination
proof (relation "measure length")
  fix s t w r
  assume t: "t = trim_start s" "t \<noteq> []" and wr: "(w, r) = take_word t"
  from t have "whitespace_len t = 0" by (simp add: trim_start_no_space)
  with t(2) obtain c u where cu: "t = c # u" "whitespace_len (c # u) = 0" by (cases t) auto
  then have "length r \<le> length u"
    using wr length_take_word [of u] by (auto split: prod.splits)
  then show "(r, s) \<in> measure length"
    using cu t(1) length_trim_start [of s] by simp
qed auto

declare split_whitespace.simps [simp del]

text \<open>\<open>trim\<close>: the trailing white space is found from the start of the last character on.\<close>

fun trim_end :: "string \<Rightarrow> string" where
  "trim_end [] = []"
| "trim_end (c # s) =
     (if trim_start (c # s) = [] then [] else c # trim_end s)"

definition trim :: "string \<Rightarrow> string" where
  "trim s = trim_end (trim_start s)"

section \<open>Lines and searches\<close>

definition newline :: char where "newline = CHR 0x0A"

text \<open>\<open>lines\<close>: a final empty piece is not a line and one carriage return before the newline is dropped.\<close>

definition drop_cr :: "string \<Rightarrow> string" where
  "drop_cr s = (case strip_suffix [CHR 0x0D] s of Some t \<Rightarrow> t | None \<Rightarrow> s)"

definition lines :: "string \<Rightarrow> string list" where
  "lines s =
     (let ps = split_on newline s; n = length ps - 1 in
      map drop_cr (take n ps) @ (if last ps = [] then [] else [last ps]))"

fun contains :: "string \<Rightarrow> string \<Rightarrow> bool" where
  "contains [] p \<longleftrightarrow> p = []"
| "contains (c # s) p \<longleftrightarrow> starts_with (c # s) p \<or> contains s p"

definition ends_with :: "string \<Rightarrow> string \<Rightarrow> bool" where
  "ends_with s p = (strip_suffix p s \<noteq> None)"

text \<open>\<open>find_map\<close>.\<close>

fun find_map :: "('a \<Rightarrow> 'b option) \<Rightarrow> 'a list \<Rightarrow> 'b option" where
  "find_map f [] = None"
| "find_map f (x # xs) = (case f x of None \<Rightarrow> find_map f xs | Some y \<Rightarrow> Some y)"

definition nth_opt :: "'a list \<Rightarrow> nat \<Rightarrow> 'a option" where
  "nth_opt xs n = (if n < length xs then Some (xs ! n) else None)"

section \<open>Lossy decoding\<close>

text \<open>\<open>from_utf8_lossy\<close>: the first character of a byte string, or the invalid prefix that becomes one
  replacement character.\<close>

definition utf8_step :: "bytes \<Rightarrow> bool \<times> nat" where
  "utf8_step bs =
     (case bs of
        [] \<Rightarrow> (False, 0)
      | b # rest \<Rightarrow>
          (if in_range 0 0x7F b then (True, 1)
           else if in_range 0xC2 0xDF b then
             (case rest of c # _ \<Rightarrow> (if cont c then (True, 2) else (False, 1)) | _ \<Rightarrow> (False, 1))
           else if in_range 0xE0 0xEF b then
             (case rest of
                c # r \<Rightarrow>
                  (if in_range (if b = 0xE0 then 0xA0 else 0x80) (if b = 0xED then 0x9F else 0xBF) c
                   then (case r of d # _ \<Rightarrow> (if cont d then (True, 3) else (False, 2)) | _ \<Rightarrow> (False, 2))
                   else (False, 1))
              | _ \<Rightarrow> (False, 1))
           else if in_range 0xF0 0xF4 b then
             (case rest of
                c # r \<Rightarrow>
                  (if in_range (if b = 0xF0 then 0x90 else 0x80) (if b = 0xF4 then 0x8F else 0xBF) c
                   then (case r of
                           d # r' \<Rightarrow>
                             (if cont d
                              then (case r' of e # _ \<Rightarrow> (if cont e then (True, 4) else (False, 3)) | _ \<Rightarrow> (False, 3))
                              else (False, 2))
                         | _ \<Rightarrow> (False, 2))
                   else (False, 1))
              | _ \<Rightarrow> (False, 1))
           else (False, 1)))"

lemma utf8_step_pos: "bs \<noteq> [] \<Longrightarrow> 0 < snd (utf8_step bs)"
  by (auto simp: utf8_step_def split: list.splits)

function from_utf8_lossy :: "bytes \<Rightarrow> string" where
  "from_utf8_lossy bs =
     (if bs = [] then []
      else let n = snd (utf8_step bs) in
        (if fst (utf8_step bs) then string_of_bytes (take n bs) else string_of_bytes [0xEF, 0xBF, 0xBD]) @
        from_utf8_lossy (drop n bs))"
  by pat_completeness auto
termination
  by (relation "measure length") (auto simp: utf8_step_pos)

declare from_utf8_lossy.simps [simp del]

section \<open>Paths\<close>

text \<open>The components of a path: empty pieces and \<open>.\<close> vanish, apart from a leading \<open>.\<close>.\<close>

datatype path_component = RootDir | CurDir | ParentDir | Normal string

definition path_component_of :: "string \<Rightarrow> path_component" where
  "path_component_of s = (if s = ''..'' then ParentDir else Normal s)"

definition components :: "string \<Rightarrow> path_component list" where
  "components p =
     (let ps = split_on (CHR ''/'') p in
      (if p \<noteq> [] \<and> hd ps = [] then [RootDir] else if hd ps = ''.'' then [CurDir] else []) @
      map path_component_of (filter (\<lambda>c. c \<noteq> [] \<and> c \<noteq> ''.'') ps))"

definition path_eq :: "string \<Rightarrow> string \<Rightarrow> bool" where
  "path_eq p q \<longleftrightarrow> components p = components q"

definition file_name :: "string \<Rightarrow> string option" where
  "file_name p =
     (case rev (components p) of Normal s # _ \<Rightarrow> Some s | _ \<Rightarrow> None)"

text \<open>The order of \<open>Path\<close>: component-wise, by the order of the variants and then of the names.\<close>

fun component_key :: "path_component \<Rightarrow> nat \<times> string" where
  "component_key RootDir = (1, [])"
| "component_key CurDir = (2, [])"
| "component_key ParentDir = (3, [])"
| "component_key (Normal s) = (4, s)"

definition path_key :: "string \<Rightarrow> (nat \<times> string) list" where
  "path_key p = map component_key (components p)"

section \<open>Lemmas\<close>

lemma find_map_Some:
  "find_map f xs = Some y \<Longrightarrow> \<exists>x \<in> set xs. f x = Some y"
  by (induction xs) (auto split: option.splits)

lemma nth_opt_Some [simp]: "nth_opt xs n = Some x \<longleftrightarrow> n < length xs \<and> xs ! n = x"
  by (auto simp: nth_opt_def)

lemma ascii_utf8: "\<forall>b \<in> set bs. unat b < 128 \<Longrightarrow> utf8_valid bs"
  by (induction bs) (auto simp: in_range_def)

lemma from_utf8_ascii:
  "\<forall>c \<in> set s. of_char c < (128 :: nat) \<Longrightarrow> from_utf8 (bytes_of_string s) = Some s"
  by (auto simp: from_utf8_def bytes_of_string_def unat_u8_of_nat intro!: ascii_utf8 bytes_string_round_trip
      [unfolded bytes_of_string_def])

lemma split_whitespace_word:
  assumes "w \<noteq> []" "\<forall>c \<in> set w. whitespace_len [c] = 0 \<and> of_char c < (0x80 :: nat)"
  shows "take_word (w @ r) = (w @ fst (take_word r), snd (take_word r))"
  using assms(2)
proof (induction w)
  case (Cons c w)
  then have "whitespace_len (c # w @ r) = 0"
    by (auto simp: whitespace_len_def split: if_splits)
  with Cons show ?case by (simp add: case_prod_beta)
qed simp

end
