(* ===== verification/Host_Os.thy ===== *)
theory Host_Os
  imports Text
begin

text \<open>
  The operating system as the core crate sees it. Every read of a file, link, directory or command output
  is one access, accesses are numbered, and what an access returns may depend on its number: the target
  process may exit, be replaced or change its mappings between any two accesses. The object file reader
  (\<open>object\<close>) and the C++ demangler (\<open>cpp_demangle\<close>) are pure functions of the system.
\<close>

section \<open>The system\<close>

datatype io_kind = IO_NotFound | IO_PermissionDenied | IO_Other

datatype io_error = IoError (io_kind: io_kind) (io_message: string)

record command_output =
  co_success :: bool
  co_code :: "int option"
  co_status :: string \<comment> \<open>the exit status as text\<close>
  co_stdout :: bytes
  co_stderr :: bytes

datatype object_kind = OK_Executable | OK_Dynamic | OK_Other

record elf_symbol =
  es_is_definition :: bool
  es_is_text :: bool
  es_name :: "string option"
  es_address :: u64
  es_size :: u64

record elf_segment =
  sg_address :: u64
  sg_file_offset :: u64
  sg_file_size :: u64

record elf_file =
  elf_kind :: object_kind
  elf_build_id :: "string + bytes option"
  elf_dynamic_symbols :: "elf_symbol list"
  elf_symbols :: "elf_symbol list"
  elf_segments :: "elf_segment list"
  elf_section :: "string \<Rightarrow> (string + bytes) option"
  elf_little_endian :: bool
  elf_is_64 :: bool

record file_metadata =
  md_is_file :: bool
  md_len :: u64
  md_dev :: u64
  md_ino :: u64

record os =
  os_read :: "nat \<Rightarrow> string \<Rightarrow> io_error + bytes"
  os_read_link :: "nat \<Rightarrow> string \<Rightarrow> io_error + bytes"
  os_canonicalize :: "nat \<Rightarrow> string \<Rightarrow> io_error + string"
  os_exists :: "nat \<Rightarrow> string \<Rightarrow> io_error + bool"
  os_is_file :: "nat \<Rightarrow> string \<Rightarrow> bool"
  os_metadata :: "nat \<Rightarrow> string \<Rightarrow> io_error + file_metadata"
  os_read_dir :: "nat \<Rightarrow> string \<Rightarrow> io_error + (io_error + bytes) list"
  os_command :: "nat \<Rightarrow> string \<Rightarrow> string list \<Rightarrow> io_error + command_output"
  os_parse_elf :: "bytes \<Rightarrow> string + elf_file"
  os_demangle :: "string \<Rightarrow> string option"

section \<open>Actions\<close>

text \<open>An action takes the number of the next access and returns its result and the next number.\<close>

type_synonym ('a, 'e) io = "nat \<Rightarrow> ('a, 'e) rresult \<times> nat"

definition io_lift :: "('a, 'e) rresult \<Rightarrow> ('a, 'e) io" where
  "io_lift r = (\<lambda>t. (r, t))"

abbreviation io_ok :: "'a \<Rightarrow> ('a, 'e) io" where
  "io_ok a \<equiv> io_lift (Ok a)"

abbreviation io_err :: "'e \<Rightarrow> ('a, 'e) io" where
  "io_err e \<equiv> io_lift (Err e)"

definition io_bind :: "('a, 'e) io \<Rightarrow> ('a \<Rightarrow> ('b, 'e) io) \<Rightarrow> ('b, 'e) io" where
  "io_bind m f = (\<lambda>t. case m t of
     (Ok a, t') \<Rightarrow> f a t'
   | (Err e, t') \<Rightarrow> (Err e, t')
   | (Panic, t') \<Rightarrow> (Panic, t'))"

definition io_map_err :: "('e \<Rightarrow> 'f) \<Rightarrow> ('a, 'e) io \<Rightarrow> ('a, 'f) io" where
  "io_map_err f m = (\<lambda>t. case m t of (r, t') \<Rightarrow> (map_err f r, t'))"

definition io_access :: "(nat \<Rightarrow> 'e + 'a) \<Rightarrow> ('a, 'e) io" where
  "io_access f = (\<lambda>t. (case f t of Inl e \<Rightarrow> Err e | Inr a \<Rightarrow> Ok a, Suc t))"

definition fs_read :: "os \<Rightarrow> string \<Rightarrow> (bytes, io_error) io" where
  "fs_read os path = io_access (\<lambda>t. os_read os t path)"

definition utf8_io_error :: io_error where
  "utf8_io_error = IoError IO_Other ''stream did not contain valid UTF-8''"

definition fs_read_to_string :: "os \<Rightarrow> string \<Rightarrow> (string, io_error) io" where
  "fs_read_to_string os path =
     io_bind (fs_read os path) (\<lambda>bs. io_lift (ok_or (from_utf8 bs) utf8_io_error))"

definition fs_read_link :: "os \<Rightarrow> string \<Rightarrow> (bytes, io_error) io" where
  "fs_read_link os path = io_access (\<lambda>t. os_read_link os t path)"

definition fs_canonicalize :: "os \<Rightarrow> string \<Rightarrow> (string, io_error) io" where
  "fs_canonicalize os path = io_access (\<lambda>t. os_canonicalize os t path)"

definition fs_try_exists :: "os \<Rightarrow> string \<Rightarrow> (bool, io_error) io" where
  "fs_try_exists os path = io_access (\<lambda>t. os_exists os t path)"

definition fs_is_file :: "os \<Rightarrow> string \<Rightarrow> (bool, 'e) io" where
  "fs_is_file os path = io_access (\<lambda>t. Inr (os_is_file os t path))"

definition fs_metadata :: "os \<Rightarrow> string \<Rightarrow> (file_metadata, io_error) io" where
  "fs_metadata os path = io_access (\<lambda>t. os_metadata os t path)"

definition fs_read_dir :: "os \<Rightarrow> string \<Rightarrow> ((io_error + bytes) list, io_error) io" where
  "fs_read_dir os path = io_access (\<lambda>t. os_read_dir os t path)"

definition run_command :: "os \<Rightarrow> string \<Rightarrow> string list \<Rightarrow> (command_output, io_error) io" where
  "run_command os program arguments = io_access (\<lambda>t. os_command os t program arguments)"

section \<open>Lemmas\<close>

named_theorems io_simps

lemma io_lift_apply [simp]: "io_lift r t = (r, t)"
  by (simp add: io_lift_def)

lemma io_bind_Ok_iff [io_simps]:
  "io_bind m f t = (Ok b, t'') \<longleftrightarrow> (\<exists>a t'. m t = (Ok a, t') \<and> f a t' = (Ok b, t''))"
  by (auto simp: io_bind_def split: prod.splits rresult.splits)

lemma io_bind_Panic_iff [io_simps]:
  "fst (io_bind m f t) = Panic \<longleftrightarrow>
     fst (m t) = Panic \<or> (\<exists>a t'. m t = (Ok a, t') \<and> fst (f a t') = Panic)"
  by (auto simp: io_bind_def split: prod.splits rresult.splits)

lemma io_map_err_Ok_iff [io_simps]: "io_map_err f m t = (Ok b, t') \<longleftrightarrow> m t = (Ok b, t')"
  by (auto simp: io_map_err_def rust_simps split: prod.splits)

lemma io_map_err_Panic_iff [io_simps]: "fst (io_map_err f m t) = Panic \<longleftrightarrow> fst (m t) = Panic"
  by (auto simp: io_map_err_def rust_simps split: prod.splits)

lemma io_access_Ok_iff [io_simps]: "io_access f t = (Ok b, t') \<longleftrightarrow> f t = Inr b \<and> t' = Suc t"
  by (auto simp: io_access_def split: sum.splits)

lemma io_access_no_Panic [io_simps]: "fst (io_access f t) \<noteq> Panic"
  by (auto simp: io_access_def split: sum.splits)

lemma io_bind_OkE:
  assumes "io_bind m f t = (Ok b, t'')"
  obtains a t' where "m t = (Ok a, t')" "f a t' = (Ok b, t'')"
  using assms by (auto simp: io_simps)

lemma io_guard_OkE:
  assumes "(if b then io_err e else m) t = (Ok a, t')"
  obtains "\<not> b" "m t = (Ok a, t')"
  using assms by (auto split: if_splits)

text \<open>No panic, compositionally.\<close>

definition no_panic :: "('a, 'e) io \<Rightarrow> bool" where
  "no_panic m \<longleftrightarrow> (\<forall>t. fst (m t) \<noteq> Panic)"

lemma no_panic_bind: "no_panic m \<Longrightarrow> (\<And>a. no_panic (f a)) \<Longrightarrow> no_panic (io_bind m f)"
  by (auto simp: no_panic_def io_simps)

lemma no_panic_lift: "r \<noteq> Panic \<Longrightarrow> no_panic (io_lift r)"
  by (simp add: no_panic_def)

lemma no_panic_Pair: "r \<noteq> Panic \<Longrightarrow> no_panic (Pair r)"
  by (simp add: no_panic_def)

lemma no_panic_map_err: "no_panic m \<Longrightarrow> no_panic (io_map_err f m)"
  by (simp add: no_panic_def io_simps)

lemma no_panic_if: "(b \<Longrightarrow> no_panic x) \<Longrightarrow> (\<not> b \<Longrightarrow> no_panic y) \<Longrightarrow> no_panic (if b then x else y)"
  by simp

lemma no_panic_option:
  "(x = None \<Longrightarrow> no_panic a) \<Longrightarrow> (\<And>y. x = Some y \<Longrightarrow> no_panic (b y)) \<Longrightarrow>
   no_panic (case x of None \<Rightarrow> a | Some y \<Rightarrow> b y)"
  by (cases x) auto

lemma no_panic_access: "no_panic (io_access f)"
  by (simp add: no_panic_def io_simps)

lemmas fs_defs = fs_read_def fs_read_link_def fs_canonicalize_def fs_try_exists_def fs_is_file_def
  fs_metadata_def fs_read_dir_def run_command_def

lemma no_panic_fs:
  "no_panic (fs_read os p)" "no_panic (fs_read_to_string os p)" "no_panic (fs_read_link os p)"
  "no_panic (fs_canonicalize os p)" "no_panic (fs_try_exists os p)"
  "no_panic (fs_is_file os p)" "no_panic (fs_metadata os p)" "no_panic (fs_read_dir os p)" "no_panic (run_command os c args)"
  by (auto simp: fs_defs fs_read_to_string_def rust_simps
      intro!: no_panic_access no_panic_bind no_panic_lift)

lemmas no_panic_intros = no_panic_bind no_panic_lift no_panic_Pair no_panic_map_err no_panic_if no_panic_fs

text \<open>An action only moves on.\<close>

definition forward_io :: "('a, 'e) io \<Rightarrow> bool" where
  "forward_io m \<longleftrightarrow> (\<forall>t. t \<le> snd (m t))"

text \<open>A system on which nothing is found, for examples.\<close>

definition example_os :: os where
  "example_os =
     \<lparr>os_read = \<lambda>t p. Inl (IoError IO_NotFound []), os_read_link = \<lambda>t p. Inl (IoError IO_NotFound []),
      os_canonicalize = \<lambda>t p. Inl (IoError IO_NotFound []), os_exists = \<lambda>t p. Inr False,
      os_is_file = \<lambda>t p. False, os_metadata = \<lambda>t p. Inl (IoError IO_NotFound []),
      os_read_dir = \<lambda>t p. Inl (IoError IO_NotFound []),
      os_command = \<lambda>t p args. Inl (IoError IO_NotFound []),
      os_parse_elf = \<lambda>bs. Inl ''not an object'', os_demangle = \<lambda>s. None\<rparr>"

end
