(* ===== verification/Cupti_Compat.thy ===== *)
theory Cupti_Compat
  imports Host_Os
begin

text \<open>
  Matching the CUPTI library to a target process (\<open>xprobe/core/src/cupti_compat.rs\<close>): the CUDA major
  version that the loaded libraries of a process show, and the installed library of that major.
\<close>

section \<open>Definitions\<close>

definition supported_majors :: "u32 list" where
  "supported_majors = [12, 13]"

record cupti_library =
  cul_major :: u32
  cul_path :: string
  cul_already_loaded :: bool

datatype compat_error =
    CUE_ConflictingTargetVersions "u32 list"
  | CUE_UnsupportedMajor u32
  | CUE_AmbiguousInstalledVersions "u32 list"
  | CUE_LibraryNotFound "u32 option"
  | CUE_LinkerCache string
  | CUE_Io string io_error

fun compat_error_code :: "compat_error \<Rightarrow> error_code" where
  "compat_error_code (CUE_UnsupportedMajor _) = EC_UnsupportedCudaVersion"
| "compat_error_code (CUE_ConflictingTargetVersions _) = EC_UnsupportedCudaVersion"
| "compat_error_code (CUE_AmbiguousInstalledVersions _) = EC_UnsupportedCudaVersion"
| "compat_error_code (CUE_LibraryNotFound _) = EC_CuptiNotAvailable"
| "compat_error_code (CUE_LinkerCache _) = EC_CuptiNotAvailable"
| "compat_error_code (CUE_Io _ _) = EC_CuptiNotAvailable"

text \<open>\<open>BTreeSet\<close> of the elements of a list, in order.\<close>

definition ordered_set :: "'a::linorder list \<Rightarrow> 'a list" where
  "ordered_set xs = sort (remdups xs)"

definition library_major :: "string \<Rightarrow> string \<Rightarrow> u32 option" where
  "library_major path prefix =
     Option.bind (file_name path) (\<lambda>name.
     Option.bind (strip_prefix prefix name) (\<lambda>suffix.
     from_str_radix 10 (hd (split_on (CHR ''.'') suffix))))"

definition ensure_supported :: "u32 \<Rightarrow> (unit, compat_error) rresult" where
  "ensure_supported major =
     (if major \<in> set supported_majors then Ok () else Err (CUE_UnsupportedMajor major))"

definition collect_majors :: "string list \<Rightarrow> string \<Rightarrow> u32 list" where
  "collect_majors libraries prefix =
     ordered_set (List.map_filter (\<lambda>library. library_major library prefix) libraries)"

definition collect_target_cupti_majors :: "string list \<Rightarrow> u32 list" where
  "collect_target_cupti_majors libraries =
     filter (\<lambda>major. major < 100) (collect_majors libraries ''libcupti.so.'')"

definition target_major_from_libraries :: "string list \<Rightarrow> (u32 option, compat_error) rresult" where
  "target_major_from_libraries libraries =
     (let cupti = collect_target_cupti_majors libraries;
          runtime = collect_majors libraries ''libcudart.so.'';
          observed = ordered_set (cupti @ runtime) in
      if 1 < length observed then Err (CUE_ConflictingTargetVersions observed)
      else
        (case observed of
           [] \<Rightarrow> Ok None
         | major # _ \<Rightarrow> rbind (ensure_supported major) (\<lambda>_. Ok (Some major))))"

definition target_major :: "process_report \<Rightarrow> (u32 option, compat_error) rresult" where
  "target_major report = target_major_from_libraries (pr_loaded_libraries report)"

definition loaded_library :: "string list \<Rightarrow> string \<Rightarrow> u32 \<Rightarrow> string option" where
  "loaded_library libraries prefix major =
     find_map (\<lambda>library.
       if library_major library prefix = Some major \<and> \<not> ends_with library '' (deleted)''
       then Some library else None) libraries"

definition parse_linker_cache_line :: "string \<Rightarrow> (u32 \<times> string) option" where
  "parse_linker_cache_line line =
     (case split_once '' => '' (trim line) of
        None \<Rightarrow> None
      | Some (name, path) \<Rightarrow>
          (case library_major (case split_whitespace name of [] \<Rightarrow> [] | w # _ \<Rightarrow> w) ''libcupti.so.'' of
             None \<Rightarrow> None
           | Some major \<Rightarrow> (if major \<in> set supported_majors then Some (major, path) else None)))"

definition or_insert :: "'v \<Rightarrow> 'v option \<Rightarrow> 'v" where
  "or_insert v x = (case x of None \<Rightarrow> v | Some w \<Rightarrow> w)"

definition parse_linker_cache :: "string \<Rightarrow> (u32, string) btree" where
  "parse_linker_cache output =
     foldl (\<lambda>libraries line.
       case parse_linker_cache_line line of
         None \<Rightarrow> libraries
       | Some (major, path) \<Rightarrow> bt_entry major (or_insert path) libraries) [] (lines output)"

definition linker_cache_libraries :: "os \<Rightarrow> ((u32, string) btree, compat_error) io" where
  "linker_cache_libraries os = (\<lambda>t.
     case run_command os ''ldconfig'' [''-p''] t of
       (Ok output, t) \<Rightarrow>
         (if \<not> co_success output
          then (Err (CUE_LinkerCache (trim (from_utf8_lossy (co_stderr output)))), t)
          else (Ok (parse_linker_cache (from_utf8_lossy (co_stdout output))), t))
     | (Err source, t) \<Rightarrow>
         (if io_kind source = IO_NotFound then (Ok [], t) else (Err (CUE_Io ''ldconfig'' source), t))
     | (Panic, t) \<Rightarrow> (Panic, t))"

definition cuda_root_name :: "u32 \<Rightarrow> bytes \<Rightarrow> bool" where
  "cuda_root_name major name =
     (case from_utf8 name of
        None \<Rightarrow> False
      | Some n \<Rightarrow> starts_with n (''cuda-'' @ render_nat 10 (unat major)))"

fun cuda_roots :: "u32 \<Rightarrow> (io_error + bytes) list \<Rightarrow> (string list, compat_error) rresult" where
  "cuda_roots major [] = Ok []"
| "cuda_roots major (entry # entries) =
     (case entry of
        Inl source \<Rightarrow> Err (CUE_Io ''/usr/local'' source)
      | Inr name \<Rightarrow>
          rbind (cuda_roots major entries) (\<lambda>roots.
          Ok (if cuda_root_name major name then (''/usr/local/'' @ string_of_bytes name) # roots else roots)))"

definition cupti_paths :: "u32 \<Rightarrow> string \<Rightarrow> string list" where
  "cupti_paths major directory =
     (let file = ''libcupti.so.'' @ render_nat 10 (unat major) in
      [directory @ ''/extras/CUPTI/lib64/'' @ file, directory @ ''/targets/x86_64-linux/lib/'' @ file,
       directory @ ''/lib64/'' @ file])"

definition known_cuda_paths :: "os \<Rightarrow> u32 \<Rightarrow> (string list, compat_error) io" where
  "known_cuda_paths os major =
     io_bind (\<lambda>t.
       case fs_read_dir os ''/usr/local'' t of
         (Ok entries, t) \<Rightarrow> (cuda_roots major entries, t)
       | (Err source, t) \<Rightarrow>
           (if io_kind source = IO_NotFound then (Ok [], t) else (Err (CUE_Io ''/usr/local'' source), t))
       | (Panic, t) \<Rightarrow> (Panic, t)) (\<lambda>roots.
     io_ok (concat (map (cupti_paths major) (''/usr/local/cuda'' # roots))))"

fun first_file :: "os \<Rightarrow> string list \<Rightarrow> (string option, compat_error) io" where
  "first_file os [] = io_ok None"
| "first_file os (path # paths) =
     io_bind (fs_is_file os path) (\<lambda>is_file. if is_file then io_ok (Some path) else first_file os paths)"

fun add_known_libraries ::
  "os \<Rightarrow> u32 list \<Rightarrow> (u32, string) btree \<Rightarrow> ((u32, string) btree, compat_error) io" where
  "add_known_libraries os [] libraries = io_ok libraries"
| "add_known_libraries os (major # majors) libraries =
     io_bind (known_cuda_paths os major) (\<lambda>paths.
     io_bind (first_file os paths) (\<lambda>found.
     add_known_libraries os majors
       (case found of None \<Rightarrow> libraries | Some path \<Rightarrow> bt_insert major path libraries)))"

definition installed_libraries :: "os \<Rightarrow> ((u32, string) btree, compat_error) io" where
  "installed_libraries os =
     io_bind (linker_cache_libraries os) (\<lambda>libraries. add_known_libraries os supported_majors libraries)"

definition installed_library ::
  "u32 option \<Rightarrow> (u32, string) btree \<Rightarrow> (cupti_library, compat_error) rresult" where
  "installed_library target installed =
     rbind
       (case target of
          Some major \<Rightarrow> Ok major
        | None \<Rightarrow>
            (if 1 < length installed then Err (CUE_AmbiguousInstalledVersions (map fst installed))
             else (case installed of
                     [] \<Rightarrow> Err (CUE_LibraryNotFound None)
                   | (major, _) # _ \<Rightarrow> Ok major)))
       (\<lambda>major.
     rbind (ok_or (bt_get installed major) (CUE_LibraryNotFound (Some major))) (\<lambda>path.
     Ok \<lparr>cul_major = major, cul_path = path, cul_already_loaded = False\<rparr>))"

definition resolve_library :: "os \<Rightarrow> process_report \<Rightarrow> (cupti_library, compat_error) io" where
  "resolve_library os report =
     io_bind (io_lift (target_major report)) (\<lambda>target.
     case Option.bind target (loaded_library (pr_loaded_libraries report) ''libcupti.so.'') of
       Some path \<Rightarrow>
         io_ok \<lparr>cul_major = the target, cul_path = path, cul_already_loaded = True\<rparr>
     | None \<Rightarrow>
         io_bind (installed_libraries os) (\<lambda>installed. io_lift (installed_library target installed)))"

section \<open>Lemmas\<close>

lemma ordered_set_facts [simp]: "set (ordered_set xs) = set xs" "distinct (ordered_set xs)" "sorted (ordered_set xs)"
  by (simp_all add: ordered_set_def)

lemma map_filter_iff: "y \<in> set (List.map_filter f xs) \<longleftrightarrow> (\<exists>x \<in> set xs. f x = Some y)"
  by (induction xs) (auto simp: List.map_filter_def split: option.splits)

text \<open>A major is observed when a CUPTI library below 100 or a CUDA runtime library has it.\<close>

definition observed_major :: "string list \<Rightarrow> u32 \<Rightarrow> bool" where
  "observed_major libraries major \<longleftrightarrow>
     list_ex (\<lambda>l. library_major l ''libcupti.so.'' = Some major \<and> major < 100 \<or>
                  library_major l ''libcudart.so.'' = Some major) libraries"

lemma observed_set:
  "major \<in> set (collect_target_cupti_majors libraries @ collect_majors libraries ''libcudart.so.'') \<longleftrightarrow>
   observed_major libraries major"
  by (auto simp: collect_target_cupti_majors_def collect_majors_def map_filter_iff observed_major_def
      list_ex_iff)

lemma target_major_spec:
  "target_major_from_libraries libraries \<noteq> Panic"
  "target_major_from_libraries libraries = Ok (Some major) \<Longrightarrow>
     observed_major libraries major \<and> major \<in> {12, 13} \<and> (\<forall>m. observed_major libraries m \<longrightarrow> m = major)"
  "target_major_from_libraries libraries = Ok None \<longleftrightarrow> (\<forall>m. \<not> observed_major libraries m)"
  "target_major_from_libraries libraries = Err (CUE_UnsupportedMajor major) \<longleftrightarrow>
     observed_major libraries major \<and> major \<notin> {12, 13} \<and> (\<forall>m. observed_major libraries m \<longrightarrow> m = major)"
proof -
  define obs where
    "obs = ordered_set (collect_target_cupti_majors libraries @ collect_majors libraries ''libcudart.so.'')"
  have set_obs: "m \<in> set obs \<longleftrightarrow> observed_major libraries m" for m
    unfolding obs_def by (simp only: ordered_set_facts observed_set)
  have dist: "distinct obs" by (simp add: obs_def)
  have def': "target_major_from_libraries libraries =
     (if 1 < length obs then Err (CUE_ConflictingTargetVersions obs)
      else (case obs of [] \<Rightarrow> Ok None
            | major # _ \<Rightarrow> rbind (ensure_supported major) (\<lambda>_. Ok (Some major))))"
    by (simp only: target_major_from_libraries_def Let_def obs_def)
  consider "obs = []" | m where "obs = [m]" | a b r where "obs = a # b # r" "a \<noteq> b"
    using dist by (cases obs; cases "tl obs"; auto)
  note cases = this
  show "target_major_from_libraries libraries \<noteq> Panic"
    using cases by cases (auto simp: def' ensure_supported_def)
  show "observed_major libraries major \<and> major \<in> {12, 13} \<and> (\<forall>m. observed_major libraries m \<longrightarrow> m = major)"
    if "target_major_from_libraries libraries = Ok (Some major)"
    using cases
  proof cases
    case 2
    then have m: "m = major" "m = 12 \<or> m = 13"
      using that by (auto simp: def' ensure_supported_def supported_majors_def rust_simps split: if_splits)
    have "observed_major libraries m' \<longleftrightarrow> m' = m" for m' using set_obs [of m'] 2 by simp
    with m show ?thesis by auto
  qed (use that in \<open>auto simp: def'\<close>)
  show "target_major_from_libraries libraries = Ok None \<longleftrightarrow> (\<forall>m. \<not> observed_major libraries m)"
    using cases set_obs by cases (auto simp: def' ensure_supported_def rust_simps split: if_splits)
  show "target_major_from_libraries libraries = Err (CUE_UnsupportedMajor major) \<longleftrightarrow>
     observed_major libraries major \<and> major \<notin> {12, 13} \<and> (\<forall>m. observed_major libraries m \<longrightarrow> m = major)"
    using cases
  proof cases
    case 2
    then have "observed_major libraries m' \<longleftrightarrow> m' = m" for m' using set_obs [of m'] by simp
    then show ?thesis using 2 by (auto simp: def' ensure_supported_def supported_majors_def)
  next
    case 3
    then show ?thesis using set_obs [of a] set_obs [of b] by (auto simp: def')
  next
    case 1
    then show ?thesis using set_obs [of major] by (simp add: def')
  qed
qed

lemma parse_linker_cache_line_supported:
  "parse_linker_cache_line line = Some (major, path) \<Longrightarrow> major \<in> set supported_majors"
  by (auto simp: parse_linker_cache_line_def split: option.splits if_splits)

lemma foldl_linker_cache_keys:
  "fst ` set m \<subseteq> set supported_majors \<Longrightarrow>
   fst ` set (foldl (\<lambda>libraries line.
       case parse_linker_cache_line line of
         None \<Rightarrow> libraries
       | Some (major, path) \<Rightarrow> bt_entry major (or_insert path) libraries) m ls) \<subseteq> set supported_majors"
proof (induction ls arbitrary: m)
  case (Cons l ls)
  show ?case
  proof (cases "parse_linker_cache_line l")
    case (Some x)
    then obtain major path where x: "x = (major, path)" by (cases x)
    with Some have "major \<in> set supported_majors" using parse_linker_cache_line_supported by blast
    then have "fst ` set (bt_entry major (or_insert path) m) \<subseteq> set supported_majors"
      using Cons.prems by (simp add: set_keys_bt_entry)
    with Cons.IH show ?thesis using Some x by simp
  qed (use Cons in simp)
qed simp

lemma add_known_libraries_keys:
  "add_known_libraries os majors m t = (Ok m', t') \<Longrightarrow>
     fst ` set m' \<subseteq> fst ` set m \<union> set majors"
proof (induction os majors m arbitrary: t rule: add_known_libraries.induct)
  case (2 os major majors m)
  from 2(2) obtain paths found t1 t2 where
    step: "known_cuda_paths os major t = (Ok paths, t1)" "first_file os paths t1 = (Ok found, t2)"
      "add_known_libraries os majors (case found of None \<Rightarrow> m | Some path \<Rightarrow> bt_insert major path m) t2 = (Ok m', t')"
    by (auto simp: io_simps)
  have "fst ` set (case found of None \<Rightarrow> m | Some path \<Rightarrow> bt_insert major path m) \<subseteq> insert major (fst ` set m)"
    by (auto simp: bt_insert_def set_keys_bt_entry split: option.splits)
  with 2(1) [OF step(3)] show ?case by auto
qed simp

lemma installed_libraries_supported:
  assumes "installed_libraries os t = (Ok m, t')"
  shows "fst ` set m \<subseteq> set supported_majors"
proof -
  from assms obtain m0 t1 where m0: "linker_cache_libraries os t = (Ok m0, t1)"
    and m: "add_known_libraries os supported_majors m0 t1 = (Ok m, t')"
    by (auto simp: installed_libraries_def io_simps)
  have "fst ` set m0 \<subseteq> set supported_majors"
    using m0 foldl_linker_cache_keys [of "[]"]
    by (auto simp: linker_cache_libraries_def parse_linker_cache_def split: prod.splits rresult.splits if_splits)
  with add_known_libraries_keys [OF m] show ?thesis by blast
qed

text \<open>C18: the CUPTI library that is loaded into a target fits it: its major version is supported and is
  the one major that the target's own CUDA libraries show, if they show any; a library that counts as
  already loaded is one of the target's libraries, of that major and not deleted, and otherwise the path
  is the installed library of that major.\<close>

theorem resolve_library_fits:
  assumes "resolve_library os report t = (Ok library, t')"
  shows "cul_major library \<in> {12, 13} \<and>
    (\<forall>m. observed_major (pr_loaded_libraries report) m \<longrightarrow> m = cul_major library) \<and>
    (cul_already_loaded library \<longrightarrow>
       cul_path library \<in> set (pr_loaded_libraries report) \<and>
       library_major (cul_path library) ''libcupti.so.'' = Some (cul_major library) \<and>
       \<not> ends_with (cul_path library) '' (deleted)'') \<and>
    (\<not> cul_already_loaded library \<longrightarrow>
       (\<exists>installed t1. installed_libraries os t = (Ok installed, t1) \<and>
          bt_get installed (cul_major library) = Some (cul_path library)))"
proof -
  from assms obtain target where target: "target_major report = Ok target"
    and rest: "(case Option.bind target (loaded_library (pr_loaded_libraries report) ''libcupti.so.'') of
       Some path \<Rightarrow> io_ok \<lparr>cul_major = the target, cul_path = path, cul_already_loaded = True\<rparr>
     | None \<Rightarrow> io_bind (installed_libraries os) (\<lambda>installed. io_lift (installed_library target installed))) t
       = (Ok library, t')"
    by (auto simp: resolve_library_def io_simps)
  have seen: "major \<in> {12, 13} \<and> (\<forall>m. observed_major (pr_loaded_libraries report) m \<longrightarrow> m = major)"
    if "target = Some major" for major
    using target target_major_spec(2) that unfolding target_major_def by blast
  have unseen: "\<not> observed_major (pr_loaded_libraries report) m" if "target = None" for m
    using target target_major_spec(3) that unfolding target_major_def by blast
  show ?thesis
  proof (cases "Option.bind target (loaded_library (pr_loaded_libraries report) ''libcupti.so.'')")
    case (Some path)
    then obtain major where major: "target = Some major"
      and l: "loaded_library (pr_loaded_libraries report) ''libcupti.so.'' major = Some path"
      by (cases target) auto
    from l have "path \<in> set (pr_loaded_libraries report) \<and> library_major path ''libcupti.so.'' = Some major \<and>
        \<not> ends_with path '' (deleted)''"
      unfolding loaded_library_def by (auto dest!: find_map_Some split: if_splits)
    then show ?thesis using rest Some major seen [OF major] by auto
  next
    case None
    then obtain installed t1 where i: "installed_libraries os t = (Ok installed, t1)"
      "installed_library target installed = Ok library"
      using rest by (auto simp: io_simps)
    then have get: "bt_get installed (cul_major library) = Some (cul_path library)"
      "\<not> cul_already_loaded library" "target \<noteq> None \<Longrightarrow> target = Some (cul_major library)"
      by (auto simp: installed_library_def rust_simps split: option.splits if_splits list.splits)
    have "cul_major library \<in> fst ` set installed"
      using get(1) map_of_SomeD [of installed "cul_major library"] by (force simp: bt_get_def)
    then have "cul_major library \<in> {12, 13}"
      using installed_libraries_supported [OF i(1)] by (auto simp: supported_majors_def)
    then show ?thesis using get i(1) seen unseen by (cases target) auto
  qed
qed

definition example_report :: "string list \<Rightarrow> process_report" where
  "example_report libraries =
     \<lparr>pr_schema_version = schema_current, pr_ok = True,
      pr_target = \<lparr>ti_pid = 42, ti_process_start_time = 7\<rparr>,
      pr_executable = ''/usr/bin/app'', pr_command_line = [''app''],
      pr_credentials = \<lparr>pc_real_uid = 0, pc_effective_uid = 0, pc_saved_uid = 0, pc_filesystem_uid = 0,
        pc_real_gid = 0, pc_effective_gid = 0, pc_saved_gid = 0, pc_filesystem_gid = 0\<rparr>,
      pr_namespace_pids = [42], pr_mount_namespace = ''mnt:[1]'', pr_cgroups = [],
      pr_loaded_libraries = libraries,
      pr_cuda = \<lparr>pcu_libcuda_loaded = True, pcu_libcudart_loaded = True, pcu_xprobe_cupti_loaded = False,
        pcu_context = \<lparr>ck_status = CK_Unknown, ck_detail = None\<rparr>\<rparr>,
      pr_capabilities = \<lparr>cap_uprobe = True, cap_uretprobe = True, cap_tracepoint = True,
        cap_cuda_callback = True, cap_cuda_activity = True, cap_runtime_injection = True\<rparr>\<rparr>"

theorem resolve_library_fits_witness:
  "\<exists>library t'. resolve_library example_os (example_report [''/usr/lib/libcupti.so.12'']) 0 = (Ok library, t') \<and>
     cul_major library \<in> {12, 13} \<and> cul_already_loaded library"
proof -
  let ?l = "\<lparr>cul_major = 12, cul_path = ''/usr/lib/libcupti.so.12'', cul_already_loaded = True\<rparr> :: cupti_library"
  have run: "resolve_library example_os (example_report [''/usr/lib/libcupti.so.12'']) 0 = (Ok ?l, 0)"
  proof -
    have major: "library_major ''/usr/lib/libcupti.so.12'' ''libcupti.so.'' = Some 12"
      "library_major ''/usr/lib/libcupti.so.12'' ''libcudart.so.'' = None"
      by (simp_all add: library_major_def file_name_def components_def path_component_of_def
          from_str_radix_def to_digit_def is_ascii_digit_def of_char_def)
    show ?thesis
      by (simp add: resolve_library_def target_major_def target_major_from_libraries_def
          collect_target_cupti_majors_def collect_majors_def ordered_set_def List.map_filter_def major
          example_report_def ensure_supported_def supported_majors_def loaded_library_def ends_with_def io_bind_def)
  qed
  from resolve_library_fits [OF run] show ?thesis using run by auto
qed

end
