(* ===== verification/Doctor.thy ===== *)
theory Doctor
  imports Cupti_Compat
begin

text \<open>
  The capability report of the local host (\<open>xprobe/core/src/doctor.rs\<close>): kernel settings, tracing
  privileges and the NVIDIA tooling, and the capabilities that follow from them.
\<close>

section \<open>Definitions\<close>

record system_checks =
  sc_btf :: check_result
  sc_ebpf_permissions :: check_result
  sc_kernel_lockdown :: check_result
  sc_perf_event_paranoid :: check_result
  sc_ptrace_scope :: check_result
  sc_nvidia_driver :: check_result
  sc_cuda_driver :: check_result
  sc_cuda_toolkit :: check_result
  sc_cupti :: check_result

record environment =
  en_operating_system :: string
  en_architecture :: string
  en_kernel_release :: string
  en_effective_uid :: u32
  en_container :: "string option"
  en_pid_namespace :: string

record capability_report =
  cr_schema_version :: schema_version
  cr_ok :: bool
  cr_capabilities :: capabilities
  cr_environment :: environment
  cr_checks :: system_checks
  cr_warnings :: "warning list"

datatype doctor_error =
    DOC_Io string io_error
  | DOC_InvalidValue string string \<comment> \<open>path, value\<close>
  | DOC_Command string string \<comment> \<open>program, detail\<close>
  | DOC_Cupti compat_error

definition cap_sys_admin :: nat where "cap_sys_admin = 21"
definition cap_sys_ptrace :: nat where "cap_sys_ptrace = 19"
definition cap_perfmon :: nat where "cap_perfmon = 38"
definition cap_bpf :: nat where "cap_bpf = 39"

text \<open>The supported build target.\<close>

definition target_os :: string where "target_os = ''linux''"
definition target_arch :: string where "target_arch = ''x86_64''"

definition mk_check :: "check_status \<Rightarrow> string \<Rightarrow> check_result" where
  "mk_check status detail = \<lparr>ck_status = status, ck_detail = Some detail\<rparr>"

definition read_required :: "os \<Rightarrow> string \<Rightarrow> (string, doctor_error) io" where
  "read_required os path =
     io_bind (io_map_err (DOC_Io path) (fs_read_to_string os path)) (\<lambda>value. io_ok (trim value))"

definition read_optional :: "os \<Rightarrow> string \<Rightarrow> (string option, doctor_error) io" where
  "read_optional os path = (\<lambda>t.
     case fs_read_to_string os path t of
       (Ok value, t) \<Rightarrow> (Ok (Some (trim value)), t)
     | (Err source, t) \<Rightarrow>
         (if io_kind source = IO_NotFound then (Ok None, t) else (Err (DOC_Io path source), t))
     | (Panic, t) \<Rightarrow> (Panic, t))"

definition path_exists :: "os \<Rightarrow> string \<Rightarrow> (bool, doctor_error) io" where
  "path_exists os path = io_map_err (DOC_Io path) (fs_try_exists os path)"

text \<open>The text after a field name on the first line that starts with it.\<close>

definition status_field :: "string \<Rightarrow> string \<Rightarrow> string option" where
  "status_field status field = find_map (strip_prefix field) (lines status)"

definition parse_status_u32 :: "string \<Rightarrow> string \<Rightarrow> string \<Rightarrow> (u32, doctor_error) rresult" where
  "parse_status_u32 status field path =
     rbind (ok_or (Option.bind (status_field status field) (\<lambda>value. nth_opt (split_whitespace value) 0))
              (DOC_InvalidValue path field)) (\<lambda>value.
     ok_or (from_str_radix 10 value) (DOC_InvalidValue path value))"

definition parse_status_hex :: "string \<Rightarrow> string \<Rightarrow> string \<Rightarrow> (u64, doctor_error) rresult" where
  "parse_status_hex status field path =
     rbind (ok_or (map_option trim (status_field status field)) (DOC_InvalidValue path field)) (\<lambda>value.
     ok_or (from_str_radix 16 value) (DOC_InvalidValue path value))"

definition has_capability :: "u64 \<Rightarrow> nat \<Rightarrow> bool" where
  "has_capability caps capability \<longleftrightarrow> caps AND push_bit capability 1 \<noteq> 0"

definition ebpf_permission_check :: "u32 \<Rightarrow> u64 \<Rightarrow> check_result" where
  "ebpf_permission_check effective_uid caps =
     (if effective_uid = 0 \<or> (has_capability caps cap_bpf \<and> has_capability caps cap_perfmon) \<or>
         has_capability caps cap_sys_admin
      then mk_check CK_Available ''effective BPF and perf privileges''
      else mk_check CK_Restricted ''requires root, CAP_BPF + CAP_PERFMON, or CAP_SYS_ADMIN'')"

definition path_check :: "os \<Rightarrow> string \<Rightarrow> (check_result, doctor_error) io" where
  "path_check os path =
     io_bind (path_exists os path) (\<lambda>found.
     io_ok (if found then mk_check CK_Available path else mk_check CK_Unavailable (path @ '' not found'')))"

text \<open>\<open>parse::<i32>\<close>: an optional sign and digits, within the range of the type.\<close>

definition parse_i32 :: "string \<Rightarrow> int option" where
  "parse_i32 s =
     (case s of
        c # r \<Rightarrow>
          (if c = CHR ''-''
           then (if r = [] then None else map_option (\<lambda>n. - int n) (from_digits 10 (2 ^ 31 + 1) 0 r))
           else let ds = (if c = CHR ''+'' then r else s) in
                (if ds = [] then None else map_option int (from_digits 10 (2 ^ 31) 0 ds)))
      | [] \<Rightarrow> None)"

definition render_int :: "int \<Rightarrow> string" where
  "render_int i = (if i < 0 then CHR ''-'' # render_nat 10 (nat (- i)) else render_nat 10 (nat i))"

definition integer_setting_check :: "os \<Rightarrow> string \<Rightarrow> int \<Rightarrow> (check_result, doctor_error) io" where
  "integer_setting_check os path maximum =
     io_bind (read_optional os path) (\<lambda>raw.
     case raw of
       None \<Rightarrow> io_ok (mk_check CK_Unknown (path @ '' not found''))
     | Some raw \<Rightarrow>
         io_bind (io_lift (ok_or (parse_i32 raw) (DOC_InvalidValue path raw))) (\<lambda>value.
         io_ok (mk_check (if value \<le> maximum then CK_Available else CK_Restricted) (render_int value))))"

definition lockdown_check :: "os \<Rightarrow> (check_result, doctor_error) io" where
  "lockdown_check os =
     (let path = ''/sys/kernel/security/lockdown'' in
      io_bind (read_optional os path) (\<lambda>value.
      case value of
        None \<Rightarrow> io_ok (mk_check CK_Unknown (path @ '' not found''))
      | Some value \<Rightarrow>
          io_ok (mk_check (if contains value ''[none]'' then CK_Available else CK_Restricted) value)))"

definition optional_command ::
  "os \<Rightarrow> string \<Rightarrow> string list \<Rightarrow> (command_output option, doctor_error) io" where
  "optional_command os program arguments = (\<lambda>t.
     case run_command os program arguments t of
       (Ok output, t) \<Rightarrow> (Ok (Some output), t)
     | (Err source, t) \<Rightarrow>
         (if io_kind source = IO_NotFound then (Ok None, t) else (Err (DOC_Io program source), t))
     | (Panic, t) \<Rightarrow> (Panic, t))"

definition command_error_detail :: "command_output \<Rightarrow> string" where
  "command_error_detail output =
     (let stderr = trim (from_utf8_lossy (co_stderr output)); stdout = trim (from_utf8_lossy (co_stdout output)) in
      if stderr \<noteq> [] then stderr
      else if stdout \<noteq> [] then stdout
      else ''command exited with '' @ co_status output)"

definition nvidia_driver_check :: "os \<Rightarrow> (check_result, doctor_error) io" where
  "nvidia_driver_check os =
     io_bind (read_optional os ''/proc/driver/nvidia/version'') (\<lambda>version.
     case version of
       Some version \<Rightarrow>
         io_ok (mk_check CK_Available (case lines version of [] \<Rightarrow> [] | l # _ \<Rightarrow> l))
     | None \<Rightarrow>
         io_bind (optional_command os ''nvidia-smi''
             [''--query-gpu=name,driver_version'', ''--format=csv,noheader'']) (\<lambda>output.
         case output of
           None \<Rightarrow> io_ok (mk_check CK_Unavailable ''nvidia-smi not found'')
         | Some output \<Rightarrow>
             (if co_success output
              then io_ok (mk_check CK_Available (trim (from_utf8_lossy (co_stdout output))))
              else
                io_bind (io_bind (path_exists os ''/dev/nvidiactl'') (\<lambda>found.
                  if found then io_ok True else path_exists os ''/usr/lib/wsl/lib/libcuda.so.1'')) (\<lambda>present.
                io_ok (mk_check (if present then CK_Restricted else CK_Unavailable)
                         (command_error_detail output))))))"

definition linker_cache_contains :: "os \<Rightarrow> string \<Rightarrow> (bool, doctor_error) io" where
  "linker_cache_contains os library =
     io_bind (optional_command os ''ldconfig'' [''-p'']) (\<lambda>output.
     case output of
       None \<Rightarrow> io_ok False
     | Some output \<Rightarrow>
         (if \<not> co_success output then io_err (DOC_Command ''ldconfig'' (command_error_detail output))
          else io_ok (contains (from_utf8_lossy (co_stdout output)) library)))"

definition cuda_driver_check :: "os \<Rightarrow> check_result \<Rightarrow> (check_result, doctor_error) io" where
  "cuda_driver_check os nvidia_driver =
     io_bind (io_bind (linker_cache_contains os ''libcuda.so'') (\<lambda>found.
       if found then io_ok True else path_exists os ''/usr/lib/wsl/lib/libcuda.so.1'')) (\<lambda>library_present.
     if \<not> library_present then io_ok (mk_check CK_Unavailable ''libcuda.so not found'')
     else if ck_status nvidia_driver = CK_Available then io_ok (mk_check CK_Available ''libcuda.so found'')
     else io_ok (mk_check CK_Restricted ''libcuda.so found, but the NVIDIA runtime is unavailable''))"

definition cuda_toolkit_check :: "os \<Rightarrow> (check_result, doctor_error) io" where
  "cuda_toolkit_check os =
     io_bind (optional_command os ''nvcc'' [''--version'']) (\<lambda>output.
     case output of
       Some output \<Rightarrow>
         (if co_success output
          then io_ok (mk_check CK_Available
                 (case lines (from_utf8_lossy (co_stdout output)) of [] \<Rightarrow> ''nvcc available'' | ls \<Rightarrow> last ls))
          else io_ok (mk_check CK_Unavailable (command_error_detail output)))
     | None \<Rightarrow>
         io_bind (path_exists os ''/usr/local/cuda/version.json'') (\<lambda>found.
         io_ok (if found then mk_check CK_Available ''/usr/local/cuda/version.json''
                else mk_check CK_Unavailable ''nvcc not found'')))"

fun join :: "string \<Rightarrow> string list \<Rightarrow> string" where
  "join sep [] = []"
| "join sep [s] = s"
| "join sep (s # t # r) = s @ sep @ join sep (t # r)"

definition cupti_check :: "os \<Rightarrow> (check_result, doctor_error) io" where
  "cupti_check os =
     io_bind (io_map_err DOC_Cupti (installed_libraries os)) (\<lambda>libraries.
     if libraries = [] then io_ok (mk_check CK_Unavailable ''libcupti.so.12 and libcupti.so.13 not found'')
     else io_ok (mk_check CK_Available
       (join ''; '' (map (\<lambda>(major, path). ''CUDA '' @ render_nat 10 (unat major) @ '': '' @ path) libraries))))"

definition container_kind :: "os \<Rightarrow> (string option, doctor_error) io" where
  "container_kind os =
     io_bind (path_exists os ''/.dockerenv'') (\<lambda>docker.
     if docker then io_ok (Some ''docker'')
     else
       io_bind (read_required os ''/proc/1/cgroup'') (\<lambda>cgroup.
       io_ok (List.find (contains cgroup) [''kubepods'', ''containerd'', ''docker'', ''lxc''])))"

definition warnings_for :: "system_checks \<Rightarrow> warning list" where
  "warnings_for checks =
     (if ck_status (sc_ebpf_permissions checks) \<noteq> CK_Available
      then [mk_warning ''BPF_PERMISSION_MISSING'' ''The current process cannot attach eBPF probes.''] else []) @
     (if ck_status (sc_nvidia_driver checks) \<noteq> CK_Available
      then [mk_warning ''NVIDIA_DRIVER_UNAVAILABLE''
              ''The NVIDIA driver is unavailable from this execution environment.''] else []) @
     (if ck_status (sc_cupti checks) \<noteq> CK_Available
      then [mk_warning ''CUPTI_NOT_AVAILABLE''
              ''CUPTI was not found in the dynamic linker cache or CUDA installation.''] else []) @
     (if ck_status (sc_kernel_lockdown checks) = CK_Restricted
      then [mk_warning ''KERNEL_LOCKDOWN'' ''Kernel lockdown may prevent probe attachment.''] else [])"

definition doctor_run :: "os \<Rightarrow> (capability_report, doctor_error) io" where
  "doctor_run os =
     io_bind (read_required os ''/proc/self/status'') (\<lambda>proc_status.
     io_bind (io_lift (parse_status_u32 proc_status ''Uid:'' ''/proc/self/status'')) (\<lambda>effective_uid.
     io_bind (io_lift (parse_status_hex proc_status ''CapEff:'' ''/proc/self/status'')) (\<lambda>effective_capabilities.
     io_bind (read_required os ''/proc/sys/kernel/osrelease'') (\<lambda>kernel_release.
     io_bind (io_map_err (DOC_Io ''/proc/self/ns/pid'') (fs_read_link os ''/proc/self/ns/pid'')) (\<lambda>pid_link.
     io_bind (path_check os ''/sys/kernel/btf/vmlinux'') (\<lambda>btf.
     io_bind (integer_setting_check os ''/proc/sys/kernel/perf_event_paranoid'' 1) (\<lambda>perf_event_paranoid.
     io_bind (integer_setting_check os ''/proc/sys/kernel/yama/ptrace_scope'' 0) (\<lambda>ptrace_scope.
     io_bind (lockdown_check os) (\<lambda>kernel_lockdown.
     let ebpf_permissions = ebpf_permission_check effective_uid effective_capabilities in
     io_bind (nvidia_driver_check os) (\<lambda>nvidia_driver.
     io_bind (cuda_driver_check os nvidia_driver) (\<lambda>cuda_driver.
     io_bind (cuda_toolkit_check os) (\<lambda>cuda_toolkit.
     io_bind (cupti_check os) (\<lambda>cupti.
     let host_probe_available =
           (ck_status ebpf_permissions = CK_Available \<and> ck_status kernel_lockdown \<noteq> CK_Restricted);
         cuda_available =
           (ck_status nvidia_driver = CK_Available \<and> ck_status cuda_driver = CK_Available \<and>
            ck_status cupti = CK_Available);
         runtime_injection =
           ((target_os = ''linux'' \<and> target_arch = ''x86_64'') \<and>
            (effective_uid = 0 \<or> has_capability effective_capabilities cap_sys_ptrace \<or>
             ck_status ptrace_scope = CK_Available));
         checks =
           \<lparr>sc_btf = btf, sc_ebpf_permissions = ebpf_permissions, sc_kernel_lockdown = kernel_lockdown,
            sc_perf_event_paranoid = perf_event_paranoid, sc_ptrace_scope = ptrace_scope,
            sc_nvidia_driver = nvidia_driver, sc_cuda_driver = cuda_driver,
            sc_cuda_toolkit = cuda_toolkit, sc_cupti = cupti\<rparr>
     in
     io_bind (container_kind os) (\<lambda>container.
     io_ok \<lparr>cr_schema_version = schema_current, cr_ok = True,
        cr_capabilities =
          \<lparr>cap_uprobe = host_probe_available, cap_uretprobe = host_probe_available,
           cap_tracepoint = host_probe_available, cap_cuda_callback = cuda_available,
           cap_cuda_activity = cuda_available, cap_runtime_injection = runtime_injection\<rparr>,
        cr_environment =
          \<lparr>en_operating_system = target_os, en_architecture = target_arch,
           en_kernel_release = kernel_release, en_effective_uid = effective_uid,
           en_container = container, en_pid_namespace = from_utf8_lossy pid_link\<rparr>,
        cr_checks = checks, cr_warnings = warnings_for checks\<rparr>))))))))))))))"

section \<open>Lemmas\<close>

lemma no_panic_read: "no_panic (read_required os p)" "no_panic (path_exists os p)"
  by (auto simp: read_required_def path_exists_def intro!: no_panic_intros)

lemma no_panic_handle:
  assumes "no_panic m"
    and "\<And>a t. fst (f a t) \<noteq> Panic" "\<And>e t. fst (g e t) \<noteq> Panic"
  shows "no_panic (\<lambda>t. case m t of (Ok a, t) \<Rightarrow> f a t | (Err e, t) \<Rightarrow> g e t | (Panic, t) \<Rightarrow> (Panic, t))"
  unfolding no_panic_def
proof
  fix t
  show "fst (case m t of (Ok a, t) \<Rightarrow> f a t | (Err e, t) \<Rightarrow> g e t | (Panic, t) \<Rightarrow> (Panic, t)) \<noteq> Panic"
    using assms by (cases "m t"; cases "fst (m t)") (auto simp: no_panic_def, metis fst_conv)
qed

lemma no_panic_optional: "no_panic (read_optional os p)" "no_panic (optional_command os c args)"
  unfolding read_optional_def optional_command_def
  by (auto intro!: no_panic_handle no_panic_fs split: if_splits)

lemma no_panic_compat: "no_panic (installed_libraries os)"
proof -
  have 1: "no_panic (linker_cache_libraries os)"
    unfolding linker_cache_libraries_def by (auto intro!: no_panic_handle no_panic_fs split: if_splits)
  have roots: "cuda_roots major entries \<noteq> Panic" for major entries
    by (induction major entries rule: cuda_roots.induct) (auto simp: rust_simps split: sum.splits)
  have 2: "no_panic (known_cuda_paths os major)" for major
    unfolding known_cuda_paths_def
    by (auto simp: roots intro!: no_panic_handle no_panic_fs no_panic_bind no_panic_lift split: if_splits)
  have 3: "no_panic (first_file os paths)" for paths
    by (induction paths) (auto intro!: no_panic_intros)
  have "no_panic (add_known_libraries os majors m)" for majors m
    by (induction majors arbitrary: m) (auto intro!: no_panic_bind no_panic_lift 2 3)
  then show ?thesis using 1 by (auto simp: installed_libraries_def intro!: no_panic_bind)
qed

lemma has_capability_bit: "has_capability caps k \<longleftrightarrow> bit caps k"
  by (simp add: has_capability_def bit_iff_and_push_bit_not_eq_0)

lemma no_panic_parse:
  "parse_status_u32 status field path \<noteq> Panic" "parse_status_hex status field path \<noteq> Panic"
  by (auto simp: parse_status_u32_def parse_status_hex_def rust_simps)

lemma no_panic_checks:
  "no_panic (path_check os p)" "no_panic (integer_setting_check os p n)" "no_panic (lockdown_check os)"
  "no_panic (nvidia_driver_check os)" "no_panic (linker_cache_contains os l)"
  "no_panic (cuda_toolkit_check os)" "no_panic (cupti_check os)" "no_panic (container_kind os)"
  unfolding path_check_def integer_setting_check_def lockdown_check_def nvidia_driver_check_def
    linker_cache_contains_def cuda_toolkit_check_def cupti_check_def container_kind_def Let_def
  by (auto simp: rust_simps intro!: no_panic_intros no_panic_read no_panic_optional no_panic_compat
      split: option.splits)

lemma no_panic_cuda_driver: "no_panic (cuda_driver_check os c)"
  unfolding cuda_driver_check_def by (auto intro!: no_panic_intros no_panic_read no_panic_checks)

lemma doctor_run_no_panic: "no_panic (doctor_run os)"
  unfolding doctor_run_def Let_def
  by (intro no_panic_intros no_panic_read no_panic_checks no_panic_cuda_driver)
    (simp_all add: no_panic_parse)


text \<open>A host with a readable procfs, one target process, a root user and no NVIDIA tooling.\<close>

definition example_stat :: string where
  "example_stat = ''42 (app) S 1 0 0 0 0 0 0 0 0 0 0 0 0 0 0 0 0 0 7 0''"

definition example_status :: string where
  "example_status = ''Uid: 0 1 1 1'' @ [newline] @ ''Gid: 0 0 0 0'' @ [newline] @ ''NSpid: 42'' @ [newline] @ ''CapEff: 0''"

definition example_host :: os where
  "example_host = example_os
     \<lparr>os_read := \<lambda>t p.
        (if p = ''/proc/self/status'' then Inr (bytes_of_string example_status)
         else if p = ''/proc/sys/kernel/osrelease'' then Inr (bytes_of_string ''6.1'')
         else if p = ''/proc/1/cgroup'' then Inr (bytes_of_string ''0::/'')
         else if p = ''/proc/42/stat'' then Inr (bytes_of_string example_stat)
         else if p = ''/proc/42/status'' then Inr (bytes_of_string example_status)
         else if p = ''/proc/42/cmdline'' \<or> p = ''/proc/42/cgroup'' \<or> p = ''/proc/42/maps'' then Inr []
         else Inl (IoError IO_NotFound [])),
      os_read_link := \<lambda>t p. Inr (bytes_of_string ''link''),
      os_command := \<lambda>t p args.
        (if args = [''--query-compute-apps=pid,gpu_uuid'', ''--format=csv,noheader,nounits'']
         then Inr \<lparr>co_success = True, co_code = Some 0, co_status = ''exit status: 0'',
                  co_stdout = bytes_of_string ''42, GPU-1'', co_stderr = []\<rparr>
         else Inl (IoError IO_NotFound []))\<rparr>"

lemma example_host_reads:
  "fs_read_to_string example_host ''/proc/self/status'' t = (Ok example_status, Suc t)"
  "fs_read_to_string example_host ''/proc/sys/kernel/osrelease'' t = (Ok ''6.1'', Suc t)"
  "fs_read_to_string example_host ''/proc/1/cgroup'' t = (Ok ''0::/'', Suc t)"
  by (simp_all add: fs_read_to_string_def fs_read_def io_access_def io_bind_def example_host_def ok_or_def
      from_utf8_ascii example_status_def newline_def)

lemma example_status_text:
  "trim example_status = example_status"
  "status_field example_status ''Uid:'' = Some '' 0 1 1 1''"
  "status_field example_status ''CapEff:'' = Some '' 0''"
  "split_whitespace '' 0 1 1 1'' = [''0'', ''1'', ''1'', ''1'']"
  "trim '' 0'' = ''0''" "trim ''6.1'' = ''6.1''" "trim ''0::/'' = ''0::/''"
  by code_simp+

lemma example_status_facts:
  "parse_status_u32 example_status ''Uid:'' ''/proc/self/status'' = Ok 0"
  "parse_status_hex example_status ''CapEff:'' ''/proc/self/status'' = Ok 0"
  by (simp_all add: example_status_text parse_status_u32_def parse_status_hex_def
      nth_opt_def ok_or_def from_str_radix_def to_digit_def is_ascii_digit_def)

lemma example_host_absent:
  "p \<in> {''/proc/driver/nvidia/version'', ''/proc/sys/kernel/perf_event_paranoid'',
         ''/proc/sys/kernel/yama/ptrace_scope'', ''/sys/kernel/security/lockdown''} \<Longrightarrow>
     read_optional example_host p t = (Ok None, Suc t)"
  "path_exists example_host q t = (Ok False, Suc t)"
  "args \<noteq> [''--query-compute-apps=pid,gpu_uuid'', ''--format=csv,noheader,nounits''] \<Longrightarrow>
     optional_command example_host c args t = (Ok None, Suc t)"
  "args \<noteq> [''--query-compute-apps=pid,gpu_uuid'', ''--format=csv,noheader,nounits''] \<Longrightarrow>
     run_command example_host c args t = (Err (IoError IO_NotFound []), Suc t)"
  "fs_read_dir example_host q t = (Err (IoError IO_NotFound []), Suc t)"
  "fs_is_file example_host q t = (Ok False, Suc t)"
  by (auto simp: read_optional_def fs_read_to_string_def fs_defs io_access_def io_bind_def
      example_host_def example_os_def path_exists_def io_map_err_def optional_command_def)

lemma example_host_first_file: "\<exists>t'. first_file example_host paths t = (Ok None, t')"
  by (induction paths arbitrary: t) (auto simp: io_bind_def example_host_absent)

lemma example_host_libraries: "\<exists>t'. installed_libraries example_host t = (Ok [], t')"
proof -
  have known: "\<exists>t'. known_cuda_paths example_host major t = (Ok (cupti_paths major ''/usr/local/cuda''), t')" for major t
    by (simp add: known_cuda_paths_def io_bind_def example_host_absent)
  have "\<exists>t'. add_known_libraries example_host majors [] t = (Ok [], t')" for majors t
  proof (induction majors arbitrary: t)
    case (Cons major majors)
    obtain t1 where 1: "known_cuda_paths example_host major t = (Ok (cupti_paths major ''/usr/local/cuda''), t1)"
      using known by blast
    obtain t2 where "first_file example_host (cupti_paths major ''/usr/local/cuda'') t1 = (Ok None, t2)"
      using example_host_first_file by blast
    with 1 Cons.IH [of t2] show ?case by (simp add: io_bind_def)
  qed simp
  then show ?thesis
    by (simp add: installed_libraries_def linker_cache_libraries_def io_bind_def example_host_absent)
qed

lemma example_host_doctor:
  "\<exists>report t'. doctor_run example_host t = (Ok report, t')"
proof -
  have req: "read_required example_host ''/proc/self/status'' t = (Ok example_status, Suc t)"
    "read_required example_host ''/proc/sys/kernel/osrelease'' t = (Ok ''6.1'', Suc t)"
    "read_required example_host ''/proc/1/cgroup'' t = (Ok ''0::/'', Suc t)" for t
    by (simp_all add: read_required_def io_bind_def io_map_err_def example_host_reads example_status_text)
  have link: "fs_read_link example_host p t = (Ok (bytes_of_string ''link''), Suc t)" for p t
    by (simp add: fs_read_link_def io_access_def example_host_def)
  obtain lib where lib: "installed_libraries example_host t = (Ok [], lib t)" for t
    using example_host_libraries by metis
  show ?thesis
    by (simp add: doctor_run_def io_bind_def io_map_err_def req link example_status_facts Let_def path_check_def
        integer_setting_check_def lockdown_check_def nvidia_driver_check_def cuda_driver_check_def
        linker_cache_contains_def cuda_toolkit_check_def cupti_check_def container_kind_def
        example_host_absent lib)
qed


end
