(* ===== verification/Inspect.thy ===== *)
theory Inspect
  imports Doctor
begin

text \<open>
  Process inspection (\<open>xprobe/core/src/inspect.rs\<close>): the report on one process, read from procfs, and
  the check that a process id still means the same process. A process is identified by its id and its
  start time; both ends of every inspection compare the start time.
\<close>

section \<open>Definitions\<close>

datatype inspect_error =
    IE_TargetNotFound u32
  | IE_TargetExited u32
  | IE_TargetReused u32
  | IE_PermissionDenied u32 string
  | IE_Io string io_error
  | IE_InvalidProc string string
  | IE_Environment doctor_error

fun inspect_error_code :: "inspect_error \<Rightarrow> error_code" where
  "inspect_error_code (IE_TargetNotFound _) = EC_TargetNotFound"
| "inspect_error_code (IE_TargetExited _) = EC_TargetExited"
| "inspect_error_code (IE_TargetReused _) = EC_TargetReused"
| "inspect_error_code (IE_PermissionDenied _ _) = EC_PermissionDenied"
| "inspect_error_code (IE_Io _ _) = EC_Internal"
| "inspect_error_code (IE_InvalidProc _ _) = EC_Internal"
| "inspect_error_code (IE_Environment _) = EC_Internal"

fun inspect_error_recoverable :: "inspect_error \<Rightarrow> bool" where
  "inspect_error_recoverable (IE_TargetNotFound _) = True"
| "inspect_error_recoverable (IE_TargetExited _) = True"
| "inspect_error_recoverable (IE_TargetReused _) = True"
| "inspect_error_recoverable (IE_PermissionDenied _ _) = True"
| "inspect_error_recoverable _ = False"

definition proc_path :: "u32 \<Rightarrow> string \<Rightarrow> string" where
  "proc_path pid entry = ''/proc/'' @ render_nat 10 (unat pid) @ ''/'' @ entry"

definition process_io_error :: "u32 \<Rightarrow> string \<Rightarrow> bool \<Rightarrow> io_error \<Rightarrow> inspect_error" where
  "process_io_error pid path initial source =
     (case io_kind source of
        IO_NotFound \<Rightarrow> (if initial then IE_TargetNotFound pid else IE_TargetExited pid)
      | IO_PermissionDenied \<Rightarrow> IE_PermissionDenied pid path
      | IO_Other \<Rightarrow> IE_Io path source)"

text \<open>The fields of a \<open>stat\<close> line after the command, which may itself contain parentheses.\<close>

definition stat_fields :: "string \<Rightarrow> string list option" where
  "stat_fields stat = map_option (\<lambda>(_, rest). split_whitespace rest) (rsplit_once (CHR '')'') stat)"

definition parse_start_time :: "string \<Rightarrow> string \<Rightarrow> (u64, inspect_error) rresult" where
  "parse_start_time stat path =
     rbind (ok_or (stat_fields stat) (IE_InvalidProc path ''missing command terminator'')) (\<lambda>fields.
     rbind (ok_or (nth_opt fields 19) (IE_InvalidProc path ''missing process start time'')) (\<lambda>value.
     ok_or (from_str_radix 10 value) (IE_InvalidProc path ''invalid process start time'')))"

definition read_start_time :: "os \<Rightarrow> u32 \<Rightarrow> bool \<Rightarrow> (u64, inspect_error) io" where
  "read_start_time os pid initial =
     (let path = proc_path pid ''stat'' in
      io_bind (io_map_err (process_io_error pid path initial) (fs_read_to_string os path)) (\<lambda>stat.
      io_lift (parse_start_time stat path)))"

definition read_parent_pid :: "os \<Rightarrow> u32 \<Rightarrow> (u32, inspect_error) io" where
  "read_parent_pid os pid =
     (let path = proc_path pid ''stat'' in
      io_bind (io_map_err (process_io_error pid path False) (fs_read_to_string os path)) (\<lambda>stat.
      io_lift
        (rbind (ok_or (stat_fields stat) (IE_InvalidProc path ''missing command terminator'')) (\<lambda>fields.
         rbind (ok_or (nth_opt fields 1) (IE_InvalidProc path ''missing parent PID'')) (\<lambda>parent.
         ok_or (from_str_radix 10 parent) (IE_InvalidProc path ''invalid parent PID''))))))"

definition verify_target :: "os \<Rightarrow> target_identity \<Rightarrow> (unit, inspect_error) io" where
  "verify_target os target =
     io_bind (read_start_time os (ti_pid target) False) (\<lambda>current_start_time.
     if current_start_time \<noteq> ti_process_start_time target
     then io_err (IE_TargetReused (ti_pid target)) else io_ok ())"

definition read_text :: "os \<Rightarrow> u32 \<Rightarrow> string \<Rightarrow> (string, inspect_error) io" where
  "read_text os pid entry =
     (let path = proc_path pid entry in
      io_map_err (process_io_error pid path False) (fs_read_to_string os path))"

definition read_bytes :: "os \<Rightarrow> u32 \<Rightarrow> string \<Rightarrow> (bytes, inspect_error) io" where
  "read_bytes os pid entry =
     (let path = proc_path pid entry in io_map_err (process_io_error pid path False) (fs_read os path))"

definition read_link :: "os \<Rightarrow> u32 \<Rightarrow> string \<Rightarrow> (string, inspect_error) io" where
  "read_link os pid entry =
     (let path = proc_path pid entry in
      io_bind (io_map_err (process_io_error pid path False) (fs_read_link os path)) (\<lambda>target.
      io_lift (ok_or (from_utf8 target) (IE_InvalidProc path ''path is not valid UTF-8''))))"

text \<open>\<open>bytes.split(|byte| *byte == 0)\<close>.\<close>

fun split_zero :: "bytes \<Rightarrow> bytes list" where
  "split_zero [] = [[]]"
| "split_zero (b # bs) =
     (if b = 0 then [] # split_zero bs
      else (case split_zero bs of [] \<Rightarrow> [[b]] | p # ps \<Rightarrow> (b # p) # ps))"

definition parse_command_line :: "bytes \<Rightarrow> u32 \<Rightarrow> (string list, inspect_error) rresult" where
  "parse_command_line bs pid =
     rcollect (\<lambda>argument. ok_or (from_utf8 argument)
         (IE_InvalidProc (proc_path pid ''cmdline'') ''argument is not valid UTF-8''))
       (filter (\<lambda>argument. argument \<noteq> []) (split_zero bs))"

definition parse_four_ids :: "string \<Rightarrow> string \<Rightarrow> u32 \<Rightarrow> (u32 \<times> u32 \<times> u32 \<times> u32, inspect_error) rresult" where
  "parse_four_ids status field pid =
     (let path = proc_path pid ''status'' in
      rbind (ok_or (status_field status field) (IE_InvalidProc path (''missing '' @ field))) (\<lambda>text.
      rbind (rcollect (\<lambda>value. ok_or (from_str_radix 10 value) (IE_InvalidProc path (''invalid '' @ field)))
               (split_whitespace text)) (\<lambda>values.
      case values of
        [a, b, c, d] \<Rightarrow> Ok (a, b, c, d)
      | _ \<Rightarrow> Err (IE_InvalidProc path (''expected four values for '' @ field)))))"

definition parse_credentials :: "string \<Rightarrow> u32 \<Rightarrow> (process_credentials, inspect_error) rresult" where
  "parse_credentials status pid =
     rbind (parse_four_ids status ''Uid:'' pid) (\<lambda>(u0, u1, u2, u3).
     rbind (parse_four_ids status ''Gid:'' pid) (\<lambda>(g0, g1, g2, g3).
     Ok \<lparr>pc_real_uid = u0, pc_effective_uid = u1, pc_saved_uid = u2, pc_filesystem_uid = u3,
         pc_real_gid = g0, pc_effective_gid = g1, pc_saved_gid = g2, pc_filesystem_gid = g3\<rparr>))"

definition parse_namespace_pids :: "string \<Rightarrow> u32 \<Rightarrow> (u32 list, inspect_error) rresult" where
  "parse_namespace_pids status pid =
     (let path = proc_path pid ''status'' in
      rbind (ok_or (status_field status ''NSpid:'') (IE_InvalidProc path ''missing NSpid'')) (\<lambda>text.
      rcollect (\<lambda>value. ok_or (from_str_radix 10 value) (IE_InvalidProc path ''invalid NSpid''))
        (split_whitespace text)))"

definition parse_cgroup_line :: "string \<Rightarrow> string \<Rightarrow> (cgroup_entry, inspect_error) rresult" where
  "parse_cgroup_line path line =
     (let fields = splitn 3 (CHR '':'') line in
      rbind (ok_or (nth_opt fields 0) (IE_InvalidProc path ''missing cgroup hierarchy'')) (\<lambda>hierarchy.
      rbind (ok_or (from_str_radix 10 hierarchy) (IE_InvalidProc path ''invalid cgroup hierarchy''))
        (\<lambda>hierarchy_id.
      rbind (ok_or (nth_opt fields 1) (IE_InvalidProc path ''missing cgroup controllers'')) (\<lambda>controllers.
      rbind (ok_or (nth_opt fields 2) (IE_InvalidProc path ''missing cgroup path'')) (\<lambda>cgroup_path.
      Ok \<lparr>cg_hierarchy_id = hierarchy_id,
          cg_controllers = filter (\<lambda>c. c \<noteq> []) (split_on (CHR '','') controllers),
          cg_path = cgroup_path\<rparr>)))))"

definition parse_cgroups :: "string \<Rightarrow> u32 \<Rightarrow> (cgroup_entry list, inspect_error) rresult" where
  "parse_cgroups cgroup pid = rcollect (parse_cgroup_line (proc_path pid ''cgroup'')) (lines cgroup)"

text \<open>The path of a line of \<open>maps\<close>: what follows the white space after the fifth field.\<close>

function maps_path_from :: "nat \<Rightarrow> bool \<Rightarrow> string \<Rightarrow> string option" where
  "maps_path_from fields_seen in_field s =
     (if s = [] then None
      else if whitespace_len s \<noteq> 0 then
        (if in_field then
           (if fields_seen + 1 = 5 then Some (trim_start s)
            else maps_path_from (fields_seen + 1) False (drop (whitespace_len s) s))
         else maps_path_from fields_seen False (drop (whitespace_len s) s))
      else maps_path_from fields_seen True (tl s))"
  by pat_completeness auto
termination
  by (relation "measure (\<lambda>(_, _, s). length s)") auto

declare maps_path_from.simps [simp del]

definition maps_path :: "string \<Rightarrow> string option" where
  "maps_path line = maps_path_from 0 False line"

definition parse_loaded_libraries :: "string \<Rightarrow> string list" where
  "parse_loaded_libraries maps =
     ordered_set
       (filter (\<lambda>path. starts_with path ''/'' \<and> contains path ''.so'') (List.map_filter maps_path (lines maps)))"

definition contains_library :: "string list \<Rightarrow> string \<Rightarrow> bool" where
  "contains_library libraries name =
     list_ex (\<lambda>path. case file_name path of None \<Rightarrow> False | Some f \<Rightarrow> starts_with f name) libraries"

definition inspect_run :: "os \<Rightarrow> u32 \<Rightarrow> (process_report, inspect_error) io" where
  "inspect_run os pid =
     io_bind (read_start_time os pid True) (\<lambda>first_start_time.
     io_bind (read_link os pid ''exe'') (\<lambda>executable.
     io_bind (io_bind (read_bytes os pid ''cmdline'') (\<lambda>bs. io_lift (parse_command_line bs pid))) (\<lambda>command_line.
     io_bind (read_text os pid ''status'') (\<lambda>status.
     io_bind (io_lift (parse_credentials status pid)) (\<lambda>credentials.
     io_bind (io_lift (parse_namespace_pids status pid)) (\<lambda>namespace_pids.
     io_bind (read_link os pid ''ns/mnt'') (\<lambda>mount_namespace.
     io_bind (io_bind (read_text os pid ''cgroup'') (\<lambda>text. io_lift (parse_cgroups text pid))) (\<lambda>cgroups.
     io_bind (read_text os pid ''maps'') (\<lambda>maps.
     io_bind (read_start_time os pid False) (\<lambda>final_start_time.
     if first_start_time \<noteq> final_start_time then io_err (IE_TargetReused pid)
     else
     let loaded_libraries = parse_loaded_libraries maps;
         libcuda_loaded = contains_library loaded_libraries ''libcuda.so'';
         libcudart_loaded = contains_library loaded_libraries ''libcudart.so'';
         xprobe_cupti_loaded = contains_library loaded_libraries ''libxprobe-cupti.so'';
         context = (if libcuda_loaded
           then \<lparr>ck_status = CK_Unknown,
                 ck_detail = Some ''CUDA context state is not externally observable''\<rparr>
           else \<lparr>ck_status = CK_Unavailable,
                 ck_detail = Some ''libcuda is not loaded in the target process''\<rparr>)
     in
     io_bind (io_map_err IE_Environment (doctor_run os)) (\<lambda>doctor.
     io_ok \<lparr>pr_schema_version = schema_current, pr_ok = True,
        pr_target = \<lparr>ti_pid = pid, ti_process_start_time = first_start_time\<rparr>,
        pr_executable = executable, pr_command_line = command_line, pr_credentials = credentials,
        pr_namespace_pids = namespace_pids, pr_mount_namespace = mount_namespace, pr_cgroups = cgroups,
        pr_loaded_libraries = loaded_libraries,
        pr_cuda = \<lparr>pcu_libcuda_loaded = libcuda_loaded, pcu_libcudart_loaded = libcudart_loaded,
                   pcu_xprobe_cupti_loaded = xprobe_cupti_loaded, pcu_context = context\<rparr>,
        pr_capabilities = (cr_capabilities doctor)
          \<lparr>cap_cuda_callback := xprobe_cupti_loaded, cap_cuda_activity := xprobe_cupti_loaded\<rparr>\<rparr>)))))))))))"

section \<open>Lemmas\<close>

text \<open>The start time that procfs shows for a process at one access.\<close>

definition start_time_at :: "os \<Rightarrow> nat \<Rightarrow> u32 \<Rightarrow> u64 option" where
  "start_time_at os t pid =
     (case os_read os t (proc_path pid ''stat'') of
        Inl _ \<Rightarrow> None
      | Inr bs \<Rightarrow>
          (case from_utf8 bs of
             None \<Rightarrow> None
           | Some stat \<Rightarrow>
               (case parse_start_time stat (proc_path pid ''stat'') of Ok s \<Rightarrow> Some s | _ \<Rightarrow> None)))"

lemma read_start_time_Ok_iff:
  "read_start_time os pid initial t = (Ok s, t') \<longleftrightarrow> start_time_at os t pid = Some s \<and> t' = Suc t"
  by (auto simp: read_start_time_def Let_def io_simps fs_read_to_string_def fs_read_def start_time_at_def
      rust_simps split: sum.splits option.splits rresult.splits)

lemma verify_target_Ok_iff:
  "verify_target os target t = (Ok (), t') \<longleftrightarrow>
     start_time_at os t (ti_pid target) = Some (ti_process_start_time target) \<and> t' = Suc t"
  by (auto simp: verify_target_def io_simps read_start_time_Ok_iff split: if_splits)

lemma no_panic_readers:
  "no_panic (read_start_time os pid b)" "no_panic (verify_target os target)" "no_panic (read_parent_pid os pid)"
  "no_panic (read_text os pid e)" "no_panic (read_bytes os pid e)" "no_panic (read_link os pid e)"
  unfolding read_start_time_def verify_target_def read_parent_pid_def read_text_def read_bytes_def read_link_def
    Let_def parse_start_time_def
  by (auto simp: rust_simps intro!: no_panic_intros)

lemma parsers_no_Panic:
  "parse_command_line bs pid \<noteq> Panic" "parse_credentials status pid \<noteq> Panic"
  "parse_namespace_pids status pid \<noteq> Panic" "parse_cgroups text pid \<noteq> Panic"
proof -
  have four: "parse_four_ids status field pid \<noteq> Panic" for status field pid
    unfolding parse_four_ids_def Let_def
    by (intro rbind_no_Panic rcollect_no_Panic) (auto simp: rust_simps split: list.splits)
  show "parse_command_line bs pid \<noteq> Panic"
    unfolding parse_command_line_def by (rule rcollect_no_Panic) (simp add: rust_simps)
  show "parse_credentials status pid \<noteq> Panic"
    by (auto simp: parse_credentials_def rust_simps four)
  show "parse_namespace_pids status pid \<noteq> Panic"
    unfolding parse_namespace_pids_def Let_def
    by (intro rbind_no_Panic rcollect_no_Panic) (simp_all add: rust_simps)
  show "parse_cgroups text pid \<noteq> Panic"
    unfolding parse_cgroups_def by (rule rcollect_no_Panic) (auto simp: parse_cgroup_line_def Let_def rust_simps)
qed

lemma read_access:
  "read_link os pid e t = (Ok x, t') \<Longrightarrow> t' = Suc t" "read_text os pid e t = (Ok y, t') \<Longrightarrow> t' = Suc t"
  "read_bytes os pid e t = (Ok z, t') \<Longrightarrow> t' = Suc t"
  by (auto simp: read_link_def read_text_def read_bytes_def Let_def io_simps fs_read_to_string_def fs_defs)

lemma inspect_run_no_panic: "no_panic (inspect_run os pid)"
  unfolding inspect_run_def Let_def
  by (intro no_panic_intros no_panic_readers doctor_run_no_panic) (simp_all add: parsers_no_Panic)

lemma inspect_run_facts:
  assumes "inspect_run os pid t = (Ok report, t')"
  obtains maps caps where "pr_target report = \<lparr>ti_pid = pid, ti_process_start_time = ti_process_start_time (pr_target report)\<rparr>"
    "start_time_at os t pid = Some (ti_process_start_time (pr_target report))"
    "start_time_at os (t + 7) pid = Some (ti_process_start_time (pr_target report))"
    "pr_loaded_libraries report = parse_loaded_libraries maps"
    "pcu_xprobe_cupti_loaded (pr_cuda report) = contains_library (pr_loaded_libraries report) ''libxprobe-cupti.so''"
    "pcu_libcuda_loaded (pr_cuda report) = contains_library (pr_loaded_libraries report) ''libcuda.so''"
    "cap_cuda_activity (pr_capabilities report) = pcu_xprobe_cupti_loaded (pr_cuda report)"
    "cap_cuda_callback (pr_capabilities report) = pcu_xprobe_cupti_loaded (pr_cuda report)"
proof -
  from assms [unfolded inspect_run_def Let_def]
  obtain s0 s1 maps exe cl status mnt cg t1 t2 t3 t4 t5 t6 t7 t8 where r:
    "read_start_time os pid True t = (Ok s0, t1)" "read_link os pid ''exe'' t1 = (Ok exe, t2)"
    "read_bytes os pid ''cmdline'' t2 = (Ok cl, t3)" "read_text os pid ''status'' t3 = (Ok status, t4)"
    "read_link os pid ''ns/mnt'' t4 = (Ok mnt, t5)" "read_text os pid ''cgroup'' t5 = (Ok cg, t6)"
    "read_text os pid ''maps'' t6 = (Ok maps, t7)" "read_start_time os pid False t7 = (Ok s1, t8)" "s0 = s1" and
    p: "pr_target report = \<lparr>ti_pid = pid, ti_process_start_time = s0\<rparr>"
    "pr_loaded_libraries report = parse_loaded_libraries maps"
    "pcu_xprobe_cupti_loaded (pr_cuda report) = contains_library (parse_loaded_libraries maps) ''libxprobe-cupti.so''"
    "pcu_libcuda_loaded (pr_cuda report) = contains_library (parse_loaded_libraries maps) ''libcuda.so''"
    "cap_cuda_activity (pr_capabilities report) = contains_library (parse_loaded_libraries maps) ''libxprobe-cupti.so''"
    "cap_cuda_callback (pr_capabilities report) = contains_library (parse_loaded_libraries maps) ''libxprobe-cupti.so''"
    apply (elim io_bind_OkE io_guard_OkE)
    apply (simp only: io_lift_apply prod.inject rresult.inject)
    apply (elim conjE, hypsubst, rule that)
    apply assumption+
    apply simp_all
    done
  have "t7 = t + 7"
    using r by (auto simp: read_start_time_Ok_iff dest!: read_access)
  then show thesis
    using r p by (intro that [of maps]) (auto simp: read_start_time_Ok_iff)
qed

text \<open>C20: an inspection that succeeds has seen one process: the start time that procfs shows for the
  process id is the reported one at the first access and still at the last access to the process, so a
  process id that was reused in between is never reported. The loaded libraries are absolute paths of
  shared objects without duplicates, and CUDA collection is offered exactly when the agent library is
  among them. An inspection never panics.\<close>

theorem inspect_run_identity:
  "no_panic (inspect_run os pid) \<and>
   (\<forall>t report t'. inspect_run os pid t = (Ok report, t') \<longrightarrow>
      ti_pid (pr_target report) = pid \<and>
      start_time_at os t pid = Some (ti_process_start_time (pr_target report)) \<and>
      start_time_at os (t + 7) pid = Some (ti_process_start_time (pr_target report)) \<and>
      sorted (pr_loaded_libraries report) \<and> distinct (pr_loaded_libraries report) \<and>
      (\<forall>l \<in> set (pr_loaded_libraries report). starts_with l ''/'' \<and> contains l ''.so'') \<and>
      (cap_cuda_activity (pr_capabilities report) \<longleftrightarrow>
         contains_library (pr_loaded_libraries report) ''libxprobe-cupti.so''))"
proof (intro conjI allI impI)
  show "no_panic (inspect_run os pid)" by (rule inspect_run_no_panic)
  fix t report t'
  assume "inspect_run os pid t = (Ok report, t')"
  then obtain maps where f:
    "pr_target report = \<lparr>ti_pid = pid, ti_process_start_time = ti_process_start_time (pr_target report)\<rparr>"
    "start_time_at os t pid = Some (ti_process_start_time (pr_target report))"
    "start_time_at os (t + 7) pid = Some (ti_process_start_time (pr_target report))"
    "pr_loaded_libraries report = parse_loaded_libraries maps"
    "pcu_xprobe_cupti_loaded (pr_cuda report) = contains_library (pr_loaded_libraries report) ''libxprobe-cupti.so''"
    "cap_cuda_activity (pr_capabilities report) = pcu_xprobe_cupti_loaded (pr_cuda report)"
    by (rule inspect_run_facts)
  show "ti_pid (pr_target report) = pid" by (subst f(1)) simp
  show "start_time_at os t pid = Some (ti_process_start_time (pr_target report))"
    "start_time_at os (t + 7) pid = Some (ti_process_start_time (pr_target report))" by (fact f)+
  show "sorted (pr_loaded_libraries report)" "distinct (pr_loaded_libraries report)"
    "\<forall>l \<in> set (pr_loaded_libraries report). starts_with l ''/'' \<and> contains l ''.so''"
    by (simp_all add: f(4) parse_loaded_libraries_def)
  show "cap_cuda_activity (pr_capabilities report) \<longleftrightarrow>
      contains_library (pr_loaded_libraries report) ''libxprobe-cupti.so''" using f(5,6) by simp
qed

lemma parse_four_ids_Ok:
  assumes "parse_four_ids status field pid = Ok (a, b, c, d)"
  obtains body x xs where "status_field status field = Some body" "split_whitespace body = x # xs"
    "from_str_radix 10 x = Some a"
proof -
  from assms obtain body vs where v: "status_field status field = Some body"
    "rcollect (\<lambda>value. ok_or (from_str_radix 10 value)
       (IE_InvalidProc (proc_path pid ''status'') (''invalid '' @ field))) (split_whitespace body) = Ok vs"
    "vs = [a, b, c, d]"
    unfolding parse_four_ids_def Let_def
    by (elim rbind_OkE) (auto simp: rust_simps split: list.splits)
  then show thesis
    by (cases "split_whitespace body") (auto simp: rust_simps intro: that)
qed



lemma example_proc_path: "proc_path 42 entry = ''/proc/42/'' @ entry"
proof -
  have "render_nat 10 42 = ''42''" by code_simp
  then show ?thesis by (simp add: proc_path_def)
qed

lemma example_numbers:
  "from_str_radix 10 ''0'' = Some (0 :: u32)" "from_str_radix 10 ''1'' = Some (1 :: u32)"
  "from_str_radix 10 ''42'' = Some (42 :: u32)" "from_str_radix 10 ''7'' = Some (7 :: u64)"
  by (simp_all add: from_str_radix_def to_digit_def is_ascii_digit_def)

lemma example_status_more:
  "status_field example_status ''Gid:'' = Some '' 0 0 0 0''"
  "split_whitespace '' 0 0 0 0'' = [''0'', ''0'', ''0'', ''0'']"
  "status_field example_status ''NSpid:'' = Some '' 42''" "split_whitespace '' 42'' = [''42'']"
  "Option.bind (stat_fields example_stat) (\<lambda>fields. nth_opt fields 19) = Some ''7''"
  by code_simp+

lemma example_start_time: "start_time_at example_host t 42 = Some 7"
proof -
  have "from_utf8 (bytes_of_string example_stat) = Some example_stat"
    by (rule from_utf8_ascii) (simp add: example_stat_def)
  moreover have "parse_start_time example_stat p = Ok 7" for p
    using example_status_more(5)
    by (cases "stat_fields example_stat") (auto simp: parse_start_time_def ok_or_def example_numbers nth_opt_def
        split: if_splits)
  ultimately show ?thesis
    by (simp add: start_time_at_def example_proc_path example_host_def)
qed

lemma example_inspect: "\<exists>report t'. inspect_run example_host 42 t = (Ok report, t')"
proof -
  have start: "read_start_time example_host 42 b t = (Ok 7, Suc t)" for b t
    using example_start_time by (simp add: read_start_time_Ok_iff)
  have link: "read_link example_host 42 e t = (Ok ''link'', Suc t)" for e t
    by (simp add: read_link_def fs_read_link_def io_access_def io_bind_def io_map_err_def example_host_def
        from_utf8_ascii ok_or_def)
  have empty: "read_bytes example_host 42 ''cmdline'' t = (Ok [], Suc t)"
    "read_text example_host 42 ''cgroup'' t = (Ok [], Suc t)"
    "read_text example_host 42 ''maps'' t = (Ok [], Suc t)" for t
    by (simp_all add: read_bytes_def read_text_def fs_read_to_string_def fs_read_def io_access_def io_bind_def
        io_map_err_def example_proc_path example_host_def from_utf8_def string_of_bytes_def ok_or_def)
  have status: "read_text example_host 42 ''status'' t = (Ok example_status, Suc t)" for t
  proof -
    have "from_utf8 (bytes_of_string example_status) = Some example_status"
      by (rule from_utf8_ascii) (simp add: example_status_def newline_def)
    then show ?thesis
      by (simp add: read_text_def fs_read_to_string_def fs_read_def io_access_def io_bind_def
        io_map_err_def example_proc_path example_host_def ok_or_def)
  qed
  have parsed: "parse_command_line [] 42 = Ok []" "parse_cgroups [] 42 = Ok []"
    "\<exists>c. parse_credentials example_status 42 = Ok c" "\<exists>n. parse_namespace_pids example_status 42 = Ok n"
    by (simp_all add: parse_command_line_def parse_cgroups_def lines_def parse_credentials_def parse_four_ids_def
        parse_namespace_pids_def example_status_text example_status_more example_numbers ok_or_def)
  obtain doc d where doc: "doctor_run example_host t = (Ok (doc t), d t)" for t
    using example_host_doctor by metis
  show ?thesis
    using parsed by (auto simp: inspect_run_def io_bind_def io_map_err_def start link empty status Let_def doc)
qed

theorem inspect_run_identity_witness:
  "\<exists>report t'. inspect_run example_host 42 0 = (Ok report, t') \<and> ti_pid (pr_target report) = 42 \<and>
     start_time_at example_host 7 42 = Some (ti_process_start_time (pr_target report))"
proof -
  obtain report t' where run: "inspect_run example_host 42 0 = (Ok report, t')"
    using example_inspect by blast
  from inspect_run_identity [of example_host 42] run show ?thesis by fastforce
qed

section \<open>Guarded operations\<close>

text \<open>The contract of the operations that work on an inspected process: they verify the target before their
  first access and after their last one. Whatever they return was read from the process of the report.\<close>

locale target_guard =
  fixes target :: target_identity
    and operation :: "os \<Rightarrow> ('a, 'e) io"
  assumes opens: "operation os t = (Ok a, t') \<Longrightarrow> fst (verify_target os target t) = Ok ()"
    and closes: "operation os t = (Ok a, t') \<Longrightarrow> \<exists>t0. verify_target os target t0 = (Ok (), t')"
begin

lemma same_process:
  assumes "operation os t = (Ok a, t')"
  shows "start_time_at os t (ti_pid target) = Some (ti_process_start_time target)"
    "start_time_at os (t' - 1) (ti_pid target) = Some (ti_process_start_time target)"
proof -
  have "verify_target os target t = (Ok (), snd (verify_target os target t))"
    using opens [OF assms] by (metis prod.collapse)
  then show "start_time_at os t (ti_pid target) = Some (ti_process_start_time target)"
    by (simp add: verify_target_Ok_iff)
  from closes [OF assms] show "start_time_at os (t' - 1) (ti_pid target) = Some (ti_process_start_time target)"
    by (auto simp: verify_target_Ok_iff)
qed

lemma reused_never_succeeds:
  assumes "start_time_at os t (ti_pid target) \<noteq> Some (ti_process_start_time target)"
  shows "operation os t \<noteq> (Ok a, t')"
  using same_process(1) assms by blast

end

end
