(* ===== verification/Resolve.thy ===== *)
theory Resolve
  imports Inspect
begin

text \<open>
  Resolving a user space probe (\<open>xprobe/core/src/resolve.rs\<close>): the selector's binary, its mapping in the
  target, the symbol or file offset and the address at run time. Additions that could overflow are
  modelled as in a build with overflow checks: they panic.
\<close>

section \<open>Definitions\<close>

datatype resolve_error =
    RE_Inspect inspect_error
  | RE_InvalidSelector string
  | RE_BinaryNotMapped string u32
  | RE_SymbolNotFound string string
  | RE_AmbiguousSymbol string string
  | RE_OffsetNotLoadable u64 string
  | RE_AddressNotMapped u64 string
  | RE_Io string io_error
  | RE_InvalidMaps string string
  | RE_InvalidElf string string
  | RE_UnsupportedElf string

fun resolve_error_code :: "resolve_error \<Rightarrow> error_code" where
  "resolve_error_code (RE_Inspect e) = inspect_error_code e"
| "resolve_error_code (RE_InvalidSelector _) = EC_InvalidEventSelector"
| "resolve_error_code (RE_OffsetNotLoadable _ _) = EC_InvalidEventSelector"
| "resolve_error_code (RE_BinaryNotMapped _ _) = EC_BinaryNotMapped"
| "resolve_error_code (RE_AddressNotMapped _ _) = EC_BinaryNotMapped"
| "resolve_error_code (RE_SymbolNotFound _ _) = EC_SymbolNotFound"
| "resolve_error_code (RE_AmbiguousSymbol _ _) = EC_AmbiguousTarget"
| "resolve_error_code (RE_Io _ _) = EC_Internal"
| "resolve_error_code (RE_InvalidMaps _ _) = EC_Internal"
| "resolve_error_code (RE_InvalidElf _ _) = EC_Internal"
| "resolve_error_code (RE_UnsupportedElf _) = EC_Internal"

fun resolve_error_recoverable :: "resolve_error \<Rightarrow> bool" where
  "resolve_error_recoverable (RE_Inspect e) = inspect_error_recoverable e"
| "resolve_error_recoverable (RE_Io _ _) = False"
| "resolve_error_recoverable (RE_InvalidMaps _ _) = False"
| "resolve_error_recoverable (RE_InvalidElf _ _) = False"
| "resolve_error_recoverable (RE_UnsupportedElf _) = False"
| "resolve_error_recoverable _ = True"

datatype probe_boundary = PB_Entry | PB_Return

datatype probe_target = PT_Symbol string | PT_FileOffset u64

record probe_selector =
  ps_binary :: string
  ps_target :: probe_target
  ps_boundary :: probe_boundary

record map_region =
  mg_start :: u64
  mg_end :: u64
  mg_file_offset :: u64
  mg_path :: string

definition parse_probe_boundary :: "string \<Rightarrow> (probe_boundary, resolve_error) rresult" where
  "parse_probe_boundary boundary =
     (if boundary = ''entry'' then Ok PB_Entry
      else if boundary = ''return'' then Ok PB_Return
      else Err (RE_InvalidSelector ''probe boundary must be entry or return''))"

definition parse_probe_target :: "string \<Rightarrow> (probe_target, resolve_error) rresult" where
  "parse_probe_target target =
     (case strip_prefix ''+0x'' target of
        Some hex \<Rightarrow>
          rbind (ok_or (from_str_radix 16 hex) (RE_InvalidSelector ''offset must be hexadecimal after +0x''))
            (\<lambda>offset. Ok (PT_FileOffset offset))
      | None \<Rightarrow>
          (if starts_with target ''+'' then Err (RE_InvalidSelector ''offset must use +0x hexadecimal syntax'')
           else Ok (PT_Symbol target)))"

definition parse_probe_selector :: "string \<Rightarrow> (probe_selector, resolve_error) rresult" where
  "parse_probe_selector text =
     rbind (ok_or (strip_prefix ''uprobe:'' text) (RE_InvalidSelector ''expected uprobe: prefix'')) (\<lambda>rest.
     rbind (ok_or (rsplit_once (CHR '':'') rest) (RE_InvalidSelector ''expected :entry or :return suffix''))
       (\<lambda>(binary_and_target, boundary).
     rbind (parse_probe_boundary boundary) (\<lambda>boundary.
     rbind (case split_once '':symbol='' binary_and_target of
              Some parts \<Rightarrow> Ok parts
            | None \<Rightarrow> ok_or (rsplit_once (CHR '':'') binary_and_target)
                       (RE_InvalidSelector ''expected binary path and symbol or offset''))
       (\<lambda>(binary, target).
     if binary = [] \<or> target = []
     then Err (RE_InvalidSelector ''binary path and probe target must not be empty'')
     else rbind (parse_probe_target target) (\<lambda>target.
       Ok \<lparr>ps_binary = binary, ps_target = target, ps_boundary = boundary\<rparr>)))))"

definition parse_hex :: "string \<Rightarrow> string \<Rightarrow> string \<Rightarrow> (u64, resolve_error) rresult" where
  "parse_hex value path reason = ok_or (from_str_radix 16 value) (RE_InvalidMaps path reason)"

definition parse_map_region :: "string \<Rightarrow> string \<Rightarrow> (map_region, resolve_error) rresult" where
  "parse_map_region line path =
     (let fields = split_whitespace line; missing = (\<lambda>what. RE_InvalidMaps path what) in
      rbind (ok_or (nth_opt fields 0) (missing ''missing address range'')) (\<lambda>range.
      rbind (ok_or (nth_opt fields 1) (missing ''missing permissions'')) (\<lambda>_.
      rbind (ok_or (nth_opt fields 2) (missing ''missing file offset'')) (\<lambda>offset.
      rbind (ok_or (nth_opt fields 3) (missing ''missing device'')) (\<lambda>_.
      rbind (ok_or (nth_opt fields 4) (missing ''missing inode'')) (\<lambda>_.
      let mapped_path = join '' '' (drop 5 fields) in
      rbind (ok_or (split_once ''-'' range) (missing ''invalid address range'')) (\<lambda>(start, end).
      rbind (parse_hex start path ''invalid mapping start'') (\<lambda>start.
      rbind (parse_hex end path ''invalid mapping end'') (\<lambda>end.
      rbind (parse_hex offset path ''invalid mapping file offset'') (\<lambda>file_offset.
      if end \<le> start \<or> mapped_path = [] then Err (missing ''invalid file-backed mapping'')
      else Ok \<lparr>mg_start = start, mg_end = end, mg_file_offset = file_offset, mg_path = mapped_path\<rparr>))))))))))"

definition parse_maps :: "string \<Rightarrow> string \<Rightarrow> (map_region list, resolve_error) rresult" where
  "parse_maps text path =
     rcollect (\<lambda>line. parse_map_region line path)
       (filter (\<lambda>line. case nth_opt (split_whitespace line) 5 of
                         None \<Rightarrow> False | Some v \<Rightarrow> starts_with v ''/'') (lines text))"

definition map_path_matches :: "string \<Rightarrow> string \<Rightarrow> bool" where
  "map_path_matches mapped binary =
     path_eq (case strip_suffix '' (deleted)'' mapped of Some p \<Rightarrow> p | None \<Rightarrow> mapped) binary"

definition classify_object :: "elf_file \<Rightarrow> string \<Rightarrow> string \<Rightarrow> (elf_object_kind, resolve_error) rresult" where
  "classify_object file binary executable =
     (case elf_kind file of
        OK_Executable \<Rightarrow> Ok EO_Executable
      | OK_Dynamic \<Rightarrow>
          (if map_path_matches executable binary then Ok EO_PositionIndependentExecutable
           else Ok EO_SharedLibrary)
      | OK_Other \<Rightarrow> Err (RE_UnsupportedElf binary))"

record resolved_symbol =
  rs_mangled :: string
  rs_demangled :: "string option"
  rs_address :: u64
  rs_size :: u64

definition demangle_cpp :: "os \<Rightarrow> string \<Rightarrow> string option" where
  "demangle_cpp os name = (if \<not> starts_with name ''_Z'' then None else os_demangle os name)"

text \<open>Whether a symbol is a match, and the entry it makes or updates.\<close>

definition symbol_matches :: "os \<Rightarrow> string \<Rightarrow> bool \<Rightarrow> elf_symbol \<Rightarrow> bool" where
  "symbol_matches os name match_demangled symbol =
     (es_is_definition symbol \<and> es_is_text symbol \<and>
      (case es_name symbol of
         None \<Rightarrow> False
       | Some mangled \<Rightarrow>
           (if match_demangled then demangle_cpp os mangled = Some name else mangled = name)))"

definition symbol_entry :: "os \<Rightarrow> elf_symbol \<Rightarrow> resolved_symbol option \<Rightarrow> resolved_symbol" where
  "symbol_entry os symbol existing =
     (case existing of
        Some resolved \<Rightarrow> resolved\<lparr>rs_size := max (rs_size resolved) (es_size symbol)\<rparr>
      | None \<Rightarrow>
          (let mangled = (case es_name symbol of Some n \<Rightarrow> n | None \<Rightarrow> []) in
           \<lparr>rs_mangled = mangled, rs_demangled = demangle_cpp os mangled,
            rs_address = es_address symbol, rs_size = es_size symbol\<rparr>))"

definition collect_symbol_matches ::
  "os \<Rightarrow> elf_symbol list \<Rightarrow> string \<Rightarrow> bool \<Rightarrow> (u64, resolved_symbol) btree" where
  "collect_symbol_matches os symbols name match_demangled =
     foldl (\<lambda>matches symbol.
       if symbol_matches os name match_demangled symbol
       then bt_entry (es_address symbol) (symbol_entry os symbol) matches else matches) [] symbols"

definition select_symbol_match ::
  "(u64, resolved_symbol) btree \<Rightarrow> string \<Rightarrow> string \<Rightarrow> (resolved_symbol option, resolve_error) rresult" where
  "select_symbol_match matches name path =
     (case matches of
        [] \<Rightarrow> Ok None
      | [(_, resolved)] \<Rightarrow> Ok (Some resolved)
      | _ \<Rightarrow> Err (RE_AmbiguousSymbol name path))"

definition resolve_symbol :: "os \<Rightarrow> elf_file \<Rightarrow> string \<Rightarrow> string \<Rightarrow> (resolved_symbol, resolve_error) rresult" where
  "resolve_symbol os file name path =
     rbind (select_symbol_match
              (collect_symbol_matches os (elf_dynamic_symbols file @ elf_symbols file) name False) name path)
       (\<lambda>first. case first of
          Some resolved \<Rightarrow> Ok resolved
        | None \<Rightarrow>
     rbind (select_symbol_match (collect_symbol_matches os (elf_dynamic_symbols file) name True) name path)
       (\<lambda>second. case second of
          Some resolved \<Rightarrow> Ok resolved
        | None \<Rightarrow>
     rbind (select_symbol_match (collect_symbol_matches os (elf_symbols file) name True) name path)
       (\<lambda>third. ok_or third (RE_SymbolNotFound name path))))"

definition add_or_panic :: "u64 \<Rightarrow> u64 \<Rightarrow> (u64, 'e) rresult" where
  "add_or_panic a b = expect (checked_add a b)"

text \<open>\<open>find_map\<close> over the segments: the first one whose file part contains the address or the offset.\<close>

definition segment_of_address :: "elf_file \<Rightarrow> u64 \<Rightarrow> elf_segment option" where
  "segment_of_address file address =
     List.find (\<lambda>s. case checked_sub address (sg_address s) of
                      None \<Rightarrow> False | Some delta \<Rightarrow> delta < sg_file_size s) (elf_segments file)"

definition virtual_address_to_file_offset :: "elf_file \<Rightarrow> u64 \<Rightarrow> (u64 option, 'e) rresult" where
  "virtual_address_to_file_offset file address =
     (case segment_of_address file address of
        None \<Rightarrow> Ok None
      | Some s \<Rightarrow> rbind (add_or_panic (sg_file_offset s) (address - sg_address s)) (\<lambda>o'. Ok (Some o')))"

definition segment_of_offset :: "elf_file \<Rightarrow> u64 \<Rightarrow> elf_segment option" where
  "segment_of_offset file offset =
     List.find (\<lambda>s. case checked_sub offset (sg_file_offset s) of
                      None \<Rightarrow> False | Some delta \<Rightarrow> delta < sg_file_size s) (elf_segments file)"

definition file_offset_to_virtual_address :: "elf_file \<Rightarrow> u64 \<Rightarrow> (u64 option, 'e) rresult" where
  "file_offset_to_virtual_address file offset =
     (case segment_of_offset file offset of
        None \<Rightarrow> Ok None
      | Some s \<Rightarrow> rbind (add_or_panic (sg_address s) (offset - sg_file_offset s)) (\<lambda>a. Ok (Some a)))"

record resolved_probe_target =
  rt_symbol :: "string option"
  rt_demangled :: "string option"
  rt_virtual_address :: "u64 option"
  rt_size :: "u64 option"
  rt_file_offset :: u64

definition resolve_probe_target ::
  "os \<Rightarrow> elf_file \<Rightarrow> probe_target \<Rightarrow> string \<Rightarrow> (resolved_probe_target, resolve_error) rresult" where
  "resolve_probe_target os file target path =
     (case target of
        PT_Symbol name \<Rightarrow>
          rbind (resolve_symbol os file name path) (\<lambda>resolved.
          rbind (virtual_address_to_file_offset file (rs_address resolved)) (\<lambda>found.
          rbind (ok_or found (RE_OffsetNotLoadable (rs_address resolved) path)) (\<lambda>offset.
          Ok \<lparr>rt_symbol = Some (rs_mangled resolved), rt_demangled = rs_demangled resolved,
              rt_virtual_address = Some (rs_address resolved), rt_size = Some (rs_size resolved),
              rt_file_offset = offset\<rparr>)))
      | PT_FileOffset offset \<Rightarrow>
          rbind (file_offset_to_virtual_address file offset) (\<lambda>found.
          if found = None then Err (RE_OffsetNotLoadable offset path)
          else Ok \<lparr>rt_symbol = None, rt_demangled = None, rt_virtual_address = None, rt_size = None,
                   rt_file_offset = offset\<rparr>))"

definition region_contains_offset :: "map_region \<Rightarrow> u64 \<Rightarrow> bool" where
  "region_contains_offset region offset =
     (let len = mg_end region - mg_start region in
      mg_file_offset region \<le> offset \<and> offset - mg_file_offset region < len)"

definition hex_encode :: "bytes \<Rightarrow> string" where
  "hex_encode bs = concat (map (\<lambda>b. [digit_char (unat b div 16), digit_char (unat b mod 16)]) bs)"

definition sum_result :: "('e \<Rightarrow> 'f) \<Rightarrow> 'e + 'a \<Rightarrow> ('a, 'f) rresult" where
  "sum_result f r = (case r of Inl e \<Rightarrow> Err (f e) | Inr a \<Rightarrow> Ok a)"

definition resolve_run :: "os \<Rightarrow> process_report \<Rightarrow> string \<Rightarrow> (resolved_probe, resolve_error) io" where
  "resolve_run os report selector_text =
     io_bind (io_map_err RE_Inspect (verify_target os (pr_target report))) (\<lambda>_.
     io_bind (io_lift (parse_probe_selector selector_text)) (\<lambda>selector.
     io_bind (io_map_err (RE_Io (ps_binary selector)) (fs_canonicalize os (ps_binary selector))) (\<lambda>binary.
     let maps_path = proc_path (ti_pid (pr_target report)) ''maps'' in
     io_bind (io_map_err (RE_Io maps_path) (fs_read_to_string os maps_path)) (\<lambda>maps_text.
     io_bind (io_lift (parse_maps maps_text maps_path)) (\<lambda>maps.
     let binary_maps = filter (\<lambda>region. map_path_matches (mg_path region) binary) maps in
     if binary_maps = [] then io_err (RE_BinaryNotMapped binary (ti_pid (pr_target report)))
     else
     io_bind (io_map_err (RE_Io binary) (fs_read os binary)) (\<lambda>bs.
     io_bind (io_lift (sum_result (RE_InvalidElf binary) (os_parse_elf os bs))) (\<lambda>file.
     io_bind (io_lift (classify_object file binary (pr_executable report))) (\<lambda>object_kind.
     io_bind (io_lift (sum_result (RE_InvalidElf binary) (elf_build_id file))) (\<lambda>build_id.
     io_bind (io_lift (resolve_probe_target os file (ps_target selector) binary)) (\<lambda>resolved.
     io_bind (io_lift (ok_or (List.find (\<lambda>region. region_contains_offset region (rt_file_offset resolved)) binary_maps)
                (RE_AddressNotMapped (rt_file_offset resolved) binary))) (\<lambda>map.
     io_bind (io_lift (add_or_panic (mg_start map) (rt_file_offset resolved - mg_file_offset map))) (\<lambda>runtime_address.
     io_bind (io_map_err RE_Inspect (verify_target os (pr_target report))) (\<lambda>_.
     io_ok \<lparr>rp_schema_version = schema_current, rp_ok = True, rp_target = pr_target report,
            rp_selector = selector_text, rp_binary_path = binary,
            rp_build_id = map_option hex_encode build_id, rp_object_kind = object_kind,
            rp_probe_kind = (case ps_boundary selector of PB_Entry \<Rightarrow> HP_Uprobe | PB_Return \<Rightarrow> HP_Uretprobe),
            rp_symbol = rt_symbol resolved, rp_symbol_demangled = rt_demangled resolved,
            rp_symbol_virtual_address = rt_virtual_address resolved, rp_symbol_size = rt_size resolved,
            rp_file_offset = rt_file_offset resolved, rp_runtime_address = runtime_address,
            rp_mapping = \<lparr>pm_start_address = mg_start map, pm_end_address = mg_end map,
                          pm_file_offset = mg_file_offset map\<rparr>\<rparr>)))))))))))))"

section \<open>Selectors\<close>

lemma split_once_absent_head:
  assumes "hd pat \<notin> set a" "pat \<noteq> []"
  shows "split_once pat (a @ pat @ b) = Some (a, b)"
  using assms
proof (induction a)
  case Nil
  then obtain p ps where p: "pat = p # ps" by (cases pat) auto
  have s: "strip_prefix (p # ps) (p # ps @ b) = Some b" by simp
  show ?case unfolding p append_Nil append_Cons split_once.simps s by simp
next
  case (Cons c a)
  then obtain p ps where p: "pat = p # ps" by (cases pat) auto
  have "strip_prefix pat (c # a @ pat @ b) = None"
    using Cons.prems by (auto simp: p strip_prefix_None_iff starts_with_iff)
  with Cons show ?case by simp
qed

lemma split_once_head_absent:
  assumes "hd pat \<notin> set s" "pat \<noteq> []"
  shows "split_once pat s = None"
  using assms
proof (induction s)
  case (Cons c s)
  then obtain p ps where p: "pat = p # ps" by (cases pat) auto
  have "strip_prefix pat (c # s) = None"
    using Cons.prems by (auto simp: p strip_prefix_None_iff starts_with_iff)
  with Cons show ?case by simp
qed simp

definition boundary_text :: "probe_boundary \<Rightarrow> string" where
  "boundary_text b = (case b of PB_Entry \<Rightarrow> ''entry'' | PB_Return \<Rightarrow> ''return'')"

lemma parse_boundary_text: "parse_probe_boundary (boundary_text b) = Ok b"
  by (cases b) (simp_all add: boundary_text_def parse_probe_boundary_def)

lemma colon_free: "CHR '':'' \<notin> set (boundary_text b)"
  by (cases b) (simp_all add: boundary_text_def)

lemma render_nat_digits: "2 \<le> radix \<Longrightarrow> c \<in> set (render_nat radix n) \<Longrightarrow> \<exists>d < radix. c = digit_char d"
proof (induction radix n rule: render_nat.induct)
  case (1 radix n)
  show ?case
  proof (cases "n < radix \<or> radix < 2")
    case True
    then have "c = digit_char n" "n < radix" using 1(2,3) by (auto simp: render_nat.simps [of radix n])
    then show ?thesis by blast
  next
    case False
    then have "c \<in> set (render_nat radix (n div radix)) \<or> c = digit_char (n mod radix)"
      using 1(3) by (auto simp: render_nat.simps [of radix n])
    moreover have "n mod radix < radix" using 1(2) by simp
    ultimately show ?thesis using 1(1) [OF False 1(2)] by blast
  qed
qed

lemma digit_char_not_colon: "d < 16 \<Longrightarrow> digit_char d \<noteq> CHR '':''"
  using to_digit_digit_char [of d 16]
  by (auto simp: to_digit_def is_ascii_digit_def less_eq_char_def)

lemma rsplit_colon: "CHR '':'' \<notin> set c \<Longrightarrow> rsplit_once (CHR '':'') (a @ CHR '':'' # c) = Some (a, c)"
  by simp

lemma hex_no_colon: "CHR '':'' \<notin> set (render_nat 16 n)"
  using render_nat_digits [of 16 _ n] digit_char_not_colon by fastforce

lemma offset_not_symbol:
  assumes "CHR '':'' \<notin> set binary"
  shows "split_once '':symbol='' (binary @ '':+0x'' @ render_nat 16 n) = None"
proof (cases "split_once '':symbol='' (binary @ '':+0x'' @ render_nat 16 n)")
  case (Some p)
  have none: "filter (\<lambda>c. c = CHR '':'') s = []" if "CHR '':'' \<notin> set s" for s
    using that by (induction s) auto
  from Some obtain x y where "binary @ CHR '':'' # ''+0x'' @ render_nat 16 n = x @ CHR '':'' # ''symbol='' @ y"
    by (cases p) (auto dest: split_once_SomeD)
  then have eq: "binary @ CHR '':'' # ''+0x'' @ render_nat 16 n = x @ CHR '':'' # ''symbol='' @ y"
    by simp
  have "filter (\<lambda>c. c = CHR '':'') (binary @ CHR '':'' # ''+0x'' @ render_nat 16 n) = [CHR '':'']"
    using none [OF assms] none [OF hex_no_colon [of n]] by simp
  then have "CHR '':'' \<notin> set x"
    unfolding eq by (auto simp: append_eq_Cons_conv filter_empty_conv)
  then show ?thesis using append_sep_unique [OF eq assms] by simp
qed

lemma parse_offset_selector:
  assumes "binary \<noteq> []" "CHR '':'' \<notin> set binary"
  shows "parse_probe_selector (''uprobe:'' @ binary @ '':+0x'' @ render_nat 16 (unat offset) @ '':'' @ boundary_text b) =
    Ok \<lparr>ps_binary = binary, ps_target = PT_FileOffset offset, ps_boundary = b\<rparr>"
proof -
  have "rsplit_once (CHR '':'') (binary @ '':+0x'' @ render_nat 16 (unat offset)) =
      Some (binary, ''+0x'' @ render_nat 16 (unat offset))"
    using rsplit_colon [of "''+0x'' @ render_nat 16 (unat offset)" binary] hex_no_colon by simp
  moreover have "parse_probe_target (''+0x'' @ render_nat 16 (unat offset)) = Ok (PT_FileOffset offset)"
    unfolding parse_probe_target_def strip_prefix_append option.case
    by (simp add: from_str_radix_render ok_or_def)
  ultimately have "parse_probe_selector (''uprobe:'' @ (binary @ '':+0x'' @ render_nat 16 (unat offset)) @
      CHR '':'' # boundary_text b) = Ok \<lparr>ps_binary = binary, ps_target = PT_FileOffset offset, ps_boundary = b\<rparr>"
    unfolding parse_probe_selector_def strip_prefix_append rsplit_colon [OF colon_free] ok_or_def option.case rbind.simps
      prod.case parse_boundary_text
    using assms offset_not_symbol by (simp del: rsplit_once_Some_iff)
  then show ?thesis by simp
qed

lemma parse_symbol_selector:
  assumes "binary \<noteq> []" "CHR '':'' \<notin> set binary" "symbol \<noteq> []" "hd symbol \<noteq> CHR ''+''"
  shows "parse_probe_selector (''uprobe:'' @ binary @ '':symbol='' @ symbol @ '':'' @ boundary_text b) =
    Ok \<lparr>ps_binary = binary, ps_target = PT_Symbol symbol, ps_boundary = b\<rparr>"
proof -
  have "split_once '':symbol='' (binary @ '':symbol='' @ symbol) = Some (binary, symbol)"
    using assms by (intro split_once_absent_head) simp_all
  moreover have "parse_probe_target symbol = Ok (PT_Symbol symbol)"
    using assms by (cases symbol) (simp_all add: parse_probe_target_def starts_with_def)
  ultimately have "parse_probe_selector (''uprobe:'' @ (binary @ '':symbol='' @ symbol) @ CHR '':'' # boundary_text b) =
      Ok \<lparr>ps_binary = binary, ps_target = PT_Symbol symbol, ps_boundary = b\<rparr>"
    unfolding parse_probe_selector_def strip_prefix_append rsplit_colon [OF colon_free] ok_or_def option.case rbind.simps
      prod.case parse_boundary_text
    using assms by simp
  then show ?thesis by simp
qed

text \<open>C22: probe selectors can be written and read back: a selector with a file offset, rendered in
  hexadecimal, and one with a symbol, which may contain colons, parse to the binary, the target and the
  boundary they were made from, for every binary path without a colon.\<close>

theorem probe_selector_round_trip:
  assumes "binary \<noteq> []" "CHR '':'' \<notin> set binary"
  shows "parse_probe_selector (''uprobe:'' @ binary @ '':+0x'' @ render_nat 16 (unat offset) @ '':'' @ boundary_text b) =
           Ok \<lparr>ps_binary = binary, ps_target = PT_FileOffset offset, ps_boundary = b\<rparr> \<and>
         (symbol \<noteq> [] \<and> hd symbol \<noteq> CHR ''+'' \<longrightarrow>
            parse_probe_selector (''uprobe:'' @ binary @ '':symbol='' @ symbol @ '':'' @ boundary_text b) =
              Ok \<lparr>ps_binary = binary, ps_target = PT_Symbol symbol, ps_boundary = b\<rparr>)"
  using parse_offset_selector [OF assms] parse_symbol_selector [OF assms] by simp

theorem probe_selector_round_trip_witness:
  "parse_probe_selector (''uprobe:'' @ ''/b'' @ '':symbol='' @ ''ns::f'' @ '':'' @ boundary_text PB_Entry) =
     Ok \<lparr>ps_binary = ''/b'', ps_target = PT_Symbol ''ns::f'', ps_boundary = PB_Entry\<rparr>"
  using probe_selector_round_trip [of "''/b''" 16 PB_Entry "''ns::f''"] by simp

section \<open>Addresses\<close>

lemma checked_add_ok: "unat a + unat b < 2 ^ 64 \<Longrightarrow> checked_add a b = Some (a + b)" for a b :: u64
  by (simp add: checked_add_def)

text \<open>A segment whose file range and address range do not wrap around.\<close>

definition segment_ok :: "elf_segment \<Rightarrow> bool" where
  "segment_ok s \<longleftrightarrow> unat (sg_file_offset s) + unat (sg_file_size s) \<le> 2 ^ 64 \<and>
     unat (sg_address s) + unat (sg_file_size s) \<le> 2 ^ 64"

lemma segment_of_address_Some:
  assumes "segment_of_address file a = Some s"
  shows "s \<in> set (elf_segments file)" "sg_address s \<le> a" "a - sg_address s < sg_file_size s"
  using assms unfolding segment_of_address_def
  by (auto simp: find_Some_iff split: option.splits)

lemma segment_of_offset_Some:
  assumes "segment_of_offset file off = Some s"
  shows "s \<in> set (elf_segments file)" "sg_file_offset s \<le> off" "off - sg_file_offset s < sg_file_size s"
  using assms unfolding segment_of_offset_def
  by (auto simp: find_Some_iff split: option.splits)

lemma virtual_address_to_file_offset_no_Panic:
  assumes "list_all segment_ok (elf_segments file)"
  shows "virtual_address_to_file_offset file a \<noteq> Panic"
proof (cases "segment_of_address file a")
  case (Some s)
  note S = segment_of_address_Some [OF Some]
  then have "segment_ok s" using assms by (simp add: list_all_iff)
  then have "unat (sg_file_offset s) + unat (a - sg_address s) < 2 ^ 64"
    using S(3) by (simp add: segment_ok_def word_less_nat_alt)
  then show ?thesis
    by (simp add: virtual_address_to_file_offset_def Some add_or_panic_def expect_def checked_add_ok)
qed (simp add: virtual_address_to_file_offset_def)

lemma file_offset_to_virtual_address_no_Panic:
  assumes "list_all segment_ok (elf_segments file)"
  shows "file_offset_to_virtual_address file off \<noteq> Panic"
proof (cases "segment_of_offset file off")
  case (Some s)
  note S = segment_of_offset_Some [OF Some]
  then have "segment_ok s" using assms by (simp add: list_all_iff)
  then have "unat (sg_address s) + unat (off - sg_file_offset s) < 2 ^ 64"
    using S(3) by (simp add: segment_ok_def word_less_nat_alt)
  then show ?thesis
    by (simp add: file_offset_to_virtual_address_def Some add_or_panic_def expect_def checked_add_ok)
qed (simp add: file_offset_to_virtual_address_def)

lemma parse_map_region_order: "parse_map_region line path = Ok r \<Longrightarrow> mg_start r < mg_end r"
  by (auto simp: parse_map_region_def Let_def rust_simps not_le split: if_splits)

lemma parse_maps_order: "parse_maps text path = Ok rs \<Longrightarrow> r \<in> set rs \<Longrightarrow> mg_start r < mg_end r"
  unfolding parse_maps_def
  by (auto simp: rcollect_Ok_iff in_set_conv_nth list_all2_conv_all_nth dest!: parse_map_region_order)

lemma runtime_address_in_region:
  assumes "mg_start r < mg_end r" "region_contains_offset r off"
  shows "add_or_panic (mg_start r) (off - mg_file_offset r) = Ok (mg_start r + (off - mg_file_offset r))"
    "mg_start r \<le> mg_start r + (off - mg_file_offset r)"
    "mg_start r + (off - mg_file_offset r) < mg_end r"
    "unat (mg_start r + (off - mg_file_offset r)) - unat (mg_start r) = unat off - unat (mg_file_offset r)"
    "mg_file_offset r \<le> off"
proof -
  let ?d = "off - mg_file_offset r"
  have le: "mg_file_offset r \<le> off" and lt: "?d < mg_end r - mg_start r"
    using assms(2) by (auto simp: region_contains_offset_def Let_def)
  have ud: "unat ?d = unat off - unat (mg_file_offset r)" using le by (rule unat_sub_le)
  have "unat ?d < unat (mg_end r) - unat (mg_start r)"
    using lt assms(1) by (simp add: word_less_nat_alt unat_sub_le less_imp_le)
  then have sum: "unat (mg_start r) + unat ?d < unat (mg_end r)" by simp
  then have b: "unat (mg_start r) + unat ?d < 2 ^ 64" using unat_bound [of "mg_end r"] by simp
  then have u: "unat (mg_start r + ?d) = unat (mg_start r) + unat ?d" by (simp add: unat_word_ariths)
  show "add_or_panic (mg_start r) ?d = Ok (mg_start r + ?d)"
    using b by (simp add: add_or_panic_def expect_def checked_add_ok)
  show "mg_start r \<le> mg_start r + ?d" "mg_start r + ?d < mg_end r"
    using sum u by (simp_all add: word_le_nat_alt word_less_nat_alt)
  show "unat (mg_start r + ?d) - unat (mg_start r) = unat off - unat (mg_file_offset r)"
    using u ud by simp
  show "mg_file_offset r \<le> off" by (fact le)
qed

section \<open>Symbols\<close>

definition matching :: "os \<Rightarrow> string \<Rightarrow> bool \<Rightarrow> elf_symbol list \<Rightarrow> elf_symbol list" where
  "matching os name demangled symbols = filter (symbol_matches os name demangled) symbols"

text \<open>The collected entries: one per address, with the largest size of the symbols there.\<close>

lemma collect_symbol_matches_facts:
  "bt_inv (collect_symbol_matches os symbols name d) \<and>
   (\<forall>a. bt_get (collect_symbol_matches os symbols name d) a =
      (let ms = filter (\<lambda>s. es_address s = a) (matching os name d symbols) in
       if ms = [] then None
       else Some ((symbol_entry os (hd ms) None)\<lparr>rs_size := fold max (map es_size ms) 0\<rparr>)))"
  (is "?inv symbols \<and> ?get symbols")
proof (induction symbols rule: rev_induct)
  case Nil
  then show ?case by (simp add: collect_symbol_matches_def matching_def bt_inv_def bt_get_def)
next
  case (snoc s symbols)
  let ?m = "collect_symbol_matches os symbols name d"
  show ?case
  proof (cases "symbol_matches os name d s")
    case False
    then have "collect_symbol_matches os (symbols @ [s]) name d = ?m"
      "matching os name d (symbols @ [s]) = matching os name d symbols"
      by (simp_all add: collect_symbol_matches_def matching_def)
    with snoc show ?thesis by simp
  next
    case True
    then have m: "collect_symbol_matches os (symbols @ [s]) name d =
        bt_entry (es_address s) (symbol_entry os s) ?m"
      "matching os name d (symbols @ [s]) = matching os name d symbols @ [s]"
      by (simp_all add: collect_symbol_matches_def matching_def)
    have inv: "bt_inv ?m" and get: "\<And>a. bt_get ?m a =
      (let ms = filter (\<lambda>s. es_address s = a) (matching os name d symbols) in
       if ms = [] then None
       else Some ((symbol_entry os (hd ms) None)\<lparr>rs_size := fold max (map es_size ms) 0\<rparr>))"
      using snoc by auto
    show ?thesis
      using inv get by (auto simp: m Let_def symbol_entry_def max.commute split: option.splits)
  qed
qed

lemma select_symbol_match_spec:
  assumes "select_symbol_match (collect_symbol_matches os symbols name d) name path = Ok x"
  shows "x = None \<longleftrightarrow> matching os name d symbols = []"
    "\<And>r. x = Some r \<Longrightarrow> (\<forall>s \<in> set (matching os name d symbols). es_address s = rs_address r \<and> es_size s \<le> rs_size r) \<and>
       matching os name d symbols \<noteq> []"
proof -
  let ?m = "collect_symbol_matches os symbols name d"
  note F = collect_symbol_matches_facts [of os symbols name d]
  have get: "bt_get ?m a =
      (let ms = filter (\<lambda>s. es_address s = a) (matching os name d symbols) in
       if ms = [] then None
       else Some ((symbol_entry os (hd ms) None)\<lparr>rs_size := fold max (map es_size ms) 0\<rparr>))" for a
    using F by blast
  have present: "bt_get ?m (es_address s) \<noteq> None" if "s \<in> set (matching os name d symbols)" for s
    using that by (auto simp: get Let_def filter_empty_conv)
  show "x = None \<longleftrightarrow> matching os name d symbols = []"
  proof
    assume "x = None"
    then have "?m = []" using assms by (auto simp: select_symbol_match_def split: list.splits)
    then show "matching os name d symbols = []"
      using present by (cases "matching os name d symbols") (auto simp: bt_get_def)
  next
    assume none: "matching os name d symbols = []"
    have "?m = []"
    proof (cases ?m)
      case (Cons p ps)
      then have "bt_get ?m (fst p) \<noteq> None" by (cases p) (simp add: bt_get_def)
      then show ?thesis by (simp add: get none)
    qed simp
    then show "x = None" using assms by (simp add: select_symbol_match_def)
  qed
  fix r assume r: "x = Some r"
  then obtain a where m: "?m = [(a, r)]"
    using assms by (auto simp: select_symbol_match_def split: list.splits)
  let ?ms = "filter (\<lambda>s. es_address s = a) (matching os name d symbols)"
  have "bt_get ?m a = Some r" by (simp add: m bt_get_def)
  then have ms: "?ms \<noteq> []" "r = (symbol_entry os (hd ?ms) None)\<lparr>rs_size := fold max (map es_size ?ms) 0\<rparr>"
    by (auto simp: get Let_def split: if_splits)
  have addr: "es_address s = a" if "s \<in> set (matching os name d symbols)" for s
    using present [OF that] by (auto simp: m bt_get_def split: if_splits)
  have "es_address (hd ?ms) = a" using ms(1) hd_in_set [of ?ms] by auto
  then have ra: "rs_address r = a" using ms(2) by (simp add: symbol_entry_def Let_def)
  have mx: "y \<le> fold max ys z" if "y \<in> set ys" for y z :: u64 and ys
    using Max_ge [of "set (z # ys)" y] that unfolding Max.set_eq_fold by simp
  have "es_size s \<le> rs_size r" if "s \<in> set (matching os name d symbols)" for s
  proof -
    have "s \<in> set ?ms" using that addr by simp
    then show ?thesis using mx [of "es_size s" "map es_size ?ms" 0] by (simp add: ms(2))
  qed
  then show "(\<forall>s \<in> set (matching os name d symbols). es_address s = rs_address r \<and> es_size s \<le> rs_size r) \<and>
       matching os name d symbols \<noteq> []"
    using addr ra ms(1) by (auto simp: filter_empty_conv)
qed

text \<open>C23: a symbol resolves only when its address is unambiguous. The result is the common address of
  all text definitions that match exactly, in both symbol tables; without any exact match, of all whose
  demangled name matches, in the dynamic table first and then in the full one. Its size is at least
  that of every such definition.\<close>

theorem resolve_symbol_unambiguous:
  assumes "resolve_symbol os file name path = Ok r"
  shows "\<exists>ms. ms \<noteq> [] \<and> (\<forall>s \<in> set ms. es_address s = rs_address r \<and> es_size s \<le> rs_size r) \<and>
    (let exact = matching os name False (elf_dynamic_symbols file @ elf_symbols file);
         dynamic = matching os name True (elf_dynamic_symbols file);
         full = matching os name True (elf_symbols file) in
     ms = (if exact \<noteq> [] then exact else if dynamic \<noteq> [] then dynamic else full))"
proof -
  let ?c = "\<lambda>symbols d. select_symbol_match (collect_symbol_matches os symbols name d) name path"
  let ?e = "elf_dynamic_symbols file @ elf_symbols file"
  let ?d = "elf_dynamic_symbols file" and ?f = "elf_symbols file"
  have ok: "\<exists>x. ?c ?e False = Ok x"
    using assms by (auto simp: resolve_symbol_def rust_simps)
  then obtain x where x: "?c ?e False = Ok x" by blast
  show ?thesis
  proof (cases x)
    case (Some r')
    then have "r' = r" using assms x by (simp add: resolve_symbol_def)
    with select_symbol_match_spec [OF x] Some show ?thesis by (auto simp: Let_def)
  next
    case None
    then obtain y where y: "?c ?d True = Ok y"
      using assms x by (auto simp: resolve_symbol_def rust_simps)
    have exact: "matching os name False ?e = []" using select_symbol_match_spec(1) [OF x] None by simp
    show ?thesis
    proof (cases y)
      case (Some r')
      then have "r' = r" using assms x y None by (simp add: resolve_symbol_def)
      with select_symbol_match_spec [OF y] Some exact show ?thesis by (auto simp: Let_def)
    next
      case None': None
      then obtain z where z: "?c ?f True = Ok z" "z = Some r"
        using assms x y None by (auto simp: resolve_symbol_def rust_simps)
      have "matching os name True ?d = []" using select_symbol_match_spec(1) [OF y] None' by simp
      with select_symbol_match_spec [OF z(1)] z(2) exact show ?thesis by (auto simp: Let_def)
    qed
  qed
qed

definition example_symbol :: elf_symbol where
  "example_symbol = \<lparr>es_is_definition = True, es_is_text = True, es_name = Some ''f'', es_address = 16, es_size = 4\<rparr>"

definition example_elf :: elf_file where
  "example_elf =
     \<lparr>elf_kind = OK_Dynamic, elf_build_id = Inr None, elf_dynamic_symbols = [], elf_symbols = [example_symbol],
      elf_segments = [\<lparr>sg_address = 0, sg_file_offset = 0, sg_file_size = 64\<rparr>],
      elf_section = \<lambda>name. None, elf_little_endian = True, elf_is_64 = True\<rparr>"

theorem resolve_symbol_unambiguous_witness:
  "\<exists>ms. ms \<noteq> [] \<and> (\<forall>s \<in> set ms. es_address s = 16 \<and> es_size s \<le> 4) \<and>
    (let exact = matching example_os ''f'' False (elf_dynamic_symbols example_elf @ elf_symbols example_elf);
         dynamic = matching example_os ''f'' True (elf_dynamic_symbols example_elf);
         full = matching example_os ''f'' True (elf_symbols example_elf) in
     ms = (if exact \<noteq> [] then exact else if dynamic \<noteq> [] then dynamic else full))"
proof -
  have r: "resolve_symbol example_os example_elf ''f'' ''/b'' =
      Ok \<lparr>rs_mangled = ''f'', rs_demangled = None, rs_address = 16, rs_size = 4\<rparr>"
    by (simp add: resolve_symbol_def example_elf_def example_symbol_def collect_symbol_matches_def
        symbol_matches_def symbol_entry_def select_symbol_match_def demangle_cpp_def starts_with_def)
  show ?thesis
    using resolve_symbol_unambiguous [OF r] unfolding resolved_symbol.select_convs .
qed

section \<open>Runs\<close>

lemma select_symbol_match_no_Panic: "select_symbol_match m name path \<noteq> Panic"
  by (auto simp: select_symbol_match_def split: list.splits)

lemma resolve_symbol_no_Panic: "resolve_symbol os file name path \<noteq> Panic"
  unfolding resolve_symbol_def
  by (intro rbind_no_Panic select_symbol_match_no_Panic)
    (auto simp: rust_simps split: option.splits intro!: rbind_no_Panic select_symbol_match_no_Panic)

lemma resolve_parsers_no_Panic:
  "parse_probe_selector text \<noteq> Panic" "parse_maps text path \<noteq> Panic" "classify_object file b e \<noteq> Panic"
  "sum_result g x \<noteq> Panic"
proof -
  have "parse_map_region line path \<noteq> Panic" for line
    by (auto simp: parse_map_region_def parse_hex_def Let_def rust_simps)
  then show "parse_maps text path \<noteq> Panic"
    unfolding parse_maps_def by (rule rcollect_no_Panic)
  show "parse_probe_selector text \<noteq> Panic"
    unfolding parse_probe_selector_def case_prod_beta
    by (intro rbind_no_Panic if_no_Panic)
      (auto simp: rust_simps parse_probe_boundary_def parse_probe_target_def split: option.splits)
  show "classify_object file b e \<noteq> Panic" "sum_result g x \<noteq> Panic"
    by (auto simp: classify_object_def sum_result_def split: object_kind.splits sum.splits)
qed

lemma resolve_probe_target_no_Panic:
  assumes "list_all segment_ok (elf_segments file)"
  shows "resolve_probe_target os file target path \<noteq> Panic"
  using assms
  by (auto simp: resolve_probe_target_def rust_simps resolve_symbol_no_Panic
      virtual_address_to_file_offset_no_Panic file_offset_to_virtual_address_no_Panic split: probe_target.splits)

lemma resolve_run_facts:
  assumes "resolve_run os report sel t = (Ok p, t')"
  obtains selector maps_text maps region binary where
    "fst (verify_target os (pr_target report) t) = Ok ()"
    "\<exists>t0. verify_target os (pr_target report) t0 = (Ok (), t')"
    "parse_probe_selector sel = Ok selector"
    "parse_maps maps_text (proc_path (ti_pid (pr_target report)) ''maps'') = Ok maps"
    "region \<in> set maps" "map_path_matches (mg_path region) binary" "rp_binary_path p = binary"
    "region_contains_offset region (rp_file_offset p)"
    "rp_runtime_address p = mg_start region + (rp_file_offset p - mg_file_offset region)"
    "rp_mapping p = \<lparr>pm_start_address = mg_start region, pm_end_address = mg_end region,
                     pm_file_offset = mg_file_offset region\<rparr>"
    "rp_probe_kind p = (case ps_boundary selector of PB_Entry \<Rightarrow> HP_Uprobe | PB_Return \<Rightarrow> HP_Uretprobe)"
    "\<And>off. ps_target selector = PT_FileOffset off \<Longrightarrow> rp_file_offset p = off"
    "rp_target p = pr_target report"
proof -
  from assms [unfolded resolve_run_def Let_def]
  obtain u1 u2 :: unit and t1 selector binary t2 maps_text t3 maps bs t4 elf kind bid resolved region addr t5 t6 where
    v: "io_map_err RE_Inspect (verify_target os (pr_target report)) t = (Ok u1, t1)"
    and sel: "parse_probe_selector sel = Ok selector"
    and maps: "parse_maps maps_text (proc_path (ti_pid (pr_target report)) ''maps'') = Ok maps"
    and res: "resolve_probe_target os elf (ps_target selector) binary = Ok resolved"
    and reg: "ok_or (List.find (\<lambda>region. region_contains_offset region (rt_file_offset resolved))
        (filter (\<lambda>region. map_path_matches (mg_path region) binary) maps))
        (RE_AddressNotMapped (rt_file_offset resolved) binary) = Ok region"
    and addr: "add_or_panic (mg_start region) (rt_file_offset resolved - mg_file_offset region) =
        (Ok addr :: (u64, resolve_error) rresult)"
    and v': "io_map_err RE_Inspect (verify_target os (pr_target report)) t5 = (Ok u2, t')"
    and p: "rp_binary_path p = binary" "rp_file_offset p = rt_file_offset resolved" "rp_runtime_address p = addr"
      "rp_mapping p = \<lparr>pm_start_address = mg_start region, pm_end_address = mg_end region,
                     pm_file_offset = mg_file_offset region\<rparr>"
      "rp_probe_kind p = (case ps_boundary selector of PB_Entry \<Rightarrow> HP_Uprobe | PB_Return \<Rightarrow> HP_Uretprobe)"
      "rp_target p = pr_target report"
    apply (elim io_bind_OkE io_guard_OkE)
    apply (simp only: io_lift_apply prod.inject rresult.inject)
    apply (elim conjE, hypsubst, rule that)
    apply assumption+
    apply simp_all
    done
  from reg have region: "region \<in> set maps" "map_path_matches (mg_path region) binary"
    "region_contains_offset region (rt_file_offset resolved)"
    by (auto simp: rust_simps find_Some_iff dest!: nth_mem)
  have "addr = mg_start region + (rt_file_offset resolved - mg_file_offset region)"
    using addr by (auto simp: add_or_panic_def rust_simps checked_add_def split: if_splits)
  moreover have "rt_file_offset resolved = off" if "ps_target selector = PT_FileOffset off" for off
    using res that by (auto simp: resolve_probe_target_def rust_simps split: if_splits)
  ultimately show thesis
    using v v' sel maps region p by (intro that [of selector maps_text maps region binary]) (auto simp: io_simps)
qed

lemma no_panic_bind': "no_panic m \<Longrightarrow> (\<And>a t t'. m t = (Ok a, t') \<Longrightarrow> no_panic (f a)) \<Longrightarrow> no_panic (io_bind m f)"
  by (fastforce simp: no_panic_def io_simps)

lemma resolve_run_no_panic:
  assumes elf: "\<And>bs elf. os_parse_elf os bs = Inr elf \<Longrightarrow> list_all segment_ok (elf_segments elf)"
  shows "no_panic (resolve_run os report sel)"
proof -
  have addr: "add_or_panic (mg_start region) (off - mg_file_offset region) \<noteq> (Panic :: (u64, resolve_error) rresult)"
    if "parse_maps body path = Ok maps" "List.find (\<lambda>r. region_contains_offset r off) (filter P maps) = Some region"
    for body path maps off P region
    using that parse_maps_order [OF that(1), of region]
    by (auto simp: find_Some_iff runtime_address_in_region dest!: nth_mem)
  show ?thesis
    unfolding resolve_run_def Let_def
    by (intro no_panic_bind' no_panic_if no_panic_lift no_panic_map_err no_panic_fs no_panic_readers)
      (auto simp: resolve_parsers_no_Panic rust_simps sum_result_def
        intro!: resolve_probe_target_no_Panic elf dest: addr split: sum.splits)
qed

interpretation rg: target_guard "pr_target report" "\<lambda>os. resolve_run os report sel" for report sel
  by unfold_locales (auto elim!: resolve_run_facts)


definition example_maps :: string where
  "example_maps = ''1000-2000 r-xp 00000000 08:01 7 /b''"

definition example_target_host :: os where
  "example_target_host = example_os
     \<lparr>os_read := \<lambda>t p.
        (if p = ''/proc/42/stat'' then Inr (bytes_of_string example_stat)
         else if p = ''/proc/42/maps'' then Inr (bytes_of_string example_maps)
         else if p = ''/b'' then Inr [] else Inl (IoError IO_NotFound [])),
      os_canonicalize := \<lambda>t p. Inr p, os_parse_elf := \<lambda>bs. Inr example_elf\<rparr>"

lemma example_text_reads:
  assumes "os_read os t p = Inr (bytes_of_string s)" "\<forall>c \<in> set s. of_char c < (128 :: nat)"
  shows "fs_read_to_string os p t = (Ok s, Suc t)"
  using assms by (simp add: fs_read_to_string_def fs_read_def io_access_def io_bind_def ok_or_def from_utf8_ascii)

lemma example_region:
  "parse_maps example_maps p = Ok [\<lparr>mg_start = 0x1000, mg_end = 0x2000, mg_file_offset = 0, mg_path = ''/b''\<rparr>]"
proof -
  have l: "lines example_maps = [example_maps]"
    "split_whitespace example_maps = [''1000-2000'', ''r-xp'', ''00000000'', ''08:01'', ''7'', ''/b'']"
    "split_once ''-'' ''1000-2000'' = Some (''1000'', ''2000'')"
    by code_simp+
  have n: "from_str_radix 16 ''1000'' = Some (0x1000 :: u64)" "from_str_radix 16 ''2000'' = Some (0x2000 :: u64)"
    "from_str_radix 16 ''00000000'' = Some (0 :: u64)"
    by (simp_all add: from_str_radix_def to_digit_def is_ascii_digit_def)
  show ?thesis
    by (simp add: parse_maps_def parse_map_region_def parse_hex_def l n nth_opt_def ok_or_def starts_with_def)
qed

lemma example_start: "start_time_at example_target_host t 42 = Some 7"
  using example_start_time
  by (simp add: start_time_at_def example_host_def example_target_host_def example_proc_path)

lemma example_selector:
  "parse_probe_selector ''uprobe:/b:f:entry'' = Ok \<lparr>ps_binary = ''/b'', ps_target = PT_Symbol ''f'', ps_boundary = PB_Entry\<rparr>"
  by code_simp

lemma example_resolution:
  "\<exists>p t'. resolve_run example_target_host (example_report []) ''uprobe:/b:f:entry'' 0 = (Ok p, t')"
proof -
  have v: "verify_target example_target_host \<lparr>ti_pid = 42, ti_process_start_time = 7\<rparr> t = (Ok (), Suc t)" for t
    unfolding verify_target_Ok_iff by (simp add: example_start)
  have e: "pr_target (example_report []) = \<lparr>ti_pid = 42, ti_process_start_time = 7\<rparr>"
    "pr_executable (example_report []) = ''/usr/bin/app''"
    "elf_kind example_elf = OK_Dynamic" "elf_build_id example_elf = Inr None"
    by (simp_all add: example_report_def example_elf_def)
  have m: "fs_read_to_string example_target_host ''/proc/42/maps'' t = (Ok example_maps, Suc t)" for t
    by (rule example_text_reads) (simp_all add: example_target_host_def example_maps_def)
  have b: "fs_canonicalize example_target_host ''/b'' t = (Ok ''/b'', Suc t)"
    "fs_read example_target_host ''/b'' t = (Ok [], Suc t)" "os_parse_elf example_target_host [] = Inr example_elf" for t
    by (simp_all add: fs_defs io_access_def example_target_host_def)
  have k: "map_path_matches ''/b'' ''/b''" "\<not> map_path_matches ''/usr/bin/app'' ''/b''" by code_simp+
  have r: "resolve_probe_target example_target_host example_elf (PT_Symbol ''f'') ''/b'' =
      Ok \<lparr>rt_symbol = Some ''f'', rt_demangled = None, rt_virtual_address = Some 16, rt_size = Some 4, rt_file_offset = 16\<rparr>"
    by (simp add: resolve_probe_target_def resolve_symbol_def example_elf_def example_symbol_def collect_symbol_matches_def
        symbol_matches_def symbol_entry_def select_symbol_match_def demangle_cpp_def starts_with_def
        virtual_address_to_file_offset_def segment_of_address_def checked_sub_def add_or_panic_def checked_add_def
        expect_def ok_or_def)
  show ?thesis
    by (simp add: resolve_run_def Let_def io_bind_def io_map_err_def map_err_simps v e example_selector b m r k
        example_proc_path example_region sum_result_def classify_object_def
        region_contains_offset_def ok_or_def add_or_panic_def checked_add_def expect_def)
qed


end
