(* ===== verification/Usdt.thy ===== *)
theory Usdt
  imports Cupti_Compat
begin

text \<open>
  The reader of static probe notes (\<open>xprobe/core/src/usdt.rs\<close>): the notes of a \<open>.note.stapsdt\<close> section,
  and the search for the binary of a target that has both garbage collection probes of CPython.
\<close>

section \<open>Definitions\<close>

datatype note_error =
    NE_IntegerOffset \<comment> \<open>note integer offset overflowed\<close>
  | NE_Header \<comment> \<open>note header exceeds section bounds\<close>
  | NE_HeaderOffset \<comment> \<open>note header offset overflowed\<close>
  | NE_OwnerLength \<comment> \<open>note owner length overflowed\<close>
  | NE_Owner \<comment> \<open>note owner exceeds section bounds\<close>
  | NE_DescriptorLength \<comment> \<open>note descriptor length overflowed\<close>
  | NE_Descriptor \<comment> \<open>note descriptor exceeds section bounds\<close>
  | NE_Alignment \<comment> \<open>note alignment overflowed\<close>
  | NE_Addresses \<comment> \<open>descriptor does not contain three addresses\<close>
  | NE_NotTerminated string \<comment> \<open>descriptor .. is not NUL terminated\<close>
  | NE_NotUtf8 string \<comment> \<open>descriptor .. is not UTF-8: ..\<close>

datatype usdt_error =
    UE_Read string io_error
  | UE_ParseObject string string
  | UE_ReadSection string string
  | UE_MalformedNote string note_error

definition usdt_error_code :: "usdt_error \<Rightarrow> error_code" where
  "usdt_error_code e =
     (case e of
        UE_Read _ source \<Rightarrow> (if io_kind source = IO_PermissionDenied then EC_PermissionDenied else EC_Internal)
      | _ \<Rightarrow> EC_Internal)"

fun usdt_error_recoverable :: "usdt_error \<Rightarrow> bool" where
  "usdt_error_recoverable (UE_Read _ _) = True"
| "usdt_error_recoverable _ = False"

text \<open>\<open>checked_add\<close> on \<open>usize\<close>, a plain addition with overflow checks, and \<open>get(a..b)\<close>.\<close>

definition usize_add :: "nat \<Rightarrow> nat \<Rightarrow> nat option" where
  "usize_add a b = (if a + b \<le> usize_max then Some (a + b) else None)"

definition get_range :: "'a list \<Rightarrow> nat \<Rightarrow> nat \<Rightarrow> 'a list option" where
  "get_range xs a b = (if a \<le> b \<and> b \<le> length xs then Some (take (b - a) (drop a xs)) else None)"

definition note_u32 :: "bytes \<Rightarrow> nat \<Rightarrow> bool \<Rightarrow> (nat, note_error) rresult" where
  "note_u32 data offset little_endian =
     rbind (ok_or (usize_add offset 4) NE_IntegerOffset) (\<lambda>end.
     rbind (ok_or (get_range data offset end) NE_Header) (\<lambda>bs.
     Ok (if little_endian then le_nat bs else le_nat (rev bs))))"

definition align_four :: "nat \<Rightarrow> (nat, note_error) rresult" where
  "align_four v = rbind (ok_or (usize_add v 3) NE_Alignment) (\<lambda>w. Ok (4 * (w div 4)))"

definition take_c_string :: "bytes \<Rightarrow> string \<Rightarrow> (string \<times> bytes, note_error) rresult" where
  "take_c_string data field =
     (if 0 \<notin> set data then Err (NE_NotTerminated field)
      else
        let end = name_length data in
        rbind (slice data 0 end) (\<lambda>prefix.
        rbind (ok_or (from_utf8 prefix) (NE_NotUtf8 field)) (\<lambda>value.
        rbind (slice data (end + 1) (length data)) (\<lambda>rest.
        Ok (value, rest)))))"

definition parse_stapsdt_descriptor :: "bytes \<Rightarrow> bool \<Rightarrow> (string \<times> string, note_error) rresult" where
  "parse_stapsdt_descriptor descriptor is_64 =
     (let address_bytes = (if is_64 then 24 else 12) in
      rbind (ok_or (get_range descriptor address_bytes (length descriptor)) NE_Addresses) (\<lambda>strings.
      rbind (take_c_string strings ''provider'') (\<lambda>(provider, rest).
      rbind (take_c_string rest ''name'') (\<lambda>(name, _).
      Ok (provider, name)))))"

text \<open>One round of the loop: the owner, the descriptor and the offset of the next note. The second read
  of the header adds 4 without a check.\<close>

definition note_at :: "bytes \<Rightarrow> bool \<Rightarrow> nat \<Rightarrow> (bytes \<times> bytes \<times> nat, note_error) rresult" where
  "note_at data little_endian offset =
     rbind (note_u32 data offset little_endian) (\<lambda>namesz.
     rbind (expect (usize_add offset 4)) (\<lambda>second.
     rbind (note_u32 data second little_endian) (\<lambda>descsz.
     rbind (ok_or (usize_add offset 12) NE_HeaderOffset) (\<lambda>offset.
     rbind (ok_or (usize_add offset namesz) NE_OwnerLength) (\<lambda>name_end.
     rbind (ok_or (get_range data offset name_end) NE_Owner) (\<lambda>owner.
     rbind (align_four name_end) (\<lambda>offset.
     rbind (ok_or (usize_add offset descsz) NE_DescriptorLength) (\<lambda>desc_end.
     rbind (ok_or (get_range data offset desc_end) NE_Descriptor) (\<lambda>descriptor.
     rbind (align_four desc_end) (\<lambda>offset.
     Ok (owner, descriptor, offset)))))))))))"

definition stapsdt_owner :: bytes where
  "stapsdt_owner = bytes_of_string ''stapsdt'' @ [0]"

lemma align_four_Ok: "align_four v = Ok w \<Longrightarrow> v \<le> w"
  by (auto simp: align_four_def usize_add_def rust_simps split: if_splits)

lemma note_at_progress: "note_at data le offset = Ok (owner, descriptor, offset') \<Longrightarrow> offset + 12 \<le> offset'"
  by (auto simp: note_at_def usize_add_def rust_simps dest!: align_four_Ok split: if_splits)

function notes_loop ::
  "bytes \<Rightarrow> bool \<Rightarrow> bool \<Rightarrow> nat \<Rightarrow> (string \<times> string) set \<Rightarrow> ((string \<times> string) set, note_error) rresult" where
  "notes_loop data little_endian is_64 offset probes =
     (if offset < length data
      then (case note_at data little_endian offset of
              Ok (owner, descriptor, offset') \<Rightarrow>
                (if owner = stapsdt_owner
                 then (case parse_stapsdt_descriptor descriptor is_64 of
                         Ok probe \<Rightarrow> notes_loop data little_endian is_64 offset' (insert probe probes)
                       | Err e \<Rightarrow> Err e
                       | Panic \<Rightarrow> Panic)
                 else notes_loop data little_endian is_64 offset' probes)
            | Err e \<Rightarrow> Err e
            | Panic \<Rightarrow> Panic)
      else Ok probes)"
  by pat_completeness auto
termination
  by (relation "measure (\<lambda>(data, _, _, offset, _). length data - offset)") (auto dest!: note_at_progress)

declare notes_loop.simps [simp del]

definition parse_stapsdt_notes :: "bytes \<Rightarrow> bool \<Rightarrow> bool \<Rightarrow> ((string \<times> string) set, note_error) rresult" where
  "parse_stapsdt_notes data little_endian is_64 = notes_loop data little_endian is_64 0 {}"

definition stap_probe_names :: "os \<Rightarrow> string \<Rightarrow> ((string \<times> string) set, usdt_error) io" where
  "stap_probe_names os path =
     io_bind (io_map_err (UE_Read path) (fs_read os path)) (\<lambda>bs.
     case os_parse_elf os bs of
       Inl message \<Rightarrow> io_err (UE_ParseObject path message)
     | Inr file \<Rightarrow>
         (case elf_section file ''.note.stapsdt'' of
            None \<Rightarrow> io_ok {}
          | Some (Inl message) \<Rightarrow> io_err (UE_ReadSection path message)
          | Some (Inr data) \<Rightarrow>
              io_map_err (UE_MalformedNote path)
                (io_lift (parse_stapsdt_notes data (elf_little_endian file) (elf_is_64 file)))))"

text \<open>The candidates: the executable and the mapped \<open>libpython\<close> libraries, in the order of \<open>Path\<close>.\<close>

definition is_libpython :: "string \<Rightarrow> bool" where
  "is_libpython path =
     (case file_name path of
        None \<Rightarrow> False
      | Some name \<Rightarrow> starts_with name ''libpython'' \<and> contains name ''.so'')"

definition python_candidates :: "process_report \<Rightarrow> string list" where
  "python_candidates report =
     map snd (foldl (\<lambda>m path. bt_entry (path_key path) (or_insert path) m) []
       (pr_executable report # filter is_libpython (pr_loaded_libraries report)))"

definition has_gc_probes :: "(string \<times> string) set \<Rightarrow> bool" where
  "has_gc_probes names \<longleftrightarrow> (''python'', ''gc__start'') \<in> names \<and> (''python'', ''gc__done'') \<in> names"

fun first_with_gc_probes :: "os \<Rightarrow> string list \<Rightarrow> (string option, usdt_error) io" where
  "first_with_gc_probes os [] = io_ok None"
| "first_with_gc_probes os (path # paths) =
     io_bind (stap_probe_names os path) (\<lambda>names.
     if has_gc_probes names then io_ok (Some path) else first_with_gc_probes os paths)"

definition find_python_gc_probes :: "os \<Rightarrow> process_report \<Rightarrow> (string option, usdt_error) io" where
  "find_python_gc_probes os report = first_with_gc_probes os (python_candidates report)"

section \<open>Totality\<close>

text \<open>A section is at most \<open>isize::MAX\<close> bytes long, the limit of every slice.\<close>

abbreviation slice_limit :: nat where
  "slice_limit \<equiv> 2 ^ 63 - 1"

lemma take_c_string_no_Panic: "take_c_string data field \<noteq> Panic"
proof (cases "0 \<in> set data")
  case True
  then have "name_length data < length data"
    by (metis (mono_tags, lifting) name_length_def le_neq_implies_less length_takeWhile_le takeWhile_eq_all_conv
        takeWhile_eq_take take_all_iff order_refl)
  then show ?thesis by (auto simp: take_c_string_def slice_def Let_def rust_simps)
qed (simp add: take_c_string_def)

lemma parse_stapsdt_descriptor_no_Panic: "parse_stapsdt_descriptor d is_64 \<noteq> Panic"
  by (auto simp: parse_stapsdt_descriptor_def Let_def rust_simps take_c_string_no_Panic)

lemma note_at_no_Panic: "length data \<le> slice_limit \<Longrightarrow> offset < length data \<Longrightarrow> note_at data le offset \<noteq> Panic"
  by (auto simp: note_at_def note_u32_def align_four_def rust_simps usize_add_def usize_max_def split: if_splits)

lemma notes_loop_no_Panic: "length data \<le> slice_limit \<Longrightarrow> notes_loop data le is_64 offset probes \<noteq> Panic"
proof (induction data le is_64 offset probes rule: notes_loop.induct)
  case (1 data le is_64 offset probes)
  then show ?case
    by (subst notes_loop.simps)
      (auto split: rresult.split simp: note_at_no_Panic parse_stapsdt_descriptor_no_Panic)
qed

section \<open>Notes as written by the assembler\<close>

record stap_note =
  sn_owner :: bytes
  sn_type :: nat
  sn_descriptor :: bytes

definition pad4 :: "bytes \<Rightarrow> bytes" where
  "pad4 bs = bs @ replicate (4 * ((length bs + 3) div 4) - length bs) 0"

definition u32_field :: "bool \<Rightarrow> nat \<Rightarrow> bytes" where
  "u32_field little_endian v = (if little_endian then le_bytes 4 v else rev (le_bytes 4 v))"

definition note_bytes :: "bool \<Rightarrow> stap_note \<Rightarrow> bytes" where
  "note_bytes le n =
     u32_field le (length (sn_owner n)) @ u32_field le (length (sn_descriptor n)) @ u32_field le (sn_type n) @
     pad4 (sn_owner n) @ pad4 (sn_descriptor n)"

lemma length_pad4 [simp]: "length (pad4 bs) = 4 * ((length bs + 3) div 4)"
  by (simp add: pad4_def)

lemma length_u32_field [simp]: "length (u32_field le v) = 4"
  by (simp add: u32_field_def)

lemma length_note_bytes:
  "length (note_bytes le n) =
     12 + 4 * ((length (sn_owner n) + 3) div 4) + 4 * ((length (sn_descriptor n) + 3) div 4)"
  by (simp add: note_bytes_def)

lemma note_u32_field:
  assumes "v < 2 ^ 32" "length pre + 4 \<le> usize_max"
  shows "note_u32 (pre @ u32_field le v @ rest) (length pre) le = Ok v"
  using assms by (simp add: note_u32_def usize_add_def get_range_def ok_or_def u32_field_def le_nat_le_bytes)

lemma note_at_bytes:
  assumes "length (sn_owner n) < 2 ^ 32" "length (sn_descriptor n) < 2 ^ 32"
    and "length pre mod 4 = 0" and len: "length (pre @ note_bytes le n @ rest) \<le> slice_limit"
  shows "note_at (pre @ note_bytes le n @ rest) le (length pre) =
    Ok (sn_owner n, sn_descriptor n, length (pre @ note_bytes le n))"
proof -
  let ?data = "pre @ note_bytes le n @ rest"
  let ?o = "sn_owner n" and ?d = "sn_descriptor n"
  obtain k where k: "length pre = 4 * k" using assms(3) by (metis mod_0_imp_dvd dvdE)
  have up: "usize_add a b = Some (a + b)" if "a + b \<le> length ?data + 3" for a b
    using that len by (simp add: usize_add_def usize_max_def)
  have al: "align_four v = Ok (4 * ((v + 3) div 4))" if "v \<le> length ?data" for v
    using that up [of v 3] by (simp add: align_four_def ok_or_def)
  have small: "length pre + 12 + length ?o \<le> length ?data"
    "length pre + 12 + 4 * ((length ?o + 3) div 4) + length ?d \<le> length ?data"
    by (simp_all add: length_note_bytes)
  have f1: "note_u32 ?data (length pre) le = Ok (length ?o)"
    using note_u32_field [OF assms(1), of pre le] up [of "length pre" 4] small
    by (simp add: note_bytes_def usize_add_def split: if_splits)
  have f2: "note_u32 ?data (length pre + 4) le = Ok (length ?d)"
    using note_u32_field [OF assms(2), of "pre @ u32_field le (length ?o)" le] up [of "length pre" 8] small
    by (simp add: note_bytes_def usize_add_def split: if_splits)
  have o: "get_range ?data (length pre + 12) (length pre + 12 + length ?o) = Some ?o"
    by (simp add: get_range_def note_bytes_def pad4_def)
  have e1: "4 * ((length pre + 12 + length ?o + 3) div 4) = length pre + 12 + length (pad4 ?o)"
    unfolding k length_pad4 by presburger
  have d: "get_range ?data (length pre + 12 + length (pad4 ?o)) (length pre + 12 + length (pad4 ?o) + length ?d) = Some ?d"
    by (simp add: get_range_def note_bytes_def pad4_def [of ?d])
  have e2: "4 * ((length pre + 12 + length (pad4 ?o) + length ?d + 3) div 4) = length (pre @ note_bytes le n)"
    unfolding k length_pad4 length_append length_note_bytes by presburger
  have a1: "align_four (length pre + 12 + length ?o) = Ok (length pre + 12 + length (pad4 ?o))"
    using al [OF small(1)] unfolding e1 .
  have a2: "align_four (length pre + 12 + length (pad4 ?o) + length ?d) = Ok (length (pre @ note_bytes le n))"
    using al small(2) unfolding length_pad4 [symmetric] e2 [symmetric] by blast
  have us: "usize_add (length pre) 4 = Some (length pre + 4)" "usize_add (length pre) 12 = Some (length pre + 12)"
    "usize_add (length pre + 12) (length ?o) = Some (length pre + 12 + length ?o)"
    "usize_add (length pre + 12 + length (pad4 ?o)) (length ?d) = Some (length pre + 12 + length (pad4 ?o) + length ?d)"
    using small by (auto intro!: up)
  show ?thesis
    by (simp only: note_at_def f1 f2 us a1 a2 o d rbind.simps ok_or_def expect_def option.case)
qed

lemma rcollect_filter_Cons:
  "rbind (rcollect f (filter P (n # ns))) (\<lambda>ps. Ok (S \<union> set ps)) =
     (if P n then rbind (f n) (\<lambda>p. rbind (rcollect f (filter P ns)) (\<lambda>ps. Ok (insert p S \<union> set ps)))
      else rbind (rcollect f (filter P ns)) (\<lambda>ps. Ok (S \<union> set ps)))"
  by (cases "f n"; cases "rcollect f (filter P ns)") auto

lemma notes_loop_bytes:
  assumes "\<forall>n \<in> set ns. length (sn_owner n) < 2 ^ 32 \<and> length (sn_descriptor n) < 2 ^ 32"
    and "length pre mod 4 = 0" "length (pre @ concat (map (note_bytes le) ns)) \<le> slice_limit"
  shows "notes_loop (pre @ concat (map (note_bytes le) ns)) le is_64 (length pre) S =
    rbind (rcollect (\<lambda>n. parse_stapsdt_descriptor (sn_descriptor n) is_64)
             (filter (\<lambda>n. sn_owner n = stapsdt_owner) ns))
      (\<lambda>ps. Ok (S \<union> set ps))"
  using assms
proof (induction ns arbitrary: pre S)
  case Nil
  then show ?case by (subst notes_loop.simps) simp
next
  case (Cons n ns)
  let ?pre = "pre @ note_bytes le n"
  have at: "note_at (pre @ note_bytes le n @ concat (map (note_bytes le) ns)) le (length pre) =
      Ok (sn_owner n, sn_descriptor n, length ?pre)"
    using Cons.prems by (intro note_at_bytes) simp_all
  have mod4: "length ?pre mod 4 = 0"
    using Cons.prems(2) by (simp add: length_note_bytes) presburger
  have IH: "notes_loop (?pre @ concat (map (note_bytes le) ns)) le is_64 (length ?pre) S' =
    rbind (rcollect (\<lambda>n. parse_stapsdt_descriptor (sn_descriptor n) is_64)
             (filter (\<lambda>n. sn_owner n = stapsdt_owner) ns))
      (\<lambda>ps. Ok (S' \<union> set ps))" for S'
    using Cons.prems mod4 by (intro Cons.IH) simp_all
  have lt: "length pre < length (pre @ note_bytes le n @ concat (map (note_bytes le) ns))"
    by (simp add: length_note_bytes)
  show ?case
    unfolding rcollect_filter_Cons list.map concat.simps
    by (subst notes_loop.simps, subst if_P [OF lt], subst at)
      (use IH in \<open>auto split: rresult.split\<close>)
qed

definition c_text :: "string \<Rightarrow> bool" where
  "c_text s \<longleftrightarrow> from_utf8 (bytes_of_string s) = Some s \<and> CHR 0x00 \<notin> set s"

lemma c_text_bytes: "CHR 0x00 \<notin> set s \<Longrightarrow> 0 \<notin> set (bytes_of_string s)"
proof
  assume "CHR 0x00 \<notin> set s" "0 \<in> set (bytes_of_string s)"
  then obtain c where c: "c \<in> set s" "(of_nat (of_char c) :: u8) = 0" by (auto simp: bytes_of_string_def)
  then have "unat (of_nat (of_char c) :: u8) = 0" by simp
  then have "of_char c = (0 :: nat)" by (simp add: unat_u8_of_nat)
  then have "c = char_of (0 :: nat)" using char_of_char [of c, where ?'a = nat] by metis
  also have "\<dots> = CHR 0x00" by (simp add: char_of_def)
  finally have "c = CHR 0x00" .
  with c \<open>CHR 0x00 \<notin> set s\<close> show False by simp
qed

lemma take_c_string_text: "c_text s \<Longrightarrow> take_c_string (bytes_of_string s @ 0 # rest) field = Ok (s, rest)"
  using c_text_bytes [of s] name_length_padded [of "bytes_of_string s" rest]
  by (simp add: take_c_string_def c_text_def slice_def Let_def ok_or_def)

text \<open>The descriptor of a probe: three addresses, the provider, the name and the arguments.\<close>

definition probe_descriptor :: "bool \<Rightarrow> string \<Rightarrow> string \<Rightarrow> bytes \<Rightarrow> bool" where
  "probe_descriptor is_64 provider name descriptor \<longleftrightarrow>
     (\<exists>addresses arguments. length addresses = (if is_64 then 24 else 12) \<and>
        descriptor = addresses @ bytes_of_string provider @ 0 # bytes_of_string name @ 0 # arguments) \<and>
     c_text provider \<and> c_text name"

lemma parse_probe_descriptor:
  "probe_descriptor is_64 provider name descriptor \<Longrightarrow>
   parse_stapsdt_descriptor descriptor is_64 = Ok (provider, name)"
  by (auto simp: probe_descriptor_def parse_stapsdt_descriptor_def get_range_def Let_def ok_or_def take_c_string_text)

lemma rcollect_Ok_map: "(\<And>x. x \<in> set xs \<Longrightarrow> f x = Ok (g x)) \<Longrightarrow> rcollect f xs = Ok (map g xs)"
  by (induction xs) auto

text \<open>C27: The note reader inverts the layout of the section: on a section that is a sequence of notes, in
  either byte order, each with its owner and descriptor padded to four bytes, it returns exactly the
  provider and name of the notes whose owner is \<open>stapsdt\<close>, skipping the others. On any section at all it
  ends without a panic.\<close>

theorem stap_notes_round_trip:
  assumes "\<forall>n \<in> set ns. length (sn_owner n) < 2 ^ 32 \<and> length (sn_descriptor n) < 2 ^ 32"
    and "length (concat (map (note_bytes le) ns)) \<le> slice_limit"
    and "\<forall>n \<in> set ns. sn_owner n = stapsdt_owner \<longrightarrow>
      probe_descriptor is_64 (provider n) (name n) (sn_descriptor n)"
    and "length data \<le> slice_limit"
  shows "parse_stapsdt_notes (concat (map (note_bytes le) ns)) le is_64 =
      Ok ((\<lambda>n. (provider n, name n)) ` {n \<in> set ns. sn_owner n = stapsdt_owner}) \<and>
    parse_stapsdt_notes data le' is_64' \<noteq> Panic"
proof -
  have "rcollect (\<lambda>n. parse_stapsdt_descriptor (sn_descriptor n) is_64) (filter (\<lambda>n. sn_owner n = stapsdt_owner) ns) =
      Ok (map (\<lambda>n. (provider n, name n)) (filter (\<lambda>n. sn_owner n = stapsdt_owner) ns))"
    using assms(3) by (intro rcollect_Ok_map) (auto intro: parse_probe_descriptor)
  with notes_loop_bytes [OF assms(1), of "[]" le is_64 "{}"] assms(2) notes_loop_no_Panic [OF assms(4)]
  show ?thesis by (simp add: parse_stapsdt_notes_def)
qed

theorem stap_notes_round_trip_witness:
  "\<exists>ns data. ns \<noteq> [] \<and>
     parse_stapsdt_notes (concat (map (note_bytes True) ns)) True True = Ok {(''python'', ''gc__start'')} \<and>
     parse_stapsdt_notes data False False \<noteq> Panic"
proof -
  let ?d = "replicate 24 0 @ bytes_of_string ''python'' @ 0 # bytes_of_string ''gc__start'' @ 0 # []"
  let ?n = "\<lparr>sn_owner = stapsdt_owner, sn_type = 3, sn_descriptor = ?d\<rparr>"
  let ?m = "\<lparr>sn_owner = bytes_of_string ''GNU'', sn_type = 3, sn_descriptor = []\<rparr>"
  have "c_text ''python''" "c_text ''gc__start''"
    by (simp_all add: c_text_def from_utf8_ascii)
  then have "probe_descriptor True ''python'' ''gc__start'' ?d"
    unfolding probe_descriptor_def by (intro conjI exI [of _ "replicate 24 0"] exI [of _ "[]"]) auto
  moreover have g: "bytes_of_string ''GNU'' \<noteq> stapsdt_owner"
    by (simp add: stapsdt_owner_def bytes_of_string_def)
  moreover from g have "{n \<in> set [?n, ?m]. sn_owner n = stapsdt_owner} = {?n}" by auto
  moreover have "length stapsdt_owner = 8" by (simp add: stapsdt_owner_def)
  ultimately have
    "parse_stapsdt_notes (concat (map (note_bytes True) [?n, ?m])) True True = Ok {(''python'', ''gc__start'')} \<and>
     parse_stapsdt_notes [] False False \<noteq> Panic"
    using stap_notes_round_trip [of "[?n, ?m]" True True "\<lambda>_. ''python''" "\<lambda>_. ''gc__start''" "[]" False False]
    by (simp add: length_note_bytes)
  then show ?thesis by blast
qed

section \<open>The search\<close>

lemma set_candidates_subset:
  "snd ` set (foldl (\<lambda>m path. bt_entry (key path) (or_insert path) m) m paths) \<subseteq> snd ` set m \<union> set paths"
proof (induction paths arbitrary: m)
  case (Cons p paths)
  have "v = p \<or> (\<exists>k. (k, v) \<in> set m)" if "(k, v) \<in> set (bt_entry (key p) (or_insert p) m)" for k v
    using that by (induction m) (auto simp: or_insert_def split: if_splits)
  then have "snd ` set (bt_entry (key p) (or_insert p) m) \<subseteq> insert p (snd ` set m)" by force
  with Cons [of "bt_entry (key p) (or_insert p) m"] show ?case by auto
qed simp

lemma python_candidates_subset:
  "set (python_candidates report) \<subseteq> insert (pr_executable report) {l \<in> set (pr_loaded_libraries report). is_libpython l}"
  using set_candidates_subset [of path_key "[]" "pr_executable report # filter is_libpython (pr_loaded_libraries report)"]
  by (auto simp: python_candidates_def)

lemma first_with_gc_probes_Some:
  "first_with_gc_probes os paths t = (Ok (Some path), t') \<Longrightarrow>
   path \<in> set paths \<and> (\<exists>t0 names t1. stap_probe_names os path t0 = (Ok names, t1) \<and> has_gc_probes names)"
proof (induction paths arbitrary: t)
  case (Cons p paths)
  then show ?case by (auto simp: io_simps split: if_splits)
qed simp

lemma find_python_gc_probes_Some:
  assumes "find_python_gc_probes os report t = (Ok (Some path), t')"
  shows "path = pr_executable report \<or> path \<in> set (pr_loaded_libraries report) \<and> is_libpython path"
    "\<exists>t0 names t1. stap_probe_names os path t0 = (Ok names, t1) \<and> has_gc_probes names"
  using first_with_gc_probes_Some [OF assms [unfolded find_python_gc_probes_def]] python_candidates_subset [of report]
  by auto

definition sections_bounded :: "os \<Rightarrow> bool" where
  "sections_bounded os \<longleftrightarrow>
     (\<forall>bs file name data. os_parse_elf os bs = Inr file \<longrightarrow> elf_section file name = Some (Inr data) \<longrightarrow>
        length data \<le> slice_limit)"

lemma find_python_gc_probes_no_panic:
  assumes "sections_bounded os"
  shows "no_panic (find_python_gc_probes os report)"
proof -
  have "no_panic (stap_probe_names os path)" for path
    unfolding stap_probe_names_def parse_stapsdt_notes_def
    using assms notes_loop_no_Panic
    by (auto intro!: no_panic_bind no_panic_map_err no_panic_fs no_panic_lift simp: sections_bounded_def
        split: sum.split option.split)
  then have "no_panic (first_with_gc_probes os paths)" for paths
    by (induction paths) (auto intro!: no_panic_bind no_panic_lift no_panic_if)
  then show ?thesis by (simp add: find_python_gc_probes_def)
qed

end
