(* ===== verification/Validate.thy ===== *)
theory Validate
  imports Resolve Usdt Selector
begin

text \<open>
  Validation of a measurement before anything is attached (\<open>xprobe/core/src/validate.rs\<close>): resolving both
  endpoints, what they require of the collectors, the issues and warnings, and the recommended policy. The
  regular expression compiler is the parameter of the selector model; messages are values, one per message
  of the source.
\<close>

section \<open>Definitions\<close>

datatype validate_reason =
    VR_SyscallArch \<comment> \<open>syscall selectors currently require x86_64\<close>
  | VR_SyscallUnsupported string \<comment> \<open>syscall .. is not supported on x86_64\<close>
  | VR_SyscallBoundary \<comment> \<open>syscall boundary must be entry or exit\<close>
  | VR_SyscallShape \<comment> \<open>syscall selector must be syscall:<name>:<entry|exit>\<close>
  | VR_TracepointShape \<comment> \<open>tracepoint selector must be tracepoint:<category>:<name>\<close>
  | VR_LinuxPrefix \<comment> \<open>expected uprobe:, syscall:, tracepoint:, python:, or cuda: prefix\<close>
  | VR_PythonShape \<comment> \<open>Python selector must be python:<gc_start|gc_end>\<close>
  | VR_CudaPrefix \<comment> \<open>expected uprobe:, syscall:, tracepoint:, or cuda: prefix\<close>
  | VR_CudaEvent string \<comment> \<open>unsupported CUDA event ..\<close>
  | VR_KernelFilter \<comment> \<open>kernel filter must use name~<regular-expression>\<close>
  | VR_KernelEmptyRegex \<comment> \<open>kernel name regular expression must not be empty\<close>
  | VR_KernelRegex string \<comment> \<open>invalid kernel name regular expression: ..\<close>
  | VR_MemcpyFilter \<comment> \<open>memcpy filter must use kind=<HtoD|DtoH|DtoD|HtoH|PtoP>\<close>
  | VR_MemcpyKind string \<comment> \<open>unsupported memcpy kind ..\<close>
  | VR_MemsetFilter string \<comment> \<open>memset selector .. does not accept a filter\<close>
  | VR_NvtxNoFilter \<comment> \<open>NVTX range selector requires name~<bounded-regular-expression>\<close>
  | VR_NvtxFilter \<comment> \<open>NVTX range filter must use name~<bounded-regular-expression>\<close>
  | VR_NvtxRegex string \<comment> \<open>invalid NVTX range name regular expression: ..\<close>
  | VR_NvtxUnbounded \<comment> \<open>NVTX range name must reduce to one nonempty exact, prefix, suffix, or contains filter shorter than 128 bytes\<close>
  | VR_ApiShape \<comment> \<open>CUDA API selector must be cuda:<runtime_api|driver_api>:<name>:<entry|exit>\<close>
  | VR_ApiBoundary \<comment> \<open>CUDA API boundary must be entry or exit\<close>

datatype validate_error =
    VE_Inspect inspect_error
  | VE_Resolve string resolve_error
  | VE_Usdt usdt_error
  | VE_InvalidSelector validate_reason
  | VE_InvalidCorrelationPolicy string

fun validate_error_code :: "validate_error \<Rightarrow> error_code" where
  "validate_error_code (VE_Inspect e) = inspect_error_code e"
| "validate_error_code (VE_Resolve _ e) = resolve_error_code e"
| "validate_error_code (VE_Usdt e) = usdt_error_code e"
| "validate_error_code (VE_InvalidSelector _) = EC_InvalidEventSelector"
| "validate_error_code (VE_InvalidCorrelationPolicy _) = EC_InvalidCorrelationPolicy"

fun validate_error_recoverable :: "validate_error \<Rightarrow> bool" where
  "validate_error_recoverable (VE_Inspect e) = inspect_error_recoverable e"
| "validate_error_recoverable (VE_Resolve _ e) = resolve_error_recoverable e"
| "validate_error_recoverable (VE_Usdt e) = usdt_error_recoverable e"
| "validate_error_recoverable (VE_InvalidSelector _) = True"
| "validate_error_recoverable (VE_InvalidCorrelationPolicy _) = True"

datatype endpoint_kind =
    EK_HostEntry
  | EK_HostReturn
  | EK_SyscallEntry string
  | EK_SyscallExit string
  | EK_Tracepoint
  | EK_PythonGcStart
  | EK_PythonGcEnd
  | EK_CudaApi string string \<comment> \<open>domain, name\<close>
  | EK_Kernel
  | EK_Memcpy
  | EK_Memset
  | EK_NvtxRange string

fun needs_callback :: "endpoint_kind \<Rightarrow> bool" where
  "needs_callback (EK_CudaApi _ _) = True"
| "needs_callback (EK_NvtxRange _) = True"
| "needs_callback _ = False"

fun needs_activity :: "endpoint_kind \<Rightarrow> bool" where
  "needs_activity EK_Kernel = True"
| "needs_activity EK_Memcpy = True"
| "needs_activity EK_Memset = True"
| "needs_activity _ = False"

fun is_host :: "endpoint_kind \<Rightarrow> bool" where
  "is_host EK_HostEntry = True"
| "is_host EK_HostReturn = True"
| "is_host (EK_SyscallEntry _) = True"
| "is_host (EK_SyscallExit _) = True"
| "is_host EK_Tracepoint = True"
| "is_host EK_PythonGcStart = True"
| "is_host EK_PythonGcEnd = True"
| "is_host _ = False"

fun uses_host_clock :: "endpoint_kind \<Rightarrow> bool" where
  "uses_host_clock (EK_CudaApi _ _) = True"
| "uses_host_clock (EK_NvtxRange _) = True"
| "uses_host_clock EK_Kernel = False"
| "uses_host_clock EK_Memcpy = False"
| "uses_host_clock EK_Memset = False"
| "uses_host_clock _ = True"

fun needs_nvtx :: "endpoint_kind \<Rightarrow> bool" where
  "needs_nvtx (EK_NvtxRange _) = True"
| "needs_nvtx _ = False"

record endpoint =
  en_public :: validated_endpoint
  en_kind :: endpoint_kind

subsection \<open>Selectors\<close>

definition syscall_table :: "(string \<times> u32) list" where
  "syscall_table =
     [(''read'', 0), (''write'', 1), (''close'', 3), (''fstat'', 5), (''poll'', 7), (''lseek'', 8),
      (''mmap'', 9), (''mprotect'', 10), (''munmap'', 11), (''brk'', 12), (''ioctl'', 16),
      (''pread64'', 17), (''pwrite64'', 18), (''readv'', 19), (''writev'', 20), (''sched_yield'', 24),
      (''mremap'', 25), (''msync'', 26), (''mincore'', 27), (''madvise'', 28), (''nanosleep'', 35),
      (''getpid'', 39), (''socket'', 41), (''connect'', 42), (''accept'', 43), (''sendto'', 44),
      (''recvfrom'', 45), (''sendmsg'', 46), (''recvmsg'', 47), (''clone'', 56), (''fork'', 57),
      (''vfork'', 58), (''execve'', 59), (''exit'', 60), (''wait4'', 61), (''fcntl'', 72), (''flock'', 73),
      (''fsync'', 74), (''fdatasync'', 75), (''getdents'', 78), (''futex'', 202),
      (''sched_setaffinity'', 203), (''sched_getaffinity'', 204), (''gettid'', 186), (''epoll_wait'', 232),
      (''epoll_ctl'', 233), (''tgkill'', 234), (''openat'', 257), (''newfstatat'', 262),
      (''pselect6'', 270), (''ppoll'', 271), (''unshare'', 272), (''splice'', 275), (''epoll_pwait'', 281),
      (''accept4'', 288), (''eventfd2'', 290), (''epoll_create1'', 291), (''dup3'', 292), (''pipe2'', 293),
      (''preadv'', 295), (''pwritev'', 296), (''perf_event_open'', 298), (''recvmmsg'', 299),
      (''prlimit64'', 302), (''sendmmsg'', 307), (''getcpu'', 309), (''process_vm_readv'', 310),
      (''process_vm_writev'', 311), (''sched_setattr'', 314), (''sched_getattr'', 315), (''seccomp'', 317),
      (''getrandom'', 318), (''memfd_create'', 319), (''bpf'', 321), (''execveat'', 322),
      (''userfaultfd'', 323), (''membarrier'', 324), (''mlock2'', 325), (''copy_file_range'', 326),
      (''preadv2'', 327), (''pwritev2'', 328), (''statx'', 332), (''rseq'', 334),
      (''pidfd_send_signal'', 424), (''io_uring_setup'', 425), (''io_uring_enter'', 426),
      (''io_uring_register'', 427), (''pidfd_open'', 434), (''clone3'', 435), (''close_range'', 436),
      (''openat2'', 437), (''pidfd_getfd'', 438), (''faccessat2'', 439), (''process_madvise'', 440),
      (''epoll_pwait2'', 441), (''futex_waitv'', 449)]"

definition syscall_number :: "string \<Rightarrow> u32 option" where
  "syscall_number name = map_of syscall_table name"

definition valid_tracepoint_component :: "string \<Rightarrow> bool" where
  "valid_tracepoint_component value =
     (value \<noteq> [] \<and> list_all (\<lambda>b. is_ascii_alphanumeric b \<or> b = CHR ''_'') value)"

abbreviation vsel_err :: "validate_reason \<Rightarrow> ('a, validate_error) rresult" where
  "vsel_err r \<equiv> Err (VE_InvalidSelector r)"

definition parse_linux_selector :: "string \<Rightarrow> (resolved_linux_selector \<times> endpoint_kind, validate_error) rresult" where
  "parse_linux_selector selector =
     (let parts = split_on (CHR '':'') selector in
      if length parts = 3 \<and> parts ! 0 = ''syscall'' \<and> valid_tracepoint_component (parts ! 1) then
        (let name = parts ! 1; boundary = parts ! 2 in
         if target_arch \<noteq> ''x86_64'' then vsel_err VR_SyscallArch
         else
           rbind (ok_or (syscall_number name) (VE_InvalidSelector (VR_SyscallUnsupported name))) (\<lambda>number.
           rbind (if boundary = ''entry'' then Ok (ET_SyscallEntry, EK_SyscallEntry name)
                  else if boundary = ''exit'' then Ok (ET_SyscallExit, EK_SyscallExit name)
                  else vsel_err VR_SyscallBoundary) (\<lambda>(event_type, kind).
           Ok (\<lparr>rl_event_type = event_type, rl_probe_kind = HP_Syscall, rl_category = ''syscalls'', rl_name = name,
                rl_syscall_number = Some number, rl_binary_path = None, rl_provider = None\<rparr>, kind))))
      else if parts ! 0 = ''syscall'' then vsel_err VR_SyscallShape
      else if length parts = 3 \<and> parts ! 0 = ''tracepoint'' \<and>
              valid_tracepoint_component (parts ! 1) \<and> valid_tracepoint_component (parts ! 2) then
        Ok (\<lparr>rl_event_type = ET_Tracepoint, rl_probe_kind = HP_Tracepoint, rl_category = parts ! 1,
             rl_name = parts ! 2, rl_syscall_number = None, rl_binary_path = None, rl_provider = None\<rparr>,
            EK_Tracepoint)
      else if parts ! 0 = ''tracepoint'' then vsel_err VR_TracepointShape
      else vsel_err VR_LinuxPrefix)"

definition parse_python_selector ::
  "os \<Rightarrow> process_report \<Rightarrow> string \<Rightarrow> (resolved_linux_selector \<times> endpoint_kind \<times> bool, validate_error) io" where
  "parse_python_selector os report selector =
     io_bind (io_lift (if selector = ''python:gc_start'' then Ok (ET_PythonGcStart, EK_PythonGcStart, ''gc__start'')
                       else if selector = ''python:gc_end'' then Ok (ET_PythonGcEnd, EK_PythonGcEnd, ''gc__done'')
                       else vsel_err VR_PythonShape)) (\<lambda>(event_type, kind, name).
     io_bind (io_map_err VE_Usdt (find_python_gc_probes os report)) (\<lambda>binary_path.
     io_ok (\<lparr>rl_event_type = event_type, rl_probe_kind = HP_Usdt, rl_category = ''python'', rl_name = name,
             rl_syscall_number = None, rl_binary_path = binary_path, rl_provider = Some ''python''\<rparr>,
            kind, binary_path \<noteq> None)))"

text \<open>The copies of \<open>regex_literal\<close> and \<open>is_bounded_name_regex\<close> in this module.\<close>

fun pattern_literal :: "string \<Rightarrow> string option" where
  "pattern_literal [] = Some []"
| "pattern_literal (c # cs) =
     (if c = CHR 0x5C then
        (case cs of
           [] \<Rightarrow> None
         | escaped # rest \<Rightarrow>
             (if is_ascii_alphanumeric escaped then None
              else map_option ((#) escaped) (pattern_literal rest)))
      else if c \<in> set ''.+*?()|[]{}^$'' then None
      else map_option ((#) c) (pattern_literal cs))"

definition is_bounded_pattern :: "string \<Rightarrow> bool" where
  "is_bounded_pattern pattern =
     list_ex (\<lambda>(prefix, suffix).
         case Option.bind (Option.bind (strip_prefix prefix pattern) (strip_suffix suffix)) pattern_literal of
           None \<Rightarrow> False
         | Some literal \<Rightarrow> literal \<noteq> [] \<and> length literal < 128)
       [(''^'', ''$''), (''^'', ''.*''), (''.*'', ''$''), (''.*'', ''.*''),
        (''^'', ''''), ('''', ''$''), (''.*'', ''''), ('''', '''')]"

type_synonym cuda_endpoint = "(resolved_cuda_selector \<times> endpoint_kind \<times> bool, validate_error) rresult"

definition cuda_selector :: "event_type \<Rightarrow> resolved_cuda_selector" where
  "cuda_selector event_type =
     \<lparr>rc_event_type = event_type, rc_api_domain = None, rc_api_name = None, rc_kernel_name_regex = None,
      rc_nvtx_name_regex = None, rc_memcpy_kind = None\<rparr>"

definition parse_kernel_selector :: "'rx regex_engine \<Rightarrow> string list \<Rightarrow> cuda_endpoint" where
  "parse_kernel_selector eng parts =
     rbind (if parts ! 1 = ''kernel_start'' then Ok ET_GpuKernelStart
            else if parts ! 1 = ''kernel_end'' then Ok ET_GpuKernelEnd else Panic) (\<lambda>event_type.
     rbind (case slice_get parts 2 of
              None \<Rightarrow> Ok None
            | Some flt \<Rightarrow>
                rbind (ok_or (strip_prefix ''name~'' flt) (VE_InvalidSelector VR_KernelFilter)) (\<lambda>pattern.
                if pattern = [] then vsel_err VR_KernelEmptyRegex
                else (case rx_new eng pattern of
                        Inl e \<Rightarrow> vsel_err (VR_KernelRegex e)
                      | Inr _ \<Rightarrow> Ok (Some pattern)))) (\<lambda>kernel_name_regex.
     Ok ((cuda_selector event_type)\<lparr>rc_kernel_name_regex := kernel_name_regex\<rparr>, EK_Kernel, True)))"

definition parse_memcpy_selector :: "string list \<Rightarrow> cuda_endpoint" where
  "parse_memcpy_selector parts =
     rbind (if parts ! 1 = ''memcpy_start'' then Ok ET_GpuMemcpyStart
            else if parts ! 1 = ''memcpy_end'' then Ok ET_GpuMemcpyEnd else Panic) (\<lambda>event_type.
     rbind (case slice_get parts 2 of
              None \<Rightarrow> Ok None
            | Some flt \<Rightarrow>
                rbind (ok_or (strip_prefix ''kind='' flt) (VE_InvalidSelector VR_MemcpyFilter)) (\<lambda>kind.
                if kind = ''HtoD'' then Ok (Some MK_HostToDevice)
                else if kind = ''DtoH'' then Ok (Some MK_DeviceToHost)
                else if kind = ''DtoD'' then Ok (Some MK_DeviceToDevice)
                else if kind = ''HtoH'' then Ok (Some MK_HostToHost)
                else if kind = ''PtoP'' then Ok (Some MK_PeerToPeer)
                else vsel_err (VR_MemcpyKind kind))) (\<lambda>memcpy_kind.
     Ok ((cuda_selector event_type)\<lparr>rc_memcpy_kind := memcpy_kind\<rparr>, EK_Memcpy, True)))"

definition parse_memset_selector :: "string \<Rightarrow> string list \<Rightarrow> cuda_endpoint" where
  "parse_memset_selector selector parts =
     (if length parts \<noteq> 2 then vsel_err (VR_MemsetFilter selector)
      else
        rbind (if parts ! 1 = ''memset_start'' then Ok ET_GpuMemsetStart
               else if parts ! 1 = ''memset_end'' then Ok ET_GpuMemsetEnd else Panic) (\<lambda>event_type.
        Ok (cuda_selector event_type, EK_Memset, True)))"

definition parse_nvtx_selector :: "'rx regex_engine \<Rightarrow> string list \<Rightarrow> cuda_endpoint" where
  "parse_nvtx_selector eng parts =
     rbind (if parts ! 1 = ''nvtx_range_start'' then Ok ET_NvtxRangeStart
            else if parts ! 1 = ''nvtx_range_end'' then Ok ET_NvtxRangeEnd else Panic) (\<lambda>event_type.
     rbind (ok_or (slice_get parts 2) (VE_InvalidSelector VR_NvtxNoFilter)) (\<lambda>flt.
     rbind (ok_or (strip_prefix ''name~'' flt) (VE_InvalidSelector VR_NvtxFilter)) (\<lambda>pattern.
     case rx_new eng pattern of
       Inl e \<Rightarrow> vsel_err (VR_NvtxRegex e)
     | Inr _ \<Rightarrow>
         (if \<not> is_bounded_pattern pattern then vsel_err VR_NvtxUnbounded
          else Ok ((cuda_selector event_type)\<lparr>rc_nvtx_name_regex := Some pattern\<rparr>, EK_NvtxRange pattern, True)))))"

definition parse_api_selector :: "string \<Rightarrow> cuda_endpoint" where
  "parse_api_selector selector =
     (let parts = split_on (CHR '':'') selector in
      if length parts \<noteq> 4 \<or> parts ! 2 = [] then vsel_err VR_ApiShape
      else
        rbind (if parts ! 3 = ''entry'' then Ok ET_CudaApiEntry
               else if parts ! 3 = ''exit'' then Ok ET_CudaApiExit
               else vsel_err VR_ApiBoundary) (\<lambda>event_type.
        let domain = parts ! 1; name = parts ! 2 in
        Ok ((cuda_selector event_type)\<lparr>rc_api_domain := Some domain, rc_api_name := Some name\<rparr>,
            EK_CudaApi domain name, domain = ''runtime_api'' \<or> domain = ''driver_api'')))"

definition parse_cuda_selector :: "'rx regex_engine \<Rightarrow> string \<Rightarrow> cuda_endpoint" where
  "parse_cuda_selector eng selector =
     (let parts = splitn 3 (CHR '':'') selector in
      if slice_get parts 0 \<noteq> Some ''cuda'' \<or> length parts < 2 then vsel_err VR_CudaPrefix
      else if parts ! 1 = ''kernel_start'' \<or> parts ! 1 = ''kernel_end'' then parse_kernel_selector eng parts
      else if parts ! 1 = ''memcpy_start'' \<or> parts ! 1 = ''memcpy_end'' then parse_memcpy_selector parts
      else if parts ! 1 = ''memset_start'' \<or> parts ! 1 = ''memset_end'' then parse_memset_selector selector parts
      else if parts ! 1 = ''nvtx_range_start'' \<or> parts ! 1 = ''nvtx_range_end'' then parse_nvtx_selector eng parts
      else if parts ! 1 = ''runtime_api'' \<or> parts ! 1 = ''driver_api'' then parse_api_selector selector
      else vsel_err (VR_CudaEvent (parts ! 1)))"

definition resolve_endpoint ::
  "os \<Rightarrow> 'rx regex_engine \<Rightarrow> process_report \<Rightarrow> string \<Rightarrow> string \<Rightarrow> (endpoint, validate_error) io" where
  "resolve_endpoint os eng report selector which =
     (if starts_with selector ''uprobe:'' then
        io_bind (io_map_err (VE_Resolve which) (resolve_run os report selector)) (\<lambda>host.
        io_bind (io_lift (if rp_probe_kind host = HP_Uprobe then Ok (ET_HostFunctionEntry, EK_HostEntry)
                          else if rp_probe_kind host = HP_Uretprobe then Ok (ET_HostFunctionExit, EK_HostReturn)
                          else Panic)) (\<lambda>(event_type, kind).
        io_ok \<lparr>en_public = \<lparr>ve_selector = selector, ve_source = EP_Host, ve_event_type = event_type,
                 ve_collectable = True, ve_host = Some host, ve_linux = None, ve_cuda = None\<rparr>,
               en_kind = kind\<rparr>))
      else if starts_with selector ''syscall:'' \<or> starts_with selector ''tracepoint:'' then
        io_bind (io_lift (parse_linux_selector selector)) (\<lambda>(linux, kind).
        io_ok \<lparr>en_public = \<lparr>ve_selector = selector, ve_source = EP_Host, ve_event_type = rl_event_type linux,
                 ve_collectable = True, ve_host = None, ve_linux = Some linux, ve_cuda = None\<rparr>,
               en_kind = kind\<rparr>)
      else if starts_with selector ''python:'' then
        io_bind (parse_python_selector os report selector) (\<lambda>(linux, kind, collectable).
        io_ok \<lparr>en_public = \<lparr>ve_selector = selector, ve_source = EP_Host, ve_event_type = rl_event_type linux,
                 ve_collectable = collectable, ve_host = None, ve_linux = Some linux, ve_cuda = None\<rparr>,
               en_kind = kind\<rparr>)
      else
        io_bind (io_lift (parse_cuda_selector eng selector)) (\<lambda>(cuda, kind, collectable).
        io_ok \<lparr>en_public = \<lparr>ve_selector = selector, ve_source = EP_Cuda, ve_event_type = rc_event_type cuda,
                 ve_collectable = collectable, ve_host = None, ve_linux = None, ve_cuda = Some cuda\<rparr>,
               en_kind = kind\<rparr>))"

definition parse_match_policy :: "string \<Rightarrow> (match_policy, validate_error) rresult" where
  "parse_match_policy policy =
     (if policy = ''exact'' then Ok MP_Exact
      else if policy = ''first-after'' \<or> policy = ''first_after'' then Ok MP_FirstAfter
      else if policy = ''nearest'' then Ok MP_Nearest
      else if policy = ''stack-nested'' \<or> policy = ''stack_nested'' then Ok MP_StackNested
      else if policy = ''stream-order'' \<or> policy = ''stream_order'' then Ok MP_StreamOrder
      else Err (VE_InvalidCorrelationPolicy policy))"

subsection \<open>Policies\<close>

fun kinds_support_exact :: "endpoint_kind \<Rightarrow> endpoint_kind \<Rightarrow> bool" where
  "kinds_support_exact (EK_CudaApi start_domain start_name) (EK_CudaApi end_domain end_name) =
     (start_domain = end_domain \<and> start_name = end_name)"
| "kinds_support_exact EK_Kernel EK_Kernel = True"
| "kinds_support_exact EK_Memcpy EK_Memcpy = True"
| "kinds_support_exact EK_Memset EK_Memset = True"
| "kinds_support_exact EK_PythonGcStart EK_PythonGcEnd = True"
| "kinds_support_exact (EK_NvtxRange start_name) (EK_NvtxRange end_name) = (start_name = end_name)"
| "kinds_support_exact (EK_SyscallEntry start_name) (EK_SyscallExit end_name) = (start_name = end_name)"
| "kinds_support_exact (EK_CudaApi domain name) EK_Kernel =
     (domain = ''runtime_api'' \<and> name = ''cudaLaunchKernel'' \<or> domain = ''driver_api'' \<and> name = ''cuLaunchKernel'')"
| "kinds_support_exact EK_Kernel (EK_CudaApi domain name) =
     (domain = ''runtime_api'' \<and> name = ''cudaLaunchKernel'' \<or> domain = ''driver_api'' \<and> name = ''cuLaunchKernel'')"
| "kinds_support_exact _ _ = False"

definition endpoints_support_stack_nested :: "endpoint \<Rightarrow> endpoint \<Rightarrow> (bool, validate_error) rresult" where
  "endpoints_support_stack_nested start end =
     (if en_kind start \<noteq> EK_HostEntry \<or> en_kind end \<noteq> EK_HostReturn then Ok False
      else
        rbind (expect (ve_host (en_public start))) (\<lambda>start.
        rbind (expect (ve_host (en_public end))) (\<lambda>end.
        Ok (rp_binary_path start = rp_binary_path end \<and> rp_file_offset start = rp_file_offset end))))"

definition supports_stream_order :: "endpoint_kind \<Rightarrow> endpoint_kind \<Rightarrow> bool" where
  "supports_stream_order start end \<longleftrightarrow> needs_activity start \<and> needs_activity end"

definition recommend_policy :: "endpoint \<Rightarrow> endpoint \<Rightarrow> (policy_recommendation, validate_error) rresult" where
  "recommend_policy start end =
     rbind (endpoints_support_stack_nested start end) (\<lambda>nested.
     let compatible =
           (if nested then [MP_StackNested] else []) @
           (if kinds_support_exact (en_kind start) (en_kind end) then [MP_Exact] else []) @
           (if supports_stream_order (en_kind start) (en_kind end) then [MP_StreamOrder] else []) @
           [MP_FirstAfter, MP_Nearest];
         (policy, reason) =
           (if MP_StackNested \<in> set compatible then (MP_StackNested, PR_HostCallFrame)
            else if MP_Exact \<in> set compatible then (MP_Exact, PR_DeterministicCorrelationKey)
            else if MP_StreamOrder \<in> set compatible then (MP_StreamOrder, PR_CudaStreamOrder)
            else (MP_FirstAfter, PR_TemporalOrderOnly))
     in Ok \<lparr>po_policy = policy, po_reason = reason, po_compatible_policies = compatible\<rparr>)"

subsection \<open>Checks: the issues and warnings each one adds\<close>

definition mk_issue :: "error_code \<Rightarrow> string \<Rightarrow> validation_issue" where
  "mk_issue code message = \<lparr>vi_code = code, vi_message = message\<rparr>"

definition render_majors :: "u32 list \<Rightarrow> string" where
  "render_majors majors = ''['' @ join '', '' (map (\<lambda>m. render_nat 10 (unat m)) majors) @ '']''"

fun compat_error_display :: "compat_error \<Rightarrow> string" where
  "compat_error_display (CUE_ConflictingTargetVersions majors) =
     ''target maps conflicting CUDA/CUPTI majors '' @ render_majors majors"
| "compat_error_display (CUE_UnsupportedMajor major) =
     ''CUDA/CUPTI major '' @ render_nat 10 (unat major) @ '' is unsupported; expected 12 or 13''"
| "compat_error_display (CUE_AmbiguousInstalledVersions majors) =
     ''target CUDA major is not observable and installed CUPTI majors '' @ render_majors majors @ '' are ambiguous''"
| "compat_error_display (CUE_LibraryNotFound (Some major)) =
     ''libcupti.so.'' @ render_nat 10 (unat major) @ '' was not found''"
| "compat_error_display (CUE_LibraryNotFound None) = ''no supported libcupti.so.12 or libcupti.so.13 was found''"
| "compat_error_display (CUE_LinkerCache detail) = ''failed to inspect the dynamic linker cache: '' @ detail"
| "compat_error_display (CUE_Io path source) = ''failed to inspect '' @ path @ '': '' @ io_message source"

definition check_collectability :: "endpoint \<Rightarrow> string \<Rightarrow> validation_issue list" where
  "check_collectability endpoint name =
     (if ve_collectable (en_public endpoint) then []
      else [mk_issue EC_InvalidEventSelector
        (name @ '' selector '' @ ve_selector (en_public endpoint) @
         (if en_kind endpoint = EK_PythonGcStart \<or> en_kind endpoint = EK_PythonGcEnd
          then '' requires mapped CPython ELF metadata exposing python:gc__start and python:gc__done USDT probes''
          else '' is recognized but not collected by this build''))])"

definition is_tracepoint_kind :: "endpoint_kind \<Rightarrow> bool" where
  "is_tracepoint_kind kind =
     (case kind of EK_SyscallEntry _ \<Rightarrow> True | EK_SyscallExit _ \<Rightarrow> True | EK_Tracepoint \<Rightarrow> True | _ \<Rightarrow> False)"

definition missing_ebpf :: "capabilities \<Rightarrow> endpoint_kind \<Rightarrow> endpoint_kind \<Rightarrow> bool" where
  "missing_ebpf caps start end =
     (let needs_uprobe = (start = EK_HostEntry \<or> end = EK_HostEntry);
          needs_uretprobe = (start = EK_HostReturn \<or> end = EK_HostReturn);
          needs_usdt = (start \<in> {EK_PythonGcStart, EK_PythonGcEnd} \<or> end \<in> {EK_PythonGcStart, EK_PythonGcEnd});
          needs_tracepoint = (is_tracepoint_kind start \<or> is_tracepoint_kind end) in
      (needs_uprobe \<or> needs_usdt) \<and> \<not> cap_uprobe caps \<or> needs_uretprobe \<and> \<not> cap_uretprobe caps \<or>
      needs_tracepoint \<and> \<not> cap_tracepoint caps)"

definition check_capabilities ::
  "process_report \<Rightarrow> endpoint \<Rightarrow> endpoint \<Rightarrow> validation_requirements \<Rightarrow> validation_issue list \<times> warning list" where
  "check_capabilities report start end requirements =
     (let activation = vr_agent_activation requirements; caps = pr_capabilities report;
          running = (activation = AA_NotRequired \<or> activation = AA_AlreadyLoaded) in
      ((if vr_needs_ebpf requirements \<and> missing_ebpf caps (en_kind start) (en_kind end)
        then [mk_issue EC_PermissionDenied ''required eBPF probe capability is unavailable''] else []) @
       (if activation = AA_StartupRequired
        then [mk_issue EC_CuptiAgentNotLoaded ''NVTX ranges cannot be enabled by online attach after NVTX initialization; restart the target with NVTX_INJECTION64_PATH set to the xprobe CUPTI agent'']
        else []) @
       (if running \<and> vr_needs_cupti_callback requirements \<and> \<not> cap_cuda_callback caps
        then [mk_issue EC_CuptiNotAvailable ''CUPTI callback collection is unavailable for the target''] else []) @
       (if running \<and> vr_needs_cupti_activity requirements \<and> \<not> cap_cuda_activity caps
        then [mk_issue EC_CuptiNotAvailable ''CUPTI activity collection is unavailable for the target''] else []),
       (if activation = AA_InjectionRequired
        then [mk_warning ''TARGET_PROCESS_WILL_BE_MODIFIED''
                ''measure must inject the xprobe CUPTI agent into the target process''] else [])))"

definition check_cupti_compatibility :: "process_report \<Rightarrow> validation_requirements \<Rightarrow> validation_issue list" where
  "check_cupti_compatibility report requirements =
     (if \<not> vr_needs_cupti requirements then []
      else (case target_major report of
              Err error \<Rightarrow> [mk_issue (compat_error_code error) (compat_error_display error)]
            | _ \<Rightarrow> []))"

definition check_policy ::
  "endpoint \<Rightarrow> endpoint \<Rightarrow> match_policy \<Rightarrow> (validation_issue list \<times> warning list, validate_error) rresult" where
  "check_policy start end policy =
     (case policy of
        MP_Exact \<Rightarrow>
          Ok (if \<not> kinds_support_exact (en_kind start) (en_kind end)
              then [mk_issue EC_InvalidCorrelationPolicy
                ''exact matching requires endpoints that share a deterministic correlation key''] else [], [])
      | MP_FirstAfter \<Rightarrow>
          Ok ([], [mk_warning ''HEURISTIC_CORRELATION'' ''first-after matching does not prove request-level causality''])
      | MP_Nearest \<Rightarrow>
          Ok ([], [mk_warning ''HEURISTIC_CORRELATION'' ''nearest-event matching does not prove request-level causality''])
      | MP_StackNested \<Rightarrow>
          rbind (endpoints_support_stack_nested start end) (\<lambda>nested.
          Ok (if \<not> nested
              then [mk_issue EC_InvalidCorrelationPolicy
                ''stack-nested matching requires entry and return probes for the same host function''] else [], []))
      | MP_StreamOrder \<Rightarrow>
          Ok (if \<not> supports_stream_order (en_kind start) (en_kind end)
              then [mk_issue EC_InvalidCorrelationPolicy
                ''stream-order matching requires two GPU activity endpoints''] else [], []))"

definition check_selector_breadth :: "endpoint \<Rightarrow> string \<Rightarrow> warning list" where
  "check_selector_breadth endpoint name =
     (if en_kind endpoint = EK_Kernel \<and>
         (case ve_cuda (en_public endpoint) of
            None \<Rightarrow> False
          | Some cuda \<Rightarrow>
              (case rc_kernel_name_regex cuda of
                 None \<Rightarrow> True
               | Some pattern \<Rightarrow> pattern = ''.*'' \<or> pattern = ''^.*$''))
      then [mk_warning ''BROAD_EVENT_SELECTOR'' (name @ '' selector matches every CUDA kernel activity'')] else [])"

definition requirements_for :: "process_report \<Rightarrow> endpoint_kind \<Rightarrow> endpoint_kind \<Rightarrow> validation_requirements" where
  "requirements_for report start end =
     (let needs_cupti_callback = (needs_callback start \<or> needs_callback end);
          needs_cupti_activity = (needs_activity start \<or> needs_activity end);
          nvtx = (needs_nvtx start \<or> needs_nvtx end);
          needs_cupti = (needs_cupti_callback \<or> needs_cupti_activity);
          activation =
            (if \<not> needs_cupti then AA_NotRequired
             else if pcu_xprobe_cupti_loaded (pr_cuda report) then AA_AlreadyLoaded
             else if nvtx then AA_StartupRequired else AA_InjectionRequired) in
      \<lparr>vr_needs_ebpf = (is_host start \<or> is_host end), vr_needs_cupti = needs_cupti,
       vr_needs_cupti_callback = needs_cupti_callback, vr_needs_cupti_activity = needs_cupti_activity,
       vr_needs_nvtx = nvtx, vr_needs_clock_alignment = (uses_host_clock start \<noteq> uses_host_clock end),
       vr_agent_activation = activation, vr_target_mutation = (activation = AA_InjectionRequired)\<rparr>)"

definition validate_run ::
  "os \<Rightarrow> 'rx regex_engine \<Rightarrow> process_report \<Rightarrow> string \<Rightarrow> string \<Rightarrow> string \<Rightarrow> (validation_result, validate_error) io" where
  "validate_run os eng report start_selector end_selector match_policy =
     io_bind (io_map_err VE_Inspect (verify_target os (pr_target report))) (\<lambda>_.
     io_bind (resolve_endpoint os eng report start_selector ''start'') (\<lambda>start.
     io_bind (resolve_endpoint os eng report end_selector ''end'') (\<lambda>end.
     io_bind (io_lift (parse_match_policy match_policy)) (\<lambda>policy.
     let requirements = requirements_for report (en_kind start) (en_kind end);
         capability = check_capabilities report start end requirements in
     io_bind (io_lift (check_policy start end policy)) (\<lambda>policy_checks.
     io_bind (io_lift (recommend_policy start end)) (\<lambda>recommendation.
     let issues =
           check_collectability start ''start'' @ check_collectability end ''end'' @ fst capability @
           check_cupti_compatibility report requirements @ fst policy_checks;
         warnings =
           snd capability @ snd policy_checks @ check_selector_breadth start ''start'' @
           check_selector_breadth end ''end'' in
     io_bind (io_map_err VE_Inspect (verify_target os (pr_target report))) (\<lambda>_.
     io_ok \<lparr>vd_schema_version = schema_current, vd_ok = True, vd_valid = (issues = []),
            vd_target = pr_target report, vd_start = en_public start, vd_end = en_public end,
            vd_match_policy = policy, vd_policy_recommendation = recommendation,
            vd_requirements = requirements, vd_issues = issues, vd_warnings = warnings\<rparr>)))))))"

end
