(* ===== verification/Agreement.thy ===== *)
theory Agreement
  imports Validate
begin

text \<open>
  Validation (\<open>xprobe/core/src/validate.rs\<close>) and correlation (\<open>xprobe/correlator/src/lib.rs\<close>) each parse
  selectors and each decide which policies fit: where the two agree, and where they do not.
\<close>

section \<open>Validation and correlation read selectors alike\<close>

fun selector_kind :: "'rx selector \<Rightarrow> endpoint_kind" where
  "selector_kind (S_Host event_type _ _ _) = (if event_type = ET_HostFunctionEntry then EK_HostEntry else EK_HostReturn)"
| "selector_kind (S_Syscall event_type name) =
     (if event_type = ET_SyscallEntry then EK_SyscallEntry name else EK_SyscallExit name)"
| "selector_kind (S_Tracepoint _ _) = EK_Tracepoint"
| "selector_kind (S_PythonGc event_type _) = (if event_type = ET_PythonGcStart then EK_PythonGcStart else EK_PythonGcEnd)"
| "selector_kind (S_Api _ domain name) = EK_CudaApi domain name"
| "selector_kind (S_Kernel _ _) = EK_Kernel"
| "selector_kind (S_Memcpy _ _) = EK_Memcpy"
| "selector_kind (S_Memset _) = EK_Memset"
| "selector_kind (S_Nvtx _ _ pattern) = EK_NvtxRange pattern"

lemma pattern_literal_eq: "pattern_literal p = regex_literal p"
  by (induction p rule: pattern_literal.induct) (auto split: list.splits)

lemma is_bounded_pattern_eq: "is_bounded_pattern p = is_bounded_name_regex p"
proof -
  have "(case Option.bind (Option.bind (strip_prefix a p) (strip_suffix b)) pattern_literal of
           None \<Rightarrow> False | Some literal \<Rightarrow> literal \<noteq> [] \<and> length literal < 128) = bounded_literal p (a, b)" for a b
    by (cases "strip_prefix a p"; cases "strip_suffix b (the (strip_prefix a p))")
      (simp_all add: bounded_literal_def pattern_literal_eq del: strip_prefix_Some_iff strip_suffix_Some_iff)
  then show ?thesis
    by (simp only: is_bounded_pattern_def is_bounded_name_regex_def name_regex_candidates_def case_prod_beta'
        list_ex_iff list.set bex_simps fst_conv snd_conv prod.case)
qed

lemma valid_component_eq: "valid_tracepoint_component = valid_linux_component"
  by (simp add: fun_eq_iff valid_tracepoint_component_def valid_linux_component_def)

text \<open>What the two readers of one selector must agree on.\<close>

definition reads_as :: "'rx parsed \<Rightarrow> endpoint_kind \<Rightarrow> event_type \<Rightarrow> bool" where
  "reads_as p kind event_type \<longleftrightarrow>
     (\<exists>sel. p = Ok sel \<and> selector_kind sel = kind \<and> selector_event_type sel = event_type)"

lemma reads_asI: "p = Ok sel \<Longrightarrow> selector_kind sel = kind \<Longrightarrow> selector_event_type sel = event_type \<Longrightarrow> reads_as p kind event_type"
  by (auto simp: reads_as_def)

lemma length3_iff: "length xs = 3 \<longleftrightarrow> (\<exists>a b c. xs = [a, b, c])"
  by (auto simp: length_Suc_conv eval_nat_numeral)

lemma length4_iff: "length xs = 4 \<longleftrightarrow> (\<exists>a b c d. xs = [a, b, c, d])"
  by (auto simp: length_Suc_conv eval_nat_numeral)

lemma linux_selector_agrees:
  assumes "parse_linux_selector text = Ok (linux, kind)"
  shows "reads_as (parse_syscall text :: 'rx parsed) kind (rl_event_type linux) \<or>
    reads_as (parse_tracepoint text :: 'rx parsed) kind (rl_event_type linux)"
  using assms
  by (auto simp: parse_linux_selector_def Let_def parse_syscall_def parse_tracepoint_def valid_component_eq
      length3_iff rust_simps reads_as_def split: if_splits)

lemma cuda_selectors_agree:
  "parse_kernel_selector eng (a # b # r) = Ok (c, k, d) \<Longrightarrow>
     reads_as (parse_kernel eng b (slice_get r 0)) k (rc_event_type c) \<and> d"
  "parse_memcpy_selector (a # b # r) = Ok (c, k, d) \<Longrightarrow>
     reads_as (parse_memcpy b (slice_get r 0)) k (rc_event_type c) \<and> d"
  "parse_memset_selector text (a # b # r) = Ok (c, k, d) \<Longrightarrow>
     reads_as (parse_memset text b (slice_get r 0)) k (rc_event_type c) \<and> d"
  "parse_nvtx_selector eng (a # b # r) = Ok (c, k, d) \<Longrightarrow>
     reads_as (parse_nvtx eng b (slice_get r 0)) k (rc_event_type c) \<and> d"
  by (auto simp: parse_kernel_selector_def parse_kernel_def parse_memcpy_selector_def parse_memcpy_def
      parse_memset_selector_def parse_memset_def parse_nvtx_selector_def parse_nvtx_def is_bounded_pattern_eq
      reads_as_def cuda_selector_def slice_get_def rust_simps split: if_splits option.splits sum.splits)

lemma api_selector_agrees:
  assumes "parse_api_selector text = Ok (c, k, d)" "splitn 3 CHR '':'' text = f0 # f1 # rest"
    "f1 = ''runtime_api'' \<or> f1 = ''driver_api''"
  shows "reads_as (parse_api text) k (rc_event_type c) \<and> d"
proof -
  from assms(1) obtain g0 domain name boundary where
    sp: "split_on CHR '':'' text = [g0, domain, name, boundary]" and
    res: "name \<noteq> []" "boundary = ''entry'' \<and> rc_event_type c = ET_CudaApiEntry \<or> boundary = ''exit'' \<and> rc_event_type c = ET_CudaApiExit"
      "k = EK_CudaApi domain name" "d = (domain = ''runtime_api'' \<or> domain = ''driver_api'')"
    by (auto simp: parse_api_selector_def Let_def length4_iff cuda_selector_def rust_simps split: if_splits)
  from sp have "text = g0 @ CHR '':'' # domain @ CHR '':'' # name @ CHR '':'' # boundary"
    and "CHR '':'' \<notin> set g0" "CHR '':'' \<notin> set domain"
    by (auto simp: split_on_Cons_iff)
  then have "f1 = domain" using assms(2) by (simp add: eval_nat_numeral del: splitn.simps)
  then show ?thesis using assms(3) res sp by (auto simp: parse_api_def reads_as_def)
qed

lemma cuda_selector_agrees:
  assumes "parse_cuda_selector eng text = Ok (c, k, d)"
    and "\<not> starts_with text ''uprobe:''" "\<not> starts_with text ''syscall:''" "\<not> starts_with text ''tracepoint:''"
      "\<not> starts_with text ''python:''"
  shows "reads_as (selector_parse eng text) k (rc_event_type c) \<and> d"
proof -
  from assms(1) obtain f1 rest where sp: "splitn 3 CHR '':'' text = ''cuda'' # f1 # rest"
    by (cases "splitn 3 CHR '':'' text" rule: remdups_adj.cases)
      (auto simp: parse_cuda_selector_def Let_def slice_get_def split: if_splits)
  let ?parts = "''cuda'' # f1 # rest"
  define A B C D E where
    "A \<longleftrightarrow> f1 = ''kernel_start'' \<or> f1 = ''kernel_end''" and "B \<longleftrightarrow> f1 = ''memcpy_start'' \<or> f1 = ''memcpy_end''"
    and "C \<longleftrightarrow> f1 = ''memset_start'' \<or> f1 = ''memset_end''"
    and "D \<longleftrightarrow> f1 = ''nvtx_range_start'' \<or> f1 = ''nvtx_range_end''"
    and E: "E \<longleftrightarrow> f1 = ''runtime_api'' \<or> f1 = ''driver_api''"
  note defs = this
  have disj: "E \<Longrightarrow> \<not> A \<and> \<not> B \<and> \<not> C \<and> \<not> D" unfolding defs by auto
  have v: "parse_cuda_selector eng text =
     (if A then parse_kernel_selector eng ?parts else if B then parse_memcpy_selector ?parts
      else if C then parse_memset_selector text ?parts else if D then parse_nvtx_selector eng ?parts
      else if E then parse_api_selector text else vsel_err (VR_CudaEvent f1))"
    by (simp add: parse_cuda_selector_def sp slice_get_def defs)
  have s: "selector_parse eng text =
     (if E then parse_api text else if A then parse_kernel eng f1 (slice_get rest 0)
      else if B then parse_memcpy f1 (slice_get rest 0) else if C then parse_memset text f1 (slice_get rest 0)
      else if D then parse_nvtx eng f1 (slice_get rest 0) else sel_err (SR_EventNotPresent f1))"
    using assms(2-5) by (simp add: selector_parse_def sp Let_def defs)
  show ?thesis
    using assms(1) disj api_selector_agrees [OF _ sp E [THEN iffD1]] unfolding v s
    by (auto split: if_split_asm dest: cuda_selectors_agree)
qed


lemma host_parts_agree:
  "parse_probe_boundary boundary = Ok b \<Longrightarrow> parse_host_boundary boundary =
     Ok (case b of PB_Entry \<Rightarrow> ET_HostFunctionEntry | PB_Return \<Rightarrow> ET_HostFunctionExit,
         case b of PB_Entry \<Rightarrow> HP_Uprobe | PB_Return \<Rightarrow> HP_Uretprobe)"
  "parse_probe_target target = Ok tg \<Longrightarrow>
     parse_host_target target = Ok (case tg of PT_Symbol s \<Rightarrow> HT_Symbol s | PT_FileOffset off \<Rightarrow> HT_Offset off)"
  by (auto simp: parse_probe_boundary_def parse_host_boundary_def parse_probe_target_def parse_host_target_def
      ok_or_def rust_simps split: if_splits option.splits)

lemma host_selector_agrees:
  assumes "parse_probe_selector text = Ok sel"
  shows "starts_with text ''uprobe:''" "parse_host text =
    Ok (S_Host (case ps_boundary sel of PB_Entry \<Rightarrow> ET_HostFunctionEntry | PB_Return \<Rightarrow> ET_HostFunctionExit)
          (case ps_boundary sel of PB_Entry \<Rightarrow> HP_Uprobe | PB_Return \<Rightarrow> HP_Uretprobe) (ps_binary sel)
          (case ps_target sel of PT_Symbol s \<Rightarrow> HT_Symbol s | PT_FileOffset off \<Rightarrow> HT_Offset off))"
proof -
  from assms [unfolded parse_probe_selector_def case_prod_beta]
  obtain rest bt b parts tg where f: "ok_or (strip_prefix ''uprobe:'' text) (RE_InvalidSelector ''expected uprobe: prefix'') = Ok rest"
    "ok_or (rsplit_once (CHR '':'') rest) (RE_InvalidSelector ''expected :entry or :return suffix'') = Ok bt"
    "parse_probe_boundary (snd bt) = Ok b"
    "(case split_once '':symbol='' (fst bt) of Some parts \<Rightarrow> Ok parts
        | None \<Rightarrow> ok_or (rsplit_once (CHR '':'') (fst bt)) (RE_InvalidSelector ''expected binary path and symbol or offset'')) =
      Ok parts"
    "\<not> (fst parts = [] \<or> snd parts = [])" "parse_probe_target (snd parts) = Ok tg"
    "Ok \<lparr>ps_binary = fst parts, ps_target = tg, ps_boundary = b\<rparr> = (Ok sel :: (probe_selector, resolve_error) rresult)"
    apply (elim rbind_OkE guard_OkE)
    apply (rule that)
    apply assumption+
    done
  have r: "strip_prefix ''uprobe:'' text = Some rest" "rsplit_once (CHR '':'') rest = Some bt"
    using f(1,2) by (simp_all add: ok_or_def split: option.splits del: strip_prefix_Some_iff rsplit_once_Some_iff)
  have s: "split_binary_target (fst bt) = Some parts"
    using f(4) by (auto simp: split_binary_target_def ok_or_def split: option.splits simp del: rsplit_once_Some_iff)
  show "starts_with text ''uprobe:''" using r(1) by (simp add: starts_with_iff)
  show "parse_host text =
    Ok (S_Host (case ps_boundary sel of PB_Entry \<Rightarrow> ET_HostFunctionEntry | PB_Return \<Rightarrow> ET_HostFunctionExit)
          (case ps_boundary sel of PB_Entry \<Rightarrow> HP_Uprobe | PB_Return \<Rightarrow> HP_Uretprobe) (ps_binary sel)
          (case ps_target sel of PT_Symbol s \<Rightarrow> HT_Symbol s | PT_FileOffset off \<Rightarrow> HT_Offset off))"
    using f(5,7) unfolding parse_host_def case_prod_beta
    by (auto simp only: r s expect_def ok_or_def option.case rbind.simps host_parts_agree(1) [OF f(3)]
      host_parts_agree(2) [OF f(6)] fst_conv snd_conv if_False rresult.inject probe_selector.select_convs)
qed

lemma if_OkE: "(if b then x else y) = Ok z \<Longrightarrow> (x = Ok z \<Longrightarrow> P) \<Longrightarrow> (y = Ok z \<Longrightarrow> P) \<Longrightarrow> P"
  by (cases b) auto

lemma cuda_parser_kinds:
  "parse_kernel_selector eng ps = Ok (c, k, d) \<Longrightarrow> needs_activity k"
  "parse_memcpy_selector ps = Ok (c, k, d) \<Longrightarrow> needs_activity k"
  "parse_memset_selector text ps = Ok (c, k, d) \<Longrightarrow> needs_activity k"
  "parse_nvtx_selector eng ps = Ok (c, k, d) \<Longrightarrow> needs_callback k"
  "parse_api_selector text = Ok (c, k, d) \<Longrightarrow> needs_callback k"
  by (auto simp: parse_kernel_selector_def parse_memcpy_selector_def parse_memset_selector_def parse_nvtx_selector_def
      parse_api_selector_def Let_def rust_simps split: if_splits sum.splits)

lemma endpoint_kinds:
  "parse_linux_selector text = Ok (linux, k) \<Longrightarrow> is_tracepoint_kind k"
  "parse_cuda_selector eng text = Ok (c, k, d) \<Longrightarrow> needs_callback k \<or> needs_activity k"
proof -
  show "parse_linux_selector text = Ok (linux, k) \<Longrightarrow> is_tracepoint_kind k"
    by (auto simp: parse_linux_selector_def Let_def is_tracepoint_kind_def rust_simps split: if_splits)
  show "parse_cuda_selector eng text = Ok (c, k, d) \<Longrightarrow> needs_callback k \<or> needs_activity k"
    unfolding parse_cuda_selector_def Let_def by (elim if_OkE) (simp_all add: cuda_parser_kinds)
qed

lemma linux_prefixes:
  "reads_as (parse_syscall text) k e \<Longrightarrow> starts_with text ''syscall:''"
  "reads_as (parse_tracepoint text) k e \<Longrightarrow> starts_with text ''tracepoint:''"
  by (auto simp: reads_as_def parse_syscall_def parse_tracepoint_def split_on_Cons_iff starts_with_iff
      split: list.splits if_splits)

lemma prefixes_exclusive:
  "starts_with text ''syscall:'' \<Longrightarrow> \<not> starts_with text ''uprobe:'' \<and> \<not> starts_with text ''tracepoint:''"
  "starts_with text ''tracepoint:'' \<Longrightarrow> \<not> starts_with text ''uprobe:'' \<and> \<not> starts_with text ''syscall:''"
  "starts_with text ''python:'' \<Longrightarrow>
     \<not> starts_with text ''uprobe:'' \<and> \<not> starts_with text ''syscall:'' \<and> \<not> starts_with text ''tracepoint:''"
  by (auto simp: starts_with_iff)

text \<open>Every endpoint that validation resolves is a selector of the correlator, of the same kind and event type.
  Only a Python endpoint can be resolved without being collectable.\<close>

definition endpoint_ok :: "'rx regex_engine \<Rightarrow> string \<Rightarrow> endpoint \<Rightarrow> bool" where
  "endpoint_ok eng text ep \<longleftrightarrow>
     reads_as (selector_parse eng text) (en_kind ep) (ve_event_type (en_public ep)) \<and>
     ve_selector (en_public ep) = text \<and>
     (ve_collectable (en_public ep) \<or> en_kind ep \<in> {EK_PythonGcStart, EK_PythonGcEnd}) \<and>
     (en_kind ep \<in> {EK_HostEntry, EK_HostReturn} \<longleftrightarrow> ve_host (en_public ep) \<noteq> None)"

lemma host_endpoint_ok:
  assumes "resolve_run os report text t = (Ok host, t')"
  shows "reads_as (selector_parse eng text)
      (if rp_probe_kind host = HP_Uprobe then EK_HostEntry else EK_HostReturn)
      (if rp_probe_kind host = HP_Uprobe then ET_HostFunctionEntry else ET_HostFunctionExit)"
    "rp_probe_kind host = HP_Uprobe \<or> rp_probe_kind host = HP_Uretprobe"
proof -
  obtain sel where sel: "parse_probe_selector text = Ok sel"
    "rp_probe_kind host = (case ps_boundary sel of PB_Entry \<Rightarrow> HP_Uprobe | PB_Return \<Rightarrow> HP_Uretprobe)"
    using assms by (rule resolve_run_facts) (rule that)
  show "reads_as (selector_parse eng text)
      (if rp_probe_kind host = HP_Uprobe then EK_HostEntry else EK_HostReturn)
      (if rp_probe_kind host = HP_Uprobe then ET_HostFunctionEntry else ET_HostFunctionExit)"
    using host_selector_agrees [OF sel(1)]
    by (cases "ps_boundary sel") (auto simp: reads_as_def selector_parse_def sel(2))
  show "rp_probe_kind host = HP_Uprobe \<or> rp_probe_kind host = HP_Uretprobe"
    by (simp add: sel(2) split: probe_boundary.split)
qed

lemma linux_endpoint_ok:
  assumes "parse_linux_selector text = Ok (linux, k)"
  shows "reads_as (selector_parse eng text) k (rl_event_type linux)"
  using linux_selector_agrees [OF assms, where ?'rx = 'a]
  by (auto simp: selector_parse_def dest: linux_prefixes prefixes_exclusive)

lemma python_endpoint_ok:
  assumes "parse_python_selector os report text t = (Ok (linux, k, c), t')"
  shows "reads_as (selector_parse eng text) k (rl_event_type linux)" "k \<in> {EK_PythonGcStart, EK_PythonGcEnd}"
proof -
  from assms have "text = ''python:gc_start'' \<and> k = EK_PythonGcStart \<and> rl_event_type linux = ET_PythonGcStart \<or>
      text = ''python:gc_end'' \<and> k = EK_PythonGcEnd \<and> rl_event_type linux = ET_PythonGcEnd"
    by (auto simp: parse_python_selector_def io_simps split: if_splits)
  then show "reads_as (selector_parse eng text) k (rl_event_type linux)" "k \<in> {EK_PythonGcStart, EK_PythonGcEnd}"
    by (auto simp: reads_as_def selector_parse_def parse_python_def starts_with_def)
qed

lemma not_host_kinds:
  "is_tracepoint_kind k \<Longrightarrow> k \<notin> {EK_HostEntry, EK_HostReturn}"
  "needs_callback k \<or> needs_activity k \<Longrightarrow> k \<notin> {EK_HostEntry, EK_HostReturn}"
  "k \<in> {EK_PythonGcStart, EK_PythonGcEnd} \<Longrightarrow> k \<notin> {EK_HostEntry, EK_HostReturn}"
  by (auto simp: is_tracepoint_kind_def)

lemma resolve_endpoint_ok:
  assumes "resolve_endpoint os eng report text which t = (Ok ep, t')"
  shows "endpoint_ok eng text ep"
proof -
  consider (host) "starts_with text ''uprobe:''"
    | (linux) "\<not> starts_with text ''uprobe:''" "starts_with text ''syscall:'' \<or> starts_with text ''tracepoint:''"
    | (python) "\<not> starts_with text ''uprobe:''" "\<not> (starts_with text ''syscall:'' \<or> starts_with text ''tracepoint:'')"
        "starts_with text ''python:''"
    | (cuda) "\<not> starts_with text ''uprobe:''" "\<not> (starts_with text ''syscall:'' \<or> starts_with text ''tracepoint:'')"
        "\<not> starts_with text ''python:''"
    by blast
  then show ?thesis
  proof cases
    case host
    with assms obtain h t1 where h: "resolve_run os report text t = (Ok h, t1)" and
      ep: "ep = \<lparr>en_public = \<lparr>ve_selector = text, ve_source = EP_Host,
             ve_event_type = (if rp_probe_kind h = HP_Uprobe then ET_HostFunctionEntry else ET_HostFunctionExit),
             ve_collectable = True, ve_host = Some h, ve_linux = None, ve_cuda = None\<rparr>,
           en_kind = (if rp_probe_kind h = HP_Uprobe then EK_HostEntry else EK_HostReturn)\<rparr>"
      by (auto simp: resolve_endpoint_def io_simps split: if_splits)
    show ?thesis using host_endpoint_ok(1) [OF h, of eng] by (simp add: endpoint_ok_def ep)
  next
    case linux
    with assms obtain l k where l: "parse_linux_selector text = Ok (l, k)" and
      ep: "ep = \<lparr>en_public = \<lparr>ve_selector = text, ve_source = EP_Host, ve_event_type = rl_event_type l,
             ve_collectable = True, ve_host = None, ve_linux = Some l, ve_cuda = None\<rparr>, en_kind = k\<rparr>"
      by (auto simp: resolve_endpoint_def io_simps)
    show ?thesis
      using linux_endpoint_ok [OF l, of eng] not_host_kinds(1) [OF endpoint_kinds(1) [OF l]] by (simp add: endpoint_ok_def ep)
  next
    case python
    with assms obtain l k c t1 where l: "parse_python_selector os report text t = (Ok (l, k, c), t1)" and
      ep: "ep = \<lparr>en_public = \<lparr>ve_selector = text, ve_source = EP_Host, ve_event_type = rl_event_type l,
             ve_collectable = c, ve_host = None, ve_linux = Some l, ve_cuda = None\<rparr>, en_kind = k\<rparr>"
      by (auto simp: resolve_endpoint_def io_simps)
    show ?thesis
      using python_endpoint_ok(1) [OF l, of eng] python_endpoint_ok(2) [OF l] not_host_kinds(3) [of k] by (simp add: endpoint_ok_def ep)
  next
    case cuda
    with assms obtain c k d where c: "parse_cuda_selector eng text = Ok (c, k, d)" and
      ep: "ep = \<lparr>en_public = \<lparr>ve_selector = text, ve_source = EP_Cuda, ve_event_type = rc_event_type c,
             ve_collectable = d, ve_host = None, ve_linux = None, ve_cuda = Some c\<rparr>, en_kind = k\<rparr>"
      by (auto simp: resolve_endpoint_def io_simps)
    show ?thesis
      using cuda_selector_agrees [OF c] not_host_kinds(2) [OF endpoint_kinds(2) [OF c]] cuda
      by (simp add: endpoint_ok_def ep)
  qed
qed

lemma validate_run_facts:
  assumes "validate_run os eng report start_text end_text policy_text t = (Ok r, t')"
  obtains start stop checks where
    "fst (verify_target os (pr_target report) t) = Ok ()"
    "\<exists>t0. verify_target os (pr_target report) t0 = (Ok (), t')"
    "endpoint_ok eng start_text start" "endpoint_ok eng end_text stop"
    "vd_start r = en_public start" "vd_end r = en_public stop"
    "parse_match_policy policy_text = Ok (vd_match_policy r)"
    "vd_requirements r = requirements_for report (en_kind start) (en_kind stop)"
    "check_policy start stop (vd_match_policy r) = Ok checks"
    "recommend_policy start stop = Ok (vd_policy_recommendation r)"
    "vd_issues r = check_collectability start ''start'' @ check_collectability stop ''end'' @
       fst (check_capabilities report start stop (vd_requirements r)) @
       check_cupti_compatibility report (vd_requirements r) @ fst checks"
    "vd_valid r = (vd_issues r = [])"
    "vd_warnings r = snd (check_capabilities report start stop (vd_requirements r)) @ snd checks @
       check_selector_breadth start ''start'' @ check_selector_breadth stop ''end''"
    "\<exists>t1 t2. resolve_endpoint os eng report start_text ''start'' t1 = (Ok start, t2)"
    "\<exists>t1 t2. resolve_endpoint os eng report end_text ''end'' t1 = (Ok stop, t2)"
proof -
  from assms [unfolded validate_run_def Let_def]
  obtain u1 u2 :: unit and t1 t2 t3 t4 start stop policy checks recommendation where
    v: "io_map_err VE_Inspect (verify_target os (pr_target report)) t = (Ok u1, t1)"
    and s: "resolve_endpoint os eng report start_text ''start'' t1 = (Ok start, t2)"
    and e: "resolve_endpoint os eng report end_text ''end'' t2 = (Ok stop, t3)"
    and pol: "parse_match_policy policy_text = Ok policy"
    and chk: "check_policy start stop policy = Ok checks"
    and rec: "recommend_policy start stop = Ok recommendation"
    and v': "io_map_err VE_Inspect (verify_target os (pr_target report)) t4 = (Ok u2, t')"
    and r: "vd_start r = en_public start" "vd_end r = en_public stop" "vd_match_policy r = policy"
      "vd_requirements r = requirements_for report (en_kind start) (en_kind stop)"
      "vd_policy_recommendation r = recommendation"
      "vd_issues r = check_collectability start ''start'' @ check_collectability stop ''end'' @
         fst (check_capabilities report start stop (requirements_for report (en_kind start) (en_kind stop))) @
         check_cupti_compatibility report (requirements_for report (en_kind start) (en_kind stop)) @ fst checks"
      "vd_valid r = (vd_issues r = [])"
      "vd_warnings r = snd (check_capabilities report start stop (requirements_for report (en_kind start) (en_kind stop))) @
         snd checks @ check_selector_breadth start ''start'' @ check_selector_breadth stop ''end''"
    apply (elim io_bind_OkE)
    apply (simp only: io_lift_apply prod.inject rresult.inject)
    apply (elim conjE, hypsubst, rule that)
    apply assumption+
    apply simp_all
    done
  show thesis
    using v v' pol chk rec r s e resolve_endpoint_ok [OF s] resolve_endpoint_ok [OF e]
    by (intro that [of start stop checks]) (auto simp: io_simps)
qed

interpretation vg: target_guard "pr_target report" "\<lambda>os. validate_run os eng report start_text end_text policy_text"
  for eng report start_text end_text policy_text
  by unfold_locales (auto elim!: validate_run_facts)

section \<open>Policies\<close>

text \<open>The two gaps between the readers: validation compares the patterns of two NVTX endpoints but not their order,
  and the resolved place of two host endpoints but not their text.\<close>

definition nvtx_disordered :: "'rx selector \<Rightarrow> 'rx selector \<Rightarrow> bool" where
  "nvtx_disordered s e \<longleftrightarrow>
     (case (s, e) of
        (S_Nvtx start_type _ _, S_Nvtx end_type _ _) \<Rightarrow> \<not> (start_type = ET_NvtxRangeStart \<and> end_type = ET_NvtxRangeEnd)
      | _ \<Rightarrow> False)"

definition host_texts_differ :: "'rx selector \<Rightarrow> 'rx selector \<Rightarrow> bool" where
  "host_texts_differ s e \<longleftrightarrow>
     (case (s, e) of
        (S_Host _ _ b tg, S_Host _ _ b' tg') \<Rightarrow> \<not> (b = b' \<and> tg = tg')
      | _ \<Rightarrow> False)"

lemma exact_kinds_supported:
  assumes "kinds_support_exact (selector_kind s) (selector_kind e)" "wf_selector eng s" "wf_selector eng e"
  shows "supports_exact s e \<or> nvtx_disordered s e"
  using assms by (cases s; cases e) (auto simp: nvtx_disordered_def split: if_splits)

lemma nested_kinds_supported:
  assumes "selector_kind s = EK_HostEntry" "selector_kind e = EK_HostReturn" "wf_selector eng s" "wf_selector eng e"
  shows "supports_stack_nested s e \<or> host_texts_differ s e"
  using assms by (cases s; cases e) (auto simp: host_texts_differ_def split: if_splits)

lemma stream_kinds_supported: "needs_activity (selector_kind s) \<longleftrightarrow> is_gpu_activity s"
  by (cases s) auto

lemma recommend_policy_cases:
  assumes "recommend_policy start stop = Ok rec" "p \<in> set (po_compatible_policies rec)"
  shows "p = MP_StackNested \<and> en_kind start = EK_HostEntry \<and> en_kind stop = EK_HostReturn \<or>
    p = MP_Exact \<and> kinds_support_exact (en_kind start) (en_kind stop) \<or>
    p = MP_StreamOrder \<and> supports_stream_order (en_kind start) (en_kind stop) \<or> p = MP_FirstAfter \<or> p = MP_Nearest"
  using assms
  by (auto simp: recommend_policy_def endpoints_support_stack_nested_def rust_simps Let_def split: if_splits)

lemma recommend_policy_member: "recommend_policy start stop = Ok rec \<Longrightarrow> po_policy rec \<in> set (po_compatible_policies rec)"
  by (auto simp: recommend_policy_def rust_simps Let_def split: if_splits)

lemma check_policy_compatible:
  assumes "check_policy start stop p = Ok ([], ws)" "recommend_policy start stop = Ok rec"
  shows "p \<in> set (po_compatible_policies rec)"
  using assms
  by (cases p) (auto simp: check_policy_def recommend_policy_def rust_simps Let_def split: if_splits)


section \<open>Valid results\<close>

fun probe_capability :: "event_type \<Rightarrow> capabilities \<Rightarrow> bool" where
  "probe_capability ET_HostFunctionEntry caps = cap_uprobe caps"
| "probe_capability ET_HostFunctionExit caps = cap_uretprobe caps"
| "probe_capability ET_PythonGcStart caps = cap_uprobe caps"
| "probe_capability ET_PythonGcEnd caps = cap_uprobe caps"
| "probe_capability ET_SyscallEntry caps = cap_tracepoint caps"
| "probe_capability ET_SyscallExit caps = cap_tracepoint caps"
| "probe_capability ET_Tracepoint caps = cap_tracepoint caps"
| "probe_capability _ caps = True"

lemma capability_of_kind:
  assumes "wf_selector eng s" "is_host (selector_kind s) \<Longrightarrow> \<not> missing_ebpf caps (selector_kind s) k \<or> \<not> missing_ebpf caps k (selector_kind s)"
  shows "probe_capability (selector_event_type s) caps"
  using assms by (cases s) (auto simp: missing_ebpf_def is_tracepoint_kind_def Let_def split: if_splits)

text \<open>What stands behind a collectable Python endpoint.\<close>

definition python_probe_found :: "os \<Rightarrow> validated_endpoint \<Rightarrow> bool" where
  "python_probe_found os ep \<longleftrightarrow>
     (ve_event_type ep \<in> {ET_PythonGcStart, ET_PythonGcEnd} \<longrightarrow>
        (\<exists>linux binary t0 names t1. ve_linux ep = Some linux \<and> rl_binary_path linux = Some binary \<and>
           stap_probe_names os binary t0 = (Ok names, t1) \<and> has_gc_probes names))"

lemma python_endpoint_prefix:
  assumes "resolve_endpoint os eng report text which t = (Ok ep, t')" "\<not> starts_with text ''python:''"
  shows "en_kind ep \<notin> {EK_PythonGcStart, EK_PythonGcEnd}"
proof -
  have "is_tracepoint_kind k \<Longrightarrow> k \<notin> {EK_PythonGcStart, EK_PythonGcEnd}"
    "needs_callback k \<or> needs_activity k \<Longrightarrow> k \<notin> {EK_PythonGcStart, EK_PythonGcEnd}" for k
    by (auto simp: is_tracepoint_kind_def)
  with assms show ?thesis
    by (auto simp: resolve_endpoint_def io_simps split: if_splits dest!: endpoint_kinds)
qed

lemma python_kind_iff:
  "wf_selector eng s \<Longrightarrow> selector_event_type s \<in> {ET_PythonGcStart, ET_PythonGcEnd} \<longleftrightarrow>
     selector_kind s \<in> {EK_PythonGcStart, EK_PythonGcEnd}"
  by (cases s) auto

lemma endpoint_python_probe:
  assumes "resolve_endpoint os eng report text which t = (Ok ep, t')" "ve_collectable (en_public ep)"
  shows "python_probe_found os (en_public ep)"
proof (cases "starts_with text ''python:''")
  case True
  note ex = prefixes_exclusive(3) [OF True]
  from assms ex True obtain linux k t1 where p: "parse_python_selector os report text t = (Ok (linux, k, True), t1)"
    and ep: "ve_linux (en_public ep) = Some linux"
    by (auto simp: resolve_endpoint_def io_simps)
  from p obtain binary t2 t3 where "find_python_gc_probes os report t2 = (Ok (Some binary), t3)"
    "rl_binary_path linux = Some binary"
    by (auto simp: parse_python_selector_def io_simps)
  with find_python_gc_probes_Some(2) ep show ?thesis by (fastforce simp: python_probe_found_def)
next
  case False
  from resolve_endpoint_ok [OF assms(1)] obtain s where s: "selector_parse eng text = Ok s"
    "selector_event_type s = ve_event_type (en_public ep)" "selector_kind s = en_kind ep"
    by (auto simp: endpoint_ok_def reads_as_def)
  show ?thesis
    using python_kind_iff [OF selector_parse_wf [OF s(1)]] python_endpoint_prefix [OF assms(1) False] s
    by (auto simp: python_probe_found_def)
qed

lemma no_issues:
  "check_collectability ep which = [] \<Longrightarrow> ve_collectable (en_public ep)"
  "fst (check_capabilities report start stop q) = [] \<Longrightarrow>
     (vr_needs_ebpf q \<longrightarrow> \<not> missing_ebpf (pr_capabilities report) (en_kind start) (en_kind stop)) \<and>
     vr_agent_activation q \<noteq> AA_StartupRequired"
  "check_cupti_compatibility report q = [] \<Longrightarrow> vr_needs_cupti q \<Longrightarrow> \<exists>m. target_major report = Ok m"
  using target_major_spec(1) [of "pr_loaded_libraries report"]
  by (auto simp: check_collectability_def check_capabilities_def check_cupti_compatibility_def target_major_def Let_def
      split: if_splits rresult.splits)

lemma requirements_mutation:
  assumes "vr_agent_activation (requirements_for report start stop) \<noteq> AA_StartupRequired"
  shows "vr_target_mutation (requirements_for report start stop) \<longleftrightarrow>
      vr_needs_cupti (requirements_for report start stop) \<and> \<not> pcu_xprobe_cupti_loaded (pr_cuda report)"
    "vr_needs_nvtx (requirements_for report start stop) \<Longrightarrow> pcu_xprobe_cupti_loaded (pr_cuda report)"
    "vr_target_mutation (requirements_for report start stop) \<Longrightarrow>
      vr_agent_activation (requirements_for report start stop) = AA_InjectionRequired"
  using assms by (auto simp: requirements_for_def Let_def split: if_splits elim!: needs_nvtx.elims)

text \<open>C26: A valid result means the measurement can be collected. Both endpoints are collectable and the privileges
  for their host probes are there; a Python endpoint has a mapped binary with both collection probes. If a CUDA
  endpoint is involved, the CUDA version of the target is unambiguous and supported; NVTX ranges are only valid with
  the agent already in the target; and the result announces a mutation of the target exactly when the agent is
  needed and not loaded, then with a warning. The process was the one of the report at the first and last access.\<close>

theorem valid_result_collectable:
  assumes "validate_run os eng report start_text end_text policy_text t = (Ok r, t')" "vd_valid r"
  shows "(\<forall>ep \<in> {vd_start r, vd_end r}. ve_collectable ep \<and> probe_capability (ve_event_type ep) (pr_capabilities report) \<and>
       python_probe_found os ep) \<and>
    (vr_needs_cupti (vd_requirements r) \<longrightarrow> (\<exists>m. target_major report = Ok m)) \<and>
    (vr_needs_nvtx (vd_requirements r) \<longrightarrow> pcu_xprobe_cupti_loaded (pr_cuda report)) \<and>
    (vr_target_mutation (vd_requirements r) \<longleftrightarrow>
       vr_needs_cupti (vd_requirements r) \<and> \<not> pcu_xprobe_cupti_loaded (pr_cuda report)) \<and>
    (vr_target_mutation (vd_requirements r) \<longrightarrow> ''TARGET_PROCESS_WILL_BE_MODIFIED'' \<in> wn_code ` set (vd_warnings r)) \<and>
    start_time_at os t (ti_pid (pr_target report)) = Some (ti_process_start_time (pr_target report)) \<and>
    start_time_at os (t' - 1) (ti_pid (pr_target report)) = Some (ti_process_start_time (pr_target report))"
proof -
  from assms(1) obtain start stop checks where
    ok: "endpoint_ok eng start_text start" "endpoint_ok eng end_text stop"
    and pub: "vd_start r = en_public start" "vd_end r = en_public stop"
    and req: "vd_requirements r = requirements_for report (en_kind start) (en_kind stop)"
    and issues: "vd_issues r = check_collectability start ''start'' @ check_collectability stop ''end'' @
       fst (check_capabilities report start stop (vd_requirements r)) @
       check_cupti_compatibility report (vd_requirements r) @ fst checks" "vd_valid r = (vd_issues r = [])"
    and warnings: "vd_warnings r = snd (check_capabilities report start stop (vd_requirements r)) @ snd checks @
       check_selector_breadth start ''start'' @ check_selector_breadth stop ''end''"
    and run: "\<exists>t1 t2. resolve_endpoint os eng report start_text ''start'' t1 = (Ok start, t2)"
      "\<exists>t1 t2. resolve_endpoint os eng report end_text ''end'' t1 = (Ok stop, t2)"
    by (rule validate_run_facts) (rule that)
  let ?q = "requirements_for report (en_kind start) (en_kind stop)"
  have none: "check_collectability start ''start'' = []" "check_collectability stop ''end'' = []"
    "fst (check_capabilities report start stop ?q) = []" "check_cupti_compatibility report ?q = []"
    using assms(2) issues by (simp_all add: req)
  note coll = no_issues(1) [OF none(1)] no_issues(1) [OF none(2)] and quiet = no_issues(2) [OF none(3)]
  from ok obtain s e where s: "selector_parse eng start_text = Ok s" "selector_kind s = en_kind start"
      "selector_event_type s = ve_event_type (en_public start)"
    and e: "selector_parse eng end_text = Ok e" "selector_kind e = en_kind stop"
      "selector_event_type e = ve_event_type (en_public stop)"
    by (auto simp: endpoint_ok_def reads_as_def)
  have host: "is_host (en_kind start) \<or> is_host (en_kind stop) \<Longrightarrow> vr_needs_ebpf ?q"
    by (simp add: requirements_for_def Let_def)
  have caps: "probe_capability (ve_event_type (en_public start)) (pr_capabilities report)"
    "probe_capability (ve_event_type (en_public stop)) (pr_capabilities report)"
    using capability_of_kind [OF selector_parse_wf [OF s(1)], of "pr_capabilities report" "en_kind stop"]
      capability_of_kind [OF selector_parse_wf [OF e(1)], of "pr_capabilities report" "en_kind start"] quiet host s e
    by auto
  have python: "python_probe_found os (en_public start)" "python_probe_found os (en_public stop)"
    using run coll endpoint_python_probe by blast+
  note mutation = requirements_mutation [OF conjunct2 [OF quiet]]
  have "''TARGET_PROCESS_WILL_BE_MODIFIED'' \<in> wn_code ` set (vd_warnings r)" if "vr_target_mutation ?q"
    using mutation(3) [OF that] by (simp add: warnings req check_capabilities_def mk_warning_def)
  then show ?thesis
    using coll caps python no_issues(3) [OF none(4)] mutation(1,2) vg.same_process [OF assms(1)] by (simp add: pub req)
qed

definition any_regex :: "unit regex_engine" where
  "any_regex = \<lparr>rx_new = \<lambda>p. Inr (), rx_is_match = \<lambda>rx s. True\<rparr>"

lemma example_endpoint:
  "resolve_endpoint os any_regex report ''cuda:memset_start'' which t =
     (Ok \<lparr>en_public = \<lparr>ve_selector = ''cuda:memset_start'', ve_source = EP_Cuda, ve_event_type = ET_GpuMemsetStart,
         ve_collectable = True, ve_host = None, ve_linux = None, ve_cuda = Some (cuda_selector ET_GpuMemsetStart)\<rparr>,
       en_kind = EK_Memset\<rparr>, t)"
  "resolve_endpoint os any_regex report ''cuda:memset_end'' which t =
     (Ok \<lparr>en_public = \<lparr>ve_selector = ''cuda:memset_end'', ve_source = EP_Cuda, ve_event_type = ET_GpuMemsetEnd,
         ve_collectable = True, ve_host = None, ve_linux = None, ve_cuda = Some (cuda_selector ET_GpuMemsetEnd)\<rparr>,
       en_kind = EK_Memset\<rparr>, t)"
proof -
  have p: "parse_cuda_selector any_regex ''cuda:memset_start'' = Ok (cuda_selector ET_GpuMemsetStart, EK_Memset, True)"
    "parse_cuda_selector any_regex ''cuda:memset_end'' = Ok (cuda_selector ET_GpuMemsetEnd, EK_Memset, True)"
    by (simp_all add: parse_cuda_selector_def eval_nat_numeral slice_get_def parse_memset_selector_def)
  show "resolve_endpoint os any_regex report ''cuda:memset_start'' which t =
     (Ok \<lparr>en_public = \<lparr>ve_selector = ''cuda:memset_start'', ve_source = EP_Cuda, ve_event_type = ET_GpuMemsetStart,
         ve_collectable = True, ve_host = None, ve_linux = None, ve_cuda = Some (cuda_selector ET_GpuMemsetStart)\<rparr>,
       en_kind = EK_Memset\<rparr>, t)"
    "resolve_endpoint os any_regex report ''cuda:memset_end'' which t =
     (Ok \<lparr>en_public = \<lparr>ve_selector = ''cuda:memset_end'', ve_source = EP_Cuda, ve_event_type = ET_GpuMemsetEnd,
         ve_collectable = True, ve_host = None, ve_linux = None, ve_cuda = Some (cuda_selector ET_GpuMemsetEnd)\<rparr>,
       en_kind = EK_Memset\<rparr>, t)"
    by (simp_all add: resolve_endpoint_def starts_with_def p io_bind_def cuda_selector_def)
qed

lemma example_validation:
  "\<exists>r t'. validate_run example_target_host any_regex (example_report []) ''cuda:memset_start'' ''cuda:memset_end'' ''exact'' 0 =
     (Ok r, t') \<and> vd_valid r \<and> vd_match_policy r = MP_Exact \<and> vr_target_mutation (vd_requirements r)"
proof -
  have v: "verify_target example_target_host \<lparr>ti_pid = 42, ti_process_start_time = 7\<rparr> t = (Ok (), Suc t)" for t
    unfolding verify_target_Ok_iff by (simp add: example_start)
  have e: "pr_target (example_report []) = \<lparr>ti_pid = 42, ti_process_start_time = 7\<rparr>"
    "pr_capabilities (example_report []) = \<lparr>cap_uprobe = True, cap_uretprobe = True, cap_tracepoint = True,
        cap_cuda_callback = True, cap_cuda_activity = True, cap_runtime_injection = True\<rparr>"
    "\<not> pcu_xprobe_cupti_loaded (pr_cuda (example_report []))" "target_major (example_report []) = Ok None"
    by (simp_all add: example_report_def target_major_def target_major_from_libraries_def collect_majors_def
        collect_target_cupti_majors_def ordered_set_def map_filter_simps)
  show ?thesis
    by (simp add: validate_run_def Let_def io_bind_def io_map_err_def map_err_simps v e example_endpoint parse_match_policy_def
        check_policy_def recommend_policy_def endpoints_support_stack_nested_def requirements_for_def
        check_collectability_def check_capabilities_def check_cupti_compatibility_def)
qed


theorem valid_result_collectable_witness:
  "\<exists>r t'. validate_run example_target_host any_regex (example_report []) ''cuda:memset_start'' ''cuda:memset_end'' ''exact'' 0 =
       (Ok r, t') \<and> vd_valid r \<and> vr_needs_cupti (vd_requirements r) \<and>
     ''TARGET_PROCESS_WILL_BE_MODIFIED'' \<in> wn_code ` set (vd_warnings r)"
proof -
  obtain r t' where run: "validate_run example_target_host any_regex (example_report []) ''cuda:memset_start''
      ''cuda:memset_end'' ''exact'' 0 = (Ok r, t')" "vd_valid r" "vr_target_mutation (vd_requirements r)"
    using example_validation by blast
  from valid_result_collectable [OF run(1,2)] run show ?thesis by blast
qed

section \<open>Reversed NVTX endpoints\<close>

lemma splitn_nvtx:
  "CHR '':'' \<notin> set f \<Longrightarrow> splitn 3 CHR '':'' (''cuda:'' @ f @ '':name~'' @ p) = [''cuda'', f, ''name~'' @ p]"
  using splitn_append [of "CHR '':''" "''cuda''" 1 "f @ '':name~'' @ p"] splitn_append [of "CHR '':''" f 0 "''name~'' @ p"]
  by (simp add: eval_nat_numeral)

definition nvtx_endpoint :: "event_type \<Rightarrow> string \<Rightarrow> string \<Rightarrow> endpoint" where
  "nvtx_endpoint event_type text p =
     \<lparr>en_public = \<lparr>ve_selector = text, ve_source = EP_Cuda, ve_event_type = event_type, ve_collectable = True,
        ve_host = None, ve_linux = None, ve_cuda = Some ((cuda_selector event_type)\<lparr>rc_nvtx_name_regex := Some p\<rparr>)\<rparr>,
      en_kind = EK_NvtxRange p\<rparr>"

lemma nvtx_selector_reads:
  assumes "rx_new eng p = Inr rx" "is_bounded_name_regex p"
    and "(f, event_type) \<in> {(''nvtx_range_start'', ET_NvtxRangeStart), (''nvtx_range_end'', ET_NvtxRangeEnd)}"
  shows "resolve_endpoint os eng report (''cuda:'' @ f @ '':name~'' @ p) which t =
      (Ok (nvtx_endpoint event_type (''cuda:'' @ f @ '':name~'' @ p) p), t)"
    "selector_parse eng (''cuda:'' @ f @ '':name~'' @ p) = Ok (S_Nvtx event_type rx p)"
proof -
  have "CHR '':'' \<notin> set f" using assms(3) by auto
  note sp = splitn_nvtx [OF this, of p]
  have "parse_cuda_selector eng (''cuda:'' @ f @ '':name~'' @ p) =
      Ok ((cuda_selector event_type)\<lparr>rc_nvtx_name_regex := Some p\<rparr>, EK_NvtxRange p, True)"
    unfolding parse_cuda_selector_def sp Let_def
    using assms by (auto simp: slice_get_def parse_nvtx_selector_def is_bounded_pattern_eq ok_or_def)
  then show "resolve_endpoint os eng report (''cuda:'' @ f @ '':name~'' @ p) which t =
      (Ok (nvtx_endpoint event_type (''cuda:'' @ f @ '':name~'' @ p) p), t)"
    by (simp add: resolve_endpoint_def starts_with_iff io_bind_def nvtx_endpoint_def cuda_selector_def)
  show "selector_parse eng (''cuda:'' @ f @ '':name~'' @ p) = Ok (S_Nvtx event_type rx p)"
    unfolding selector_parse_def sp Let_def
    using assms by (auto simp: slice_get_def parse_nvtx_def starts_with_iff)
qed

text \<open>C28: Validation and correlation disagree on reversed NVTX endpoints. For every name pattern that both readers
  accept, the pair of the range end followed by the range start passes the policy check of validation for exact
  matching, and exact matching is even the recommended policy, yet the correlator rejects the pair.\<close>

theorem nvtx_reversed_validates:
  assumes "rx_new eng p = Inr rx" "is_bounded_name_regex p"
  shows "\<exists>start stop rec s e.
    resolve_endpoint os eng report (''cuda:'' @ ''nvtx_range_end'' @ '':name~'' @ p) ''start'' t = (Ok start, t) \<and>
    resolve_endpoint os eng report (''cuda:'' @ ''nvtx_range_start'' @ '':name~'' @ p) ''end'' t = (Ok stop, t) \<and>
    check_policy start stop MP_Exact = Ok ([], []) \<and>
    recommend_policy start stop = Ok rec \<and> po_policy rec = MP_Exact \<and>
    selector_parse eng (''cuda:'' @ ''nvtx_range_end'' @ '':name~'' @ p) = Ok s \<and>
    selector_parse eng (''cuda:'' @ ''nvtx_range_start'' @ '':name~'' @ p) = Ok e \<and>
    validate_policy s e MP_Exact = Err (ME_InvalidPolicy PY_Exact)"
proof -
  note stop = nvtx_selector_reads [OF assms, of "''nvtx_range_start''" ET_NvtxRangeStart]
    and start = nvtx_selector_reads [OF assms, of "''nvtx_range_end''" ET_NvtxRangeEnd]
  show ?thesis
    using start stop
    by (auto simp: check_policy_def recommend_policy_def endpoints_support_stack_nested_def nvtx_endpoint_def
        supports_stream_order_def validate_policy_def)
qed

theorem nvtx_reversed_validates_witness:
  "\<exists>start stop. check_policy start stop MP_Exact = Ok ([], []) \<and>
     (\<exists>s e. selector_parse any_regex ''cuda:nvtx_range_end:name~a'' = Ok s \<and>
       selector_parse any_regex ''cuda:nvtx_range_start:name~a'' = Ok e \<and>
       validate_policy s e MP_Exact = Err (ME_InvalidPolicy PY_Exact))"
proof -
  have "rx_new any_regex ''a'' = Inr ()" "is_bounded_name_regex ''a''"
    by (simp add: any_regex_def) code_simp
  from nvtx_reversed_validates [OF this] show ?thesis by simp blast
qed

end
