(* ===== verification/Discover.thy ===== *)
theory Discover
  imports Inspect "HOL-Library.Sublist"
begin

text \<open>
  Discovery of CUDA processes (core/src/discover.rs): the rows of the NVML query, the walk from a process to
  the root of the requested tree, and the whole run. The walk records the processes it has visited, so that
  it ends even when the parents read from a changing process table form a cycle.
\<close>

section \<open>Definitions\<close>

record cuda_process_candidate =
  cpc_target :: target_identity
  cpc_parent_pid :: u32
  cpc_executable :: string
  cpc_command_line :: "string list"
  cpc_gpu_uuids :: "string list"

record discovery_result =
  ds_schema_version :: schema_version
  ds_ok :: bool
  ds_root :: target_identity
  ds_limit :: u64
  ds_total_candidates :: u64
  ds_truncated :: bool
  ds_candidates :: "cuda_process_candidate list"
  ds_warnings :: "warning list"

datatype discover_error =
    DE_Inspect inspect_error
  | DE_InvalidLimit
  | DE_NvmlCommand io_error
  | DE_NvmlFailed "int option" string
  | DE_InvalidNvmlOutput string

fun discover_error_code :: "discover_error \<Rightarrow> error_code" where
  "discover_error_code (DE_Inspect e) = inspect_error_code e"
| "discover_error_code DE_InvalidLimit = EC_SessionLimitExceeded"
| "discover_error_code (DE_NvmlCommand _) = EC_CuptiNotAvailable"
| "discover_error_code (DE_NvmlFailed _ _) = EC_CuptiNotAvailable"
| "discover_error_code (DE_InvalidNvmlOutput _) = EC_Internal"

fun discover_error_recoverable :: "discover_error \<Rightarrow> bool" where
  "discover_error_recoverable (DE_Inspect e) = inspect_error_recoverable e"
| "discover_error_recoverable DE_InvalidLimit = True"
| "discover_error_recoverable (DE_NvmlCommand _) = True"
| "discover_error_recoverable (DE_NvmlFailed _ _) = True"
| "discover_error_recoverable (DE_InvalidNvmlOutput _) = False"

text \<open>The text of a UTF-8 error: the first character that does not decode, and whether the input ended in it.\<close>

function utf8_error_text :: "nat \<Rightarrow> bytes \<Rightarrow> string" where
  "utf8_error_text index bs =
     (if bs = [] then []
      else let n = snd (utf8_step bs) in
        if fst (utf8_step bs) then utf8_error_text (index + n) (drop n bs)
        else if n = length bs \<and> in_range 0xC2 0xF4 (hd bs)
        then ''incomplete utf-8 byte sequence from index '' @ render_nat 10 index
        else ''invalid utf-8 sequence of '' @ render_nat 10 n @ '' bytes from index '' @ render_nat 10 index)"
  by pat_completeness auto
termination
  by (relation "measure (length \<circ> snd)") (auto simp: utf8_step_pos)

declare utf8_error_text.simps [simp del]

definition compute_row :: "string \<Rightarrow> (u32 \<times> string, discover_error) rresult" where
  "compute_row line =
     rbind (ok_or (split_once '','' line) (DE_InvalidNvmlOutput line)) (\<lambda>(pid, uuid).
     rbind (ok_or (from_str_radix 10 (trim pid)) (DE_InvalidNvmlOutput line)) (\<lambda>pid.
     let uuid = trim uuid in
     if uuid = [] then Err (DE_InvalidNvmlOutput line) else Ok (pid, uuid)))"

fun parse_rows :: "(u32, string list) btree \<Rightarrow> string list \<Rightarrow> ((u32, string list) btree, discover_error) rresult" where
  "parse_rows processes [] = Ok processes"
| "parse_rows processes (line # rest) =
     rbind (compute_row line) (\<lambda>(pid, uuid).
     parse_rows (bt_entry pid (\<lambda>u. ordered_set (uuid # (case u of None \<Rightarrow> [] | Some us \<Rightarrow> us))) processes) rest)"

definition parse_compute_processes :: "string \<Rightarrow> ((u32, string list) btree, discover_error) rresult" where
  "parse_compute_processes output = parse_rows [] (filter (\<lambda>line. trim line \<noteq> []) (lines output))"

function descendant_loop :: "os \<Rightarrow> u32 \<Rightarrow> u32 list \<Rightarrow> u32 \<Rightarrow> (bool, discover_error) io" where
  "descendant_loop os root_pid visited pid t =
     (if pid = root_pid then (Ok True, t)
      else if pid = 0 \<or> pid \<in> set visited then (Ok False, t)
      else (case read_parent_pid os pid t of
              (Ok parent, t') \<Rightarrow> descendant_loop os root_pid (pid # visited) parent t'
            | (Err e, t') \<Rightarrow> (Err (DE_Inspect e), t')
            | (Panic, t') \<Rightarrow> (Panic, t')))"
  by pat_completeness auto
termination
  by (relation "measure (\<lambda>(os, root_pid, visited, pid, t). card (UNIV - set visited))")
    (auto intro!: diff_less simp: card_gt_0_iff, blast)

declare descendant_loop.simps [simp del]

definition is_descendant :: "os \<Rightarrow> u32 \<Rightarrow> u32 \<Rightarrow> (bool, discover_error) io" where
  "is_descendant os pid root_pid = descendant_loop os root_pid [] pid"

fun discover_candidates ::
  "os \<Rightarrow> u32 \<Rightarrow> (u32, string list) btree \<Rightarrow> (cuda_process_candidate list, discover_error) io" where
  "discover_candidates os root_pid [] = io_ok []"
| "discover_candidates os root_pid ((pid, gpu_uuids) # processes) =
     io_bind (is_descendant os pid root_pid) (\<lambda>inside.
     if \<not> inside then discover_candidates os root_pid processes
     else
       io_bind (io_map_err DE_Inspect (inspect_run os pid)) (\<lambda>candidate_report.
       io_bind (io_map_err DE_Inspect (read_parent_pid os pid)) (\<lambda>parent.
       io_bind (discover_candidates os root_pid processes) (\<lambda>candidates.
       io_ok (\<lparr>cpc_target = pr_target candidate_report, cpc_parent_pid = parent,
                cpc_executable = pr_executable candidate_report,
                cpc_command_line = pr_command_line candidate_report, cpc_gpu_uuids = gpu_uuids\<rparr> # candidates)))))"

definition nvml_arguments :: "string list" where
  "nvml_arguments = [''--query-compute-apps=pid,gpu_uuid'', ''--format=csv,noheader,nounits'']"

definition discover_run :: "os \<Rightarrow> process_report \<Rightarrow> nat \<Rightarrow> (discovery_result, discover_error) io" where
  "discover_run os report limit =
     (if limit = 0 then io_err DE_InvalidLimit
      else
        io_bind (io_map_err DE_Inspect (verify_target os (pr_target report))) (\<lambda>_.
        io_bind (io_map_err DE_NvmlCommand (run_command os ''nvidia-smi'' nvml_arguments)) (\<lambda>output.
        if \<not> co_success output
        then io_err (DE_NvmlFailed (co_code output) (trim (from_utf8_lossy (co_stderr output))))
        else
          io_bind (io_lift (ok_or (from_utf8 (co_stdout output))
              (DE_InvalidNvmlOutput (utf8_error_text 0 (co_stdout output))))) (\<lambda>rows.
          io_bind (io_lift (parse_compute_processes rows)) (\<lambda>processes.
          io_bind (discover_candidates os (ti_pid (pr_target report)) processes) (\<lambda>found.
          let sorted_candidates = sort_key (\<lambda>c. ti_pid (cpc_target c)) found;
              total_candidates = length sorted_candidates;
              candidates = take limit sorted_candidates in
          io_bind (io_map_err DE_Inspect (verify_target os (pr_target report))) (\<lambda>_.
          io_ok \<lparr>ds_schema_version = schema_current, ds_ok = True, ds_root = pr_target report,
                  ds_limit = of_nat limit, ds_total_candidates = of_nat total_candidates,
                  ds_truncated = (length candidates < total_candidates), ds_candidates = candidates,
                  ds_warnings = []\<rparr>)))))))"

section \<open>The walk to the root\<close>

text \<open>The parent that an access shows, and a chain of parents read by consecutive accesses.\<close>

definition parent_at :: "os \<Rightarrow> nat \<Rightarrow> u32 \<Rightarrow> u32 option" where
  "parent_at os t pid = (case read_parent_pid os pid t of (Ok parent, _) \<Rightarrow> Some parent | _ \<Rightarrow> None)"

fun parent_chain :: "os \<Rightarrow> nat \<Rightarrow> u32 list \<Rightarrow> bool" where
  "parent_chain os t (p # q # ps) \<longleftrightarrow> parent_at os t p = Some q \<and> parent_chain os (Suc t) (q # ps)"
| "parent_chain os t _ \<longleftrightarrow> True"

lemma read_parent_pid_next: "snd (read_parent_pid os pid t) = Suc t"
  by (simp add: read_parent_pid_def Let_def fs_read_to_string_def fs_read_def io_map_err_def io_bind_def
      io_access_def split: sum.splits rresult.splits option.splits prod.splits)

lemma read_parent_pid_Ok_iff:
  "read_parent_pid os pid t = (Ok parent, t') \<longleftrightarrow> parent_at os t pid = Some parent \<and> t' = Suc t"
  using read_parent_pid_next [of os pid t] by (auto simp: parent_at_def split: prod.splits rresult.splits)

lemma descendant_loop_True:
  assumes "descendant_loop os root_pid visited pid t = (Ok True, t')"
  shows "\<exists>ps. ps \<noteq> [] \<and> hd ps = pid \<and> last ps = root_pid \<and> distinct ps \<and> parent_chain os t ps \<and>
    t' = t + (length ps - 1) \<and> set (butlast ps) \<inter> set visited = {}"
  using assms
proof (induction os root_pid visited pid t rule: descendant_loop.induct)
  case (1 os root_pid visited pid t)
  show ?case
  proof (cases "pid = root_pid")
    case True
    with 1(2) show ?thesis
      by (intro exI [of _ "[pid]"]) (simp add: descendant_loop.simps)
  next
    case False
    with 1(2) obtain parent where step: "pid \<noteq> 0" "pid \<notin> set visited" "read_parent_pid os pid t = (Ok parent, Suc t)"
      and rest: "descendant_loop os root_pid (pid # visited) parent (Suc t) = (Ok True, t')"
      by (auto simp: descendant_loop.simps [of os root_pid visited pid t] read_parent_pid_Ok_iff
          split: if_splits prod.splits rresult.splits)
    from 1(1) [OF False _ step(3) [symmetric] refl rest] step obtain ps where
      ps: "ps \<noteq> []" "hd ps = parent" "last ps = root_pid" "distinct ps" "parent_chain os (Suc t) ps"
      "t' = Suc t + (length ps - 1)" "set (butlast ps) \<inter> set (pid # visited) = {}"
      by auto
    have "pid \<notin> set ps"
    proof -
      have "ps = butlast ps @ [root_pid]" using append_butlast_last_id [OF ps(1)] ps(3) by simp
      then show ?thesis using False ps(7) by (metis Int_iff UnE empty_iff empty_set list.set_intros(1) set_ConsD set_append)
    qed
    with ps step show ?thesis
      by (intro exI [of _ "pid # ps"]) (cases ps; auto simp: read_parent_pid_Ok_iff)
  qed
qed

text \<open>Every round but the last adds a process to the visited ones, of which there are \<open>2 ^ 32\<close>.\<close>

lemma descendant_loop_bound:
  "distinct visited \<Longrightarrow> snd (descendant_loop os root_pid visited pid t) + length visited \<le> t + 2 ^ 32 \<and>
   fst (descendant_loop os root_pid visited pid t) \<noteq> Panic"
proof (induction os root_pid visited pid t rule: descendant_loop.induct)
  case (1 os root_pid visited pid t)
  have bound: "length vs \<le> 2 ^ 32" if "distinct vs" for vs :: "u32 list"
    using card_mono [of UNIV "set vs"] that by (simp add: distinct_card card_word)
  have "fst (read_parent_pid os pid t) \<noteq> Panic" using no_panic_readers by (simp add: no_panic_def)
  with 1 bound [OF 1(2)] bound [of "pid # visited"] read_parent_pid_next [of os pid t] show ?case
    by (auto simp: descendant_loop.simps [of os root_pid visited pid t] split: prod.splits rresult.splits)
qed

text \<open>The edges of a process tree.\<close>

definition parent_edges :: "(u32 \<Rightarrow> u32) \<Rightarrow> (u32 \<times> u32) set" where
  "parent_edges parent = {(p, parent p) | p. p \<noteq> 0}"

lemma parent_edges_step:
  "p \<noteq> 0 \<Longrightarrow> p \<noteq> q \<Longrightarrow> (p, q) \<in> (parent_edges parent)\<^sup>* \<longleftrightarrow> (parent p, q) \<in> (parent_edges parent)\<^sup>*"
  by (auto simp: parent_edges_def elim: converse_rtranclE intro: converse_rtrancl_into_rtrancl)

lemma parent_edges_closed:
  assumes "p \<in> V" "\<And>v. v \<in> V \<Longrightarrow> v \<noteq> 0 \<Longrightarrow> parent v \<in> V" "q \<notin> V"
  shows "(p, q) \<notin> (parent_edges parent)\<^sup>*"
proof
  assume "(p, q) \<in> (parent_edges parent)\<^sup>*"
  then have "q \<in> V" by induction (use assms in \<open>auto simp: parent_edges_def\<close>)
  with assms(3) show False by simp
qed

lemma descendant_loop_static:
  assumes "\<And>p t. (pid, p) \<in> (parent_edges parent)\<^sup>* \<Longrightarrow> p \<noteq> root_pid \<Longrightarrow> p \<noteq> 0 \<Longrightarrow> parent_at os t p = Some (parent p)"
    and "\<And>v. v \<in> set visited \<Longrightarrow> parent v \<in> insert pid (set visited) \<and> v \<noteq> root_pid \<and> v \<noteq> 0"
  shows "fst (descendant_loop os root_pid visited pid t) = Ok ((pid, root_pid) \<in> (parent_edges parent)\<^sup>*)"
  using assms
proof (induction os root_pid visited pid t rule: descendant_loop.induct)
  case (1 os root_pid visited pid t)
  consider (found) "pid = root_pid" | (outside) "pid \<noteq> root_pid" "pid = 0 \<or> pid \<in> set visited"
    | (step) "pid \<noteq> root_pid" "pid \<noteq> 0" "pid \<notin> set visited" by blast
  then show ?case
  proof cases
    case found
    then show ?thesis by (simp add: descendant_loop.simps)
  next
    case outside
    define V where "V = (if pid = 0 then {0} else set visited)"
    have "(pid, root_pid) \<notin> (parent_edges parent)\<^sup>*"
      by (rule parent_edges_closed [of _ V]) (use outside 1(3) in \<open>auto simp: V_def split: if_splits\<close>)
    with outside show ?thesis by (simp add: descendant_loop.simps [of os root_pid visited])
  next
    case step
    have read: "read_parent_pid os pid t = (Ok (parent pid), Suc t)"
      using 1(2) [of pid] step by (simp add: read_parent_pid_Ok_iff)
    have edge: "(pid, parent pid) \<in> parent_edges parent" using step by (auto simp: parent_edges_def)
    have "fst (descendant_loop os root_pid (pid # visited) (parent pid) (Suc t)) =
      Ok ((parent pid, root_pid) \<in> (parent_edges parent)\<^sup>*)"
    proof (rule 1(1) [OF step(1) _ read [symmetric] refl])
      show "\<not> (pid = 0 \<or> pid \<in> set visited)" using step by simp
      show "parent_at os u p = Some (parent p)"
        if "(parent pid, p) \<in> (parent_edges parent)\<^sup>*" "p \<noteq> root_pid" "p \<noteq> 0" for p u
        using 1(2) [of p u] that edge by (meson converse_rtrancl_into_rtrancl)
      show "parent v \<in> insert (parent pid) (set (pid # visited)) \<and> v \<noteq> root_pid \<and> v \<noteq> 0"
        if "v \<in> set (pid # visited)" for v
        using 1(3) [of v] that step by auto
    qed
    with step read show ?thesis
      by (simp add: descendant_loop.simps [of os root_pid visited] parent_edges_step)
  qed
qed

text \<open>C29: The walk up the process tree always ends, without a panic and after at most \<open>2 ^ 32\<close> reads, also when the
  parents it reads form a cycle. While the part of the tree above the process stays as it is and can be read,
  the answer is exact: the process is a descendant of the root (or the root itself) or it is not.\<close>

theorem is_descendant_decides:
  "fst (is_descendant os pid root_pid t) \<noteq> Panic \<and> snd (is_descendant os pid root_pid t) \<le> t + 2 ^ 32 \<and>
   ((\<forall>p u. (pid, p) \<in> (parent_edges parent)\<^sup>* \<longrightarrow> p \<noteq> root_pid \<longrightarrow> p \<noteq> 0 \<longrightarrow> parent_at os u p = Some (parent p)) \<longrightarrow>
    fst (is_descendant os pid root_pid t) = Ok ((pid, root_pid) \<in> (parent_edges parent)\<^sup>*))"
  using descendant_loop_bound [of "[]" os root_pid pid t] descendant_loop_static [of pid parent root_pid os "[]" t]
  by (auto simp: is_descendant_def)

lemma example_parent: "parent_at example_host t 42 = Some 1"
proof -
  have "from_utf8 (bytes_of_string example_stat) = Some example_stat"
    by (rule from_utf8_ascii) (simp add: example_stat_def)
  moreover have "Option.bind (stat_fields example_stat) (\<lambda>fields. nth_opt fields 1) = Some ''1''" by code_simp
  then have "rbind (ok_or (stat_fields example_stat) e) (\<lambda>fields. rbind (ok_or (nth_opt fields 1) e')
    (\<lambda>parent. ok_or (from_str_radix 10 parent) e'')) = Ok (1 :: u32)" for e e' and e'' :: inspect_error
    by (cases "stat_fields example_stat") (auto simp: ok_or_def example_numbers nth_opt_def split: if_splits)
  ultimately show ?thesis
    by (simp add: parent_at_def read_parent_pid_def Let_def example_proc_path fs_read_to_string_def fs_read_def
        io_map_err_def io_bind_def io_access_def example_host_def ok_or_def)
qed

theorem is_descendant_decides_witness:
  "parent_at example_host 0 42 = Some 1 \<and> fst (is_descendant example_host 42 1 0) = Ok True"
proof -
  have only: "p = 42 \<or> p = 1" if "(42, p) \<in> (parent_edges (\<lambda>_. 1))\<^sup>*" for p
    using that by induction (auto simp: parent_edges_def)
  have "(42, 1) \<in> (parent_edges (\<lambda>_. 1))\<^sup>*" by (auto simp: parent_edges_def)
  moreover have readable: "\<forall>p u. (42, p) \<in> (parent_edges (\<lambda>_. 1))\<^sup>* \<longrightarrow> p \<noteq> 1 \<longrightarrow> p \<noteq> 0 \<longrightarrow>
      parent_at example_host u p = Some 1"
    using only example_parent by blast
  ultimately show ?thesis
    using is_descendant_decides [of example_host 42 1 0 "\<lambda>_. 1"] example_parent by simp
qed

section \<open>The run\<close>

text \<open>What is known of a candidate: the process was inspected, and a chain of parents leads to the root.\<close>

definition candidate_ok :: "os \<Rightarrow> u32 \<Rightarrow> nat \<Rightarrow> nat \<Rightarrow> cuda_process_candidate \<Rightarrow> bool" where
  "candidate_ok os root_pid t t' c \<longleftrightarrow>
     (\<exists>u ps. t \<le> u \<and> u + length ps \<le> t' \<and> ps \<noteq> [] \<and> hd ps = ti_pid (cpc_target c) \<and> last ps = root_pid \<and>
        distinct ps \<and> parent_chain os u ps) \<and>
     (\<exists>u. t \<le> u \<and> u < t' \<and> start_time_at os u (ti_pid (cpc_target c)) = Some (ti_process_start_time (cpc_target c)))"

lemma candidate_ok_mono:
  assumes "candidate_ok os r t t' c" "s \<le> t" "t' \<le> s'"
  shows "candidate_ok os r s s' c"
proof -
  obtain u ps v where "t \<le> u" "u + length ps \<le> t'" "ps \<noteq> []" "hd ps = ti_pid (cpc_target c)" "last ps = r" "distinct ps"
    "parent_chain os u ps" "t \<le> v" "v < t'"
    "start_time_at os v (ti_pid (cpc_target c)) = Some (ti_process_start_time (cpc_target c))"
    using assms(1) by (auto simp: candidate_ok_def)
  with assms(2,3) show ?thesis
    unfolding candidate_ok_def by (intro conjI exI [of _ u] exI [of _ ps] exI [of _ v]) auto
qed

lemma descendant_loop_forward: "t \<le> snd (descendant_loop os root_pid visited pid t)"
proof (induction os root_pid visited pid t rule: descendant_loop.induct)
  case (1 os root_pid visited pid t)
  with read_parent_pid_next [of os pid t] show ?case
    by (fastforce simp: descendant_loop.simps [of os root_pid visited pid t] split: prod.splits rresult.splits)
qed

lemma forward_bind: "forward_io m \<Longrightarrow> (\<And>a. forward_io (f a)) \<Longrightarrow> forward_io (io_bind m f)"
  unfolding forward_io_def io_bind_def
  by (auto split: prod.splits rresult.splits) (metis le_trans snd_conv)+

lemma forward_base:
  "forward_io (io_lift r)" "forward_io (Pair r)" "forward_io (io_access acc)" "forward_io m \<Longrightarrow> forward_io (io_map_err f m)"
  by (auto simp: forward_io_def io_map_err_def io_access_def split: prod.splits) (metis snd_conv)

lemma forward_if: "forward_io x \<Longrightarrow> forward_io y \<Longrightarrow> forward_io (if b then x else y)"
  by simp

lemma forward_handle:
  assumes "forward_io m" "\<And>a t. t \<le> snd (f a t)" "\<And>e t. t \<le> snd (g e t)"
  shows "forward_io (\<lambda>t. case m t of (Ok a, t) \<Rightarrow> f a t | (Err e, t) \<Rightarrow> g e t | (Panic, t) \<Rightarrow> (Panic, t))"
  unfolding forward_io_def
proof
  fix t
  have "t \<le> snd (m t)" using assms(1) by (simp add: forward_io_def)
  then show "t \<le> snd (case m t of (Ok a, t) \<Rightarrow> f a t | (Err e, t) \<Rightarrow> g e t | (Panic, t) \<Rightarrow> (Panic, t))"
    using assms(2,3) by (auto split: prod.splits rresult.splits) (metis le_trans snd_conv)+
qed

lemma forward_fs:
  "forward_io (fs_read os p)" "forward_io (fs_read_to_string os p)" "forward_io (fs_read_link os p)"
  "forward_io (fs_try_exists os p)" "forward_io (fs_is_file os p)" "forward_io (fs_read_dir os p)"
  "forward_io (run_command os c args)"
  by (auto simp: fs_defs fs_read_to_string_def intro!: forward_base forward_bind)

lemmas forward_intros = forward_bind forward_base forward_if forward_fs

lemma forward_checks:
  "forward_io (read_required os p)" "forward_io (path_exists os p)" "forward_io (read_optional os p)"
  "forward_io (optional_command os c args)"
  unfolding read_required_def path_exists_def read_optional_def optional_command_def
  by (auto intro!: forward_intros forward_handle split: if_splits)

lemma forward_installed: "forward_io (installed_libraries os)"
proof -
  have 1: "forward_io (linker_cache_libraries os)"
    unfolding linker_cache_libraries_def by (auto intro!: forward_handle forward_fs split: if_splits)
  have 2: "forward_io (known_cuda_paths os major)" for major
    unfolding known_cuda_paths_def by (auto intro!: forward_handle forward_fs forward_bind forward_base split: if_splits)
  have 3: "forward_io (first_file os paths)" for paths
    by (induction paths) (auto intro!: forward_intros)
  have "forward_io (add_known_libraries os majors m)" for majors m
    by (induction majors arbitrary: m) (auto intro!: forward_bind forward_base 2 3)
  then show ?thesis using 1 by (auto simp: installed_libraries_def intro!: forward_bind)
qed

lemma forward_doctor: "forward_io (doctor_run os)"
proof -
  have 1: "forward_io (path_check os p)" "forward_io (integer_setting_check os p n)" "forward_io (lockdown_check os)"
    "forward_io (nvidia_driver_check os)" "forward_io (linker_cache_contains os l)"
    "forward_io (cuda_toolkit_check os)" "forward_io (cupti_check os)" "forward_io (container_kind os)" for p n l
    unfolding path_check_def integer_setting_check_def lockdown_check_def nvidia_driver_check_def
      linker_cache_contains_def cuda_toolkit_check_def cupti_check_def container_kind_def Let_def
    by (auto intro!: forward_intros forward_checks forward_installed split: option.splits)
  have 2: "forward_io (cuda_driver_check os c)" for c
    unfolding cuda_driver_check_def by (auto intro!: forward_intros forward_checks 1)
  show ?thesis
    unfolding doctor_run_def Let_def by (intro forward_intros forward_checks 1 2)
qed

lemma forward_inspect: "forward_io (inspect_run os pid)"
  unfolding inspect_run_def Let_def read_start_time_def read_link_def read_bytes_def read_text_def
  by (intro forward_intros forward_doctor)

definition the_default :: "'a \<Rightarrow> 'a option \<Rightarrow> 'a" where
  "the_default d x = (case x of None \<Rightarrow> d | Some a \<Rightarrow> a)"

lemma the_default_simps [simp]: "the_default d None = d" "the_default d (Some a) = a"
  by (simp_all add: the_default_def)

text \<open>The table of the rows: its keys in order, each with the set of the identifiers its rows have.\<close>

lemma parse_rows_facts:
  assumes "parse_rows m ls = Ok m'" "bt_inv m"
    and "\<forall>p us. map_of m p = Some us \<longrightarrow> us \<noteq> [] \<and> distinct us \<and> sorted us"
  shows "bt_inv m' \<and> (\<forall>p us. map_of m' p = Some us \<longrightarrow> us \<noteq> [] \<and> distinct us \<and> sorted us) \<and>
    (\<exists>rows. rcollect compute_row ls = Ok rows \<and> fst ` set m' = fst ` set m \<union> fst ` set rows \<and>
       (\<forall>p. set (the_default [] (map_of m' p)) = set (the_default [] (map_of m p)) \<union> {u. (p, u) \<in> set rows}))"
  using assms
proof (induction ls arbitrary: m)
  case (Cons line rest)
  from Cons.prems(1) obtain pid uuid where row: "compute_row line = Ok (pid, uuid)" by (auto simp: rust_simps)
  define m1 where "m1 = bt_entry pid (\<lambda>u. ordered_set (uuid # (case u of None \<Rightarrow> [] | Some us \<Rightarrow> us))) m"
  have inv: "bt_inv m1" using Cons.prems(2) by (simp add: m1_def bt_inv_entry)
  have at: "map_of m1 p = (if p = pid then Some (ordered_set (uuid # the_default [] (map_of m pid))) else map_of m p)" for p
    using Cons.prems(2) by (auto simp: m1_def map_of_bt_entry the_default_def split: option.splits)
  have keys: "fst ` set m1 = insert pid (fst ` set m)" by (simp add: m1_def set_keys_bt_entry)
  have ok: "\<forall>p us. map_of m1 p = Some us \<longrightarrow> us \<noteq> [] \<and> distinct us \<and> sorted us"
    using Cons.prems(3) ordered_set_facts [of "uuid # the_default [] (map_of m pid)"]
    by (auto simp: at split: if_splits simp del: ordered_set_facts)
  from Cons.prems(1) row have "parse_rows m1 rest = Ok m'" by (simp add: m1_def)
  from Cons.IH [OF this inv ok] obtain rows where
    ih: "bt_inv m'" "\<forall>p us. map_of m' p = Some us \<longrightarrow> us \<noteq> [] \<and> distinct us \<and> sorted us"
      "rcollect compute_row rest = Ok rows" "fst ` set m' = fst ` set m1 \<union> fst ` set rows"
      "\<forall>p. set (the_default [] (map_of m' p)) = set (the_default [] (map_of m1 p)) \<union> {u. (p, u) \<in> set rows}"
    by (elim conjE exE) (rule that)
  show ?case
    by (intro conjI exI [of _ "(pid, uuid) # rows"] ih(1,2))
      (use ih row keys in \<open>auto simp: at the_default_def split: if_splits\<close>)
qed simp

lemma parse_compute_processes_facts:
  assumes "parse_compute_processes rows_text = Ok processes"
  obtains rows where "bt_inv processes"
    "\<forall>p us. map_of processes p = Some us \<longrightarrow> us \<noteq> [] \<and> distinct us \<and> sorted us"
    "rcollect compute_row (filter (\<lambda>line. trim line \<noteq> []) (lines rows_text)) = Ok rows"
    "fst ` set processes = fst ` set rows" "\<forall>p. set (the_default [] (map_of processes p)) = {u. (p, u) \<in> set rows}"
proof -
  have "bt_inv ([] :: (u32, string list) btree)" by (simp add: bt_inv_def)
  note facts = parse_rows_facts [OF assms [unfolded parse_compute_processes_def] this]
  have "\<forall>p us. map_of ([] :: (u32, string list) btree) p = Some us \<longrightarrow> us \<noteq> [] \<and> distinct us \<and> sorted us" by simp
  from facts [OF this] show thesis
    by (elim conjE exE, intro that) (assumption | simp)+
qed

text \<open>A walk from the process ended outside the tree.\<close>

definition outside_tree :: "os \<Rightarrow> u32 \<Rightarrow> nat \<Rightarrow> nat \<Rightarrow> u32 \<Rightarrow> bool" where
  "outside_tree os root_pid t t' pid \<longleftrightarrow>
     (\<exists>u. t \<le> u \<and> u \<le> t' \<and> fst (is_descendant os pid root_pid u) = Ok False)"

lemma outside_tree_mono: "outside_tree os r t t' p \<Longrightarrow> s \<le> t \<Longrightarrow> t' \<le> s' \<Longrightarrow> outside_tree os r s s' p"
  unfolding outside_tree_def by (meson le_trans)

lemma discover_candidates_facts:
  assumes "discover_candidates os root_pid ps t = (Ok cs, t')"
  shows "t \<le> t' \<and> (\<forall>c \<in> set cs. candidate_ok os root_pid t t' c) \<and>
    subseq (map (\<lambda>c. (ti_pid (cpc_target c), cpc_gpu_uuids c)) cs) ps \<and>
    (\<forall>p \<in> fst ` set ps. p \<notin> (\<lambda>c. ti_pid (cpc_target c)) ` set cs \<longrightarrow> outside_tree os root_pid t t' p)"
  using assms
proof (induction ps arbitrary: t cs)
  case (Cons entry ps)
  obtain pid uuids where entry: "entry = (pid, uuids)" by fastforce
  from Cons.prems obtain inside t1 where walk: "is_descendant os pid root_pid t = (Ok inside, t1)"
    by (auto simp: entry elim: io_bind_OkE)
  have t1: "t \<le> t1" using walk descendant_loop_forward [of t os root_pid "[]" pid] by (simp add: is_descendant_def)
  show ?case
  proof (cases inside)
    case False
    with Cons.prems walk have "discover_candidates os root_pid ps t1 = (Ok cs, t')"
      by (simp add: entry io_bind_def)
    note ih = Cons.IH [OF this]
    have "outside_tree os root_pid t t' pid"
      using walk False ih t1 unfolding outside_tree_def by (intro exI [of _ t]) auto
    with ih t1 show ?thesis
      by (auto simp: entry intro: candidate_ok_mono outside_tree_mono list_emb_Cons)
  next
    case True
    with Cons.prems walk obtain report t2 parent t3 cs' where
      steps: "inspect_run os pid t1 = (Ok report, t2)" "read_parent_pid os pid t2 = (Ok parent, t3)"
        "discover_candidates os root_pid ps t3 = (Ok cs', t')" and
      cs: "cs = \<lparr>cpc_target = pr_target report, cpc_parent_pid = parent, cpc_executable = pr_executable report,
                cpc_command_line = pr_command_line report, cpc_gpu_uuids = uuids\<rparr> # cs'"
      by (auto simp: entry io_simps)
    note ih = Cons.IH [OF steps(3)]
    have t3: "t1 \<le> t2" "t3 = Suc t2"
      using forward_inspect [of os pid] steps(1,2) read_parent_pid_next [of os pid t2]
      by (auto simp: forward_io_def) (metis snd_conv)
    obtain s where report: "pr_target report = \<lparr>ti_pid = pid, ti_process_start_time = s\<rparr>" "start_time_at os t1 pid = Some s"
      by (rule inspect_run_facts [OF steps(1)]) blast
    obtain chain where "chain \<noteq> []" "hd chain = pid" "last chain = root_pid" "distinct chain" "parent_chain os t chain"
      "t1 = t + (length chain - 1)"
      using descendant_loop_True [of os root_pid "[]" pid t t1] walk True by (auto simp: is_descendant_def)
    then have "candidate_ok os root_pid t t' (hd cs)"
      using t1 t3 report ih unfolding candidate_ok_def
      by (intro conjI exI [of _ t] exI [of _ chain] exI [of _ t1]) (auto simp: cs)
    with ih t1 t3 show ?thesis
      by (auto simp: entry cs report intro: candidate_ok_mono outside_tree_mono)
  qed
qed simp

lemma discover_run_facts:
  assumes "discover_run os report limit t = (Ok r, t')"
  obtains out rows_text processes found t0 where
    "0 < limit" "verify_target os (pr_target report) t = (Ok (), Suc t)"
    "os_command os (Suc t) ''nvidia-smi'' nvml_arguments = Inr out" "co_success out"
    "from_utf8 (co_stdout out) = Some rows_text" "parse_compute_processes rows_text = Ok processes"
    "discover_candidates os (ti_pid (pr_target report)) processes (Suc (Suc t)) = (Ok found, t0)"
    "verify_target os (pr_target report) t0 = (Ok (), t')" "t' = Suc t0"
    "ds_root r = pr_target report" "ds_limit r = of_nat limit" "ds_total_candidates r = of_nat (length found)"
    "ds_candidates r = take limit (sort_key (\<lambda>c. ti_pid (cpc_target c)) found)"
    "ds_truncated r \<longleftrightarrow> limit < length found"
proof -
  from assms have "limit \<noteq> 0" by (cases "limit = 0") (auto simp: discover_run_def)
  with assms show thesis
    unfolding discover_run_def Let_def
    apply simp
    apply (elim io_bind_OkE io_guard_OkE)
    apply (simp only: io_lift_apply prod.inject rresult.inject ok_or_iff)
    apply (elim conjE, hypsubst)
    apply (rule that)
    apply (auto simp: io_simps run_command_def verify_target_Ok_iff)
    done
qed

lemma subseq_sorted_wrt: "subseq xs ys \<Longrightarrow> sorted_wrt P ys \<Longrightarrow> sorted_wrt P xs"
proof (induction xs ys rule: list_emb.induct)
  case (list_emb_Cons2 x y xs ys)
  then have "set xs \<subseteq> set ys" by (metis set_nths_subset subseq_conv_nths)
  with list_emb_Cons2 show ?case by auto
qed auto

lemma subseq_key_sorted:
  assumes "subseq (map f cs) ps" "bt_inv ps"
  shows "sorted_wrt (\<lambda>a b. fst (f a) < fst (f b)) cs"
  using subseq_sorted_wrt [OF assms(1), of "\<lambda>p q. fst p < fst q"] assms(2)
  by (simp add: bt_inv_def sorted_wrt_map)

interpretation dg: target_guard "pr_target report" "\<lambda>os. discover_run os report limit" for report limit
  by unfold_locales (auto elim!: discover_run_facts)


lemma example_rows: "parse_compute_processes ''42, GPU-1'' = Ok [(42, [''GPU-1''])]"
proof -
  have "filter (\<lambda>line. trim line \<noteq> []) (lines ''42, GPU-1'') = [''42, GPU-1'']"
    "split_once '','' ''42, GPU-1'' = Some (''42'', '' GPU-1'')" "trim ''42'' = ''42''" "trim '' GPU-1'' = ''GPU-1''"
    by code_simp+
  then show ?thesis
    by (simp add: parse_compute_processes_def compute_row_def ok_or_def example_numbers ordered_set_def Let_def)
qed

lemma example_discovery:
  "\<exists>report r t'. ti_pid (pr_target report) = 42 \<and> discover_run example_host report 1 0 = (Ok r, t') \<and>
     length (ds_candidates r) = 1"
proof -
  obtain rep next_access where inspect: "inspect_run example_host 42 t = (Ok (rep t), next_access t)" for t
    using example_inspect by metis
  obtain s where "pr_target (rep 0) = \<lparr>ti_pid = 42, ti_process_start_time = s\<rparr>" "start_time_at example_host 0 42 = Some s"
    by (rule inspect_run_facts [OF inspect [of 0]]) blast
  then have target: "pr_target (rep 0) = \<lparr>ti_pid = 42, ti_process_start_time = 7\<rparr>"
    by (simp add: example_start_time)
  have verify: "verify_target example_host (pr_target (rep 0)) t = (Ok (), Suc t)" for t
    by (simp add: verify_target_Ok_iff target example_start_time)
  have parent: "read_parent_pid example_host 42 t = (Ok 1, Suc t)" for t
    by (simp add: read_parent_pid_Ok_iff example_parent)
  have here: "is_descendant example_host 42 42 t = (Ok True, t)" for t
    by (simp add: is_descendant_def descendant_loop.simps)
  have rows: "from_utf8 (bytes_of_string ''42, GPU-1'') = Some ''42, GPU-1''"
    by (rule from_utf8_ascii) simp
  have query: "run_command example_host ''nvidia-smi'' nvml_arguments t =
    (Ok \<lparr>co_success = True, co_code = Some 0, co_status = ''exit status: 0'',
         co_stdout = bytes_of_string ''42, GPU-1'', co_stderr = []\<rparr>, Suc t)" for t
    by (simp add: run_command_def io_access_def nvml_arguments_def example_host_def)
  show ?thesis
    by (intro exI [of _ "rep 0"])
      (simp add: discover_run_def io_bind_def io_map_err_def verify query rows ok_or_def example_rows target here
        inspect parent Let_def verify [unfolded target])
qed


end
