(* ===== verification/Cpu_Sampling.thy ===== *)
theory Cpu_Sampling
  imports Inspect
begin

text \<open>
  Requirements of CPU sampling (core/src/cpu_sampling.rs): the threads of the target, the effective perf event
  policy and the state of the CPython perf trampoline, with the types of protocol/src/cpu_sampling.rs.
\<close>

section \<open>Types\<close>

datatype cpu_sample_event = CSE_CpuClock

record cpu_sampling_spec =
  cs_schema_version :: schema_version
  cs_name :: "string option"
  cs_target :: target_identity
  cs_sample_event :: cpu_sample_event
  cs_frequency_hz :: u64
  cs_duration_ms :: u64
  cs_timeout_ms :: u64
  cs_max_samples :: u64
  cs_max_groups :: u64
  cs_stack_depth :: u32
  cs_max_threads :: u32

datatype cpu_frame_language = FL_Native | FL_Python | FL_Unknown

record cpu_stack_frame =
  fr_address :: u64
  fr_module_path :: "string option"
  fr_build_id :: "string option"
  fr_file_offset :: "u64 option"
  fr_symbol :: "string option"
  fr_symbol_offset :: "u64 option"
  fr_language :: cpu_frame_language
  fr_source_path :: "string option"
  fr_line :: "u32 option"

record cpu_stack_group =
  sgr_frames :: "cpu_stack_frame list"
  sgr_samples :: u64
  sgr_proportion :: f64

record cpu_hotspot =
  hs_frame :: cpu_stack_frame
  hs_inclusive_samples :: u64
  hs_exclusive_samples :: u64
  hs_inclusive_proportion :: f64
  hs_exclusive_proportion :: f64
  hs_entry_selector_hint :: "string option"
  hs_return_selector_hint :: "string option"

record cpu_sample_inventory =
  inv_name :: "string option"
  inv_sample_event :: cpu_sample_event
  inv_frequency_hz :: u64
  inv_duration_ms :: u64
  inv_stack_groups :: "cpu_stack_group list"
  inv_hotspots :: "cpu_hotspot list"

datatype python_symbolization_status = PY_NotDetected | PY_Inactive | PY_Active | PY_Unsupported

datatype cpu_capture_completeness = CC_Complete | CC_Incomplete

record cpu_sample_collection_summary =
  cc_completeness :: cpu_capture_completeness
  cc_observed_samples :: u64
  cc_grouped_samples :: u64
  cc_lost_samples :: u64
  cc_sample_capacity :: u64
  cc_group_capacity :: u64
  cc_groups :: u64
  cc_table_utilization :: f64
  cc_stack_depth :: u32
  cc_truncated_stacks :: u64
  cc_threads_observed :: u32
  cc_threads_attached :: u32
  cc_thread_capacity :: u32

record cpu_symbolization_summary =
  sy_total_frames :: u64
  sy_resolved_native_frames :: u64
  sy_resolved_python_frames :: u64
  sy_unresolved_frames :: u64
  sy_python_status :: python_symbolization_status

record cpu_sample_inventory_result =
  ir_schema_version :: schema_version
  ir_ok :: bool
  ir_session_id :: string
  ir_status :: session_status
  ir_target :: target_identity
  ir_inventory :: cpu_sample_inventory
  ir_collection :: cpu_sample_collection_summary
  ir_symbolization :: cpu_symbolization_summary
  ir_warnings :: "warning list"

record cpu_sampling_requirements =
  sr_needs_perf_event :: bool
  sr_target_mutation :: bool

record cpu_sampling_validation_result =
  sv_schema_version :: schema_version
  sv_ok :: bool
  sv_valid :: bool
  sv_target :: target_identity
  sv_target_threads :: u32
  sv_requirements :: cpu_sampling_requirements
  sv_perf_event :: check_result
  sv_python_status :: python_symbolization_status
  sv_issues :: "validation_issue list"
  sv_warnings :: "warning list"

datatype cpu_sampling_error =
    CSE_Inspect inspect_error
  | CSE_Doctor doctor_error
  | CSE_Io string io_error
  | CSE_InvalidElf string string
  | CSE_InvalidTask string string
  | CSE_Limit string u64

fun cpu_sampling_error_code :: "cpu_sampling_error \<Rightarrow> error_code" where
  "cpu_sampling_error_code (CSE_Inspect e) = inspect_error_code e"
| "cpu_sampling_error_code (CSE_Io _ source) =
     (if io_kind source = IO_PermissionDenied then EC_PermissionDenied else EC_Internal)"
| "cpu_sampling_error_code (CSE_Limit _ _) = EC_SessionLimitExceeded"
| "cpu_sampling_error_code (CSE_Doctor _) = EC_Internal"
| "cpu_sampling_error_code (CSE_InvalidElf _ _) = EC_Internal"
| "cpu_sampling_error_code (CSE_InvalidTask _ _) = EC_Internal"

fun cpu_sampling_error_recoverable :: "cpu_sampling_error \<Rightarrow> bool" where
  "cpu_sampling_error_recoverable (CSE_Inspect e) = inspect_error_recoverable e"
| "cpu_sampling_error_recoverable (CSE_Io _ source) =
     (io_kind source = IO_PermissionDenied \<or> io_kind source = IO_NotFound)"
| "cpu_sampling_error_recoverable (CSE_Limit _ _) = True"
| "cpu_sampling_error_recoverable (CSE_Doctor _) = False"
| "cpu_sampling_error_recoverable (CSE_InvalidElf _ _) = False"
| "cpu_sampling_error_recoverable (CSE_InvalidTask _ _) = False"

section \<open>Operations\<close>

definition task_id :: "string \<Rightarrow> io_error + bytes \<Rightarrow> (u32, cpu_sampling_error) rresult" where
  "task_id path entry =
     (case entry of
        Inl source \<Rightarrow> Err (CSE_Io path source)
      | Inr value \<Rightarrow>
          rbind (ok_or (from_utf8 value) (CSE_InvalidTask path (from_utf8_lossy value))) (\<lambda>text.
          ok_or (from_str_radix 10 text) (CSE_InvalidTask path text)))"

definition target_thread_ids :: "os \<Rightarrow> target_identity \<Rightarrow> (u32 list, cpu_sampling_error) io" where
  "target_thread_ids os target =
     io_bind (io_map_err CSE_Inspect (verify_target os target)) (\<lambda>_.
     let path = proc_path (ti_pid target) ''task'' in
     io_bind (io_map_err (CSE_Io path) (fs_read_dir os path)) (\<lambda>entries.
     io_bind (io_lift (rcollect (task_id path) entries)) (\<lambda>threads.
     io_bind (io_map_err CSE_Inspect (verify_target os target)) (\<lambda>_.
     io_ok (ordered_set threads)))))"

definition target_threads :: "os \<Rightarrow> target_identity \<Rightarrow> (u32, cpu_sampling_error) io" where
  "target_threads os target =
     io_bind (target_thread_ids os target) (\<lambda>threads.
     let n = length threads in
     if n < 2 ^ 32 then io_ok (of_nat n)
     else io_err (CSE_Limit ''thread count'' (if n < 2 ^ 64 then of_nat n else - 1)))"

definition effective_perf_check :: "capability_report \<Rightarrow> u32 \<Rightarrow> check_result" where
  "effective_perf_check report target_effective_uid =
     (let uid = en_effective_uid (cr_environment report);
          paranoid = sc_perf_event_paranoid (cr_checks report);
          same_user = (uid = target_effective_uid);
          allowed = (case Option.bind (ck_detail paranoid) parse_i32 of None \<Rightarrow> False | Some value \<Rightarrow> value \<le> 2)
      in if uid = 0 \<or> cap_uprobe (cr_capabilities report) \<or> (same_user \<and> allowed)
         then \<lparr>ck_status = CK_Available,
               ck_detail = Some (''PID-scoped user-space sampling is permitted; perf_event_paranoid='' @
                 (case ck_detail paranoid of Some d \<Rightarrow> d | None \<Rightarrow> ''unknown''))\<rparr>
         else paranoid)"

definition elf_symbol_names :: "os \<Rightarrow> string \<Rightarrow> (string set, cpu_sampling_error) io" where
  "elf_symbol_names os path =
     io_bind (io_map_err (CSE_Io path) (fs_read os path)) (\<lambda>bs.
     io_lift (case os_parse_elf os bs of
        Inl e \<Rightarrow> Err (CSE_InvalidElf path e)
      | Inr f \<Rightarrow> Ok (set (List.map_filter es_name (elf_symbols f @ elf_dynamic_symbols f)))))"

text \<open>\<open>sort\<close> and \<open>dedup\<close> of paths.\<close>

fun dedup_paths :: "string list \<Rightarrow> string list" where
  "dedup_paths (p # q # ps) = (if path_eq p q then dedup_paths (p # ps) else p # dedup_paths (q # ps))"
| "dedup_paths ps = ps"

definition trampoline_candidates :: "process_report \<Rightarrow> string list" where
  "trampoline_candidates report =
     dedup_paths (sort_key path_key
       (pr_executable report #
        filter (\<lambda>path. case file_name path of None \<Rightarrow> False | Some name \<Rightarrow> starts_with name ''libpython'')
          (pr_loaded_libraries report)))"

fun scan_candidates :: "os \<Rightarrow> bool \<times> bool \<Rightarrow> string list \<Rightarrow> (bool \<times> bool, cpu_sampling_error) io" where
  "scan_candidates os found [] = io_ok found"
| "scan_candidates os (python_detected, trampoline_supported) (path # paths) =
     io_bind (elf_symbol_names os path) (\<lambda>symbols.
     if \<not> (''Py_Initialize'' \<in> symbols \<or> ''_PyEval_EvalFrameDefault'' \<in> symbols \<or>
           ''PyUnstable_PerfMapState_Init'' \<in> symbols)
     then scan_candidates os (python_detected, trampoline_supported) paths
     else scan_candidates os
       (True, trampoline_supported \<or>
          (''_Py_trampoline_func_start'' \<in> symbols \<and> ''PyUnstable_WritePerfMapEntry'' \<in> symbols)) paths)"

definition max_perf_map_bytes :: u64 where
  "max_perf_map_bytes = 16 * 1024 * 1024"

definition perf_map_path :: "process_report \<Rightarrow> string" where
  "perf_map_path report =
     (let pid = render_nat 10 (unat (ti_pid (pr_target report))) in
      ''/proc/'' @ pid @ ''/root/tmp/perf-'' @ pid @ ''.map'')"

definition python_symbolization ::
  "os \<Rightarrow> process_report \<Rightarrow> (python_symbolization_status, cpu_sampling_error) io" where
  "python_symbolization os report =
     io_bind (scan_candidates os (False, False) (trampoline_candidates report))
       (\<lambda>(python_detected, trampoline_supported).
     if \<not> python_detected then io_ok PY_NotDetected
     else if \<not> trampoline_supported then io_ok PY_Unsupported
     else (\<lambda>t.
       case fs_metadata os (perf_map_path report) t of
         (Ok metadata, t) \<Rightarrow>
           (if max_perf_map_bytes < md_len metadata
            then (Err (CSE_Limit ''perf map bytes'' (md_len metadata)), t)
            else if md_is_file metadata \<and> md_len metadata \<noteq> 0 then (Ok PY_Active, t)
            else (Ok PY_Inactive, t))
       | (Err source, t) \<Rightarrow>
           (if io_kind source = IO_NotFound then (Ok PY_Inactive, t)
            else (Err (CSE_Io (perf_map_path report) source), t))
       | (Panic, t) \<Rightarrow> (Panic, t)))"

definition trampoline_warnings :: "python_symbolization_status \<Rightarrow> warning list" where
  "trampoline_warnings status =
     (case status of
        PY_Inactive \<Rightarrow> [mk_warning ''PYTHON_PERF_TRAMPOLINE_INACTIVE''
          ''CPython perf trampoline support is present but inactive; native frames remain available'']
      | PY_Unsupported \<Rightarrow> [mk_warning ''PYTHON_PERF_TRAMPOLINE_UNSUPPORTED''
          ''the mapped CPython build does not expose perf trampoline symbols; native frames remain available'']
      | PY_NotDetected \<Rightarrow> []
      | PY_Active \<Rightarrow> [])"

definition cpu_sampling_validate ::
  "os \<Rightarrow> process_report \<Rightarrow> (cpu_sampling_validation_result, cpu_sampling_error) io" where
  "cpu_sampling_validate os report =
     io_bind (io_map_err CSE_Inspect (verify_target os (pr_target report))) (\<lambda>_.
     io_bind (target_threads os (pr_target report)) (\<lambda>threads.
     io_bind (io_map_err CSE_Doctor (doctor_run os)) (\<lambda>capabilities.
     let perf_event = effective_perf_check capabilities (pc_effective_uid (pr_credentials report)) in
     io_bind (python_symbolization os report) (\<lambda>python_status.
     let issues = (if ck_status perf_event \<noteq> CK_Available
           then [\<lparr>vi_code = EC_PermissionDenied,
                  vi_message = ''CPU sampling is restricted by the effective perf event policy''\<rparr>]
           else []) in
     io_bind (io_map_err CSE_Inspect (verify_target os (pr_target report))) (\<lambda>_.
     io_ok \<lparr>sv_schema_version = schema_current, sv_ok = True, sv_valid = (issues = []),
             sv_target = pr_target report, sv_target_threads = threads,
             sv_requirements = \<lparr>sr_needs_perf_event = True, sr_target_mutation = False\<rparr>,
             sv_perf_event = perf_event, sv_python_status = python_status, sv_issues = issues,
             sv_warnings = trampoline_warnings python_status\<rparr>)))))"

end
