(* ===== verification/Cpu_Analysis.thy ===== *)
theory Cpu_Analysis
  imports Cpu_Sampling Resolve "HOL-Library.List_Lexorder" "HOL-Library.Product_Lexorder"
begin

text \<open>
  Analysis of a CPU capture (core/src/cpu_sampling_analysis.rs): equal stacks are counted and the heaviest kept,
  addresses are symbolized from the map table, the object files and the CPython perf map, hotspots are ranked
  and the result says whether every sample of the capture is accounted for.
\<close>

section \<open>Types\<close>

record raw_cpu_sample =
  sm_thread_id :: u32
  sm_addresses :: "u64 list"

record cpu_capture_data =
  cap_samples :: "raw_cpu_sample list"
  cap_observed_samples :: u64
  cap_lost_samples :: u64
  cap_truncated_stacks :: u64
  cap_throttled_records :: u64
  cap_threads_observed :: nat
  cap_threads_attached :: nat
  cap_skipped_threads :: "u32 list"
  cap_capacity_reached :: bool
  cap_python_status :: python_symbolization_status

datatype cpu_analysis_error =
    CAE_Inspect inspect_error
  | CAE_Io string io_error
  | CAE_InvalidMaps string string
  | CAE_InvalidPerfMap string string
  | CAE_InvalidUtf8 string
  | CAE_Limit string u64

fun cpu_analysis_error_code :: "cpu_analysis_error \<Rightarrow> error_code" where
  "cpu_analysis_error_code (CAE_Inspect e) = inspect_error_code e"
| "cpu_analysis_error_code (CAE_Io _ source) =
     (if io_kind source = IO_PermissionDenied then EC_PermissionDenied else EC_Internal)"
| "cpu_analysis_error_code (CAE_Limit _ _) = EC_SessionLimitExceeded"
| "cpu_analysis_error_code (CAE_InvalidMaps _ _) = EC_Internal"
| "cpu_analysis_error_code (CAE_InvalidPerfMap _ _) = EC_Internal"
| "cpu_analysis_error_code (CAE_InvalidUtf8 _) = EC_Internal"

fun cpu_analysis_error_recoverable :: "cpu_analysis_error \<Rightarrow> bool" where
  "cpu_analysis_error_recoverable (CAE_Inspect e) = inspect_error_recoverable e"
| "cpu_analysis_error_recoverable (CAE_Io _ source) =
     (io_kind source = IO_NotFound \<or> io_kind source = IO_PermissionDenied)"
| "cpu_analysis_error_recoverable (CAE_Limit _ _) = True"
| "cpu_analysis_error_recoverable (CAE_InvalidMaps _ _) = False"
| "cpu_analysis_error_recoverable (CAE_InvalidPerfMap _ _) = False"
| "cpu_analysis_error_recoverable (CAE_InvalidUtf8 _) = False"

record module_symbol =
  ms_file_offset :: u64
  ms_size :: u64
  ms_name :: string

record object_module =
  mo_build_id :: "string option"
  mo_symbols :: "module_symbol list"

record perf_map_symbol =
  pm_start :: u64
  pm_end :: u64
  pm_name :: string

text \<open>The keys of the module table are paths, ordered by their components.\<close>

record symbolizer =
  sb_maps :: "map_region list"
  sb_modules :: "((nat \<times> string) list, object_module) btree"
  sb_python_symbols :: "perf_map_symbol list"
  sb_python_status :: python_symbolization_status
  sb_warnings :: "warning list"

section \<open>The search of a partition point\<close>

text \<open>\<open>slice::partition_point\<close>: a binary search that halves the range until one element is left.\<close>

function partition_search :: "('a \<Rightarrow> bool) \<Rightarrow> 'a list \<Rightarrow> nat \<Rightarrow> nat \<Rightarrow> nat" where
  "partition_search pred xs base width =
     (if width \<le> 1 then base
      else let half = width div 2; mid = base + half in
        partition_search pred xs (if pred (xs ! mid) then mid else base) (width - half))"
  by pat_completeness auto
termination
  by (relation "measure (\<lambda>(pred, xs, base, width). width)") auto

declare partition_search.simps [simp del]

definition partition_point :: "('a \<Rightarrow> bool) \<Rightarrow> 'a list \<Rightarrow> nat" where
  "partition_point pred xs =
     (if xs = [] then 0
      else let base = partition_search pred xs 0 (length xs) in base + (if pred (xs ! base) then 1 else 0))"

section \<open>Symbol tables\<close>

definition invalid_maps :: "string \<Rightarrow> string \<Rightarrow> cpu_analysis_error" where
  "invalid_maps path reason = CAE_InvalidMaps path reason"

definition required_field :: "string list \<Rightarrow> nat \<Rightarrow> string \<Rightarrow> string \<Rightarrow> (string, cpu_analysis_error) rresult" where
  "required_field parts n path name = ok_or (nth_opt parts n) (invalid_maps path (''missing '' @ name))"

definition parse_maps_hex :: "string \<Rightarrow> string \<Rightarrow> string \<Rightarrow> (u64, cpu_analysis_error) rresult" where
  "parse_maps_hex digits path reason = ok_or (from_str_radix 16 digits) (invalid_maps path reason)"

definition parse_map_line :: "string \<Rightarrow> string \<Rightarrow> (map_region option, cpu_analysis_error) rresult" where
  "parse_map_line line path =
     (let parts = split_whitespace line in
      rbind (required_field parts 0 path ''address range'') (\<lambda>range.
      rbind (required_field parts 1 path ''permissions'') (\<lambda>permissions.
      rbind (required_field parts 2 path ''file offset'') (\<lambda>offset.
      rbind (required_field parts 3 path ''device'') (\<lambda>_.
      rbind (required_field parts 4 path ''inode'') (\<lambda>_.
      let mapped_path = join '' '' (drop 5 parts) in
      if mapped_path = [] then Ok None
      else if CHR ''x'' \<notin> set permissions \<or> \<not> starts_with mapped_path ''/'' then Ok None
      else
        let mapped_path = (case strip_suffix '' (deleted)'' mapped_path of Some p \<Rightarrow> p | None \<Rightarrow> mapped_path) in
        rbind (ok_or (split_once ''-'' range) (invalid_maps path ''invalid address range'')) (\<lambda>(start, end).
        rbind (parse_maps_hex start path ''invalid mapping start'') (\<lambda>start.
        rbind (parse_maps_hex end path ''invalid mapping end'') (\<lambda>end.
        rbind (parse_maps_hex offset path ''invalid mapping file offset'') (\<lambda>file_offset.
        if end \<le> start then Err (invalid_maps path ''mapping start must precede its end'')
        else Ok (Some \<lparr>mg_start = start, mg_end = end, mg_file_offset = file_offset, mg_path = mapped_path\<rparr>)))))))))))"

definition parse_executable_maps :: "string \<Rightarrow> string \<Rightarrow> (map_region list, cpu_analysis_error) rresult" where
  "parse_executable_maps text path =
     rbind (rcollect (\<lambda>line. parse_map_line line path) (lines text)) (\<lambda>regions. Ok (List.map_filter id regions))"

definition add_module_symbol ::
  "os \<Rightarrow> elf_file \<Rightarrow> (u64, module_symbol) btree \<Rightarrow> elf_symbol \<Rightarrow> ((u64, module_symbol) btree, string) rresult" where
  "add_module_symbol os file symbols symbol =
     (if \<not> es_is_definition symbol \<or> \<not> es_is_text symbol then Ok symbols
      else
        (case es_name symbol of
           None \<Rightarrow> Ok symbols
         | Some name \<Rightarrow>
             rbind (virtual_address_to_file_offset file (es_address symbol)) (\<lambda>found.
             case found of
               None \<Rightarrow> Ok symbols
             | Some file_offset \<Rightarrow>
                 Ok (bt_entry file_offset (\<lambda>existing.
                   case existing of
                     Some current \<Rightarrow> current\<lparr>ms_size := max (ms_size current) (es_size symbol)\<rparr>
                   | None \<Rightarrow> \<lparr>ms_file_offset = file_offset, ms_size = es_size symbol,
                       ms_name = (case demangle_cpp os name of Some d \<Rightarrow> d | None \<Rightarrow> name)\<rparr>) symbols))))"

fun add_module_symbols ::
  "os \<Rightarrow> elf_file \<Rightarrow> (u64, module_symbol) btree \<Rightarrow> elf_symbol list \<Rightarrow> ((u64, module_symbol) btree, string) rresult" where
  "add_module_symbols os file symbols [] = Ok symbols"
| "add_module_symbols os file symbols (symbol # rest) =
     rbind (add_module_symbol os file symbols symbol) (\<lambda>symbols. add_module_symbols os file symbols rest)"

definition load_module :: "os \<Rightarrow> string \<Rightarrow> (object_module, string) io" where
  "load_module os path =
     io_bind (io_map_err io_message (fs_read os path)) (\<lambda>bs.
     io_bind (io_lift (sum_result id (os_parse_elf os bs))) (\<lambda>file.
     io_bind (io_lift (sum_result id (elf_build_id file))) (\<lambda>build_id.
     io_bind (io_lift (add_module_symbols os file [] (elf_dynamic_symbols file @ elf_symbols file))) (\<lambda>symbols.
     io_ok \<lparr>mo_build_id = map_option hex_encode build_id, mo_symbols = map snd symbols\<rparr>))))"

definition find_module_symbol :: "module_symbol list \<Rightarrow> u64 \<Rightarrow> module_symbol option" where
  "find_module_symbol symbols offset =
     (let index = partition_point (\<lambda>symbol. ms_file_offset symbol \<le> offset) symbols in
      if index = 0 then None
      else
        Option.bind (nth_opt symbols (index - 1)) (\<lambda>symbol.
        let next_start = map_option ms_file_offset (nth_opt symbols index);
            within_size = (ms_size symbol \<noteq> 0 \<and> offset - ms_file_offset symbol < ms_size symbol);
            before_next = (ms_size symbol = 0 \<and> (case next_start of None \<Rightarrow> True | Some n \<Rightarrow> offset < n)) in
        if within_size \<or> before_next then Some symbol else None))"

definition parse_perf_line :: "string \<Rightarrow> nat \<Rightarrow> string \<Rightarrow> (perf_map_symbol, cpu_analysis_error) rresult" where
  "parse_perf_line path index line =
     (let parts = splitn 3 (CHR '' '') line;
          part = (\<lambda>n. case nth_opt parts n of Some p \<Rightarrow> p | None \<Rightarrow> []);
          bad = (\<lambda>reason. CAE_InvalidPerfMap path (''line '' @ render_nat 10 (index + 1) @ reason)) in
      rbind (ok_or (from_str_radix 16 (part 0)) (bad '' has an invalid address'')) (\<lambda>start.
      rbind (ok_or (from_str_radix 16 (part 1)) (bad '' has an invalid size'')) (\<lambda>size.
      if size = 0 \<or> part 2 = [] then Err (bad '' has an empty symbol or zero size'')
      else
        rbind (ok_or (checked_add start size) (bad '' address range overflows'')) (\<lambda>end.
        Ok \<lparr>pm_start = start, pm_end = end, pm_name = part 2\<rparr>))))"

definition parse_perf_map :: "string \<Rightarrow> string \<Rightarrow> (perf_map_symbol list, cpu_analysis_error) rresult" where
  "parse_perf_map text path =
     rbind (rcollect (\<lambda>(index, line). parse_perf_line path index line)
        (filter (\<lambda>(_, line). line \<noteq> []) (enumerate 0 (lines text)))) (\<lambda>symbols.
     Ok (sort_key pm_start symbols))"

definition find_perf_symbol :: "perf_map_symbol list \<Rightarrow> u64 \<Rightarrow> perf_map_symbol option" where
  "find_perf_symbol symbols address =
     (let index = partition_point (\<lambda>symbol. pm_start symbol \<le> address) symbols in
      if index = 0 then None
      else
        Option.bind (nth_opt symbols (index - 1)) (\<lambda>symbol.
        if address < pm_end symbol then Some symbol else None))"

definition load_python_symbols ::
  "os \<Rightarrow> process_report \<Rightarrow> python_symbolization_status \<Rightarrow>
   (perf_map_symbol list \<times> python_symbolization_status, cpu_analysis_error) io" where
  "load_python_symbols os report detected_status =
     (if detected_status = PY_NotDetected \<or> detected_status = PY_Unsupported then io_ok ([], detected_status)
      else
        let path = perf_map_path report in (\<lambda>t.
        case fs_metadata os path t of
          (Err source, t) \<Rightarrow>
            (if io_kind source = IO_NotFound then (Ok ([], PY_Inactive), t) else (Err (CAE_Io path source), t))
        | (Panic, t) \<Rightarrow> (Panic, t)
        | (Ok metadata, t) \<Rightarrow>
            (if max_perf_map_bytes < md_len metadata
             then (Err (CAE_Limit ''Python perf map bytes'' (md_len metadata)), t)
             else
               io_bind (io_map_err (CAE_Io path) (fs_read os path)) (\<lambda>bs.
               io_bind (io_lift (ok_or (from_utf8 bs) (CAE_InvalidUtf8 path))) (\<lambda>text.
               io_bind (io_lift (parse_perf_map text path)) (\<lambda>symbols.
               io_ok (symbols, if symbols = [] then PY_Inactive else PY_Active)))) t)))"

section \<open>The symbolizer\<close>

fun load_modules ::
  "os \<Rightarrow> string list \<Rightarrow> (((nat \<times> string) list, object_module) btree \<times> warning list, cpu_analysis_error) io" where
  "load_modules os [] = io_ok ([], [])"
| "load_modules os (path # paths) = (\<lambda>t.
     case load_module os path t of
       (Ok loaded, t) \<Rightarrow>
         io_bind (load_modules os paths) (\<lambda>(modules, warnings).
         io_ok (bt_insert (path_key path) loaded modules, warnings)) t
     | (Err message, t) \<Rightarrow>
         io_bind (load_modules os paths) (\<lambda>(modules, warnings).
         io_ok (modules, mk_warning ''NATIVE_MODULE_UNAVAILABLE''
           (''could not symbolize '' @ path @ '': '' @ message) # warnings)) t
     | (Panic, t) \<Rightarrow> (Panic, t))"

text \<open>The paths of the regions as a \<open>BTreeSet\<close>.\<close>

definition region_paths :: "map_region list \<Rightarrow> string list" where
  "region_paths maps = map snd (foldl (\<lambda>m r. bt_entry (path_key (mg_path r)) (or_insert (mg_path r)) m) [] maps)"

definition symbolizer_load ::
  "os \<Rightarrow> process_report \<Rightarrow> python_symbolization_status \<Rightarrow> (symbolizer, cpu_analysis_error) io" where
  "symbolizer_load os report python_status =
     (let maps_path = proc_path (ti_pid (pr_target report)) ''maps'' in
      io_bind (io_map_err (CAE_Io maps_path) (fs_read_to_string os maps_path)) (\<lambda>maps_text.
      io_bind (io_lift (parse_executable_maps maps_text maps_path)) (\<lambda>maps.
      io_bind (load_modules os (region_paths maps)) (\<lambda>(modules, warnings).
      io_bind (load_python_symbols os report python_status) (\<lambda>(python_symbols, python_status).
      io_ok \<lparr>sb_maps = maps, sb_modules = modules, sb_python_symbols = python_symbols,
             sb_python_status = python_status, sb_warnings = warnings\<rparr>)))))"

definition unresolved_frame :: "u64 \<Rightarrow> cpu_stack_frame" where
  "unresolved_frame address =
     \<lparr>fr_address = address, fr_module_path = None, fr_build_id = None, fr_file_offset = None, fr_symbol = None,
      fr_symbol_offset = None, fr_language = FL_Unknown, fr_source_path = None, fr_line = None\<rparr>"

definition symbolize :: "symbolizer \<Rightarrow> u64 \<Rightarrow> (cpu_stack_frame, 'e) rresult" where
  "symbolize sb address =
     (case find_perf_symbol (sb_python_symbols sb) address of
        Some symbol \<Rightarrow>
          Ok \<lparr>fr_address = address, fr_module_path = None, fr_build_id = None, fr_file_offset = None,
              fr_symbol = Some (pm_name symbol), fr_symbol_offset = Some (address - pm_start symbol),
              fr_language = FL_Python, fr_source_path = None, fr_line = None\<rparr>
      | None \<Rightarrow>
          (case List.find (\<lambda>mapping. mg_start mapping \<le> address \<and> address < mg_end mapping) (sb_maps sb) of
             None \<Rightarrow> Ok (unresolved_frame address)
           | Some mapping \<Rightarrow>
               rbind (add_or_panic (mg_file_offset mapping) (address - mg_start mapping)) (\<lambda>file_offset.
               let loaded = bt_get (sb_modules sb) (path_key (mg_path mapping));
                   symbol = Option.bind loaded (\<lambda>m. find_module_symbol (mo_symbols m) file_offset) in
               Ok \<lparr>fr_address = address, fr_module_path = Some (mg_path mapping),
                   fr_build_id = Option.bind loaded mo_build_id, fr_file_offset = Some file_offset,
                   fr_symbol = map_option ms_name symbol,
                   fr_symbol_offset = map_option (\<lambda>s. file_offset - ms_file_offset s) symbol,
                   fr_language = FL_Native, fr_source_path = None, fr_line = None\<rparr>)))"

section \<open>Aggregation\<close>

definition usize_of_u64 :: "u64 \<Rightarrow> nat" where
  "usize_of_u64 n = unat n"

definition count_stack :: "(u64 list, u64) btree \<Rightarrow> raw_cpu_sample \<Rightarrow> (u64 list, u64) btree" where
  "count_stack groups sample =
     bt_entry (sm_addresses sample) (\<lambda>n. case n of Some c \<Rightarrow> saturating_add c 1 | None \<Rightarrow> 1) groups"

definition stack_rank :: "u64 list \<times> u64 \<Rightarrow> int \<times> u64 list" where
  "stack_rank g = (case g of (stack, n) \<Rightarrow> (- int (unat n), stack))"

definition aggregate_raw_stacks :: "raw_cpu_sample list \<Rightarrow> u64 \<Rightarrow> (u64 list \<times> u64) list \<times> bool" where
  "aggregate_raw_stacks samples max_groups =
     (let groups = foldl count_stack [] samples;
          groups = sort_key stack_rank groups;
          capacity = usize_of_u64 max_groups in
      (take capacity groups, capacity < length groups))"

text \<open>Per address the inclusive and the exclusive number of samples.\<close>

definition add_exclusive :: "u64 \<Rightarrow> (u64 \<times> u64) option \<Rightarrow> u64 \<times> u64" where
  "add_exclusive n entry = (case entry of Some (i, e) \<Rightarrow> (i, saturating_add e n) | None \<Rightarrow> (0, saturating_add 0 n))"

definition add_inclusive :: "u64 \<Rightarrow> (u64 \<times> u64) option \<Rightarrow> u64 \<times> u64" where
  "add_inclusive n entry = (case entry of Some (i, e) \<Rightarrow> (saturating_add i n, e) | None \<Rightarrow> (saturating_add 0 n, 0))"

fun count_addresses :: "u64 \<Rightarrow> u64 list \<Rightarrow> u64 list \<Rightarrow> (u64, u64 \<times> u64) btree \<Rightarrow> (u64, u64 \<times> u64) btree" where
  "count_addresses n seen [] counts = counts"
| "count_addresses n seen (a # stack) counts =
     (if a \<in> set seen then count_addresses n seen stack counts
      else count_addresses n (a # seen) stack (bt_entry a (add_inclusive n) counts))"

definition count_group :: "(u64, u64 \<times> u64) btree \<Rightarrow> u64 list \<times> u64 \<Rightarrow> (u64, u64 \<times> u64) btree" where
  "count_group counts g =
     (case g of (stack, n) \<Rightarrow>
        count_addresses n [] stack
          (case stack of [] \<Rightarrow> counts | a # _ \<Rightarrow> bt_entry a (add_exclusive n) counts))"

definition selector_hints :: "cpu_stack_frame \<Rightarrow> string option \<times> string option" where
  "selector_hints frame =
     (if fr_language frame \<noteq> FL_Native then (None, None)
      else
        (case (fr_module_path frame, fr_file_offset frame, fr_symbol_offset frame) of
           (Some path, Some offset, Some symbol_offset) \<Rightarrow>
             (case checked_sub offset symbol_offset of
                None \<Rightarrow> (None, None)
              | Some symbol_start \<Rightarrow>
                  (Some (''uprobe:'' @ path @ '':+0x'' @ render_nat 16 (unat symbol_start) @ '':entry''),
                   Some (''uprobe:'' @ path @ '':+0x'' @ render_nat 16 (unat symbol_start) @ '':return'')))
         | _ \<Rightarrow> (None, None)))"

definition hotspot_of :: "symbolizer \<Rightarrow> u64 \<Rightarrow> u64 \<times> u64 \<times> u64 \<Rightarrow> (cpu_hotspot, 'e) rresult" where
  "hotspot_of sb denominator entry =
     (case entry of (address, inclusive, exclusive) \<Rightarrow>
        rbind (symbolize sb address) (\<lambda>frame.
        Ok \<lparr>hs_frame = frame, hs_inclusive_samples = inclusive, hs_exclusive_samples = exclusive,
            hs_inclusive_proportion = ratio (unat inclusive) (unat denominator),
            hs_exclusive_proportion = ratio (unat exclusive) (unat denominator),
            hs_entry_selector_hint = fst (selector_hints frame),
            hs_return_selector_hint = snd (selector_hints frame)\<rparr>))"

definition hotspot_rank :: "cpu_hotspot \<Rightarrow> int \<times> int \<times> u64" where
  "hotspot_rank h =
     (- int (unat (hs_inclusive_samples h)), - int (unat (hs_exclusive_samples h)), fr_address (hs_frame h))"

definition aggregate_hotspots ::
  "(u64 list \<times> u64) list \<Rightarrow> symbolizer \<Rightarrow> u64 \<Rightarrow> u64 \<Rightarrow> (cpu_hotspot list, 'e) rresult" where
  "aggregate_hotspots groups sb denominator max_hotspots =
     (let counts = foldl count_group [] groups in
      rbind (rcollect (hotspot_of sb denominator) counts) (\<lambda>hotspots.
      Ok (take (usize_of_u64 max_hotspots) (sort_key hotspot_rank hotspots))))"

definition count_frame :: "cpu_symbolization_summary \<Rightarrow> cpu_stack_frame \<Rightarrow> cpu_symbolization_summary" where
  "count_frame summary frame =
     (let summary = summary\<lparr>sy_total_frames := sy_total_frames summary + 1\<rparr> in
      case (fr_language frame, fr_symbol frame \<noteq> None) of
        (FL_Native, True) \<Rightarrow> summary\<lparr>sy_resolved_native_frames := sy_resolved_native_frames summary + 1\<rparr>
      | (FL_Python, True) \<Rightarrow> summary\<lparr>sy_resolved_python_frames := sy_resolved_python_frames summary + 1\<rparr>
      | _ \<Rightarrow> summary\<lparr>sy_unresolved_frames := sy_unresolved_frames summary + 1\<rparr>)"

definition summarize_symbolization ::
  "cpu_stack_group list \<Rightarrow> python_symbolization_status \<Rightarrow> cpu_symbolization_summary" where
  "summarize_symbolization groups python_status =
     foldl count_frame
       \<lparr>sy_total_frames = 0, sy_resolved_native_frames = 0, sy_resolved_python_frames = 0,
        sy_unresolved_frames = 0, sy_python_status = python_status\<rparr> (concat (map sgr_frames groups))"

definition append_capture_warnings :: "cpu_capture_data \<Rightarrow> warning list \<Rightarrow> warning list" where
  "append_capture_warnings capture warnings =
     warnings @
     (if cap_capacity_reached capture
      then [mk_warning ''CPU_SAMPLE_CAPACITY_REACHED''
        ''the configured sample capacity was reached; shorten or lower the sampling frequency before interpreting proportions'']
      else []) @
     (if cap_lost_samples capture \<noteq> 0
      then [mk_warning ''CPU_SAMPLES_LOST''
        (''perf reported '' @ render_nat 10 (unat (cap_lost_samples capture)) @ '' lost samples'')]
      else []) @
     (if cap_throttled_records capture \<noteq> 0
      then [mk_warning ''CPU_SAMPLING_THROTTLED''
        (''perf reported '' @ render_nat 10 (unat (cap_throttled_records capture)) @ '' throttle records'')]
      else []) @
     (if cap_skipped_threads capture \<noteq> []
      then [mk_warning ''CPU_THREADS_NOT_ATTACHED''
        (render_nat 10 (length (cap_skipped_threads capture)) @
         '' observed threads exited or exceeded max_threads before attachment'')]
      else [])"

definition capture_is_complete :: "cpu_capture_data \<Rightarrow> u64 \<Rightarrow> bool \<Rightarrow> bool" where
  "capture_is_complete capture grouped_samples group_capacity_reached \<longleftrightarrow>
     \<not> cap_capacity_reached capture \<and> \<not> group_capacity_reached \<and> cap_lost_samples capture = 0 \<and>
     cap_throttled_records capture = 0 \<and> cap_skipped_threads capture = [] \<and>
     grouped_samples = cap_observed_samples capture"

definition stack_group_of :: "symbolizer \<Rightarrow> u64 \<Rightarrow> u64 list \<times> u64 \<Rightarrow> (cpu_stack_group, 'e) rresult" where
  "stack_group_of sb denominator g =
     (case g of (addresses, samples) \<Rightarrow>
        rbind (rcollect (symbolize sb) addresses) (\<lambda>frames.
        Ok \<lparr>sgr_frames = frames, sgr_samples = samples, sgr_proportion = ratio (unat samples) (unat denominator)\<rparr>))"

text \<open>\<open>iter().sum::<u64>()\<close>, which panics when the sum overflows.\<close>

fun sum_or_panic :: "u64 list \<Rightarrow> (u64, 'e) rresult" where
  "sum_or_panic xs = foldl (\<lambda>acc x. rbind acc (\<lambda>a. add_or_panic a x)) (Ok 0) xs"

definition u32_of_count :: "nat \<Rightarrow> string \<Rightarrow> (u32, cpu_analysis_error) rresult" where
  "u32_of_count n what = (if n < 2 ^ 32 then Ok (of_nat n) else Err (CAE_Limit what (- 1)))"

definition cpu_analyze ::
  "os \<Rightarrow> process_report \<Rightarrow> cpu_sampling_spec \<Rightarrow> string \<Rightarrow> cpu_capture_data \<Rightarrow>
   (cpu_sample_inventory_result, cpu_analysis_error) io" where
  "cpu_analyze os report spec session_id capture =
     io_bind (io_map_err CAE_Inspect (verify_target os (pr_target report))) (\<lambda>_.
     io_bind (symbolizer_load os report (cap_python_status capture)) (\<lambda>sb.
     let (raw_groups, group_capacity_reached) = aggregate_raw_stacks (cap_samples capture) (cs_max_groups spec);
         sample_denominator = max (cap_observed_samples capture) 1 in
     io_bind (io_lift (sum_or_panic (map snd raw_groups))) (\<lambda>grouped_samples.
     io_bind (io_lift (rcollect (stack_group_of sb sample_denominator) raw_groups)) (\<lambda>stack_groups.
     io_bind (io_lift (aggregate_hotspots raw_groups sb sample_denominator (cs_max_groups spec))) (\<lambda>hotspots.
     let symbolization = summarize_symbolization stack_groups (sb_python_status sb);
         warnings = append_capture_warnings capture (sb_warnings sb) @
           (if group_capacity_reached
            then [mk_warning ''CPU_GROUP_CAPACITY_REACHED''
              ''distinct stack groups exceeded max_groups; only the heaviest groups and hotspots were retained'']
            else []) @
           (if sy_python_status symbolization = PY_Active \<and> sy_resolved_python_frames symbolization = 0
            then [mk_warning ''PYTHON_FRAMES_UNRESOLVED''
              ''the CPython perf map is active, but sampled callchains contained no resolvable Python trampoline frames'']
            else []) in
     io_bind (io_map_err CAE_Inspect (verify_target os (pr_target report))) (\<lambda>_.
     io_bind (io_lift (if length raw_groups < 2 ^ 64 then Ok (of_nat (length raw_groups))
        else Err (CAE_Limit ''group count'' (- 1)))) (\<lambda>groups.
     io_bind (io_lift (u32_of_count (cap_threads_observed capture) ''observed thread count'')) (\<lambda>threads_observed.
     io_bind (io_lift (u32_of_count (cap_threads_attached capture) ''attached thread count'')) (\<lambda>threads_attached.
     io_ok \<lparr>ir_schema_version = schema_current, ir_ok = True, ir_session_id = session_id,
       ir_status = SS_Completed, ir_target = pr_target report,
       ir_inventory =
         \<lparr>inv_name = cs_name spec, inv_sample_event = CSE_CpuClock, inv_frequency_hz = cs_frequency_hz spec,
          inv_duration_ms = cs_duration_ms spec, inv_stack_groups = stack_groups, inv_hotspots = hotspots\<rparr>,
       ir_collection =
         \<lparr>cc_completeness =
            (if capture_is_complete capture grouped_samples group_capacity_reached then CC_Complete else CC_Incomplete),
          cc_observed_samples = cap_observed_samples capture, cc_grouped_samples = grouped_samples,
          cc_lost_samples = cap_lost_samples capture, cc_sample_capacity = cs_max_samples spec,
          cc_group_capacity = cs_max_groups spec, cc_groups = groups,
          cc_table_utilization = ratio (unat groups) (unat (max (cs_max_groups spec) 1)),
          cc_stack_depth = cs_stack_depth spec, cc_truncated_stacks = cap_truncated_stacks capture,
          cc_threads_observed = threads_observed, cc_threads_attached = threads_attached,
          cc_thread_capacity = cs_max_threads spec\<rparr>,
       ir_symbolization = symbolization, ir_warnings = warnings\<rparr>)))))))))"

section \<open>Binary search\<close>

text \<open>A list is partitioned when the elements that satisfy the predicate come first.\<close>

definition partitioned :: "('a \<Rightarrow> bool) \<Rightarrow> 'a list \<Rightarrow> bool" where
  "partitioned pred xs \<longleftrightarrow> (\<forall>i < length xs. pred (xs ! i) \<longleftrightarrow> i < length (takeWhile pred xs))"

lemma sorted_partitioned:
  assumes "sorted (map f xs)"
  shows "partitioned (\<lambda>x. f x \<le> k) xs"
  unfolding partitioned_def
proof (intro allI impI iffI)
  fix i assume i: "i < length xs"
  let ?n = "length (takeWhile (\<lambda>x. f x \<le> k) xs)"
  show "f (xs ! i) \<le> k" if "i < ?n"
    using that by (metis nth_mem set_takeWhileD takeWhile_nth)
  show "i < ?n" if "f (xs ! i) \<le> k"
  proof (rule ccontr)
    assume "\<not> i < ?n"
    then have n: "?n \<le> i" "?n < length xs" using i by simp_all
    then have "\<not> f (xs ! ?n) \<le> k" by (rule_tac nth_length_takeWhile) simp
    moreover have "f (xs ! ?n) \<le> f (xs ! i)" using sorted_nth_mono [OF assms, of ?n i] n i by simp
    ultimately show False using that by simp
  qed
qed

lemma partition_search_correct:
  assumes "partitioned pred xs" "base + width \<le> length xs" "0 < width"
    and "base \<le> length (takeWhile pred xs)" "length (takeWhile pred xs) \<le> base + width"
  shows "partition_search pred xs base width < length xs \<and>
    partition_search pred xs base width \<le> length (takeWhile pred xs) \<and>
    length (takeWhile pred xs) \<le> Suc (partition_search pred xs base width)"
  using assms
proof (induction pred xs base width rule: partition_search.induct)
  case (1 pred xs base width)
  show ?case
  proof (cases "width \<le> 1")
    case True
    with 1(3-) show ?thesis by (simp add: partition_search.simps)
  next
    case False
    define mid where "mid = base + width div 2"
    have mid: "mid < length xs" "pred (xs ! mid) \<longleftrightarrow> mid < length (takeWhile pred xs)"
      using 1(2,3) False by (auto simp: mid_def partitioned_def)
    have "partition_search pred xs base width =
        partition_search pred xs (if pred (xs ! mid) then mid else base) (width - width div 2)"
      using False by (simp add: partition_search.simps [of pred xs base width] Let_def mid_def)
    moreover have "partition_search pred xs (if pred (xs ! mid) then mid else base) (width - width div 2) < length xs \<and>
        partition_search pred xs (if pred (xs ! mid) then mid else base) (width - width div 2) \<le> length (takeWhile pred xs) \<and>
        length (takeWhile pred xs) \<le> Suc (partition_search pred xs (if pred (xs ! mid) then mid else base) (width - width div 2))"
      using 1(3-) False mid by (intro 1(1) [OF False refl mid_def 1(2)]) (auto simp: mid_def split: if_splits)
    ultimately show ?thesis by simp
  qed
qed

lemma partition_point_eq:
  assumes "partitioned pred xs"
  shows "partition_point pred xs = length (takeWhile pred xs)"
proof (cases "xs = []")
  case False
  define b where "b = partition_search pred xs 0 (length xs)"
  have b: "b < length xs" "b \<le> length (takeWhile pred xs)" "length (takeWhile pred xs) \<le> Suc b"
    using partition_search_correct [OF assms, of 0 "length xs"] False length_takeWhile_le [of pred xs] by (auto simp: b_def)
  then have "pred (xs ! b) \<longleftrightarrow> b < length (takeWhile pred xs)" using assms by (simp add: partitioned_def)
  with b False show ?thesis by (auto simp: partition_point_def Let_def b_def [symmetric])
qed (simp add: partition_point_def)

lemma partitioned_filter:
  assumes "partitioned pred xs"
  shows "filter pred xs = takeWhile pred xs"
proof (rule takeWhile_eq_filter [symmetric])
  fix x assume "x \<in> set (dropWhile pred xs)"
  then obtain j where "j < length (dropWhile pred xs)" "x = dropWhile pred xs ! j" by (metis in_set_conv_nth)
  moreover have "length xs = length (takeWhile pred xs) + length (dropWhile pred xs)"
    by (metis length_append takeWhile_dropWhile_id)
  ultimately have "j + length (takeWhile pred xs) < length xs" "x = xs ! (j + length (takeWhile pred xs))"
    by (simp_all add: dropWhile_nth)
  with assms show "\<not> pred x" by (simp add: partitioned_def)
qed

text \<open>The reference: the last element of the sorted list that starts at or before the key.\<close>

definition last_before :: "('a \<Rightarrow> u64) \<Rightarrow> 'a list \<Rightarrow> u64 \<Rightarrow> 'a option" where
  "last_before start xs k = (case filter (\<lambda>x. start x \<le> k) xs of [] \<Rightarrow> None | ys \<Rightarrow> Some (last ys))"

lemma last_before_partition:
  assumes "sorted (map start xs)"
  shows "last_before start xs k =
    (let n = partition_point (\<lambda>x. start x \<le> k) xs in if n = 0 then None else nth_opt xs (n - 1))"
proof -
  have part: "partitioned (\<lambda>x. start x \<le> k) xs" by (rule sorted_partitioned [OF assms])
  define ys where "ys = takeWhile (\<lambda>x. start x \<le> k) xs"
  have "length ys \<le> length xs" by (simp add: ys_def length_takeWhile_le)
  then have "ys \<noteq> [] \<Longrightarrow> length ys - 1 < length xs" by (cases ys) auto
  then have "ys \<noteq> [] \<Longrightarrow> Some (last ys) = nth_opt xs (length ys - 1)"
    by (auto simp: nth_opt_def last_conv_nth ys_def takeWhile_nth)
  then show ?thesis
    by (cases ys) (simp_all add: last_before_def partition_point_eq [OF part] partitioned_filter [OF part]
        ys_def [symmetric] del: nth_opt_Some)
qed

lemma module_lookup_linear:
  assumes order: "sorted (map ms_file_offset symbols)"
  shows "find_module_symbol symbols offset =
        Option.bind (last_before ms_file_offset symbols offset) (\<lambda>s.
          if ms_size s = 0 \<or> offset - ms_file_offset s < ms_size s then Some s else None)"
proof -
  define n where "n = partition_point (\<lambda>s. ms_file_offset s \<le> offset) symbols"
  have "n = length (takeWhile (\<lambda>s. ms_file_offset s \<le> offset) symbols)"
    using partition_point_eq [OF sorted_partitioned [OF order]] by (simp add: n_def)
  then have next_start: "offset < ms_file_offset s" if "nth_opt symbols n = Some s" for s
    using that sorted_partitioned [OF order, of offset]
    by (auto simp: nth_opt_def partitioned_def not_le split: if_splits)
  then show ?thesis
    by (cases "nth_opt symbols (n - 1)"; cases "nth_opt symbols n")
      (auto simp: find_module_symbol_def last_before_partition [OF order] n_def [symmetric] Let_def
        simp del: nth_opt_Some)
qed

lemma perf_lookup_linear:
  assumes order: "sorted (map pm_start entries)"
  shows "find_perf_symbol entries address =
        Option.bind (last_before pm_start entries address) (\<lambda>s. if address < pm_end s then Some s else None)"
  by (auto simp: find_perf_symbol_def last_before_partition [OF order] Let_def)

lemma last_before_Some:
  assumes "last_before start xs k = Some x"
  shows "x \<in> set xs" "start x \<le> k"
proof -
  from assms obtain y ys where "filter (\<lambda>x. start x \<le> k) xs = y # ys" "x = last (y # ys)"
    by (auto simp: last_before_def split: list.splits if_splits)
  then have "x \<in> set (filter (\<lambda>x. start x \<le> k) xs)" by (metis last_in_set list.distinct(1))
  then show "x \<in> set xs" "start x \<le> k" by auto
qed

text \<open>C31: The binary searches of the symbolizer agree with a linear scan. On a table sorted by its start positions,
  both lookups return the last entry that starts at or before the position, if that entry covers it: an entry of
  the perf map by its end, a symbol of an object file by its size, or without a size up to the next symbol.\<close>

theorem symbol_lookup_linear:
  "(sorted (map ms_file_offset symbols) \<longrightarrow>
      find_module_symbol symbols offset =
        Option.bind (last_before ms_file_offset symbols offset) (\<lambda>s.
          if ms_size s = 0 \<or> offset - ms_file_offset s < ms_size s then Some s else None)) \<and>
   (sorted (map pm_start entries) \<longrightarrow>
      find_perf_symbol entries address =
        Option.bind (last_before pm_start entries address) (\<lambda>s. if address < pm_end s then Some s else None))"
  using module_lookup_linear perf_lookup_linear by blast

theorem symbol_lookup_linear_witness:
  "sorted (map ms_file_offset [\<lparr>ms_file_offset = 16, ms_size = 0, ms_name = ''f''\<rparr>, \<lparr>ms_file_offset = 32, ms_size = 8, ms_name = ''g''\<rparr>]) \<and>
   sorted (map pm_start [\<lparr>pm_start = 4, pm_end = 9, pm_name = ''py''\<rparr>]) \<and>
   map_option ms_name (find_module_symbol
     [\<lparr>ms_file_offset = 16, ms_size = 0, ms_name = ''f''\<rparr>, \<lparr>ms_file_offset = 32, ms_size = 8, ms_name = ''g''\<rparr>] 30) = Some ''f'' \<and>
   find_perf_symbol [\<lparr>pm_start = 4, pm_end = 9, pm_name = ''py''\<rparr>] 9 = None"
  using symbol_lookup_linear [of
      "[\<lparr>ms_file_offset = 16, ms_size = 0, ms_name = ''f''\<rparr>, \<lparr>ms_file_offset = 32, ms_size = 8, ms_name = ''g''\<rparr>]" 30
      "[\<lparr>pm_start = 4, pm_end = 9, pm_name = ''py''\<rparr>]" 9]
  by (simp add: last_before_def)

section \<open>Stacks\<close>

definition stacks :: "raw_cpu_sample list \<Rightarrow> u64 list list" where
  "stacks samples = map sm_addresses samples"

lemma count_stacks:
  assumes "length samples < 2 ^ 64"
  shows "bt_inv (foldl count_stack [] samples) \<and>
    (\<forall>stack. map_of (foldl count_stack [] samples) stack =
       (if stack \<in> set (stacks samples) then Some (of_nat (count_list (stacks samples) stack)) else None))"
  using assms
proof (induction samples rule: rev_induct)
  case (snoc sample samples)
  define n where "n = count_list (stacks samples) (sm_addresses sample)"
  have "n \<le> length samples" using count_le_length [of "stacks samples" "sm_addresses sample"] by (simp add: n_def stacks_def)
  then have "unat (of_nat n :: u64) = n" "n < 2 ^ 64 - 1"
    using snoc.prems by (simp_all add: unsigned_of_nat take_bit_nat_eq_self)
  then have "saturating_add (of_nat n :: u64) 1 = of_nat (Suc n)" by (simp add: saturating_add_def)
  with snoc show ?case
    by (auto simp: count_stack_def bt_inv_entry map_of_bt_entry stacks_def n_def)
qed (simp add: stacks_def bt_inv_def)

definition ranked_stacks :: "raw_cpu_sample list \<Rightarrow> (u64 list \<times> u64) list" where
  "ranked_stacks samples = sort_key stack_rank (foldl count_stack [] samples)"

lemma aggregate_raw_stacks_eq:
  "aggregate_raw_stacks samples max_groups =
     (take (unat max_groups) (ranked_stacks samples), unat max_groups < length (ranked_stacks samples))"
  by (simp add: aggregate_raw_stacks_def ranked_stacks_def usize_of_u64_def Let_def)

lemma ranked_stacks_facts:
  assumes "length samples < 2 ^ 64"
  shows "distinct (map fst (ranked_stacks samples))"
    "fst ` set (ranked_stacks samples) = set (stacks samples)"
    "(stack, n) \<in> set (ranked_stacks samples) \<Longrightarrow> unat n = count_list (stacks samples) stack"
    "length (ranked_stacks samples) = card (set (stacks samples))"
    "sum_list (map (unat \<circ> snd) (ranked_stacks samples)) = length samples"
    "sorted_wrt (\<lambda>g h. unat (snd h) \<le> unat (snd g)) (ranked_stacks samples)"
proof -
  define G where "G = foldl count_stack [] samples"
  have inv: "bt_inv G" and at: "map_of G stack =
      (if stack \<in> set (stacks samples) then Some (of_nat (count_list (stacks samples) stack)) else None)" for stack
    using count_stacks [OF assms] by (simp_all add: G_def)
  have mset: "mset (ranked_stacks samples) = mset G" by (simp add: ranked_stacks_def G_def)
  then have set: "set (ranked_stacks samples) = set G" by (metis set_mset_mset)
  have dist: "distinct (map fst G)" by (rule bt.items_distinct [OF inv])
  show "distinct (map fst (ranked_stacks samples))"
    using dist by (metis distinct_map mset mset_eq_imp_distinct_iff set)
  show keys: "fst ` set (ranked_stacks samples) = set (stacks samples)"
    using at by (auto simp: set dom_map_of_conv_image_fst [symmetric] split: if_splits)
  show len: "length (ranked_stacks samples) = card (set (stacks samples))"
    using distinct_card [OF \<open>distinct (map fst (ranked_stacks samples))\<close>] keys by simp
  have entry: "unat n = count_list (stacks samples) stack" if "(stack, n) \<in> set (ranked_stacks samples)" for stack n
  proof -
    from that have "map_of G stack = Some n" using dist by (simp add: set)
    then have "n = of_nat (count_list (stacks samples) stack)" using at [of stack] by (simp split: if_splits)
    moreover have "count_list (stacks samples) stack < 2 ^ 64"
      using count_le_length [of "stacks samples" stack] assms by (simp add: stacks_def)
    ultimately show ?thesis by (simp add: unsigned_of_nat take_bit_nat_eq_self)
  qed
  then show "(stack, n) \<in> set (ranked_stacks samples) \<Longrightarrow> unat n = count_list (stacks samples) stack" by blast
  have "sum_list (map (unat \<circ> snd) (ranked_stacks samples)) =
      sum_list (map (count_list (stacks samples)) (map fst (ranked_stacks samples)))"
    using entry by (intro arg_cong [where f = sum_list]) (auto simp: comp_def)
  also have "\<dots> = sum (count_list (stacks samples)) (set (stacks samples))"
    unfolding sum_list_distinct_conv_sum_set [OF \<open>distinct (map fst (ranked_stacks samples))\<close>] by (simp add: keys)
  also have "\<dots> = length samples" using sum_count_set [of "stacks samples"] by (simp add: stacks_def)
  finally show "sum_list (map (unat \<circ> snd) (ranked_stacks samples)) = length samples" .
  have "sorted (map stack_rank (ranked_stacks samples))" by (simp add: ranked_stacks_def)
  then show "sorted_wrt (\<lambda>g h. unat (snd h) \<le> unat (snd g)) (ranked_stacks samples)"
    by (auto simp: sorted_wrt_map stack_rank_def less_eq_prod_def word_le_nat_alt [symmetric] word_le_def elim!: sorted_wrt_mono_rel [rotated])
qed

section \<open>Hotspots\<close>

text \<open>The samples of the groups whose stack satisfies a predicate.\<close>

definition weight :: "(u64 list \<Rightarrow> bool) \<Rightarrow> (u64 list \<times> u64) list \<Rightarrow> nat" where
  "weight P groups = sum_list (map (\<lambda>(stack, n). if P stack then unat n else 0) groups)"

abbreviation inclusive :: "u64 \<Rightarrow> u64 list \<Rightarrow> bool" where
  "inclusive a stack \<equiv> a \<in> set stack"

abbreviation exclusive :: "u64 \<Rightarrow> u64 list \<Rightarrow> bool" where
  "exclusive a stack \<equiv> stack \<noteq> [] \<and> hd stack = a"

lemma weight_snoc [simp]: "weight P (groups @ [(stack, n)]) = weight P groups + (if P stack then unat n else 0)"
  by (simp add: weight_def)

lemma weight_mono: "(\<And>stack. P stack \<Longrightarrow> Q stack) \<Longrightarrow> weight P groups \<le> weight Q groups"
  by (induction groups) (auto simp: weight_def split: prod.splits)

lemma exclusive_le_inclusive: "weight (exclusive a) groups \<le> weight (inclusive a) groups"
  by (rule weight_mono) auto

lemma saturating_add_of_nat:
  "i + unat n < 2 ^ 64 \<Longrightarrow> saturating_add (of_nat i) n = (of_nat (i + unat n) :: u64)"
  by (simp add: saturating_add_def unsigned_of_nat take_bit_nat_eq_self)

lemma count_addresses_facts:
  assumes "bt_inv counts"
  shows "bt_inv (count_addresses n seen stack counts) \<and>
    map_of (count_addresses n seen stack counts) a =
      (if a \<in> set stack \<and> a \<notin> set seen then Some (add_inclusive n (map_of counts a)) else map_of counts a)"
  using assms
  by (induction n seen stack counts rule: count_addresses.induct) (auto simp: bt_inv_entry map_of_bt_entry)

lemma count_group_facts:
  assumes "bt_inv counts"
  shows "bt_inv (count_group counts (stack, n))"
    "map_of (count_group counts (stack, n)) a =
      (if a \<in> set stack
       then Some (add_inclusive n (if exclusive a stack then Some (add_exclusive n (map_of counts a)) else map_of counts a))
       else map_of counts a)"
  using assms
  by (auto simp: count_group_def count_addresses_facts bt_inv_entry map_of_bt_entry split: list.splits)

definition the_pair :: "(u64 \<times> u64) option \<Rightarrow> u64 \<times> u64" where
  "the_pair x = (case x of None \<Rightarrow> (0, 0) | Some p \<Rightarrow> p)"

lemma add_inclusive_pair: "add_inclusive n x = (saturating_add (fst (the_pair x)) n, snd (the_pair x))"
  by (simp add: add_inclusive_def the_pair_def split: option.splits prod.splits)

lemma add_exclusive_pair: "add_exclusive n x = (fst (the_pair x), saturating_add (snd (the_pair x)) n)"
  by (simp add: add_exclusive_def the_pair_def split: option.splits prod.splits)

lemma the_pair_Some [simp]: "the_pair (Some p) = p"
  by (simp add: the_pair_def)

lemma count_groups:
  assumes "weight (\<lambda>_. True) groups < 2 ^ 64"
  shows "bt_inv (foldl count_group [] groups) \<and>
    (\<forall>a. map_of (foldl count_group [] groups) a =
       (if \<exists>g \<in> set groups. a \<in> set (fst g)
        then Some (of_nat (weight (inclusive a) groups), of_nat (weight (exclusive a) groups)) else None))"
  using assms
proof (induction groups rule: rev_induct)
  case (snoc g groups)
  obtain stack n where g: "g = (stack, n)" by fastforce
  from snoc.prems have total: "weight (\<lambda>_. True) groups + unat n < 2 ^ 64" by (simp add: g)
  have bounds: "weight P groups + unat n < 2 ^ 64" for P
    using weight_mono [of P "\<lambda>_. True" groups] total by simp
  note ih = snoc.IH [OF order_le_less_trans [OF le_add1 total]]
  define counts where "counts = foldl count_group [] groups"
  have inv: "bt_inv counts" using ih by (simp add: counts_def)
  have old: "the_pair (map_of counts a) = (of_nat (weight (inclusive a) groups), of_nat (weight (exclusive a) groups))" for a
  proof (cases "\<exists>g \<in> set groups. a \<in> set (fst g)")
    case False
    then have "weight (inclusive a) groups = 0" by (auto simp: weight_def sum_list_eq_0_iff)
    with exclusive_le_inclusive [of a groups] False ih show ?thesis by (simp add: the_pair_def counts_def)
  qed (use ih in \<open>simp add: the_pair_def counts_def\<close>)
  have new: "map_of (count_group counts g) a =
    Some (of_nat (weight (inclusive a) (groups @ [g])), of_nat (weight (exclusive a) (groups @ [g])))" if "a \<in> set stack" for a
    using that old [of a] saturating_add_of_nat [OF bounds, of "inclusive a"] saturating_add_of_nat [OF bounds, of "exclusive a"]
    by (auto simp: g count_group_facts [OF inv] add_inclusive_pair add_exclusive_pair)
  have same: "weight (inclusive a) (groups @ [g]) = weight (inclusive a) groups"
    "weight (exclusive a) (groups @ [g]) = weight (exclusive a) groups" if "a \<notin> set stack" for a
    using that by (auto simp: g)
  have "map_of (count_group counts g) a =
       (if \<exists>g' \<in> set (groups @ [g]). a \<in> set (fst g')
        then Some (of_nat (weight (inclusive a) (groups @ [g])), of_nat (weight (exclusive a) (groups @ [g]))) else None)" for a
  proof (cases "a \<in> set stack")
    case True
    then show ?thesis using new by (simp add: g)
  next
    case False
    then have "map_of (count_group counts g) a = map_of counts a" by (simp add: g count_group_facts [OF inv])
    with False ih same [OF False] show ?thesis by (simp add: g counts_def)
  qed
  moreover have "bt_inv (count_group counts g)" by (simp add: g count_group_facts [OF inv])
  ultimately show ?case by (simp add: counts_def)
qed (simp add: bt_inv_def)

lemma symbolize_address: "symbolize sb a = Ok frame \<Longrightarrow> fr_address frame = a"
  by (auto simp: symbolize_def unresolved_frame_def Let_def rust_simps split: option.splits)

lemma aggregate_hotspots_facts:
  fixes sb denominator
  defines "hotspot \<equiv> hotspot_of sb denominator :: _ \<Rightarrow> (cpu_hotspot, cpu_analysis_error) rresult"
  assumes "aggregate_hotspots groups sb denominator limit = (Ok hotspots :: (_, cpu_analysis_error) rresult)"
    and "weight (\<lambda>_. True) groups < 2 ^ 64" "h \<in> set hotspots"
  shows "unat (hs_inclusive_samples h) = weight (inclusive (fr_address (hs_frame h))) groups"
    "unat (hs_exclusive_samples h) = weight (exclusive (fr_address (hs_frame h))) groups"
    "symbolize sb (fr_address (hs_frame h)) = (Ok (hs_frame h) :: (_, cpu_analysis_error) rresult)"
    "hs_entry_selector_hint h = fst (selector_hints (hs_frame h))"
    "hs_return_selector_hint h = snd (selector_hints (hs_frame h))"
proof -
  define counts where "counts = foldl count_group [] groups"
  from assms(2,4) obtain all where all: "rcollect hotspot counts = Ok all" "h \<in> set all"
    by (auto simp: aggregate_hotspots_def Let_def counts_def hotspot_def rust_simps dest!: in_set_takeD)
  then obtain address i e where entry: "(address, i, e) \<in> set counts" "hotspot (address, i, e) = Ok h"
    by (auto simp: rcollect_Ok_iff list_all2_conv_all_nth in_set_conv_nth) (metis prod.collapse)
  from entry(2) obtain frame where frame: "symbolize sb address = (Ok frame :: (_, cpu_analysis_error) rresult)"
    and h: "hs_frame h = frame" "hs_inclusive_samples h = i" "hs_exclusive_samples h = e"
      "hs_entry_selector_hint h = fst (selector_hints frame)" "hs_return_selector_hint h = snd (selector_hints frame)"
    by (auto simp: hotspot_def hotspot_of_def rust_simps)
  have address: "fr_address frame = address" using frame by (rule symbolize_address)
  have "map_of counts address = Some (i, e)"
    using map_of_is_SomeI [OF bt.items_distinct entry(1)] count_groups [OF assms(3)] by (simp only: counts_def simp_thms)
  then have "i = of_nat (weight (inclusive address) groups)" "e = of_nat (weight (exclusive address) groups)"
    using count_groups [OF assms(3)] by (auto simp: counts_def split: if_splits)
  moreover have "weight P groups < 2 ^ 64" for P using weight_mono [of P "\<lambda>_. True" groups] assms(3) by simp
  ultimately show "unat (hs_inclusive_samples h) = weight (inclusive (fr_address (hs_frame h))) groups"
    "unat (hs_exclusive_samples h) = weight (exclusive (fr_address (hs_frame h))) groups"
    by (simp_all add: h address unsigned_of_nat take_bit_nat_eq_self)
  show "symbolize sb (fr_address (hs_frame h)) = (Ok (hs_frame h) :: (_, cpu_analysis_error) rresult)"
    "hs_entry_selector_hint h = fst (selector_hints (hs_frame h))"
    "hs_return_selector_hint h = snd (selector_hints (hs_frame h))"
    using frame by (simp_all add: h address)
qed

section \<open>The symbolizer is well formed\<close>

definition symbolizer_ok :: "symbolizer \<Rightarrow> bool" where
  "symbolizer_ok sb \<longleftrightarrow>
     (\<forall>(path, m) \<in> set (sb_modules sb). sorted (map ms_file_offset (mo_symbols m))) \<and>
     sorted (map pm_start (sb_python_symbols sb)) \<and>
     (\<forall>r \<in> set (sb_maps sb). mg_start r < mg_end r \<and> mg_path r \<noteq> [])"

definition symbol_table_ok :: "(u64, module_symbol) btree \<Rightarrow> bool" where
  "symbol_table_ok symbols \<longleftrightarrow> bt_inv symbols \<and> (\<forall>(k, s) \<in> set symbols. ms_file_offset s = k)"

lemma bt_entry_values:
  assumes "\<forall>(k, v) \<in> set m. P k v" "\<And>v. P k v \<Longrightarrow> P k (f (Some v))" "P k (f None)"
  shows "\<forall>(k', v) \<in> set (bt_entry k f m). P k' v"
  using assms by (induction k f m rule: bt_entry.induct) (auto split: if_splits)

lemma symbol_table_entry:
  assumes "symbol_table_ok symbols" "ms_file_offset (f None) = k" "\<And>s. ms_file_offset s = k \<Longrightarrow> ms_file_offset (f (Some s)) = k"
  shows "symbol_table_ok (bt_entry k f symbols)"
  using assms bt_entry_values [of symbols "\<lambda>k s. ms_file_offset s = k" k f]
  by (simp add: symbol_table_ok_def bt_inv_entry)

lemma add_module_symbol_ok:
  assumes "add_module_symbol os file symbols symbol = Ok symbols'" "symbol_table_ok symbols"
  shows "symbol_table_ok symbols'"
  using assms
  by (auto simp: add_module_symbol_def rust_simps simp del: bt_entry.simps
      split: if_splits option.splits intro!: symbol_table_entry)

lemma add_module_symbols_ok:
  "add_module_symbols os file symbols rest = Ok symbols' \<Longrightarrow> symbol_table_ok symbols \<Longrightarrow> symbol_table_ok symbols'"
  by (induction rest arbitrary: symbols) (auto simp: rust_simps dest: add_module_symbol_ok)

lemma symbol_table_sorted:
  assumes "symbol_table_ok symbols"
  shows "sorted (map ms_file_offset (map snd symbols))"
proof -
  have "map ms_file_offset (map snd symbols) = map fst symbols"
    using assms by (auto simp: symbol_table_ok_def)
  then show ?thesis
    using assms strict_sorted_imp_sorted [of "map fst symbols"]
    by (simp only: symbol_table_ok_def bt_inv_def)
qed

lemma load_module_ok:
  assumes "load_module os path t = (Ok m, t')"
  shows "sorted (map ms_file_offset (mo_symbols m))"
proof -
  from assms obtain f symbols where
    symbols: "add_module_symbols os f [] (elf_dynamic_symbols f @ elf_symbols f) = Ok symbols"
    "mo_symbols m = map snd symbols"
    by (auto simp: load_module_def io_simps)
  have "symbol_table_ok []" by (simp add: symbol_table_ok_def bt_inv_def)
  with symbols(1) have "symbol_table_ok symbols" by (rule add_module_symbols_ok)
  then show ?thesis unfolding symbols(2) by (rule symbol_table_sorted)
qed

lemma load_modules_ok:
  "load_modules os paths t = (Ok (modules, warnings), t') \<Longrightarrow>
   \<forall>(path, m) \<in> set modules. sorted (map ms_file_offset (mo_symbols m))"
proof (induction paths arbitrary: t modules warnings)
  case (Cons path paths)
  show ?case
  proof (cases "load_module os path t")
    case (Pair r t1)
    with Cons.prems obtain rest ws where "load_modules os paths t1 = (Ok (rest, ws), t')"
      and "(\<exists>m. r = Ok m \<and> modules = bt_insert (path_key path) m rest) \<or> modules = rest"
      by (cases r) (auto simp: io_simps)
    moreover from this Cons.IH have ih: "\<forall>(path, m) \<in> set rest. sorted (map ms_file_offset (mo_symbols m))" by blast
    moreover have "\<forall>(path, m') \<in> set (bt_entry (path_key path) (\<lambda>_. m) rest). sorted (map ms_file_offset (mo_symbols m'))"
      if "r = Ok m" for m
      using load_module_ok [of os path t m t1] Pair that
      by (intro bt_entry_values [of rest "\<lambda>_ m. sorted (map ms_file_offset (mo_symbols m))", OF ih]) simp_all
    ultimately show ?thesis unfolding bt_insert_def by blast
  qed
qed simp

lemma load_python_symbols_ok:
  assumes "load_python_symbols os report status t = (Ok (symbols, status'), t')"
  shows "sorted (map pm_start symbols)"
  using assms
  by (auto simp: load_python_symbols_def Let_def io_simps parse_perf_map_def rust_simps
      split: if_splits prod.splits rresult.splits)

lemma parse_map_line_ok:
  assumes "parse_map_line line path = Ok (Some r)"
  shows "mg_start r < mg_end r" "mg_path r \<noteq> []"
  using assms by (auto simp: parse_map_line_def Let_def rust_simps not_le starts_with_def split: if_splits option.splits)

lemma list_all2_set_right: "list_all2 P xs ys \<Longrightarrow> y \<in> set ys \<Longrightarrow> \<exists>x \<in> set xs. P x y"
  by (metis in_set_conv_nth list_all2_conv_all_nth)

lemma symbolizer_load_ok:
  assumes "symbolizer_load os report status t = (Ok sb, t')"
  shows "symbolizer_ok sb"
proof -
  from assms obtain maps_text maps modules warnings python status' t1 t2 t3 where
    parts: "parse_executable_maps maps_text (proc_path (ti_pid (pr_target report)) ''maps'') = Ok maps"
      "load_modules os (region_paths maps) t1 = (Ok (modules, warnings), t2)"
      "load_python_symbols os report status t2 = (Ok (python, status'), t3)" and
    sb: "sb_maps sb = maps" "sb_modules sb = modules" "sb_python_symbols sb = python"
    by (auto simp: symbolizer_load_def Let_def io_simps)
  have "mg_start r < mg_end r \<and> mg_path r \<noteq> []" if "r \<in> set maps" for r
  proof -
    from parts(1) obtain regions where "rcollect (\<lambda>line. parse_map_line line (proc_path (ti_pid (pr_target report)) ''maps''))
        (lines maps_text) = Ok regions" "maps = List.map_filter id regions"
      by (auto simp: parse_executable_maps_def rust_simps)
    with that obtain line where "parse_map_line line (proc_path (ti_pid (pr_target report)) ''maps'') = Ok (Some r)"
      by (auto simp: map_filter_iff rcollect_Ok_iff dest: list_all2_set_right)
    then show ?thesis using parse_map_line_ok by blast
  qed
  with load_modules_ok [OF parts(2)] load_python_symbols_ok [OF parts(3)] show ?thesis
    by (simp add: symbolizer_ok_def sb)
qed

section \<open>The analysis\<close>

lemma sum_or_panic_snoc: "sum_or_panic (xs @ [x]) = rbind (sum_or_panic xs) (\<lambda>a. add_or_panic a x)"
  by simp

declare sum_or_panic.simps [simp del]

lemma sum_or_panic_Ok:
  "sum_or_panic xs = (Ok n :: (u64, 'e) rresult) \<Longrightarrow> unat n = sum_list (map unat xs)"
proof (induction xs arbitrary: n rule: rev_induct)
  case Nil
  then show ?case by (simp add: sum_or_panic.simps)
next
  case (snoc x xs)
  from snoc.prems obtain a where "sum_or_panic xs = (Ok a :: (u64, 'e) rresult)" "checked_add a x = Some n"
    by (auto simp: sum_or_panic_snoc add_or_panic_def rust_simps)
  with snoc.IH [of a] show ?case by (auto dest: checked_add_SomeD)
qed

lemma cpu_analyze_facts:
  assumes "cpu_analyze os report spec session_id capture t = (Ok r, t')"
  obtains sb t1 t2 raw reached grouped stack_groups hotspots where
    "verify_target os (pr_target report) t = (Ok (), t1)"
    "symbolizer_load os report (cap_python_status capture) t1 = (Ok sb, t2)"
    "aggregate_raw_stacks (cap_samples capture) (cs_max_groups spec) = (raw, reached)"
    "sum_or_panic (map snd raw) = (Ok grouped :: (_, cpu_analysis_error) rresult)"
    "rcollect (stack_group_of sb (max (cap_observed_samples capture) 1)) raw =
       (Ok stack_groups :: (_, cpu_analysis_error) rresult)"
    "aggregate_hotspots raw sb (max (cap_observed_samples capture) 1) (cs_max_groups spec) =
       (Ok hotspots :: (_, cpu_analysis_error) rresult)"
    "verify_target os (pr_target report) t2 = (Ok (), t')"
    "inv_stack_groups (ir_inventory r) = stack_groups" "inv_hotspots (ir_inventory r) = hotspots"
    "cc_grouped_samples (ir_collection r) = grouped"
    "cc_observed_samples (ir_collection r) = cap_observed_samples capture"
    "cc_completeness (ir_collection r) = CC_Complete \<longleftrightarrow> capture_is_complete capture grouped reached"
    "ir_symbolization r = summarize_symbolization stack_groups (sb_python_status sb)"
proof -
  obtain raw reached where agg: "aggregate_raw_stacks (cap_samples capture) (cs_max_groups spec) = (raw, reached)"
    by fastforce
  from assms show thesis
    unfolding cpu_analyze_def Let_def agg prod.case
    apply (elim io_bind_OkE)
    apply (simp only: io_lift_apply prod.inject rresult.inject)
    apply (elim conjE, hypsubst)
    apply (rule that [OF _ _ agg])
    apply (auto simp: io_simps verify_target_Ok_iff)
    done
qed

interpretation cg: target_guard "pr_target report" "\<lambda>os. cpu_analyze os report spec session_id capture"
  for report spec session_id capture
  by unfold_locales (auto elim!: cpu_analyze_facts)

definition frame_stack :: "cpu_stack_group \<Rightarrow> u64 list" where
  "frame_stack g = map fr_address (sgr_frames g)"

lemma rcollect_symbolize:
  "rcollect (symbolize sb) stack = (Ok frames :: (_, 'e) rresult) \<Longrightarrow> map fr_address frames = stack"
  by (induction stack arbitrary: frames) (auto simp: rust_simps symbolize_address)

lemma stack_groups_raw:
  "rcollect (stack_group_of sb d) raw = (Ok groups :: (_, 'e) rresult) \<Longrightarrow>
   map (\<lambda>g. (frame_stack g, sgr_samples g)) groups = raw"
  by (induction raw arbitrary: groups)
    (auto simp: rust_simps stack_group_of_def frame_stack_def dest!: rcollect_symbolize)

lemma sorted_wrt_take_drop:
  assumes "sorted_wrt P xs" "x \<in> set (take n xs)" "y \<in> set (drop n xs)"
  shows "P x y"
proof -
  have "sorted_wrt P (take n xs @ drop n xs)" using assms(1) by simp
  then show ?thesis using assms(2,3) unfolding sorted_wrt_append by blast
qed

text \<open>The groups kept are a prefix of the ranking.\<close>

lemma ranked_prefix:
  assumes "length samples < 2 ^ 64" "map (\<lambda>g. (frame_stack g, sgr_samples g)) groups = take n (ranked_stacks samples)"
  shows "distinct (map frame_stack groups)"
    "\<forall>g \<in> set groups. frame_stack g \<in> set (stacks samples) \<and> unat (sgr_samples g) = count_list (stacks samples) (frame_stack g)"
    "length groups = min n (card (set (stacks samples)))"
    "\<forall>g \<in> set groups. \<forall>stack \<in> set (stacks samples) - frame_stack ` set groups.
       count_list (stacks samples) stack \<le> unat (sgr_samples g)"
proof -
  note facts = ranked_stacks_facts [OF assms(1)]
  have keys: "map frame_stack groups = map fst (take n (ranked_stacks samples))"
    by (simp add: assms(2) [symmetric] comp_def)
  show "distinct (map frame_stack groups)"
    unfolding keys using facts(1) by (simp add: take_map [symmetric])
  have entry: "(frame_stack g, sgr_samples g) \<in> set (take n (ranked_stacks samples))" if "g \<in> set groups" for g
    using that by (auto simp: assms(2) [symmetric])
  then show "\<forall>g \<in> set groups. frame_stack g \<in> set (stacks samples) \<and> unat (sgr_samples g) = count_list (stacks samples) (frame_stack g)"
    using facts(2,3) by (metis fst_conv image_eqI in_set_takeD)
  show "length groups = min n (card (set (stacks samples)))"
    using arg_cong [OF assms(2), of length] facts(4) by (simp add: min.commute)
  show "\<forall>g \<in> set groups. \<forall>stack \<in> set (stacks samples) - frame_stack ` set groups.
       count_list (stacks samples) stack \<le> unat (sgr_samples g)"
  proof (intro ballI)
    fix g stack assume g: "g \<in> set groups" and stack: "stack \<in> set (stacks samples) - frame_stack ` set groups"
    have "fst ` set (take n (ranked_stacks samples)) = frame_stack ` set groups" using arg_cong [OF keys, of set] by simp
    with stack facts(2) obtain k where
      k: "(stack, k) \<in> set (ranked_stacks samples)" "(stack, k) \<notin> set (take n (ranked_stacks samples))" by force
    then have "(stack, k) \<in> set (drop n (ranked_stacks samples))" by (metis Un_iff append_take_drop_id set_append)
    from sorted_wrt_take_drop [OF facts(6) entry [OF g] this] facts(3) [OF k(1)]
    show "count_list (stacks samples) stack \<le> unat (sgr_samples g)" by simp
  qed
qed

text \<open>C32: The stack groups of an analysis count the samples. No stack appears twice; every group has the number of
  samples with exactly its addresses; groups are only left out when the capacity is reached, and then only
  stacks that are no heavier than every group kept. The grouped samples are the sum over the groups. A capture
  reported complete lost nothing: every sample of the capture is in a group and their number is the number of
  samples observed.\<close>

theorem cpu_analyze_counts:
  assumes "cpu_analyze os report spec session_id capture t = (Ok r, t')" "length (cap_samples capture) < 2 ^ 64"
  shows "let groups = inv_stack_groups (ir_inventory r); all = stacks (cap_samples capture) in
    distinct (map frame_stack groups) \<and>
    (\<forall>g \<in> set groups. frame_stack g \<in> set all \<and> unat (sgr_samples g) = count_list all (frame_stack g)) \<and>
    length groups = min (unat (cs_max_groups spec)) (card (set all)) \<and>
    (\<forall>g \<in> set groups. \<forall>stack \<in> set all - frame_stack ` set groups. count_list all stack \<le> unat (sgr_samples g)) \<and>
    unat (cc_grouped_samples (ir_collection r)) = sum_list (map (unat \<circ> sgr_samples) groups) \<and>
    (cc_completeness (ir_collection r) = CC_Complete \<longrightarrow> frame_stack ` set groups = set all \<and>
       length (cap_samples capture) = unat (cap_observed_samples capture) \<and> cap_lost_samples capture = 0)"
proof -
  define ranked where "ranked = ranked_stacks (cap_samples capture)"
  obtain sb raw reached grouped groups where
    run: "aggregate_raw_stacks (cap_samples capture) (cs_max_groups spec) = (raw, reached)"
      "sum_or_panic (map snd raw) = (Ok grouped :: (_, cpu_analysis_error) rresult)"
      "rcollect (stack_group_of sb (max (cap_observed_samples capture) 1)) raw = (Ok groups :: (_, cpu_analysis_error) rresult)"
      "inv_stack_groups (ir_inventory r) = groups" "cc_grouped_samples (ir_collection r) = grouped"
      "cc_completeness (ir_collection r) = CC_Complete \<longleftrightarrow> capture_is_complete capture grouped reached"
    by (rule cpu_analyze_facts [OF assms(1)]) (rule that)
  have raw: "raw = take (unat (cs_max_groups spec)) ranked" "reached \<longleftrightarrow> unat (cs_max_groups spec) < length ranked"
    using run(1) by (simp_all add: aggregate_raw_stacks_eq ranked_def)
  note groups = stack_groups_raw [OF run(3)]
  note sum = sum_or_panic_Ok [OF run(2)]
  have "sum_list (map (unat \<circ> sgr_samples) groups) = sum_list (map unat (map snd raw))"
    by (simp add: groups [symmetric] comp_def)
  then have grouped: "unat grouped = sum_list (map (unat \<circ> sgr_samples) groups)" by (simp add: sum)
  have complete: "frame_stack ` set groups = set (stacks (cap_samples capture)) \<and>
      length (cap_samples capture) = unat (cap_observed_samples capture) \<and> cap_lost_samples capture = 0"
    if "capture_is_complete capture grouped reached"
  proof -
    have all: "raw = ranked" using that raw by (simp add: capture_is_complete_def)
    have "unat grouped = length (cap_samples capture)"
      using sum ranked_stacks_facts(5) [OF assms(2)] all by (simp add: ranked_def)
    moreover have "frame_stack ` set groups = fst ` set raw" by (simp add: groups [symmetric] image_image)
    ultimately show ?thesis
      using that ranked_stacks_facts(2) [OF assms(2)] all by (simp add: capture_is_complete_def ranked_def)
  qed
  show ?thesis
    using ranked_prefix [OF assms(2), of groups "unat (cs_max_groups spec)"] groups raw(1) grouped complete
    by (simp add: Let_def run(4-6) ranked_def)
qed

section \<open>Hints\<close>

definition group_weight :: "(u64 list \<Rightarrow> bool) \<Rightarrow> cpu_stack_group list \<Rightarrow> nat" where
  "group_weight P groups = sum_list (map (unat \<circ> sgr_samples) (filter (P \<circ> frame_stack) groups))"

lemma weight_groups:
  "weight P (map (\<lambda>g. (frame_stack g, sgr_samples g)) groups) = group_weight P groups"
  by (induction groups) (simp_all add: weight_def group_weight_def)

lemma find_member: "List.find P xs = Some x \<Longrightarrow> x \<in> set xs"
  by (induction xs) (auto split: if_splits)

text \<open>A native frame with a symbol has hints, and they name the start of the symbol.\<close>

lemma symbolize_hints:
  assumes "symbolize sb a = (Ok frame :: (_, 'e) rresult)" "symbolizer_ok sb" "fr_language frame = FL_Native"
    "fr_symbol frame \<noteq> None"
  obtains path offset symbol_offset and symbol_start :: u64 where "fr_module_path frame = Some path" "path \<noteq> []"
    "fr_file_offset frame = Some offset" "fr_symbol_offset frame = Some symbol_offset"
    "unat symbol_start + unat symbol_offset = unat offset"
    "selector_hints frame = (Some (''uprobe:'' @ path @ '':+0x'' @ render_nat 16 (unat symbol_start) @ '':entry''),
       Some (''uprobe:'' @ path @ '':+0x'' @ render_nat 16 (unat symbol_start) @ '':return''))"
proof -
  have "find_perf_symbol (sb_python_symbols sb) a = None"
    using assms(1,3) by (auto simp: symbolize_def split: option.splits)
  with assms(1,3) obtain mapping offset where
    found: "List.find (\<lambda>mapping. mg_start mapping \<le> a \<and> a < mg_end mapping) (sb_maps sb) = Some mapping" and
    frame: "fr_module_path frame = Some (mg_path mapping)" "fr_file_offset frame = Some offset"
      "fr_symbol frame = map_option ms_name (Option.bind (bt_get (sb_modules sb) (path_key (mg_path mapping)))
         (\<lambda>m. find_module_symbol (mo_symbols m) offset))"
      "fr_symbol_offset frame = map_option (\<lambda>s. offset - ms_file_offset s)
         (Option.bind (bt_get (sb_modules sb) (path_key (mg_path mapping))) (\<lambda>m. find_module_symbol (mo_symbols m) offset))"
    by (auto simp: symbolize_def unresolved_frame_def Let_def rust_simps split: option.splits)
  from frame(3) assms(4) obtain m s where
    parts: "bt_get (sb_modules sb) (path_key (mg_path mapping)) = Some m" "find_module_symbol (mo_symbols m) offset = Some s"
    by (auto simp: bind_eq_Some_conv)
  have path: "mg_path mapping \<noteq> []" using find_member [OF found] assms(2) by (simp add: symbolizer_ok_def)
  have "sorted (map ms_file_offset (mo_symbols m))"
    using parts(1) assms(2) by (auto simp: symbolizer_ok_def bt_get_def dest: map_of_SomeD)
  then have "ms_file_offset s \<le> offset"
    using parts(2) by (auto simp: module_lookup_linear split: bind_splits if_splits dest: last_before_Some(2))
  then have start: "unat (ms_file_offset s) + unat (offset - ms_file_offset s) = unat offset"
    and sub: "checked_sub offset (offset - ms_file_offset s) = Some (ms_file_offset s)"
    by (simp_all add: unat_sub_le checked_sub_def word_le_nat_alt)
  show thesis
    using frame parts path start assms(3) by (intro that [of "mg_path mapping" offset _ "ms_file_offset s"]) (simp_all add: selector_hints_def sub)
qed

lemma hint_parses:
  assumes "symbolize sb a = (Ok frame :: (_, 'e) rresult)" "symbolizer_ok sb" "fr_language frame = FL_Native"
    "fr_symbol frame \<noteq> None" "fr_module_path frame = Some path" "CHR '':'' \<notin> set path"
  shows "\<exists>entry return offset symbol_offset symbol_start. selector_hints frame = (Some entry, Some return) \<and>
    fr_file_offset frame = Some offset \<and> fr_symbol_offset frame = Some symbol_offset \<and>
    unat symbol_start + unat symbol_offset = unat offset \<and>
    parse_probe_selector entry = Ok \<lparr>ps_binary = path, ps_target = PT_FileOffset symbol_start, ps_boundary = PB_Entry\<rparr> \<and>
    parse_probe_selector return = Ok \<lparr>ps_binary = path, ps_target = PT_FileOffset symbol_start, ps_boundary = PB_Return\<rparr>"
proof -
  obtain offset symbol_offset and symbol_start :: u64 where h: "path \<noteq> []"
    "fr_file_offset frame = Some offset" "fr_symbol_offset frame = Some symbol_offset"
    "unat symbol_start + unat symbol_offset = unat offset"
    "selector_hints frame = (Some (''uprobe:'' @ path @ '':+0x'' @ render_nat 16 (unat symbol_start) @ '':entry''),
       Some (''uprobe:'' @ path @ '':+0x'' @ render_nat 16 (unat symbol_start) @ '':return''))"
    by (rule symbolize_hints [OF assms(1-4)]) (use assms(5) in \<open>auto intro: that\<close>)
  then show ?thesis
    using parse_offset_selector [OF h(1) assms(6), of symbol_start PB_Entry]
      parse_offset_selector [OF h(1) assms(6), of symbol_start PB_Return]
    by (auto simp: boundary_text_def)
qed

text \<open>C33: The hotspots of an analysis. Each has as inclusive samples those of the stack groups that contain its address
  and as exclusive samples those of the groups whose innermost frame it is, so the exclusive samples never exceed
  the inclusive ones, and these never exceed the grouped samples. A native hotspot with a symbol has two probe
  hints, and both parse as selectors of the probe resolver: they name the module of the frame and the file offset
  at which its symbol starts (for a module path without a colon).\<close>

theorem cpu_analyze_hotspots:
  assumes "cpu_analyze os report spec session_id capture t = (Ok r, t')" "length (cap_samples capture) < 2 ^ 64"
    and "h \<in> set (inv_hotspots (ir_inventory r))"
  shows "let frame = hs_frame h; groups = inv_stack_groups (ir_inventory r) in
    unat (hs_inclusive_samples h) = group_weight (\<lambda>stack. fr_address frame \<in> set stack) groups \<and>
    unat (hs_exclusive_samples h) = group_weight (\<lambda>stack. stack \<noteq> [] \<and> hd stack = fr_address frame) groups \<and>
    hs_exclusive_samples h \<le> hs_inclusive_samples h \<and>
    hs_inclusive_samples h \<le> cc_grouped_samples (ir_collection r) \<and>
    (\<forall>path. fr_language frame = FL_Native \<and> fr_symbol frame \<noteq> None \<and> fr_module_path frame = Some path \<and> CHR '':'' \<notin> set path \<longrightarrow>
       (\<exists>entry return offset symbol_offset symbol_start.
          hs_entry_selector_hint h = Some entry \<and> hs_return_selector_hint h = Some return \<and>
          fr_file_offset frame = Some offset \<and> fr_symbol_offset frame = Some symbol_offset \<and>
          unat symbol_start + unat symbol_offset = unat offset \<and>
          parse_probe_selector entry = Ok \<lparr>ps_binary = path, ps_target = PT_FileOffset symbol_start, ps_boundary = PB_Entry\<rparr> \<and>
          parse_probe_selector return = Ok \<lparr>ps_binary = path, ps_target = PT_FileOffset symbol_start, ps_boundary = PB_Return\<rparr>))"
proof -
  obtain sb raw reached grouped groups t1 t2 where
    run: "symbolizer_load os report (cap_python_status capture) t1 = (Ok sb, t2)"
      "aggregate_raw_stacks (cap_samples capture) (cs_max_groups spec) = (raw, reached)"
      "sum_or_panic (map snd raw) = (Ok grouped :: (_, cpu_analysis_error) rresult)"
      "rcollect (stack_group_of sb (max (cap_observed_samples capture) 1)) raw = (Ok groups :: (_, cpu_analysis_error) rresult)"
      "aggregate_hotspots raw sb (max (cap_observed_samples capture) 1) (cs_max_groups spec) =
         (Ok (inv_hotspots (ir_inventory r)) :: (_, cpu_analysis_error) rresult)"
      "inv_stack_groups (ir_inventory r) = groups" "cc_grouped_samples (ir_collection r) = grouped"
    by (rule cpu_analyze_facts [OF assms(1)]) (auto intro: that)
  have raw: "map (\<lambda>g. (frame_stack g, sgr_samples g)) groups = raw" by (rule stack_groups_raw [OF run(4)])
  have total: "weight (\<lambda>_. True) raw = unat grouped"
    using sum_or_panic_Ok [OF run(3)] by (simp add: weight_def split_def comp_def)
  then have "weight (\<lambda>_. True) raw < 2 ^ 64" using unat_bound [of grouped] by simp
  note facts = aggregate_hotspots_facts [OF run(5) this assms(3)]
  have order: "unat (hs_exclusive_samples h) \<le> unat (hs_inclusive_samples h)"
    "unat (hs_inclusive_samples h) \<le> unat grouped"
    unfolding facts(1,2) total [symmetric] by (auto intro!: weight_mono exclusive_le_inclusive)
  have hints: "\<exists>entry return offset symbol_offset symbol_start. selector_hints (hs_frame h) = (Some entry, Some return) \<and>
      fr_file_offset (hs_frame h) = Some offset \<and> fr_symbol_offset (hs_frame h) = Some symbol_offset \<and>
      unat symbol_start + unat symbol_offset = unat offset \<and>
      parse_probe_selector entry = Ok \<lparr>ps_binary = path, ps_target = PT_FileOffset symbol_start, ps_boundary = PB_Entry\<rparr> \<and>
      parse_probe_selector return = Ok \<lparr>ps_binary = path, ps_target = PT_FileOffset symbol_start, ps_boundary = PB_Return\<rparr>"
    if "fr_language (hs_frame h) = FL_Native" "fr_symbol (hs_frame h) \<noteq> None" "fr_module_path (hs_frame h) = Some path"
      "CHR '':'' \<notin> set path" for path
    using hint_parses [OF facts(3) symbolizer_load_ok [OF run(1)] that] .
  show ?thesis
    unfolding Let_def run(6,7)
    using facts(1,2,4,5) order hints
    by (auto simp: raw [symmetric] weight_groups word_le_nat_alt)
qed

section \<open>An example\<close>

definition example_capture :: cpu_capture_data where
  "example_capture =
     \<lparr>cap_samples = [\<lparr>sm_thread_id = 42, sm_addresses = [0x1012]\<rparr>, \<lparr>sm_thread_id = 43, sm_addresses = [0x1012]\<rparr>],
      cap_observed_samples = 2, cap_lost_samples = 0, cap_truncated_stacks = 0, cap_throttled_records = 0,
      cap_threads_observed = 2, cap_threads_attached = 2, cap_skipped_threads = [], cap_capacity_reached = False,
      cap_python_status = PY_NotDetected\<rparr>"

definition example_spec :: cpu_sampling_spec where
  "example_spec =
     \<lparr>cs_schema_version = V2, cs_name = None, cs_target = \<lparr>ti_pid = 42, ti_process_start_time = 7\<rparr>,
      cs_sample_event = CSE_CpuClock, cs_frequency_hz = 99, cs_duration_ms = 1, cs_timeout_ms = 2, cs_max_samples = 8,
      cs_max_groups = 4, cs_stack_depth = 8, cs_max_threads = 4\<rparr>"

definition example_symbolizer :: symbolizer where
  "example_symbolizer =
     \<lparr>sb_maps = [\<lparr>mg_start = 0x1000, mg_end = 0x2000, mg_file_offset = 0, mg_path = ''/b''\<rparr>],
      sb_modules = [(path_key ''/b'', \<lparr>mo_build_id = None,
        mo_symbols = [\<lparr>ms_file_offset = 16, ms_size = 4, ms_name = ''f''\<rparr>]\<rparr>)],
      sb_python_symbols = [], sb_python_status = PY_NotDetected, sb_warnings = []\<rparr>"

lemma example_symbolizer_loads:
  "symbolizer_load example_target_host (example_report []) PY_NotDetected t = (Ok example_symbolizer, Suc (Suc t))"
proof -
  have e: "pr_target (example_report []) = \<lparr>ti_pid = 42, ti_process_start_time = 7\<rparr>"
    by (simp add: example_report_def)
  have m: "fs_read_to_string example_target_host ''/proc/42/maps'' t = (Ok example_maps, Suc t)" for t
    by (rule example_text_reads) (simp_all add: example_target_host_def example_maps_def)
  have l: "lines example_maps = [example_maps]"
    "split_whitespace example_maps = [''1000-2000'', ''r-xp'', ''00000000'', ''08:01'', ''7'', ''/b'']"
    "split_once ''-'' ''1000-2000'' = Some (''1000'', ''2000'')" "strip_suffix '' (deleted)'' ''/b'' = None"
    by code_simp+
  have n: "from_str_radix 16 ''1000'' = Some (0x1000 :: u64)" "from_str_radix 16 ''2000'' = Some (0x2000 :: u64)"
    "from_str_radix 16 ''00000000'' = Some (0 :: u64)"
    by (simp_all add: from_str_radix_def to_digit_def is_ascii_digit_def)
  have maps: "parse_executable_maps example_maps p =
      Ok [\<lparr>mg_start = 0x1000, mg_end = 0x2000, mg_file_offset = 0, mg_path = ''/b''\<rparr>]" for p
    by (simp add: parse_executable_maps_def parse_map_line_def required_field_def parse_maps_hex_def l n nth_opt_def
        ok_or_def starts_with_def List.map_filter_def)
  have b: "fs_read example_target_host ''/b'' t = (Ok [], Suc t)" "os_parse_elf example_target_host [] = Inr example_elf" for t
    by (simp_all add: fs_defs io_access_def example_target_host_def)
  have module: "load_module example_target_host ''/b'' t =
      (Ok \<lparr>mo_build_id = None, mo_symbols = [\<lparr>ms_file_offset = 16, ms_size = 4, ms_name = ''f''\<rparr>]\<rparr>, Suc t)" for t
    by (simp add: load_module_def io_bind_def io_map_err_def b sum_result_def example_elf_def example_symbol_def
        add_module_symbol_def virtual_address_to_file_offset_def segment_of_address_def checked_sub_def
        add_or_panic_def checked_add_def expect_def demangle_cpp_def starts_with_def)
  show ?thesis
    by (simp add: symbolizer_load_def Let_def io_bind_def io_map_err_def e example_proc_path m maps region_paths_def
        or_insert_def module bt_insert_def load_python_symbols_def example_symbolizer_def)
qed

lemma example_symbolize:
  "symbolize example_symbolizer 0x1012 =
     Ok \<lparr>fr_address = 0x1012, fr_module_path = Some ''/b'', fr_build_id = None, fr_file_offset = Some 18,
         fr_symbol = Some ''f'', fr_symbol_offset = Some 2, fr_language = FL_Native, fr_source_path = None, fr_line = None\<rparr>"
  by (simp add: symbolize_def example_symbolizer_def find_perf_symbol_def partition_point_def Let_def add_or_panic_def
      checked_add_def expect_def bt_get_def find_module_symbol_def partition_search.simps nth_opt_def)

lemma example_analysis:
  "\<exists>r t'. cpu_analyze example_target_host (example_report []) example_spec ''id'' example_capture 0 = (Ok r, t') \<and>
     cc_completeness (ir_collection r) = CC_Complete \<and>
     (\<exists>h. inv_hotspots (ir_inventory r) = [h] \<and> fr_module_path (hs_frame h) = Some ''/b'' \<and>
        fr_symbol (hs_frame h) = Some ''f'' \<and> fr_language (hs_frame h) = FL_Native)"
proof -
  have e: "pr_target (example_report []) = \<lparr>ti_pid = 42, ti_process_start_time = 7\<rparr>"
    by (simp add: example_report_def)
  have v: "verify_target example_target_host \<lparr>ti_pid = 42, ti_process_start_time = 7\<rparr> t = (Ok (), Suc t)" for t
    unfolding verify_target_Ok_iff by (simp add: example_start)
  have raw: "aggregate_raw_stacks (cap_samples example_capture) 4 = ([([0x1012], 2)], False)"
    by (simp add: aggregate_raw_stacks_def example_capture_def example_spec_def count_stack_def saturating_add_def
        usize_of_u64_def Let_def)
  have sum: "sum_or_panic [2] = (Ok 2 :: (u64, cpu_analysis_error) rresult)"
    by (simp add: sum_or_panic.simps add_or_panic_def checked_add_def expect_def)
  have c: "cap_python_status example_capture = PY_NotDetected" "cap_observed_samples example_capture = 2"
    "cap_lost_samples example_capture = 0" "cap_throttled_records example_capture = 0"
    "cap_skipped_threads example_capture = []" "\<not> cap_capacity_reached example_capture"
    "cap_threads_observed example_capture = 2" "cap_threads_attached example_capture = 2" "cs_max_groups example_spec = 4"
    by (simp_all add: example_capture_def example_spec_def)
  show ?thesis
    by (simp add: cpu_analyze_def Let_def io_bind_def io_map_err_def e v c raw sum example_symbolizer_loads
        stack_group_of_def example_symbolize aggregate_hotspots_def count_group_def add_exclusive_def add_inclusive_def
        hotspot_of_def usize_of_u64_def u32_of_count_def capture_is_complete_def saturating_add_def)
qed

theorem cpu_analyze_counts_witness:
  "\<exists>r t'. cpu_analyze example_target_host (example_report []) example_spec ''id'' example_capture 0 = (Ok r, t') \<and>
     length (cap_samples example_capture) < 2 ^ 64 \<and> cc_completeness (ir_collection r) = CC_Complete \<and>
     frame_stack ` set (inv_stack_groups (ir_inventory r)) = {[0x1012]}"
proof -
  obtain r t' where run: "cpu_analyze example_target_host (example_report []) example_spec ''id'' example_capture 0 = (Ok r, t')"
    "cc_completeness (ir_collection r) = CC_Complete"
    using example_analysis by blast
  have small: "length (cap_samples example_capture) < 2 ^ 64" by (simp add: example_capture_def)
  have "set (stacks (cap_samples example_capture)) = {[0x1012]}" by (simp add: stacks_def example_capture_def)
  moreover have "frame_stack ` set (inv_stack_groups (ir_inventory r)) = set (stacks (cap_samples example_capture))"
    using cpu_analyze_counts [OF run(1) small] run(2) unfolding Let_def by blast
  ultimately show ?thesis using run small by metis
qed

theorem cpu_analyze_hotspots_witness:
  "\<exists>r t' h entry return. cpu_analyze example_target_host (example_report []) example_spec ''id'' example_capture 0 = (Ok r, t') \<and>
     length (cap_samples example_capture) < 2 ^ 64 \<and> h \<in> set (inv_hotspots (ir_inventory r)) \<and>
     hs_entry_selector_hint h = Some entry \<and> hs_return_selector_hint h = Some return \<and>
     hs_exclusive_samples h \<le> hs_inclusive_samples h"
proof -
  obtain r t' h where run: "cpu_analyze example_target_host (example_report []) example_spec ''id'' example_capture 0 = (Ok r, t')"
    "h \<in> set (inv_hotspots (ir_inventory r))" "fr_module_path (hs_frame h) = Some ''/b''"
    "fr_symbol (hs_frame h) = Some ''f''" "fr_language (hs_frame h) = FL_Native"
    using example_analysis by force
  have small: "length (cap_samples example_capture) < 2 ^ 64" by (simp add: example_capture_def)
  from cpu_analyze_hotspots [OF run(1) small run(2)] run small show ?thesis by (simp add: Let_def) blast
qed

end
