(* ===== verification/Ring_Capture.thy ===== *)
theory Ring_Capture
  imports Inspect "HOL-Library.Sublist"
begin

text \<open>
  The interface of the collectors to libbpf, and the loop that both ring buffer collectors share. What libbpf
  answers is a parameter: the outcome of each named operation, the members of the loaded object and the
  contents of its maps. A run of the polling loop is driven by the list of what happens at each round.
\<close>

section \<open>The interface to libbpf\<close>

datatype libbpf_kind = LB_PermissionDenied | LB_NotFound | LB_Other

record libbpf =
  lb_operation :: "string \<Rightarrow> libbpf_kind option" \<comment> \<open>the failure of an operation, by its name\<close>
  lb_attach :: "string \<Rightarrow> libbpf_kind option" \<comment> \<open>the failure to attach a program, by its name\<close>
  lb_member :: "string \<Rightarrow> string \<Rightarrow> bool" \<comment> \<open>the kinds and names of the members of the object\<close>
  lb_lookup :: "string \<Rightarrow> libbpf_kind + bytes option" \<comment> \<open>the value of a map at key 0\<close>
  lb_clock_ok :: bool \<comment> \<open>adding the timeout to the clock does not overflow\<close>
  lb_process_id :: u32
  lb_session_sequence :: u64

datatype collector_error =
    CE_InvalidRequest string
  | CE_TargetNamespace string io_error
  | CE_MissingObjectMember string string
  | CE_Libbpf string libbpf_kind
  | CE_MalformedEvent nat nat
  | CE_UnknownProbeId u32

definition libbpf_call :: "libbpf \<Rightarrow> string \<Rightarrow> (unit, collector_error) rresult" where
  "libbpf_call lb operation =
     (case lb_operation lb operation of None \<Rightarrow> Ok () | Some kind \<Rightarrow> Err (CE_Libbpf operation kind))"

definition attach_call :: "libbpf \<Rightarrow> string \<Rightarrow> string \<Rightarrow> (unit, collector_error) rresult" where
  "attach_call lb operation program =
     (case lb_attach lb program of None \<Rightarrow> Ok () | Some kind \<Rightarrow> Err (CE_Libbpf operation kind))"

definition find_member :: "libbpf \<Rightarrow> string \<Rightarrow> string \<Rightarrow> (unit, collector_error) rresult" where
  "find_member lb kind name = (if lb_member lb kind name then Ok () else Err (CE_MissingObjectMember kind name))"

definition map_value :: "libbpf \<Rightarrow> string \<Rightarrow> string \<Rightarrow> (bytes, collector_error) rresult" where
  "map_value lb operation name =
     rbind (find_member lb ''map'' name) (\<lambda>_.
     case lb_lookup lb name of
       Inl kind \<Rightarrow> Err (CE_Libbpf operation kind)
     | Inr None \<Rightarrow> Err (CE_MissingObjectMember ''map value'' name)
     | Inr (Some bs) \<Rightarrow> Ok bs)"

definition read_counter :: "libbpf \<Rightarrow> string \<Rightarrow> string \<Rightarrow> (u64, collector_error) rresult" where
  "read_counter lb operation name =
     rbind (map_value lb operation name) (\<lambda>bs.
     if length bs \<noteq> 8 then Err (CE_MalformedEvent 8 (length bs)) else Ok (of_nat (le_nat bs)))"

definition namespace_path :: "target_identity \<Rightarrow> string" where
  "namespace_path target = proc_path (ti_pid target) ''ns/pid''"

definition target_namespace :: "os \<Rightarrow> target_identity \<Rightarrow> (file_metadata, collector_error) io" where
  "target_namespace os target =
     io_map_err (CE_TargetNamespace (namespace_path target)) (fs_metadata os (namespace_path target))"

text \<open>\<open>copy_from_slice\<close> of several fields into a buffer, one after the other.\<close>

fun copy_fields :: "(nat \<times> bytes) list \<Rightarrow> bytes \<Rightarrow> (bytes, 'e) rresult" where
  "copy_fields [] buffer = Ok buffer"
| "copy_fields ((offset, field) # rest) buffer =
     rbind (copy_at offset field buffer) (copy_fields rest)"

text \<open>
  An action followed by a loop: \<open>None\<close> when the loop is still running after the rounds given.
\<close>

definition io_then ::
  "('a, 'e) io \<Rightarrow> ('a \<Rightarrow> ('b, 'e) rresult option) \<Rightarrow> nat \<Rightarrow> (('b, 'e) rresult \<times> nat) option" where
  "io_then prepare run t =
     (case prepare t of
        (Ok a, t') \<Rightarrow> map_option (\<lambda>r. (r, t')) (run a)
      | (Err e, t') \<Rightarrow> Some (Err e, t')
      | (Panic, t') \<Rightarrow> Some (Panic, t'))"

definition then_run :: "('a, 'e) rresult \<Rightarrow> ('a \<Rightarrow> ('b, 'e) rresult option) \<Rightarrow> ('b, 'e) rresult option" where
  "then_run r run = (case r of Ok a \<Rightarrow> run a | Err e \<Rightarrow> Some (Err e) | Panic \<Rightarrow> Some Panic)"

section \<open>The polling loop\<close>

text \<open>The callback of the ring buffer, called for every record a poll delivers until it fails.\<close>

fun deliver ::
  "(bytes \<Rightarrow> ('r, collector_error) rresult) \<Rightarrow> nat \<Rightarrow> 'r list \<Rightarrow> bytes list \<Rightarrow> ('r list, collector_error) rresult" where
  "deliver decode limit events [] = Ok events"
| "deliver decode limit events (bs # rest) =
     (if limit \<le> length events then deliver decode limit events rest
      else rbind (decode bs) (\<lambda>event. deliver decode limit (events @ [event]) rest))"

record poll_round =
  po_cancelled :: bool
  po_expired :: bool \<comment> \<open>the clock has reached the deadline\<close>
  po_records :: "bytes list" \<comment> \<open>what the poll delivers\<close>
  po_error :: "libbpf_kind option" \<comment> \<open>how the poll itself fails\<close>

fun collect_rounds ::
  "(bytes \<Rightarrow> ('r, collector_error) rresult) \<Rightarrow> nat \<Rightarrow> string \<Rightarrow> 'r list \<Rightarrow> poll_round list \<Rightarrow>
   ('r list, collector_error) rresult option" where
  "collect_rounds decode limit operation events rounds =
     (if limit \<le> length events then Some (Ok events)
      else
        (case rounds of
           [] \<Rightarrow> None
         | r # rest \<Rightarrow>
             if po_cancelled r then Some (Ok events)
             else if po_expired r then Some (Ok events)
             else
               (case deliver decode limit events (po_records r) of
                  Err e \<Rightarrow> Some (Err e)
                | Panic \<Rightarrow> Some Panic
                | Ok events' \<Rightarrow>
                    (case po_error r of
                       Some kind \<Rightarrow> Some (Err (CE_Libbpf operation kind))
                     | None \<Rightarrow> collect_rounds decode limit operation events' rest))))"

declare collect_rounds.simps [simp del]

section \<open>Lemmas\<close>

lemma deliver_Ok:
  assumes "deliver decode limit events recs = Ok events'" "length events \<le> limit"
  shows "\<exists>new. events' = events @ new \<and> length events' \<le> limit \<and>
    list_all2 (\<lambda>bs e. decode bs = Ok e) (take (limit - length events) recs) new"
  using assms
proof (induction decode limit events recs rule: deliver.induct)
  case (2 decode limit events bs rest)
  show ?case
  proof (cases "limit \<le> length events")
    case True
    with 2 show ?thesis by auto
  next
    case False
    with 2(3) obtain e where e: "decode bs = Ok e" "deliver decode limit (events @ [e]) rest = Ok events'"
      by (auto simp: rust_simps)
    from 2(2) [OF False e(2)] False obtain new where
      new: "events' = (events @ [e]) @ new" "length events' \<le> limit"
        "list_all2 (\<lambda>bs e. decode bs = Ok e) (take (limit - length (events @ [e])) rest) new"
      by auto
    have "limit - length events = Suc (limit - length (events @ [e]))" using False by simp
    with new e(1) show ?thesis by (intro exI [of _ "e # new"]) simp
  qed
qed simp

lemma deliver_no_Panic: "(\<And>bs. decode bs \<noteq> Panic) \<Longrightarrow> deliver decode limit events recs \<noteq> Panic"
  by (induction decode limit events recs rule: deliver.induct) (auto simp: rust_simps split: rresult.splits)

text \<open>A run ends as soon as it is cancelled, the deadline passes or the limit is reached.\<close>

lemma collect_rounds_ends:
  "\<exists>r \<in> set rounds. po_cancelled r \<or> po_expired r \<or> po_error r \<noteq> None \<Longrightarrow>
   collect_rounds decode limit operation events rounds \<noteq> None"
proof (induction rounds arbitrary: events)
  case (Cons r rounds)
  then show ?case
    by (subst collect_rounds.simps) (auto split: rresult.splits option.splits)
qed simp

text \<open>What it has collected then are the first records delivered, decoded, up to the limit.\<close>

lemma collect_rounds_Ok:
  assumes "collect_rounds decode limit operation events rounds = Some (Ok events')" "length events \<le> limit"
  shows "length events' \<le> limit \<and> (\<exists>new k. events' = events @ new \<and>
    list_all2 (\<lambda>bs e. decode bs = Ok e) (take (limit - length events) (concat (map po_records (take k rounds)))) new)"
  using assms
proof (induction rounds arbitrary: events)
  case Nil
  then show ?case by (auto simp: collect_rounds.simps [of decode] split: if_splits)
next
  case (Cons r rounds)
  consider (stop) "events' = events" | (step) events1 where "deliver decode limit events (po_records r) = Ok events1"
    "collect_rounds decode limit operation events1 rounds = Some (Ok events')"
    using Cons.prems(1) by (auto simp: collect_rounds.simps [of decode _ _ events] split: if_splits rresult.splits option.splits)
  then show ?case
  proof cases
    case stop
    with Cons.prems(2) show ?thesis by (intro conjI exI [of _ "[]"] exI [of _ 0]) simp_all
  next
    case step
    from deliver_Ok [OF step(1) Cons.prems(2)] obtain new1 where
      new1: "events1 = events @ new1" "length events1 \<le> limit"
        "list_all2 (\<lambda>bs e. decode bs = Ok e) (take (limit - length events) (po_records r)) new1"
      by blast
    from Cons.IH [OF step(2) new1(2)] obtain new2 k where
      new2: "length events' \<le> limit" "events' = events1 @ new2"
        "list_all2 (\<lambda>bs e. decode bs = Ok e) (take (limit - length events1) (concat (map po_records (take k rounds)))) new2"
      by blast
    have "limit - length events1 = limit - length events - length (po_records r)"
      using list_all2_lengthD [OF new1(3)] by (auto simp: new1(1))
    with new2(3) have "list_all2 (\<lambda>bs e. decode bs = Ok e)
        (take (limit - length events) (po_records r @ concat (map po_records (take k rounds)))) (new1 @ new2)"
      using new1(3) by (simp add: list_all2_appendI)
    with new1(1) new2(1,2) show ?thesis
      by (intro conjI exI [of _ "new1 @ new2"] exI [of _ "Suc k"]) simp_all
  qed
qed

lemma io_then_Some_Ok:
  "io_then prepare run t = Some (Ok b, t') \<longleftrightarrow> (\<exists>a. prepare t = (Ok a, t') \<and> run a = Some (Ok b))"
  by (auto simp: io_then_def split: prod.splits rresult.splits)

lemma then_run_Some_Ok: "then_run r run = Some (Ok b) \<longleftrightarrow> (\<exists>a. r = Ok a \<and> run a = Some (Ok b))"
  by (auto simp: then_run_def split: rresult.splits)

lemma take_enumerate: "take k (enumerate n xs) = enumerate n (take k xs)"
  by (induction xs arbitrary: n k) (auto simp: take_Cons')

lemma enumerate_member: "(i, x) \<in> set (enumerate n (take k xs)) \<Longrightarrow> x \<in> set xs"
  by (auto simp: enumerate_eq_zip dest!: set_zip_rightD in_set_takeD)

lemma read_counter_bytes:
  "read_counter lb operation name = Ok v \<Longrightarrow> lb_lookup lb name = Inr (Some (u64_bytes w)) \<Longrightarrow> v = w"
  by (auto simp: read_counter_def map_value_def rust_simps u64_round_trip split: if_splits)

lemma collect_rounds_no_Panic:
  "(\<And>bs. decode bs \<noteq> Panic) \<Longrightarrow> collect_rounds decode limit operation events rounds \<noteq> Some Panic"
proof (induction rounds arbitrary: events)
  case Nil
  then show ?case by (simp add: collect_rounds.simps)
next
  case (Cons r rounds)
  then show ?case
    using deliver_no_Panic [of decode limit events "po_records r"]
    by (subst collect_rounds.simps) (auto split: rresult.splits option.splits)
qed

lemma io_then_ends:
  assumes "no_panic prepare" "\<And>a. \<exists>r. run a = Some r \<and> r \<noteq> Panic"
  shows "\<exists>r t'. io_then prepare run t = Some (r, t') \<and> r \<noteq> Panic"
proof -
  obtain r t' where r: "prepare t = (r, t')" by fastforce
  with assms(1) have "r \<noteq> Panic" by (metis fst_conv no_panic_def)
  with r assms(2) show ?thesis by (cases r) (fastforce simp: io_then_def)+
qed

lemma then_run_ends:
  assumes "r \<noteq> Panic" "\<And>a. \<exists>r. run a = Some r \<and> r \<noteq> Panic"
  shows "\<exists>r'. then_run r run = Some r' \<and> r' \<noteq> Panic"
  using assms by (cases r) (auto simp: then_run_def)

lemma collected_ends:
  assumes "\<exists>r \<in> set rounds. po_cancelled r \<or> po_expired r" "\<And>bs. decode bs \<noteq> Panic"
    and "\<And>events. f events \<noteq> Panic"
  shows "\<exists>r. map_option (\<lambda>collected. rbind collected f) (collect_rounds decode limit operation [] rounds) = Some r \<and>
    r \<noteq> Panic"
proof -
  from assms(1) obtain r where r: "collect_rounds decode limit operation [] rounds = Some r"
    using collect_rounds_ends [of rounds decode limit operation "[]"] by blast
  with collect_rounds_no_Panic [of decode limit operation "[]" rounds] assms(2,3) show ?thesis
    by (cases r) auto
qed

lemma target_namespace_no_panic: "no_panic (target_namespace os target)"
  by (simp add: target_namespace_def fs_metadata_def no_panic_def io_simps)

text \<open>
  A record layout: what a program writes and a collector reads back. A run of the loop over records of that layout
  never fails to decode and collects a prefix of what was submitted.
\<close>

locale record_layout =
  fixes encode :: "'r \<Rightarrow> bytes"
    and decode :: "bytes \<Rightarrow> ('r, collector_error) rresult"
    and wf :: "'r \<Rightarrow> bool"
  assumes decode_encode: "wf r \<Longrightarrow> decode (encode r) = Ok r"
begin

lemma decoded_unique:
  "list_all2 (\<lambda>bs e. decode bs = Ok e) (map encode rs) es \<Longrightarrow> list_all wf rs \<Longrightarrow> es = rs"
proof (induction rs arbitrary: es)
  case (Cons r rs)
  then show ?case by (cases es) (auto simp: decode_encode)
qed simp

lemma collected_prefix:
  assumes "collect_rounds decode limit operation [] rounds = Some (Ok events)"
    and "prefix (concat (map po_records rounds)) (map encode rs)" "list_all wf rs"
  shows "\<exists>k. k \<le> limit \<and> k \<le> length rs \<and> events = take k rs"
proof -
  from collect_rounds_Ok [OF assms(1)] obtain j where
    j: "length events \<le> limit"
      "list_all2 (\<lambda>bs e. decode bs = Ok e) (take limit (concat (map po_records (take j rounds)))) events"
    by auto
  have "prefix (concat (map po_records (take j rounds))) (concat (map po_records rounds))"
    by (metis append_take_drop_id concat_append map_append prefixI)
  with assms(2) have "prefix (take limit (concat (map po_records (take j rounds)))) (map encode rs)"
    by (meson prefix_order.trans take_is_prefix)
  then obtain k where k: "take limit (concat (map po_records (take j rounds))) = map encode (take k rs)" "k \<le> length rs"
    by (metis append_eq_conv_conj length_map nat_le_linear prefixE take_all take_map)
  have "list_all wf (take k rs)" using assms(3) by (auto simp: list_all_iff dest: in_set_takeD)
  from decoded_unique [OF _ this] j(2) k(1) have "events = take k rs" by simp
  with j(1) k(2) show ?thesis by auto
qed

end

end
