(* ===== verification/Bpf_Program.thy ===== *)
theory Bpf_Program
  imports Bytes
begin

text \<open>
  The event programs of bpf/xprobe.bpf.c: the uprobe handler, the tracepoint, USDT and system call handlers, and the
  layout of the records they submit. One run of a program is one atomic step on its maps; what the kernel helpers
  answer in that run (the identity of the current task in the namespace of the configuration, the clock, the
  processor, whether a record could be reserved, the registers) is a parameter of the run.
\<close>

section \<open>Fields of a buffer\<close>

text \<open>A field inside a buffer, as the collectors read it and as a program reads a structure in a map.\<close>

definition u32_at :: "bytes \<Rightarrow> nat \<Rightarrow> u32" where
  "u32_at bs i = of_nat (le_nat (take 4 (drop i bs)))"

definition u64_at :: "bytes \<Rightarrow> nat \<Rightarrow> u64" where
  "u64_at bs i = of_nat (le_nat (take 8 (drop i bs)))"

lemma u32_at_field: "length xs = i \<Longrightarrow> u32_at (xs @ u32_bytes w @ ys) i = w"
  by (simp add: u32_at_def u32_round_trip)

lemma u64_at_field: "length xs = i \<Longrightarrow> u64_at (xs @ u64_bytes w @ ys) i = w"
  by (simp add: u64_at_def u64_round_trip)

lemma field_at_skip:
  "length xs \<le> i \<Longrightarrow> u32_at (xs @ ys) i = u32_at ys (i - length xs)"
  "length xs \<le> i \<Longrightarrow> u64_at (xs @ ys) i = u64_at ys (i - length xs)"
  by (simp_all add: u32_at_def u64_at_def)

lemma field_at_start [simp]:
  "u32_at (u32_bytes w @ ys) 0 = w" "u64_at (u64_bytes v @ ys) 0 = v"
  "u32_at (u32_bytes w) 0 = w" "u64_at (u64_bytes v) 0 = v"
  by (simp_all add: u32_at_def u64_at_def u32_round_trip u64_round_trip)

section \<open>Kernel helpers\<close>

record helpers =
  hp_namespace :: "u64 \<Rightarrow> u64 \<Rightarrow> (u32 \<times> u32) option" \<comment> \<open>tgid and pid, if the task is in the namespace\<close>
  hp_ktime :: u64
  hp_cpu :: u32
  hp_reserve :: bool

section \<open>Uprobes\<close>

record xprobe_config =
  xc_pidns_dev :: u64
  xc_pidns_ino :: u64
  xc_target_pid :: u32
  xc_probe_id :: u32

text \<open>The structure the program reads from the bytes of the map.\<close>

definition xprobe_config_of :: "bytes \<Rightarrow> xprobe_config" where
  "xprobe_config_of bs =
     \<lparr>xc_pidns_dev = u64_at bs 0, xc_pidns_ino = u64_at bs 8, xc_target_pid = u32_at bs 16,
      xc_probe_id = u32_at bs 20\<rparr>"

record uprobe_maps =
  up_config :: "xprobe_config option"
  up_sequence :: "u64 option"
  up_dropped :: "u64 option"
  up_events :: "bytes list"

text \<open>The bytes of \<open>struct xprobe_event\<close>.\<close>

definition xprobe_event_bytes :: "u64 \<Rightarrow> u64 \<Rightarrow> u32 \<Rightarrow> u32 \<Rightarrow> u32 \<Rightarrow> u32 \<Rightarrow> bytes" where
  "xprobe_event_bytes timestamp_ns sequence pid tid cpu probe_id =
     u64_bytes timestamp_ns @ u64_bytes sequence @ u32_bytes pid @ u32_bytes tid @ u32_bytes cpu @ u32_bytes probe_id"

definition next_sequence :: "u64 option \<Rightarrow> u64" where
  "next_sequence counter = (case counter of Some n \<Rightarrow> n + 1 | None \<Rightarrow> 0)"

definition xprobe_handle_uprobe :: "helpers \<Rightarrow> uprobe_maps \<Rightarrow> uprobe_maps" where
  "xprobe_handle_uprobe hp maps =
     (case up_config maps of
        None \<Rightarrow> maps
      | Some current \<Rightarrow>
          (case hp_namespace hp (xc_pidns_dev current) (xc_pidns_ino current) of
             None \<Rightarrow> maps
           | Some (tgid, pid) \<Rightarrow>
               if xc_target_pid current \<noteq> tgid then maps
               else if \<not> hp_reserve hp then maps\<lparr>up_dropped := map_option (\<lambda>n. n + 1) (up_dropped maps)\<rparr>
               else
                 maps\<lparr>up_sequence := map_option (\<lambda>n. n + 1) (up_sequence maps),
                      up_events := up_events maps @
                        [xprobe_event_bytes (hp_ktime hp) (next_sequence (up_sequence maps)) tgid pid (hp_cpu hp)
                           (xc_probe_id current)]\<rparr>))"

section \<open>Linux endpoints\<close>

record xprobe_linux_config =
  lc_pidns_dev :: u64
  lc_pidns_ino :: u64
  lc_target_pid :: u32
  lc_reserved :: u32 \<comment> \<open>the armed flag\<close>
  lc_syscall_entry_numbers :: "u64 \<times> u64"
  lc_syscall_exit_numbers :: "u64 \<times> u64"

definition xprobe_linux_config_of :: "bytes \<Rightarrow> xprobe_linux_config" where
  "xprobe_linux_config_of bs =
     \<lparr>lc_pidns_dev = u64_at bs 0, lc_pidns_ino = u64_at bs 8, lc_target_pid = u32_at bs 16,
      lc_reserved = u32_at bs 20, lc_syscall_entry_numbers = (u64_at bs 24, u64_at bs 32),
      lc_syscall_exit_numbers = (u64_at bs 40, u64_at bs 48)\<rparr>"

record linux_maps =
  ln_config :: "xprobe_linux_config option"
  ln_sequence :: "u64 option"
  ln_dropped :: "u64 option"
  ln_events :: "bytes list"

text \<open>The bytes of \<open>struct xprobe_linux_event\<close>.\<close>

definition xprobe_linux_event_bytes :: "u64 \<Rightarrow> u64 \<Rightarrow> u64 list \<Rightarrow> u32 \<Rightarrow> u32 \<Rightarrow> u32 \<Rightarrow> u32 \<Rightarrow> bytes" where
  "xprobe_linux_event_bytes timestamp_ns sequence vals pid tid cpu probe_id =
     u64_bytes timestamp_ns @ u64_bytes sequence @ concat (map u64_bytes vals) @
     u32_bytes pid @ u32_bytes tid @ u32_bytes cpu @ u32_bytes probe_id"

definition xprobe_target_linux_process :: "helpers \<Rightarrow> xprobe_linux_config option \<Rightarrow> (u32 \<times> u32) option" where
  "xprobe_target_linux_process hp current =
     (case current of
        None \<Rightarrow> None
      | Some c \<Rightarrow>
          if lc_reserved c = 0 then None
          else
            (case hp_namespace hp (lc_pidns_dev c) (lc_pidns_ino c) of
               None \<Rightarrow> None
             | Some (tgid, pid) \<Rightarrow> if lc_target_pid c = tgid then Some (tgid, pid) else None))"

definition xprobe_count_linux_drop :: "linux_maps \<Rightarrow> linux_maps" where
  "xprobe_count_linux_drop maps = maps\<lparr>ln_dropped := map_option (\<lambda>n. n + 1) (ln_dropped maps)\<rparr>"

definition xprobe_emit_linux_event :: "helpers \<Rightarrow> u32 \<Rightarrow> u64 list option \<Rightarrow> linux_maps \<Rightarrow> linux_maps" where
  "xprobe_emit_linux_event hp probe_id vals maps =
     (case xprobe_target_linux_process hp (ln_config maps) of
        None \<Rightarrow> maps
      | Some (tgid, pid) \<Rightarrow>
          if \<not> hp_reserve hp then xprobe_count_linux_drop maps
          else
            maps\<lparr>ln_sequence := map_option (\<lambda>n. n + 1) (ln_sequence maps),
                 ln_events := ln_events maps @
                   [xprobe_linux_event_bytes (hp_ktime hp) (next_sequence (ln_sequence maps))
                      (case vals of Some vs \<Rightarrow> vs | None \<Rightarrow> replicate 6 0) tgid pid (hp_cpu hp) probe_id]\<rparr>)"

text \<open>The tracepoint, raw tracepoint and USDT programs of a slot.\<close>

definition xprobe_handle_slot :: "u32 \<Rightarrow> helpers \<Rightarrow> linux_maps \<Rightarrow> linux_maps" where
  "xprobe_handle_slot slot hp maps = xprobe_emit_linux_event hp slot None maps"

definition xprobe_syscall_probe_id :: "u64 \<times> u64 \<Rightarrow> u64 \<Rightarrow> u32" where
  "xprobe_syscall_probe_id numbers syscall_number =
     (if fst numbers = syscall_number then 1 else if snd numbers = syscall_number then 2 else 0)"

record registers =
  rg_r10 :: u64
  rg_r9 :: u64
  rg_r8 :: u64
  rg_dx :: u64
  rg_si :: u64
  rg_di :: u64
  rg_orig_ax :: u64

definition xprobe_handle_syscall_entry ::
  "helpers \<Rightarrow> registers option \<Rightarrow> u64 \<Rightarrow> linux_maps \<Rightarrow> linux_maps" where
  "xprobe_handle_syscall_entry hp regs syscall_number maps =
     (case (ln_config maps, xprobe_target_linux_process hp (ln_config maps)) of
        (Some current, Some _) \<Rightarrow>
          let probe_id = xprobe_syscall_probe_id (lc_syscall_entry_numbers current) syscall_number in
          if probe_id = 0 then maps
          else
            (case regs of
               None \<Rightarrow> xprobe_count_linux_drop maps
             | Some r \<Rightarrow>
                 xprobe_emit_linux_event hp probe_id
                   (Some [rg_di r, rg_si r, rg_dx r, rg_r10 r, rg_r8 r, rg_r9 r]) maps)
      | _ \<Rightarrow> maps)"

definition xprobe_handle_syscall_exit ::
  "helpers \<Rightarrow> registers option \<Rightarrow> u64 \<Rightarrow> linux_maps \<Rightarrow> linux_maps" where
  "xprobe_handle_syscall_exit hp regs return_value maps =
     (case (ln_config maps, xprobe_target_linux_process hp (ln_config maps)) of
        (Some current, Some _) \<Rightarrow>
          (case regs of
             None \<Rightarrow> xprobe_count_linux_drop maps
           | Some r \<Rightarrow>
               let probe_id = xprobe_syscall_probe_id (lc_syscall_exit_numbers current) (rg_orig_ax r) in
               if probe_id = 0 then maps
               else xprobe_emit_linux_event hp probe_id (Some [return_value, 0, 0, 0, 0, 0]) maps)
      | _ \<Rightarrow> maps)"

end
