(* ===== verification/Uprobe.thy ===== *)
theory Uprobe
  imports Ring_Capture Bpf_Program
begin

text \<open>
  The userspace probe collector (collector/src/uprobe.rs): the request, the configuration it writes, the capture
  and the normalisation of its records, and the composition of the collector with the BPF program.
\<close>

section \<open>Definitions\<close>

record uprobe_request =
  uq_target :: target_identity
  uq_binary :: string
  uq_symbol :: "string option"
  uq_symbol_demangled :: "string option"
  uq_offset :: u64
  uq_probe_kind :: host_probe_kind
  uq_probe_id :: u32
  uq_samples :: nat
  uq_timeout :: nat \<comment> \<open>nanoseconds\<close>
  uq_ready :: "bool option" \<comment> \<open>a channel, and whether its receiver still listens\<close>

fun uprobe_error_code :: "collector_error \<Rightarrow> error_code" where
  "uprobe_error_code (CE_InvalidRequest _) = EC_InvalidEventSelector"
| "uprobe_error_code (CE_TargetNamespace _ source) =
     (case io_kind source of
        IO_PermissionDenied \<Rightarrow> EC_PermissionDenied
      | IO_NotFound \<Rightarrow> EC_TargetExited
      | IO_Other \<Rightarrow> EC_Internal)"
| "uprobe_error_code (CE_Libbpf operation source) =
     (if source = LB_PermissionDenied then EC_PermissionDenied
      else if operation \<in> {''attach uprobe'', ''attach uretprobe''} \<and> source = LB_NotFound then EC_SymbolNotFound
      else EC_Internal)"
| "uprobe_error_code _ = EC_Internal"

definition uprobe_error_recoverable :: "collector_error \<Rightarrow> bool" where
  "uprobe_error_recoverable e =
     (uprobe_error_code e \<in> {EC_PermissionDenied, EC_SymbolNotFound, EC_TargetExited})"

record uprobe_raw_event =
  ur_timestamp_ns :: u64
  ur_sequence :: u64
  ur_pid :: u32
  ur_tid :: u32
  ur_cpu :: u32
  ur_probe_id :: u32

definition uprobe_decode :: "bytes \<Rightarrow> (uprobe_raw_event, collector_error) rresult" where
  "uprobe_decode bs =
     (if length bs \<noteq> 32 then Err (CE_MalformedEvent 32 (length bs))
      else
        rbind (read_u64 bs 0) (\<lambda>timestamp_ns.
        rbind (read_u64 bs 8) (\<lambda>sequence.
        rbind (read_u32 bs 16) (\<lambda>pid.
        rbind (read_u32 bs 20) (\<lambda>tid.
        rbind (read_u32 bs 24) (\<lambda>cpu.
        rbind (read_u32 bs 28) (\<lambda>probe_id.
        Ok \<lparr>ur_timestamp_ns = timestamp_ns, ur_sequence = sequence, ur_pid = pid, ur_tid = tid, ur_cpu = cpu,
            ur_probe_id = probe_id\<rparr>)))))))"

definition uprobe_validate_request :: "uprobe_request \<Rightarrow> (unit, collector_error) rresult" where
  "uprobe_validate_request request =
     (if uq_samples request = 0 then Err (CE_InvalidRequest ''samples must be greater than zero'')
      else if uq_timeout request = 0 then Err (CE_InvalidRequest ''timeout must be greater than zero'')
      else if uq_symbol request = Some '''' then Err (CE_InvalidRequest ''symbol must not be empty'')
      else if uq_probe_kind request \<notin> {HP_Uprobe, HP_Uretprobe}
      then Err (CE_InvalidRequest ''userspace collector requires uprobe or uretprobe kind'')
      else Ok ())"

definition uprobe_load_object :: "libbpf \<Rightarrow> (unit, collector_error) rresult" where
  "uprobe_load_object lb =
     rbind (libbpf_call lb ''name BPF object'') (\<lambda>_.
     rbind (libbpf_call lb ''open BPF object'') (\<lambda>_.
     libbpf_call lb ''load BPF object''))"

text \<open>The contents of the map \<open>config\<close> after the call.\<close>

definition uprobe_config_bytes :: "file_metadata \<Rightarrow> uprobe_request \<Rightarrow> (bytes, collector_error) rresult" where
  "uprobe_config_bytes namespace request =
     copy_fields
       [(0, u64_bytes (md_dev namespace)), (8, u64_bytes (md_ino namespace)),
        (16, u32_bytes (ti_pid (uq_target request))), (20, u32_bytes (uq_probe_id request))]
       (replicate 24 0)"

definition uprobe_configure_object :: "os \<Rightarrow> libbpf \<Rightarrow> uprobe_request \<Rightarrow> (bytes, collector_error) io" where
  "uprobe_configure_object os lb request =
     io_bind (target_namespace os (uq_target request)) (\<lambda>namespace.
     io_lift
      (rbind (uprobe_config_bytes namespace request) (\<lambda>config.
       rbind (find_member lb ''map'' ''config'') (\<lambda>_.
       rbind (libbpf_call lb ''configure BPF map'') (\<lambda>_.
       Ok config)))))"

definition attach_operation :: "uprobe_request \<Rightarrow> string" where
  "attach_operation request =
     (if uq_probe_kind request = HP_Uretprobe then ''attach uretprobe'' else ''attach uprobe'')"

definition send_ready :: "bool option \<Rightarrow> string \<Rightarrow> (unit, collector_error) rresult" where
  "send_ready ready message = (if ready = Some False then Err (CE_InvalidRequest message) else Ok ())"

definition uprobe_collect_raw_events ::
  "libbpf \<Rightarrow> uprobe_request \<Rightarrow> poll_round list \<Rightarrow>
   (uprobe_raw_event list \<times> u64, collector_error) rresult option" where
  "uprobe_collect_raw_events lb request rounds =
     then_run
      (rbind (if unat (uq_offset request) \<le> usize_max then Ok ()
              else Err (CE_InvalidRequest ''probe offset exceeds the platform address size'')) (\<lambda>_.
       rbind (find_member lb ''map'' ''events'') (\<lambda>_.
       rbind (libbpf_call lb ''register ring buffer'') (\<lambda>_.
       rbind (libbpf_call lb ''build ring buffer'') (\<lambda>_.
       rbind (find_member lb ''program'' ''xprobe_handle_uprobe'') (\<lambda>_.
       rbind (attach_call lb (attach_operation request) ''xprobe_handle_uprobe'') (\<lambda>_.
       send_ready (uq_ready request) ''host collector readiness receiver closed'')))))))
      (\<lambda>_. map_option
        (\<lambda>collected. rbind collected (\<lambda>events.
          rbind (read_counter lb ''read BPF map'' ''dropped'') (\<lambda>dropped.
          Ok (events, dropped))))
        (collect_rounds uprobe_decode (uq_samples request) ''poll ring buffer'' [] rounds))"

definition uprobe_normalize_event :: "uprobe_raw_event \<Rightarrow> uprobe_request \<Rightarrow> string \<Rightarrow> string \<Rightarrow> event" where
  "uprobe_normalize_event raw request session_id binary_path =
     \<lparr>ev_schema_version = schema_current, ev_session_id = session_id,
      ev_event_id = ''evt_'' @ render_nat 10 (unat (ur_sequence raw)), ev_sequence = ur_sequence raw,
      ev_source = ES_Ebpf,
      ev_event_type = (if uq_probe_kind request = HP_Uretprobe then ET_HostFunctionExit else ET_HostFunctionEntry),
      ev_pid = ur_pid raw, ev_tid = ur_tid raw, ev_cpu = Some (ur_cpu raw),
      ev_timestamp_raw = ur_timestamp_ns raw, ev_timestamp_ns = ur_timestamp_ns raw,
      ev_clock_domain = CD_HostMonotonic, ev_timestamp_error_ns = None,
      ev_process_start_time = Some (ti_process_start_time (uq_target request)),
      ev_host = Some \<lparr>he_probe_kind = uq_probe_kind request, he_binary_path = Some binary_path,
        he_build_id = None, he_symbol = uq_symbol request, he_symbol_demangled = uq_symbol_demangled request,
        he_offset = (if uq_symbol request = None then Some (uq_offset request) else None),
        he_return_value = None, he_arguments = []\<rparr>,
      ev_cuda = None, ev_nvtx = None, ev_attributes = []\<rparr>"

definition session_name :: "string \<Rightarrow> target_identity \<Rightarrow> libbpf \<Rightarrow> string" where
  "session_name stem target lb =
     stem @ render_nat 10 (unat (ti_pid target)) @ ''_'' @ render_nat 10 (unat (lb_process_id lb)) @ ''_'' @
     render_nat 10 (unat (lb_session_sequence lb))"

text \<open>Everything before the loop, and everything after it.\<close>

definition uprobe_prepare :: "os \<Rightarrow> libbpf \<Rightarrow> uprobe_request \<Rightarrow> (string, collector_error) io" where
  "uprobe_prepare os lb request =
     io_bind (io_lift
      (rbind (uprobe_validate_request request) (\<lambda>_.
       rbind (if lb_clock_ok lb then Ok () else Err (CE_InvalidRequest ''timeout exceeds Instant range'')) (\<lambda>_.
       rbind (if unat (ti_pid (uq_target request)) < 2 ^ 31 then Ok ()
              else Err (CE_InvalidRequest ''PID exceeds i32 range'')) (\<lambda>_.
       rbind (ok_or (from_utf8 (bytes_of_string (uq_binary request)))
              (CE_InvalidRequest ''binary path is not valid UTF-8'')) (\<lambda>binary_path.
       rbind (uprobe_load_object lb) (\<lambda>_. Ok binary_path))))))) (\<lambda>binary_path.
     io_bind (uprobe_configure_object os lb request) (\<lambda>_. io_ok binary_path))"

definition uprobe_result ::
  "libbpf \<Rightarrow> uprobe_request \<Rightarrow> string \<Rightarrow> uprobe_raw_event list \<times> u64 \<Rightarrow> host_capture_result" where
  "uprobe_result lb request binary_path = (\<lambda>(raw_events, dropped).
     let session_id = session_name ''xp_uprobe_'' (uq_target request) lb;
         events = map (\<lambda>raw. uprobe_normalize_event raw request session_id binary_path) raw_events in
     \<lparr>hc_schema_version = schema_current, hc_ok = True, hc_session_id = session_id,
      hc_target = uq_target request, hc_probe_id = uq_probe_id request, hc_captured = of_nat (length events),
      hc_dropped = dropped, hc_timed_out = (length events < uq_samples request),
      hc_record_limit_reached = False, hc_events = events\<rparr>)"

definition uprobe_capture ::
  "os \<Rightarrow> libbpf \<Rightarrow> poll_round list \<Rightarrow> uprobe_request \<Rightarrow> nat \<Rightarrow>
   ((host_capture_result, collector_error) rresult \<times> nat) option" where
  "uprobe_capture os lb rounds request =
     io_then (uprobe_prepare os lb request) (\<lambda>binary_path.
       map_option (\<lambda>collected. rbind collected (\<lambda>c. Ok (uprobe_result lb request binary_path c)))
         (uprobe_collect_raw_events lb request rounds))"

section \<open>Lemmas\<close>

lemma uprobe_config_bytes_eq:
  "uprobe_config_bytes namespace request =
     Ok (u64_bytes (md_dev namespace) @ u64_bytes (md_ino namespace) @ u32_bytes (ti_pid (uq_target request)) @
         u32_bytes (uq_probe_id request))"
  by (simp add: uprobe_config_bytes_def copy_at_def)

lemma uprobe_config_round_trip:
  assumes "uprobe_config_bytes namespace request = Ok config"
  shows "xprobe_config_of config =
    \<lparr>xc_pidns_dev = md_dev namespace, xc_pidns_ino = md_ino namespace, xc_target_pid = ti_pid (uq_target request),
     xc_probe_id = uq_probe_id request\<rparr>"
  using assms by (auto simp: uprobe_config_bytes_eq xprobe_config_of_def field_at_skip)

definition uprobe_encode :: "uprobe_raw_event \<Rightarrow> bytes" where
  "uprobe_encode r =
     xprobe_event_bytes (ur_timestamp_ns r) (ur_sequence r) (ur_pid r) (ur_tid r) (ur_cpu r) (ur_probe_id r)"

lemma uprobe_decode_fields:
  "length bs = 32 \<Longrightarrow> uprobe_decode bs =
     Ok \<lparr>ur_timestamp_ns = u64_at bs 0, ur_sequence = u64_at bs 8, ur_pid = u32_at bs 16, ur_tid = u32_at bs 20,
         ur_cpu = u32_at bs 24, ur_probe_id = u32_at bs 28\<rparr>"
  by (simp add: uprobe_decode_def read_in_range u64_at_def u32_at_def)

lemma uprobe_decode_encode: "uprobe_decode (uprobe_encode r) = Ok r"
proof -
  have "length (uprobe_encode r) = 32" by (simp add: uprobe_encode_def xprobe_event_bytes_def)
  then show ?thesis
    by (simp add: uprobe_decode_fields) (simp add: uprobe_encode_def xprobe_event_bytes_def field_at_skip)
qed

interpretation ul: record_layout uprobe_encode uprobe_decode "\<lambda>_. True"
  by unfold_locales (simp add: uprobe_decode_encode)

text \<open>The runs of the program in the target, and those among them that could reserve a record.\<close>

definition in_target :: "xprobe_config \<Rightarrow> helpers \<Rightarrow> bool" where
  "in_target c hp =
     (case hp_namespace hp (xc_pidns_dev c) (xc_pidns_ino c) of
        Some (tgid, pid) \<Rightarrow> xc_target_pid c = tgid | None \<Rightarrow> False)"

definition submitted_event :: "xprobe_config \<Rightarrow> nat \<Rightarrow> helpers \<Rightarrow> uprobe_raw_event" where
  "submitted_event c n hp =
     \<lparr>ur_timestamp_ns = hp_ktime hp, ur_sequence = of_nat (Suc n), ur_pid = xc_target_pid c,
      ur_tid = snd (the (hp_namespace hp (xc_pidns_dev c) (xc_pidns_ino c))), ur_cpu = hp_cpu hp,
      ur_probe_id = xc_probe_id c\<rparr>"

lemma handle_uprobe_outside: "up_config maps = Some c \<Longrightarrow> \<not> in_target c hp \<Longrightarrow> xprobe_handle_uprobe hp maps = maps"
  by (auto simp: xprobe_handle_uprobe_def in_target_def split: option.splits)

lemma handle_uprobe_inside:
  assumes "up_config maps = Some c" "in_target c hp" "up_sequence maps = Some (of_nat n)" "up_dropped maps = Some (of_nat d)"
  shows "xprobe_handle_uprobe hp maps =
    (if hp_reserve hp
     then maps\<lparr>up_sequence := Some (of_nat (Suc n)), up_events := up_events maps @ [uprobe_encode (submitted_event c n hp)]\<rparr>
     else maps\<lparr>up_dropped := Some (of_nat (Suc d))\<rparr>)"
  using assms
  by (auto simp: xprobe_handle_uprobe_def in_target_def uprobe_encode_def submitted_event_def next_sequence_def add.commute
      split: option.splits)

lemma handle_uprobe_fold:
  assumes "up_config maps = Some c" "up_sequence maps = Some (of_nat n)" "up_dropped maps = Some (of_nat d)"
  shows "fold xprobe_handle_uprobe hps maps =
    maps\<lparr>up_sequence := Some (of_nat (n + length (filter hp_reserve (filter (in_target c) hps)))),
         up_dropped := Some (of_nat (d + length (filter (\<lambda>hp. \<not> hp_reserve hp) (filter (in_target c) hps)))),
         up_events := up_events maps @
           map (\<lambda>(i, hp). uprobe_encode (submitted_event c i hp)) (enumerate n (filter hp_reserve (filter (in_target c) hps)))\<rparr>"
  using assms
proof (induction hps arbitrary: maps n d)
  case Nil
  then show ?case by simp
next
  case (Cons hp hps)
  show ?case
  proof (cases "in_target c hp")
    case False
    with Cons show ?thesis by (simp add: handle_uprobe_outside)
  next
    case True
    show ?thesis
    proof (cases "hp_reserve hp")
      case True
      with \<open>in_target c hp\<close> Cons.prems show ?thesis
        by (simp add: handle_uprobe_inside [OF Cons.prems(1) \<open>in_target c hp\<close> Cons.prems(2,3)]
            Cons.IH [of _ "Suc n" d] del: of_nat_Suc)
    next
      case False
      with \<open>in_target c hp\<close> Cons.prems show ?thesis
        by (simp add: handle_uprobe_inside [OF Cons.prems(1) \<open>in_target c hp\<close> Cons.prems(2,3)]
            Cons.IH [of _ n "Suc d"] del: of_nat_Suc)
    qed
  qed
qed

lemma uprobe_capture_facts:
  assumes "uprobe_capture os lb rounds request t = Some (Ok result, t')"
  obtains binary_path raw_events dropped where
    "collect_rounds uprobe_decode (uq_samples request) ''poll ring buffer'' [] rounds = Some (Ok raw_events)"
    "read_counter lb ''read BPF map'' ''dropped'' = Ok dropped"
    "result = uprobe_result lb request binary_path (raw_events, dropped)"
  using assms
  by (auto simp: uprobe_capture_def uprobe_collect_raw_events_def io_then_Some_Ok then_run_Some_Ok rust_simps)

lemma in_target_config:
  "in_target \<lparr>xc_pidns_dev = dev, xc_pidns_ino = ino, xc_target_pid = pid, xc_probe_id = probe\<rparr> =
   (\<lambda>hp. \<exists>tid. hp_namespace hp dev ino = Some (pid, tid))"
  by (auto simp: in_target_def fun_eq_iff split: option.splits)

text \<open>C34: The events of a uprobe capture are runs of the BPF program in the target. Let the program run any number
  of times on the configuration the collector writes, in any task, and let the polls deliver a prefix of the
  records it submits. Then the k-th event of the result carries the sequence number k and the time, thread and
  processor of the k-th run that was in the target and could reserve a record, no run of another process is
  reported, at most the requested samples are reported, and the drop count is the number of runs of the target that
  found no room.
\<close>
theorem uprobe_capture_events:
  assumes capture: "uprobe_capture os lb rounds request t = Some (Ok result, t')"
    and config: "os_metadata os t (namespace_path (uq_target request)) = Inr namespace"
      "uprobe_config_bytes namespace request = Ok config"
    and runs: "maps = fold xprobe_handle_uprobe hps
      \<lparr>up_config = Some (xprobe_config_of config), up_sequence = Some 0, up_dropped = Some 0, up_events = []\<rparr>"
    and delivered: "prefix (concat (map po_records rounds)) (up_events maps)"
    and counter: "lb_lookup lb ''dropped'' = Inr (map_option u64_bytes (up_dropped maps))"
    and hits: "hits = filter (\<lambda>hp. \<exists>tid. hp_namespace hp (md_dev namespace) (md_ino namespace) =
      Some (ti_pid (uq_target request), tid)) hps"
  shows "\<exists>k \<le> uq_samples request. k \<le> length (filter hp_reserve hits) \<and>
    list_all2 (\<lambda>(i, hp) e.
        ev_sequence e = of_nat (Suc i) \<and> ev_timestamp_ns e = hp_ktime hp \<and> ev_cpu e = Some (hp_cpu hp) \<and>
        hp_namespace hp (md_dev namespace) (md_ino namespace) = Some (ev_pid e, ev_tid e) \<and>
        ev_pid e = ti_pid (uq_target request))
      (enumerate 0 (take k (filter hp_reserve hits))) (hc_events result) \<and>
    hc_captured result = of_nat k \<and> hc_timed_out result = (k < uq_samples request) \<and>
    hc_dropped result = of_nat (length (filter (\<lambda>hp. \<not> hp_reserve hp) hits))"
proof -
  let ?c = "xprobe_config_of config" and ?sub = "filter hp_reserve hits"
  note c = uprobe_config_round_trip [OF config(2)]
  have hits': "hits = filter (in_target ?c) hps" by (simp add: hits c in_target_config)
  have maps: "up_dropped maps = Some (of_nat (length (filter (\<lambda>hp. \<not> hp_reserve hp) hits)))"
    "up_events maps = map uprobe_encode (map (\<lambda>(i, hp). submitted_event ?c i hp) (enumerate 0 ?sub))"
    by (simp_all add: runs hits' handle_uprobe_fold [of _ _ 0 0] case_prod_unfold)
  obtain binary_path raw_events dropped where
    raw: "collect_rounds uprobe_decode (uq_samples request) ''poll ring buffer'' [] rounds = Some (Ok raw_events)"
      "read_counter lb ''read BPF map'' ''dropped'' = Ok dropped"
      "result = uprobe_result lb request binary_path (raw_events, dropped)"
    using uprobe_capture_facts [OF capture] .
  have dropped: "dropped = of_nat (length (filter (\<lambda>hp. \<not> hp_reserve hp) hits))"
    using raw(2) counter by (simp add: maps(1) read_counter_bytes)
  obtain k where k: "k \<le> uq_samples request" "k \<le> length ?sub"
      "raw_events = map (\<lambda>(i, hp). submitted_event ?c i hp) (enumerate 0 (take k ?sub))"
    using ul.collected_prefix [OF raw(1) delivered [unfolded maps(2)]] by (auto simp: take_map take_enumerate list_all_iff)
  have "list_all2 (\<lambda>(i, hp) e.
        ev_sequence e = of_nat (Suc i) \<and> ev_timestamp_ns e = hp_ktime hp \<and> ev_cpu e = Some (hp_cpu hp) \<and>
        hp_namespace hp (md_dev namespace) (md_ino namespace) = Some (ev_pid e, ev_tid e) \<and>
        ev_pid e = ti_pid (uq_target request))
      (enumerate 0 (take k ?sub)) (hc_events result)"
    unfolding raw(3) k(3) uprobe_result_def
    by (auto simp: Let_def list_all2_map2 list_all2_same uprobe_normalize_event_def submitted_event_def c hits
        case_prod_unfold dest!: enumerate_member)
  with k dropped show ?thesis
    by (intro exI [of _ k]) (simp add: raw(3) uprobe_result_def Let_def min_absorb2)
qed

text \<open>An example: one run in the target, one in another process, one in the target that finds no room.\<close>

definition example_uprobe_request :: uprobe_request where
  "example_uprobe_request =
     \<lparr>uq_target = \<lparr>ti_pid = 7, ti_process_start_time = 1\<rparr>, uq_binary = ''/bin/a'', uq_symbol = Some ''f'',
      uq_symbol_demangled = None, uq_offset = 0, uq_probe_kind = HP_Uprobe, uq_probe_id = 1, uq_samples = 2,
      uq_timeout = 1, uq_ready = None\<rparr>"

definition example_namespace :: file_metadata where
  "example_namespace = \<lparr>md_is_file = True, md_len = 0, md_dev = 3, md_ino = 4\<rparr>"

definition example_libbpf :: libbpf where
  "example_libbpf =
     \<lparr>lb_operation = (\<lambda>_. None), lb_attach = (\<lambda>_. None), lb_member = (\<lambda>_ _. True), lb_lookup = (\<lambda>_. Inr (Some (u64_bytes 1))),
      lb_clock_ok = True, lb_process_id = 9, lb_session_sequence = 1\<rparr>"

definition example_run :: "u32 \<Rightarrow> u64 \<Rightarrow> bool \<Rightarrow> helpers" where
  "example_run tgid time room =
     \<lparr>hp_namespace = (\<lambda>dev ino. if dev = 3 \<and> ino = 4 then Some (tgid, 8) else None), hp_ktime = time, hp_cpu = 0,
      hp_reserve = room\<rparr>"

definition example_round :: "bool \<Rightarrow> bytes list \<Rightarrow> poll_round" where
  "example_round expired records =
     \<lparr>po_cancelled = False, po_expired = expired, po_records = records, po_error = None\<rparr>"

definition example_uprobe_rounds :: "poll_round list" where
  "example_uprobe_rounds =
     [example_round False [xprobe_event_bytes 10 1 7 8 0 1], example_round True []]"

lemmas example_uprobe_defs = example_uprobe_request_def example_namespace_def example_libbpf_def example_run_def
  example_round_def example_uprobe_rounds_def

lemma example_uprobe_decode:
  "uprobe_decode (xprobe_event_bytes 10 1 7 8 0 1) =
   Ok \<lparr>ur_timestamp_ns = 10, ur_sequence = 1, ur_pid = 7, ur_tid = 8, ur_cpu = 0, ur_probe_id = 1\<rparr>"
  using uprobe_decode_encode [of "\<lparr>ur_timestamp_ns = 10, ur_sequence = 1, ur_pid = 7, ur_tid = 8, ur_cpu = 0, ur_probe_id = 1\<rparr>"]
  by (simp add: uprobe_encode_def)

lemma example_uprobe_capture:
  "\<exists>result t'. uprobe_capture (example_host\<lparr>os_metadata := \<lambda>_ _. Inr example_namespace\<rparr>) example_libbpf
     example_uprobe_rounds example_uprobe_request 0 = Some (Ok result, t')"
proof -
  have path: "from_utf8 (bytes_of_string ''/bin/a'') = Some ''/bin/a''" by code_simp
  have rounds: "collect_rounds uprobe_decode 2 op [] example_uprobe_rounds =
      Some (Ok [\<lparr>ur_timestamp_ns = 10, ur_sequence = 1, ur_pid = 7, ur_tid = 8, ur_cpu = 0, ur_probe_id = 1\<rparr>])" for op
    by (simp add: collect_rounds.simps example_uprobe_rounds_def example_round_def example_uprobe_decode)
  have collect: "\<exists>c. uprobe_collect_raw_events example_libbpf example_uprobe_request example_uprobe_rounds = Some (Ok c)"
    by (simp add: uprobe_collect_raw_events_def then_run_def find_member_def libbpf_call_def attach_call_def send_ready_def
        read_counter_def map_value_def example_libbpf_def example_uprobe_request_def rounds)
  have prepare: "uprobe_prepare (example_host\<lparr>os_metadata := \<lambda>_ _. Inr example_namespace\<rparr>) example_libbpf
      example_uprobe_request 0 = (Ok ''/bin/a'', 1)"
    by (simp add: uprobe_prepare_def uprobe_validate_request_def uprobe_load_object_def uprobe_configure_object_def
        uprobe_config_bytes_eq target_namespace_def fs_metadata_def io_bind_def io_map_err_def io_access_def
        find_member_def libbpf_call_def example_libbpf_def example_uprobe_request_def path ok_or_def)
  from collect prepare show ?thesis by (auto simp: uprobe_capture_def io_then_def)
qed

theorem uprobe_capture_events_witness:
  "\<exists>result t'. uprobe_capture (example_host\<lparr>os_metadata := \<lambda>_ _. Inr example_namespace\<rparr>) example_libbpf
       example_uprobe_rounds example_uprobe_request 0 = Some (Ok result, t') \<and>
     hc_dropped result = 1 \<and> (\<forall>e \<in> set (hc_events result). ev_pid e = 7 \<and> ev_timestamp_ns e = 10)"
proof -
  let ?hps = "[example_run 7 10 True, example_run 5 11 True, example_run 7 12 False]"
  let ?config = "u64_bytes 3 @ u64_bytes 4 @ u32_bytes 7 @ u32_bytes 1"
  obtain result t' where capture: "uprobe_capture (example_host\<lparr>os_metadata := \<lambda>_ _. Inr example_namespace\<rparr>)
      example_libbpf example_uprobe_rounds example_uprobe_request 0 = Some (Ok result, t')"
    using example_uprobe_capture by blast
  have config: "uprobe_config_bytes example_namespace example_uprobe_request = Ok ?config"
    by (simp add: uprobe_config_bytes_eq example_uprobe_defs)
  have "xprobe_config_of ?config = \<lparr>xc_pidns_dev = 3, xc_pidns_ino = 4, xc_target_pid = 7, xc_probe_id = 1\<rparr>"
    using uprobe_config_round_trip [OF config] by (simp add: example_uprobe_defs)
  then have maps: "fold xprobe_handle_uprobe ?hps
      \<lparr>up_config = Some (xprobe_config_of ?config), up_sequence = Some 0, up_dropped = Some 0, up_events = []\<rparr> =
      \<lparr>up_config = Some (xprobe_config_of ?config), up_sequence = Some 1, up_dropped = Some 1,
       up_events = [xprobe_event_bytes 10 1 7 8 0 1]\<rparr>"
    by (simp add: xprobe_handle_uprobe_def example_run_def next_sequence_def)
  have hits: "filter (\<lambda>hp. \<exists>tid. hp_namespace hp (md_dev example_namespace) (md_ino example_namespace) =
      Some (ti_pid (uq_target example_uprobe_request), tid)) ?hps = [example_run 7 10 True, example_run 7 12 False]"
    by (simp add: example_uprobe_defs)
  note claim = uprobe_capture_events [OF capture _ config maps [symmetric] _ _ hits [symmetric]]
  from claim obtain k where "k \<le> 1" "hc_dropped result = 1"
    and "list_all2 (\<lambda>(i, hp) e. ev_sequence e = of_nat (Suc i) \<and> ev_timestamp_ns e = hp_ktime hp \<and>
        ev_cpu e = Some (hp_cpu hp) \<and> hp_namespace hp 3 4 = Some (ev_pid e, ev_tid e) \<and> ev_pid e = 7)
      (enumerate 0 (take k [example_run 7 10 True])) (hc_events result)"
    by (auto simp: example_uprobe_defs)
  then show ?thesis
    using capture by (cases k) (auto simp: example_run_def list_all2_Cons1)
qed

text \<open>Nothing panics, and the loop ends with the deadline or with the cancellation.\<close>

lemma libbpf_no_Panic [simp]:
  "libbpf_call lb operation \<noteq> Panic" "attach_call lb operation program \<noteq> Panic" "find_member lb kind name \<noteq> Panic" "send_ready ready message \<noteq> Panic"
  "read_counter lb operation name \<noteq> Panic"
  by (auto simp: libbpf_call_def attach_call_def find_member_def send_ready_def read_counter_def map_value_def rust_simps
      split: option.splits sum.splits if_splits)

lemma uprobe_decode_no_Panic: "uprobe_decode bs \<noteq> Panic"
  by (cases "length bs = 32") (simp add: uprobe_decode_fields, simp add: uprobe_decode_def)

lemma uprobe_prepare_no_panic: "no_panic (uprobe_prepare os lb request)"
proof -
  have "no_panic (uprobe_configure_object os lb request)"
    using target_namespace_no_panic [of os "uq_target request"]
    by (auto simp: uprobe_configure_object_def no_panic_def io_simps uprobe_config_bytes_eq rust_simps
        intro!: rbind_no_Panic)
  then show ?thesis
    by (auto simp: uprobe_prepare_def no_panic_def io_simps uprobe_validate_request_def uprobe_load_object_def
        rust_simps ok_or_def intro!: rbind_no_Panic split: option.splits)
qed

lemma uprobe_capture_ends:
  assumes "\<exists>r \<in> set rounds. po_cancelled r \<or> po_expired r"
  shows "\<exists>r t'. uprobe_capture os lb rounds request t = Some (r, t') \<and> r \<noteq> Panic"
proof -
  have "\<exists>r. uprobe_collect_raw_events lb request rounds = Some r \<and> r \<noteq> Panic"
    unfolding uprobe_collect_raw_events_def
    by (intro then_run_ends collected_ends assms uprobe_decode_no_Panic rbind_no_Panic) simp_all
  then show ?thesis
    unfolding uprobe_capture_def
    by (intro io_then_ends uprobe_prepare_no_panic) (auto simp: rust_simps)
qed

end
