(* ===== verification/Linux_Capture.thy ===== *)
theory Linux_Capture
  imports Uprobe
begin

text \<open>
  The collector of system calls, tracepoints and USDT probes (collector/src/linux.rs): the request and its
  validation, the configuration bytes, attaching and arming, the capture and the normalisation of its records.
\<close>

section \<open>Definitions\<close>

record linux_capture_request =
  lq_target :: target_identity
  lq_probes :: "resolved_linux_selector list"
  lq_event_limit :: nat
  lq_capacity_limit :: bool
  lq_timeout :: nat \<comment> \<open>nanoseconds\<close>
  lq_ready :: "bool option"

fun linux_error_code :: "collector_error \<Rightarrow> error_code" where
  "linux_error_code (CE_InvalidRequest _) = EC_InvalidEventSelector"
| "linux_error_code (CE_TargetNamespace _ source) =
     (case io_kind source of
        IO_PermissionDenied \<Rightarrow> EC_PermissionDenied
      | IO_NotFound \<Rightarrow> EC_TargetExited
      | IO_Other \<Rightarrow> EC_Internal)"
| "linux_error_code (CE_Libbpf operation source) =
     (if source = LB_PermissionDenied then EC_PermissionDenied
      else if operation \<in> {''attach tracepoint'', ''attach USDT''} \<and> source = LB_NotFound
      then EC_InvalidEventSelector
      else EC_Internal)"
| "linux_error_code _ = EC_Internal"

definition linux_error_recoverable :: "collector_error \<Rightarrow> bool" where
  "linux_error_recoverable e =
     (linux_error_code e \<in> {EC_InvalidEventSelector, EC_PermissionDenied, EC_TargetExited})"

record linux_raw_event =
  lr_timestamp_ns :: u64
  lr_sequence :: u64
  lr_values :: "u64 list"
  lr_pid :: u32
  lr_tid :: u32
  lr_cpu :: u32
  lr_probe_id :: u32

definition linux_decode :: "bytes \<Rightarrow> (linux_raw_event, collector_error) rresult" where
  "linux_decode bs =
     (if length bs \<noteq> 80 then Err (CE_MalformedEvent 80 (length bs))
      else
        rbind (rcollect (\<lambda>index. read_u64 bs (16 + index * 8)) [0..<6]) (\<lambda>vals.
        rbind (read_u64 bs 0) (\<lambda>timestamp_ns.
        rbind (read_u64 bs 8) (\<lambda>sequence.
        rbind (read_u32 bs 64) (\<lambda>pid.
        rbind (read_u32 bs 68) (\<lambda>tid.
        rbind (read_u32 bs 72) (\<lambda>cpu.
        rbind (read_u32 bs 76) (\<lambda>probe_id.
        Ok \<lparr>lr_timestamp_ns = timestamp_ns, lr_sequence = sequence, lr_values = vals, lr_pid = pid, lr_tid = tid,
            lr_cpu = cpu, lr_probe_id = probe_id\<rparr>))))))))"

definition probe_valid :: "resolved_linux_selector \<Rightarrow> bool" where
  "probe_valid probe =
     (case rl_probe_kind probe of
        HP_Syscall \<Rightarrow>
          rl_event_type probe \<in> {ET_SyscallEntry, ET_SyscallExit} \<and> rl_category probe = ''syscalls'' \<and>
          rl_syscall_number probe \<noteq> None \<and> rl_binary_path probe = None \<and> rl_provider probe = None
      | HP_Tracepoint \<Rightarrow>
          rl_event_type probe = ET_Tracepoint \<and> rl_syscall_number probe = None \<and> rl_binary_path probe = None \<and>
          rl_provider probe = None
      | HP_Usdt \<Rightarrow>
          rl_event_type probe \<in> {ET_PythonGcStart, ET_PythonGcEnd} \<and> rl_category probe = ''python'' \<and>
          rl_syscall_number probe = None \<and>
          (case rl_binary_path probe of None \<Rightarrow> False | Some path \<Rightarrow> path \<noteq> '''') \<and>
          rl_provider probe = Some ''python''
      | _ \<Rightarrow> False)"

definition linux_validate_request :: "linux_capture_request \<Rightarrow> (unit, collector_error) rresult" where
  "linux_validate_request request =
     (if lq_probes request = [] \<or> 2 < length (lq_probes request)
      then Err (CE_InvalidRequest ''Linux collector requires one or two endpoints'')
      else if lq_event_limit request = 0 then Err (CE_InvalidRequest ''max-events must be greater than zero'')
      else if lq_timeout request = 0 then Err (CE_InvalidRequest ''timeout must be greater than zero'')
      else if list_ex (\<lambda>probe. \<not> probe_valid probe \<or> rl_category probe = '''' \<or> rl_name probe = '''')
                (lq_probes request)
      then Err (CE_InvalidRequest ''Linux endpoint metadata is inconsistent'')
      else Ok ())"

text \<open>\<open>checked_next_power_of_two\<close> of a 64-bit \<open>usize\<close>.\<close>

definition checked_next_power_of_two :: "nat \<Rightarrow> nat option" where
  "checked_next_power_of_two n = map_option (\<lambda>k. 2 ^ k) (find (\<lambda>k. n \<le> 2 ^ k) [0..<64])"

definition linux_ring_bytes :: "nat \<Rightarrow> nat" where
  "linux_ring_bytes event_limit =
     max (case (if event_limit * 80 \<le> usize_max then checked_next_power_of_two (event_limit * 80) else None) of
            Some n \<Rightarrow> n | None \<Rightarrow> usize_max)
       (256 * 1024)"

definition linux_load_object :: "libbpf \<Rightarrow> nat \<Rightarrow> (u32, collector_error) rresult" where
  "linux_load_object lb event_limit =
     rbind (if linux_ring_bytes event_limit < 2 ^ 32 then Ok (of_nat (linux_ring_bytes event_limit))
            else Err (CE_InvalidRequest ''max-events requires a Linux ring buffer larger than u32'')) (\<lambda>ring_bytes.
     rbind (libbpf_call lb ''name BPF object'') (\<lambda>_.
     rbind (libbpf_call lb ''open BPF object'') (\<lambda>_.
     rbind (find_member lb ''map'' ''linux_events'') (\<lambda>_.
     rbind (libbpf_call lb ''size Linux ring buffer'') (\<lambda>_.
     rbind (libbpf_call lb ''load BPF object'') (\<lambda>_.
     Ok ring_bytes))))))"

text \<open>The field a probe writes, if any; \<open>i64::from(number)\<close>.\<close>

definition probe_field :: "nat \<Rightarrow> resolved_linux_selector \<Rightarrow> (nat \<times> bytes) list" where
  "probe_field index probe =
     (case rl_syscall_number probe of
        None \<Rightarrow> []
      | Some number \<Rightarrow>
          if rl_event_type probe = ET_SyscallEntry then [(24 + index * 8, u64_bytes (ucast number))]
          else if rl_event_type probe = ET_SyscallExit then [(40 + index * 8, u64_bytes (ucast number))]
          else [])"

definition linux_config_bytes :: "file_metadata \<Rightarrow> linux_capture_request \<Rightarrow> (bytes, collector_error) rresult" where
  "linux_config_bytes namespace request =
     copy_fields
       ([(0, u64_bytes (md_dev namespace)), (8, u64_bytes (md_ino namespace)),
         (16, u32_bytes (ti_pid (lq_target request)))] @
        map (\<lambda>slot. (24 + slot * 8, u64_bytes (- 1))) [0..<4] @
        concat (map (\<lambda>(index, probe). probe_field index probe) (enumerate 0 (lq_probes request))))
       (replicate 56 0)"

definition linux_configure_object :: "os \<Rightarrow> libbpf \<Rightarrow> linux_capture_request \<Rightarrow> (bytes, collector_error) io" where
  "linux_configure_object os lb request =
     io_bind (target_namespace os (lq_target request)) (\<lambda>namespace.
     io_lift
      (rbind (linux_config_bytes namespace request) (\<lambda>config.
       rbind (find_member lb ''map'' ''linux_config'') (\<lambda>_.
       rbind (libbpf_call lb ''configure Linux BPF map'') (\<lambda>_.
       Ok config)))))"

text \<open>Sets the armed flag in the contents of the map \<open>linux_config\<close>.\<close>

definition linux_arm_object :: "libbpf \<Rightarrow> bytes option \<Rightarrow> (bytes, collector_error) rresult" where
  "linux_arm_object lb stored =
     rbind (find_member lb ''map'' ''linux_config'') (\<lambda>_.
     rbind (libbpf_call lb ''read Linux BPF config'') (\<lambda>_.
     rbind (ok_or stored (CE_MissingObjectMember ''map value'' ''linux_config'')) (\<lambda>config.
     if length config \<noteq> 56 then Err (CE_MalformedEvent 56 (length config))
     else
       rbind (copy_at 20 (u32_bytes 1) config) (\<lambda>config.
       rbind (libbpf_call lb ''arm Linux BPF collection'') (\<lambda>_.
       Ok config)))))"

definition attach_program :: "libbpf \<Rightarrow> string \<Rightarrow> string \<Rightarrow> (unit, collector_error) rresult" where
  "attach_program lb operation program =
     rbind (find_member lb ''program'' program) (\<lambda>_. attach_call lb operation program)"

definition attach_syscall ::
  "libbpf \<Rightarrow> resolved_linux_selector list \<Rightarrow> event_type \<Rightarrow> string \<Rightarrow> (string list, collector_error) rresult" where
  "attach_syscall lb probes event_type program =
     (if list_ex (\<lambda>probe. rl_event_type probe = event_type) probes
      then rbind (attach_program lb ''attach tracepoint'' program) (\<lambda>_. Ok [program])
      else Ok [])"

definition attach_tracepoint ::
  "libbpf \<Rightarrow> nat \<times> resolved_linux_selector \<Rightarrow> (string list, collector_error) rresult" where
  "attach_tracepoint lb = (\<lambda>(index, probe).
     if rl_event_type probe \<noteq> ET_Tracepoint then Ok []
     else
       let stem = (if rl_category probe = ''raw_syscalls'' then ''xprobe_handle_raw_tracepoint''
                   else ''xprobe_handle_tracepoint'');
           program = stem @ ''_'' @ render_nat 10 (index + 1) in
       rbind (attach_program lb ''attach tracepoint'' program) (\<lambda>_. Ok [program]))"

definition attach_usdt ::
  "libbpf \<Rightarrow> u32 \<Rightarrow> nat \<times> resolved_linux_selector \<Rightarrow> (string list, collector_error) rresult" where
  "attach_usdt lb target_pid = (\<lambda>(index, probe).
     if rl_probe_kind probe \<noteq> HP_Usdt then Ok []
     else
       let program = ''xprobe_handle_usdt_'' @ render_nat 10 (index + 1) in
       rbind (find_member lb ''program'' program) (\<lambda>_.
       rbind (if unat target_pid < 2 ^ 31 then Ok ()
              else Err (CE_InvalidRequest ''target PID exceeds i32'')) (\<lambda>_.
       rbind (expect (rl_binary_path probe)) (\<lambda>path.
       rbind (expect (rl_provider probe)) (\<lambda>provider.
       rbind (attach_call lb ''attach USDT'' program) (\<lambda>_. Ok [program]))))))"

text \<open>The programs attached, in the order of the links.\<close>

definition attach_probes ::
  "libbpf \<Rightarrow> u32 \<Rightarrow> resolved_linux_selector list \<Rightarrow> (string list, collector_error) rresult" where
  "attach_probes lb target_pid probes =
     rbind (attach_syscall lb probes ET_SyscallEntry ''xprobe_handle_syscall_entry'') (\<lambda>entry.
     rbind (attach_syscall lb probes ET_SyscallExit ''xprobe_handle_syscall_exit'') (\<lambda>exit.
     rbind (rcollect (attach_tracepoint lb) (enumerate 0 probes)) (\<lambda>tracepoints.
     rbind (rcollect (attach_usdt lb target_pid) (enumerate 0 probes)) (\<lambda>usdt.
     Ok (entry @ exit @ concat tracepoints @ concat usdt)))))"

definition linux_collect_raw_events ::
  "libbpf \<Rightarrow> linux_capture_request \<Rightarrow> bytes \<Rightarrow> poll_round list \<Rightarrow>
   (linux_raw_event list \<times> u64, collector_error) rresult option" where
  "linux_collect_raw_events lb request config rounds =
     then_run
      (rbind (find_member lb ''map'' ''linux_events'') (\<lambda>_.
       rbind (libbpf_call lb ''register Linux ring buffer'') (\<lambda>_.
       rbind (libbpf_call lb ''build Linux ring buffer'') (\<lambda>_.
       rbind (attach_probes lb (ti_pid (lq_target request)) (lq_probes request)) (\<lambda>_.
       rbind (linux_arm_object lb (Some config)) (\<lambda>_.
       send_ready (lq_ready request) ''Linux collector readiness receiver closed''))))))
      (\<lambda>_. map_option
        (\<lambda>collected. rbind collected (\<lambda>events.
          rbind (read_counter lb ''read Linux BPF map'' ''linux_dropped'') (\<lambda>dropped.
          Ok (events, dropped))))
        (collect_rounds linux_decode (lq_event_limit request) ''poll Linux ring buffer'' [] rounds))"

definition syscall_arguments :: "u64 list \<Rightarrow> argument_value list" where
  "syscall_arguments vals =
     map (\<lambda>(index, v). \<lparr>arg_index = of_nat index, arg_abi_type = ''u64'', arg_value = Some (JNumber (uint v)),
       arg_read_error = None\<rparr>) (enumerate 0 vals)"

definition linux_normalize_event ::
  "linux_raw_event \<Rightarrow> linux_capture_request \<Rightarrow> string \<Rightarrow> (event, collector_error) rresult" where
  "linux_normalize_event raw request session_id =
     rbind (ok_or (nth_opt (lq_probes request) (unat (lr_probe_id raw) - 1)) (CE_UnknownProbeId (lr_probe_id raw)))
     (\<lambda>probe.
     rbind (if rl_probe_kind probe = HP_Usdt
            then rbind (expect (rl_provider probe)) (\<lambda>provider. Ok (bt_insert ''usdt_provider'' (JString provider) []))
            else Ok (bt_insert ''tracepoint_category'' (JString (rl_category probe)) [])) (\<lambda>attributes.
     Ok \<lparr>ev_schema_version = schema_current, ev_session_id = session_id,
      ev_event_id = ''evt_'' @ render_nat 10 (unat (lr_sequence raw)), ev_sequence = lr_sequence raw,
      ev_source = ES_Ebpf, ev_event_type = rl_event_type probe,
      ev_pid = lr_pid raw, ev_tid = lr_tid raw, ev_cpu = Some (lr_cpu raw),
      ev_timestamp_raw = lr_timestamp_ns raw, ev_timestamp_ns = lr_timestamp_ns raw,
      ev_clock_domain = CD_HostMonotonic, ev_timestamp_error_ns = None,
      ev_process_start_time = Some (ti_process_start_time (lq_target request)),
      ev_host = Some \<lparr>he_probe_kind = rl_probe_kind probe, he_binary_path = rl_binary_path probe,
        he_build_id = None, he_symbol = Some (rl_name probe), he_symbol_demangled = None, he_offset = None,
        he_return_value = (if rl_event_type probe = ET_SyscallExit then Some (sint (lr_values raw ! 0)) else None),
        he_arguments =
          (if rl_event_type probe = ET_SyscallEntry then syscall_arguments (lr_values raw) else [])\<rparr>,
      ev_cuda = None, ev_nvtx = None, ev_attributes = attributes\<rparr>))"

definition linux_prepare :: "os \<Rightarrow> libbpf \<Rightarrow> linux_capture_request \<Rightarrow> (bytes, collector_error) io" where
  "linux_prepare os lb request =
     io_bind (io_lift
      (rbind (linux_validate_request request) (\<lambda>_.
       rbind (if lb_clock_ok lb then Ok () else Err (CE_InvalidRequest ''timeout exceeds Instant range'')) (\<lambda>_.
       linux_load_object lb (lq_event_limit request))))) (\<lambda>_.
     linux_configure_object os lb request)"

definition linux_result ::
  "libbpf \<Rightarrow> linux_capture_request \<Rightarrow> linux_raw_event list \<times> u64 \<Rightarrow> (host_capture_result, collector_error) rresult" where
  "linux_result lb request = (\<lambda>(raw_events, dropped).
     let session_id = session_name ''xp_linux_'' (lq_target request) lb in
     rbind (rcollect (\<lambda>raw. linux_normalize_event raw request session_id) raw_events) (\<lambda>events.
     Ok \<lparr>hc_schema_version = schema_current, hc_ok = True, hc_session_id = session_id,
      hc_target = lq_target request, hc_probe_id = 0, hc_captured = of_nat (length events),
      hc_dropped = dropped, hc_timed_out = (length events < lq_event_limit request),
      hc_record_limit_reached = (lq_capacity_limit request \<and> length events = lq_event_limit request),
      hc_events = events\<rparr>))"

definition linux_capture ::
  "os \<Rightarrow> libbpf \<Rightarrow> poll_round list \<Rightarrow> linux_capture_request \<Rightarrow> nat \<Rightarrow>
   ((host_capture_result, collector_error) rresult \<times> nat) option" where
  "linux_capture os lb rounds request =
     io_then (linux_prepare os lb request) (\<lambda>config.
       map_option (\<lambda>collected. rbind collected (linux_result lb request))
         (linux_collect_raw_events lb request config rounds))"

section \<open>The configuration\<close>

definition slot_number :: "event_type \<Rightarrow> resolved_linux_selector list \<Rightarrow> nat \<Rightarrow> u64" where
  "slot_number event_type probes index =
     (case nth_opt probes index of
        Some probe \<Rightarrow>
          (case rl_syscall_number probe of
             Some number \<Rightarrow> if rl_event_type probe = event_type then ucast number else - 1
           | None \<Rightarrow> - 1)
      | None \<Rightarrow> - 1)"

lemma u32_bytes_0: "u32_bytes 0 = replicate 4 0"
proof -
  have "le_bytes n 0 = replicate n 0" for n by (induction n) simp_all
  then show ?thesis by (simp add: u32_bytes_def)
qed

lemma linux_config_base:
  "copy_fields
     ([(0, u64_bytes dev), (8, u64_bytes ino), (16, u32_bytes pid)] @
      map (\<lambda>slot. (24 + slot * 8, u64_bytes (- 1))) [0..<4] @ rest) (replicate 56 0) =
   copy_fields rest
     (u64_bytes dev @ u64_bytes ino @ u32_bytes pid @ u32_bytes 0 @ u64_bytes (- 1) @ u64_bytes (- 1) @
      u64_bytes (- 1) @ u64_bytes (- 1))"
proof -
  have slots: "[0..<4] = [0, 1, 2, 3 :: nat]" by (simp add: upt_rec)
  show ?thesis by (simp add: copy_at_def slots u32_bytes_0)
qed


lemma linux_config_bytes_eq:
  assumes "length (lq_probes request) \<le> 2"
  shows "linux_config_bytes namespace request =
    Ok (u64_bytes (md_dev namespace) @ u64_bytes (md_ino namespace) @ u32_bytes (ti_pid (lq_target request)) @
        u32_bytes 0 @ u64_bytes (slot_number ET_SyscallEntry (lq_probes request) 0) @
        u64_bytes (slot_number ET_SyscallEntry (lq_probes request) 1) @
        u64_bytes (slot_number ET_SyscallExit (lq_probes request) 0) @
        u64_bytes (slot_number ET_SyscallExit (lq_probes request) 1))"
proof -
  consider "lq_probes request = []" | p where "lq_probes request = [p]" | p q where "lq_probes request = [p, q]"
    using assms by (cases "lq_probes request" rule: remdups_adj.cases) auto
  then show ?thesis
    unfolding linux_config_bytes_def linux_config_base
    by cases (simp_all add: probe_field_def slot_number_def nth_opt_def
        copy_at_def split: option.splits)
qed

lemma linux_config_layout:
  "xprobe_linux_config_of (u64_bytes a @ u64_bytes b @ u32_bytes c @ u32_bytes d @ u64_bytes e @ u64_bytes f @
     u64_bytes g @ u64_bytes h) =
   \<lparr>lc_pidns_dev = a, lc_pidns_ino = b, lc_target_pid = c, lc_reserved = d, lc_syscall_entry_numbers = (e, f),
    lc_syscall_exit_numbers = (g, h)\<rparr>"
  by (simp add: xprobe_linux_config_of_def field_at_skip)

lemma linux_arm_object_Ok:
  assumes "length (lq_probes request) \<le> 2" "linux_config_bytes namespace request = Ok config"
    and "linux_arm_object lb (Some config) = Ok armed"
  shows "xprobe_linux_config_of armed =
    \<lparr>lc_pidns_dev = md_dev namespace, lc_pidns_ino = md_ino namespace, lc_target_pid = ti_pid (lq_target request),
     lc_reserved = 1,
     lc_syscall_entry_numbers = (slot_number ET_SyscallEntry (lq_probes request) 0, slot_number ET_SyscallEntry (lq_probes request) 1),
     lc_syscall_exit_numbers = (slot_number ET_SyscallExit (lq_probes request) 0, slot_number ET_SyscallExit (lq_probes request) 1)\<rparr>"
proof -
  have "copy_at 20 (u32_bytes 1) config = (Ok armed :: (_, collector_error) rresult)"
    using assms(3) unfolding linux_arm_object_def by (elim rbind_OkE) (auto simp: rust_simps ok_or_def split: if_splits)
  then have "take 20 config @ u32_bytes 1 @ drop 24 config = armed" by (simp add: copy_at_def del: copy_at_Ok split: if_split_asm)
  moreover note assms(2) [unfolded linux_config_bytes_eq [OF assms(1)] rresult.inject, symmetric]
  ultimately have "armed = u64_bytes (md_dev namespace) @ u64_bytes (md_ino namespace) @
      u32_bytes (ti_pid (lq_target request)) @ u32_bytes 1 @
      u64_bytes (slot_number ET_SyscallEntry (lq_probes request) 0) @
      u64_bytes (slot_number ET_SyscallEntry (lq_probes request) 1) @
      u64_bytes (slot_number ET_SyscallExit (lq_probes request) 0) @
      u64_bytes (slot_number ET_SyscallExit (lq_probes request) 1)"
    by simp
  then show ?thesis by (simp add: linux_config_layout)
qed

section \<open>The records\<close>

definition linux_encode :: "linux_raw_event \<Rightarrow> bytes" where
  "linux_encode r =
     xprobe_linux_event_bytes (lr_timestamp_ns r) (lr_sequence r) (lr_values r) (lr_pid r) (lr_tid r) (lr_cpu r)
       (lr_probe_id r)"

lemma linux_decode_fields:
  "length bs = 80 \<Longrightarrow> linux_decode bs =
     Ok \<lparr>lr_timestamp_ns = u64_at bs 0, lr_sequence = u64_at bs 8,
         lr_values = [u64_at bs 16, u64_at bs 24, u64_at bs 32, u64_at bs 40, u64_at bs 48, u64_at bs 56],
         lr_pid = u32_at bs 64, lr_tid = u32_at bs 68, lr_cpu = u32_at bs 72, lr_probe_id = u32_at bs 76\<rparr>"
proof -
  have six: "[0..<6] = [0, 1, 2, 3, 4, 5 :: nat]" by (simp add: upt_rec)
  show "length bs = 80 \<Longrightarrow> ?thesis"
    by (simp add: linux_decode_def six read_in_range u64_at_def u32_at_def)
qed

lemma six_values:
  assumes "length vs = 6"
  obtains a b c d e f where "vs = [a, b, c, d, e, f]"
proof -
  have "vs = [vs ! 0, vs ! 1, vs ! 2, vs ! 3, vs ! 4, vs ! 5]"
    using assms by (intro nth_equalityI) (auto simp: less_Suc_eq numeral_eq_Suc)
  then show ?thesis by (rule that)
qed

lemma linux_decode_encode:
  assumes "length (lr_values r) = 6"
  shows "linux_decode (linux_encode r) = Ok r"
proof -
  obtain a b c d e f where vs: "lr_values r = [a, b, c, d, e, f]" using six_values [OF assms] .
  then have "length (linux_encode r) = 80" by (simp add: linux_encode_def xprobe_linux_event_bytes_def)
  with vs show ?thesis
    by (simp add: linux_decode_fields) (simp add: linux_encode_def xprobe_linux_event_bytes_def field_at_skip)
qed

interpretation ll: record_layout linux_encode linux_decode "\<lambda>r. length (lr_values r) = 6"
  by unfold_locales (rule linux_decode_encode)

section \<open>Runs of the programs\<close>

datatype linux_run =
    RunSlot string u32 helpers \<comment> \<open>a tracepoint, raw tracepoint or USDT program of a slot, by the stem of its name\<close>
  | RunEntry helpers "registers option" u64
  | RunExit helpers "registers option" u64

definition slot_stems :: "string list" where
  "slot_stems = [''xprobe_handle_tracepoint_'', ''xprobe_handle_raw_tracepoint_'', ''xprobe_handle_usdt_'']"

fun program_name :: "linux_run \<Rightarrow> string" where
  "program_name (RunSlot stem slot hp) = stem @ render_nat 10 (unat slot)"
| "program_name (RunEntry hp regs nr) = ''xprobe_handle_syscall_entry''"
| "program_name (RunExit hp regs ret) = ''xprobe_handle_syscall_exit''"

fun run_helpers :: "linux_run \<Rightarrow> helpers" where
  "run_helpers (RunSlot stem slot hp) = hp"
| "run_helpers (RunEntry hp regs nr) = hp"
| "run_helpers (RunExit hp regs ret) = hp"

fun linux_step :: "linux_run \<Rightarrow> linux_maps \<Rightarrow> linux_maps" where
  "linux_step (RunSlot stem slot hp) maps = xprobe_handle_slot slot hp maps"
| "linux_step (RunEntry hp regs nr) maps = xprobe_handle_syscall_entry hp regs nr maps"
| "linux_step (RunExit hp regs ret) maps = xprobe_handle_syscall_exit hp regs ret maps"

text \<open>The probe a run reports and the values it reports with it; a run that reports none, and a run that is lost.\<close>

fun reported :: "xprobe_linux_config \<Rightarrow> linux_run \<Rightarrow> (u32 \<times> u64 list) option" where
  "reported c (RunSlot stem slot hp) = Some (slot, replicate 6 0)"
| "reported c (RunEntry hp regs nr) =
     (case (xprobe_syscall_probe_id (lc_syscall_entry_numbers c) nr, regs) of
        (probe_id, Some r) \<Rightarrow>
          if probe_id = 0 then None
          else Some (probe_id, [rg_di r, rg_si r, rg_dx r, rg_r10 r, rg_r8 r, rg_r9 r])
      | _ \<Rightarrow> None)"
| "reported c (RunExit hp regs ret) =
     (case regs of
        Some r \<Rightarrow>
          let probe_id = xprobe_syscall_probe_id (lc_syscall_exit_numbers c) (rg_orig_ax r) in
          if probe_id = 0 then None else Some (probe_id, [ret, 0, 0, 0, 0, 0])
      | None \<Rightarrow> None)"

fun unreadable :: "xprobe_linux_config \<Rightarrow> linux_run \<Rightarrow> bool" where
  "unreadable c (RunSlot stem slot hp) = False"
| "unreadable c (RunEntry hp regs nr) =
     (regs = None \<and> xprobe_syscall_probe_id (lc_syscall_entry_numbers c) nr \<noteq> 0)"
| "unreadable c (RunExit hp regs ret) = (regs = None)"

definition run_in_target :: "xprobe_linux_config \<Rightarrow> linux_run \<Rightarrow> bool" where
  "run_in_target c run =
     (\<exists>tid. hp_namespace (run_helpers run) (lc_pidns_dev c) (lc_pidns_ino c) = Some (lc_target_pid c, tid))"

definition run_submits :: "xprobe_linux_config \<Rightarrow> linux_run \<Rightarrow> bool" where
  "run_submits c run = (run_in_target c run \<and> reported c run \<noteq> None \<and> hp_reserve (run_helpers run))"

definition run_lost :: "xprobe_linux_config \<Rightarrow> linux_run \<Rightarrow> bool" where
  "run_lost c run =
     (run_in_target c run \<and> (unreadable c run \<or> reported c run \<noteq> None \<and> \<not> hp_reserve (run_helpers run)))"

definition run_record :: "xprobe_linux_config \<Rightarrow> nat \<times> linux_run \<Rightarrow> linux_raw_event" where
  "run_record c = (\<lambda>(n, run).
     \<lparr>lr_timestamp_ns = hp_ktime (run_helpers run), lr_sequence = of_nat (Suc n),
      lr_values = snd (the (reported c run)), lr_pid = lc_target_pid c,
      lr_tid = snd (the (hp_namespace (run_helpers run) (lc_pidns_dev c) (lc_pidns_ino c))),
      lr_cpu = hp_cpu (run_helpers run), lr_probe_id = fst (the (reported c run))\<rparr>)"

lemma target_process_armed:
  "lc_reserved c \<noteq> 0 \<Longrightarrow> xprobe_target_linux_process (run_helpers run) (Some c) =
     (if run_in_target c run
      then hp_namespace (run_helpers run) (lc_pidns_dev c) (lc_pidns_ino c) else None)"
  by (auto simp: xprobe_target_linux_process_def run_in_target_def split: option.splits)

lemma emit_armed:
  assumes "ln_config maps = Some c" "lc_reserved c \<noteq> 0" "run_in_target c run"
    and "ln_sequence maps = Some (of_nat n)" "ln_dropped maps = Some (of_nat d)" "reported c run = Some (probe_id, vals)"
  shows "xprobe_emit_linux_event (run_helpers run) probe_id (Some vals) maps =
    (if hp_reserve (run_helpers run)
     then maps\<lparr>ln_sequence := Some (of_nat (Suc n)), ln_events := ln_events maps @ [linux_encode (run_record c (n, run))]\<rparr>
     else maps\<lparr>ln_dropped := Some (of_nat (Suc d))\<rparr>)"
  using assms
  by (auto simp: xprobe_emit_linux_event_def target_process_armed run_in_target_def xprobe_count_linux_drop_def
      next_sequence_def run_record_def linux_encode_def add.commute)

lemma linux_step_armed:
  assumes "ln_config maps = Some c" "lc_reserved c \<noteq> 0"
    and "ln_sequence maps = Some (of_nat n)" "ln_dropped maps = Some (of_nat d)"
  shows "linux_step run maps =
    (if run_submits c run
     then maps\<lparr>ln_sequence := Some (of_nat (Suc n)), ln_events := ln_events maps @ [linux_encode (run_record c (n, run))]\<rparr>
     else if run_lost c run then maps\<lparr>ln_dropped := Some (of_nat (Suc d))\<rparr>
     else maps)"
proof (cases "run_in_target c run")
  case False
  with assms show ?thesis
    using target_process_armed [of c run]
    by (cases run) (auto simp: run_submits_def run_lost_def xprobe_handle_slot_def xprobe_emit_linux_event_def
        xprobe_handle_syscall_entry_def xprobe_handle_syscall_exit_def)
next
  case True
  then obtain tgid tid where target: "xprobe_target_linux_process (run_helpers run) (Some c) = Some (tgid, tid)"
    using assms target_process_armed [of c run] by (auto simp: run_in_target_def)
  have zero: "xprobe_emit_linux_event hp slot None maps = xprobe_emit_linux_event hp slot (Some (replicate 6 0)) maps"
    for hp slot by (auto simp: xprobe_emit_linux_event_def split: option.splits)
  show ?thesis
    using emit_armed [OF assms(1,2) True assms(3,4)] target True assms(1,4)
    by (cases run) (auto simp: run_submits_def run_lost_def xprobe_handle_slot_def zero Let_def
        xprobe_handle_syscall_entry_def xprobe_handle_syscall_exit_def xprobe_count_linux_drop_def add.commute
        split: option.splits if_splits)
qed

lemma linux_fold:
  assumes "ln_config maps = Some c" "lc_reserved c \<noteq> 0"
    and "ln_sequence maps = Some (of_nat n)" "ln_dropped maps = Some (of_nat d)"
  shows "fold linux_step runs maps =
    maps\<lparr>ln_sequence := Some (of_nat (n + length (filter (run_submits c) runs))),
         ln_dropped := Some (of_nat (d + length (filter (run_lost c) runs))),
         ln_events := ln_events maps @
           map linux_encode (map (run_record c) (enumerate n (filter (run_submits c) runs)))\<rparr>"
  using assms
proof (induction runs arbitrary: maps n d)
  case Nil
  then show ?case by simp
next
  case (Cons run runs)
  have excl: "\<not> (run_submits c run \<and> run_lost c run)"
    by (cases run) (auto simp: run_submits_def run_lost_def split: option.splits)
  consider "run_submits c run" | "run_lost c run" "\<not> run_submits c run" | "\<not> run_lost c run" "\<not> run_submits c run"
    by blast
  then show ?case
  proof cases
    case 1
    with excl Cons.prems show ?thesis
      by (simp add: linux_step_armed [OF Cons.prems] Cons.IH [of _ "Suc n" d] del: of_nat_Suc)
  next
    case 2
    with Cons.prems show ?thesis
      by (simp add: linux_step_armed [OF Cons.prems] Cons.IH [of _ n "Suc d"] del: of_nat_Suc)
  next
    case 3
    with Cons.prems show ?thesis by (simp add: linux_step_armed [OF Cons.prems] Cons.IH)
  qed
qed

section \<open>From a run to its event\<close>

lemma syscall_probe:
  assumes "xprobe_syscall_probe_id (slot_number event_type probes 0, slot_number event_type probes 1) nr = probe_id"
    and "probe_id \<noteq> 0" "nr \<noteq> - 1"
  shows "\<exists>probe number. nth_opt probes (unat probe_id - 1) = Some probe \<and> rl_event_type probe = event_type \<and>
    rl_syscall_number probe = Some number \<and> ucast number = nr"
proof -
  have slot: "slot_number event_type probes i = nr \<Longrightarrow> \<exists>probe number. nth_opt probes i = Some probe \<and>
      rl_event_type probe = event_type \<and> rl_syscall_number probe = Some number \<and> ucast number = nr" for i
    using assms(3) unfolding slot_number_def by (auto simp del: nth_opt_Some split: option.splits if_splits)
  from assms(1,2) consider "probe_id = 1" "slot_number event_type probes 0 = nr"
    | "probe_id = 2" "slot_number event_type probes 1 = nr"
    by (auto simp: xprobe_syscall_probe_id_def split: if_splits)
  then show ?thesis by cases (use slot [of 0] slot [of 1] in simp_all)
qed

text \<open>The runs the kernel can make: of the programs that were attached.\<close>

fun run_attached :: "string list \<Rightarrow> linux_run \<Rightarrow> bool" where
  "run_attached programs (RunSlot stem slot hp) =
     (stem \<in> set slot_stems \<and> slot \<in> {1, 2} \<and> stem @ render_nat 10 (unat slot) \<in> set programs)"
| "run_attached programs (RunEntry hp regs nr) = (''xprobe_handle_syscall_entry'' \<in> set programs)"
| "run_attached programs (RunExit hp regs ret) = (''xprobe_handle_syscall_exit'' \<in> set programs)"

lemma attach_tracepoint_Ok:
  "attach_tracepoint lb (index, probe) = Ok programs \<longleftrightarrow>
   (if rl_event_type probe \<noteq> ET_Tracepoint then programs = []
    else \<exists>stem. stem = (if rl_category probe = ''raw_syscalls'' then ''xprobe_handle_raw_tracepoint''
                   else ''xprobe_handle_tracepoint'') \<and> programs = [stem @ ''_'' @ render_nat 10 (index + 1)] \<and>
         attach_program lb ''attach tracepoint'' (stem @ ''_'' @ render_nat 10 (index + 1)) = Ok ())"
  by (auto simp: attach_tracepoint_def rust_simps Let_def)

lemma attach_usdt_Ok:
  "attach_usdt lb pid (index, probe) = Ok programs \<Longrightarrow>
   (if rl_probe_kind probe \<noteq> HP_Usdt then programs = []
    else programs = [''xprobe_handle_usdt_'' @ render_nat 10 (index + 1)])"
  by (auto simp: attach_usdt_def rust_simps Let_def)

lemma rcollect_member: "rcollect f xs = Ok ys \<Longrightarrow> y \<in> set ys \<Longrightarrow> \<exists>x \<in> set xs. f x = Ok y"
  by (induction xs arbitrary: ys) (auto simp: rust_simps)

lemma attached_program:
  assumes "attach_probes lb pid probes = Ok programs" "name \<in> set programs"
  shows "name \<in> {''xprobe_handle_syscall_entry'', ''xprobe_handle_syscall_exit''} \<or>
    (\<exists>index probe. nth_opt probes index = Some probe \<and>
       (rl_event_type probe = ET_Tracepoint \<and>
          name \<in> {''xprobe_handle_raw_tracepoint_'' @ render_nat 10 (index + 1),
                  ''xprobe_handle_tracepoint_'' @ render_nat 10 (index + 1)} \<or>
        rl_probe_kind probe = HP_Usdt \<and> name = ''xprobe_handle_usdt_'' @ render_nat 10 (index + 1)))"
proof -
  from assms(1) obtain entry exit tracepoints usdt where parts:
    "attach_syscall lb probes ET_SyscallEntry ''xprobe_handle_syscall_entry'' = Ok entry"
    "attach_syscall lb probes ET_SyscallExit ''xprobe_handle_syscall_exit'' = Ok exit"
    "rcollect (attach_tracepoint lb) (enumerate 0 probes) = Ok tracepoints"
    "rcollect (attach_usdt lb pid) (enumerate 0 probes) = Ok usdt"
    "programs = entry @ exit @ concat tracepoints @ concat usdt"
    by (auto simp: attach_probes_def rust_simps)
  have member: "nth_opt probes index = Some probe" if "(index, probe) \<in> set (enumerate 0 probes)" for index probe
    using that by (auto simp: in_set_enumerate_eq)
  consider "name \<in> set entry" | "name \<in> set exit" | ps where "ps \<in> set tracepoints" "name \<in> set ps"
    | ps where "ps \<in> set usdt" "name \<in> set ps"
    using assms(2) by (auto simp: parts(5))
  then show ?thesis
  proof cases
    case 3
    then obtain index probe where "(index, probe) \<in> set (enumerate 0 probes)"
      "attach_tracepoint lb (index, probe) = Ok ps"
      using rcollect_member [OF parts(3)] by fastforce
    with 3(2) member show ?thesis
      by (intro disjI2 exI [of _ index] exI [of _ probe]) (auto simp: attach_tracepoint_Ok split: if_splits)
  next
    case 4
    then obtain index probe where "(index, probe) \<in> set (enumerate 0 probes)" "attach_usdt lb pid (index, probe) = Ok ps"
      using rcollect_member [OF parts(4)] by fastforce
    with 4(2) member attach_usdt_Ok [of lb pid index probe ps] show ?thesis
      by (intro disjI2 exI [of _ index] exI [of _ probe]) (auto split: if_splits)
  qed (use parts(1,2) in \<open>auto simp: attach_syscall_def rust_simps split: if_splits\<close>)
qed

lemma slot_probe:
  assumes "attach_probes lb pid probes = Ok programs" "run_attached programs (RunSlot stem slot hp)"
  shows "\<exists>probe. nth_opt probes (unat slot - 1) = Some probe \<and>
    (rl_event_type probe = ET_Tracepoint \<or> rl_probe_kind probe = HP_Usdt)"
proof -
  have stem: "stem \<in> {''xprobe_handle_tracepoint_'', ''xprobe_handle_raw_tracepoint_'', ''xprobe_handle_usdt_''}"
    and slot: "0 < unat slot" and name: "stem @ render_nat 10 (unat slot) \<in> set programs"
    using assms(2) by (auto simp: slot_stems_def)
  from attached_program [OF assms(1) name] stem obtain index probe where
    "nth_opt probes index = Some probe" "render_nat 10 (unat slot) = render_nat 10 (index + 1)"
    "rl_event_type probe = ET_Tracepoint \<or> rl_probe_kind probe = HP_Usdt"
    by (auto simp del: nth_opt_Some)
  moreover from this(2) have "unat slot = index + 1"
    using render_nat_inject [of 10 "unat slot" "index + 1"] by simp
  ultimately show ?thesis by (intro exI [of _ probe]) simp
qed

text \<open>What an event says of a run: the task, the time and the processor, and the endpoint with its data.\<close>

fun reports_endpoint ::
  "linux_capture_request \<Rightarrow> resolved_linux_selector \<Rightarrow> host_event \<Rightarrow> linux_run \<Rightarrow> bool" where
  "reports_endpoint request probe host (RunEntry hp regs nr) =
     (rl_event_type probe = ET_SyscallEntry \<and>
      (\<exists>r. regs = Some r \<and> map_option ucast (rl_syscall_number probe) = Some nr \<and>
         he_arguments host = syscall_arguments [rg_di r, rg_si r, rg_dx r, rg_r10 r, rg_r8 r, rg_r9 r]))"
| "reports_endpoint request probe host (RunExit hp regs ret) =
     (rl_event_type probe = ET_SyscallExit \<and> he_return_value host = Some (sint ret) \<and>
      (\<exists>r. regs = Some r \<and> map_option ucast (rl_syscall_number probe) = Some (rg_orig_ax r)))"
| "reports_endpoint request probe host (RunSlot stem slot hp) =
     (nth_opt (lq_probes request) (unat slot - 1) = Some probe \<and>
      rl_event_type probe \<in> {ET_Tracepoint, ET_PythonGcStart, ET_PythonGcEnd})"

definition reports :: "file_metadata \<Rightarrow> linux_capture_request \<Rightarrow> linux_run \<Rightarrow> event \<Rightarrow> bool" where
  "reports namespace request run e =
     (hp_namespace (run_helpers run) (md_dev namespace) (md_ino namespace) = Some (ev_pid e, ev_tid e) \<and>
      ev_pid e = ti_pid (lq_target request) \<and> ev_timestamp_ns e = hp_ktime (run_helpers run) \<and>
      ev_cpu e = Some (hp_cpu (run_helpers run)) \<and>
      (\<exists>probe \<in> set (lq_probes request). \<exists>host.
         ev_event_type e = rl_event_type probe \<and> ev_host e = Some host \<and> he_symbol host = Some (rl_name probe) \<and>
         reports_endpoint request probe host run))"

text \<open>The number of the call is not the filler of the configuration.\<close>

fun proper_number :: "linux_run \<Rightarrow> bool" where
  "proper_number (RunSlot stem slot hp) = True"
| "proper_number (RunEntry hp regs nr) = (nr \<noteq> - 1)"
| "proper_number (RunExit hp regs ret) = (\<forall>r. regs = Some r \<longrightarrow> rg_orig_ax r \<noteq> - 1)"

lemma linux_validate_request_Ok:
  assumes "linux_validate_request request = Ok u"
  shows "length (lq_probes request) \<le> 2" "probe \<in> set (lq_probes request) \<Longrightarrow> probe_valid probe"
  using assms by (auto simp: linux_validate_request_def list_ex_iff split: if_splits)

lemma linux_normalize_Ok:
  assumes "linux_normalize_event raw request session = Ok e"
  obtains probe host where "nth_opt (lq_probes request) (unat (lr_probe_id raw) - 1) = Some probe"
    "ev_event_type e = rl_event_type probe" "ev_host e = Some host" "he_symbol host = Some (rl_name probe)"
    "rl_event_type probe = ET_SyscallEntry \<Longrightarrow> he_arguments host = syscall_arguments (lr_values raw)"
    "rl_event_type probe = ET_SyscallExit \<Longrightarrow> he_return_value host = Some (sint (lr_values raw ! 0))"
    "ev_pid e = lr_pid raw" "ev_tid e = lr_tid raw" "ev_cpu e = Some (lr_cpu raw)"
    "ev_timestamp_ns e = lr_timestamp_ns raw" "ev_sequence e = lr_sequence raw"
proof -
  from assms obtain probe attributes where "nth_opt (lq_probes request) (unat (lr_probe_id raw) - 1) = Some probe"
    by (auto simp: linux_normalize_event_def rust_simps ok_or_def simp del: nth_opt_Some split: option.splits)
  with assms show ?thesis
    by (auto simp: linux_normalize_event_def rust_simps ok_or_def simp del: nth_opt_Some intro!: that)
qed

lemma event_reports:
  assumes "run_submits c run" "run_attached programs run" "proper_number run"
    and attached: "attach_probes lb (ti_pid (lq_target request)) (lq_probes request) = Ok programs"
    and valid: "linux_validate_request request = Ok u"
    and c: "c = \<lparr>lc_pidns_dev = md_dev namespace, lc_pidns_ino = md_ino namespace,
       lc_target_pid = ti_pid (lq_target request), lc_reserved = 1,
       lc_syscall_entry_numbers = (slot_number ET_SyscallEntry (lq_probes request) 0, slot_number ET_SyscallEntry (lq_probes request) 1),
       lc_syscall_exit_numbers = (slot_number ET_SyscallExit (lq_probes request) 0, slot_number ET_SyscallExit (lq_probes request) 1)\<rparr>"
    and e: "linux_normalize_event (run_record c (n, run)) request session = Ok e"
  shows "reports namespace request run e \<and> ev_sequence e = of_nat (Suc n)"
proof -
  obtain probe host where p: "nth_opt (lq_probes request) (unat (fst (the (reported c run))) - 1) = Some probe"
    and event: "ev_event_type e = rl_event_type probe" "ev_host e = Some host" "he_symbol host = Some (rl_name probe)"
      "rl_event_type probe = ET_SyscallEntry \<Longrightarrow> he_arguments host = syscall_arguments (snd (the (reported c run)))"
      "rl_event_type probe = ET_SyscallExit \<Longrightarrow> he_return_value host = Some (sint (snd (the (reported c run)) ! 0))"
    and task: "ev_pid e = ti_pid (lq_target request)"
      "ev_tid e = snd (the (hp_namespace (run_helpers run) (md_dev namespace) (md_ino namespace)))"
      "ev_cpu e = Some (hp_cpu (run_helpers run))" "ev_timestamp_ns e = hp_ktime (run_helpers run)"
      "ev_sequence e = of_nat (Suc n)"
    by (rule linux_normalize_Ok [OF e]) (simp add: run_record_def c)
  have member: "probe \<in> set (lq_probes request)" using p by auto
  have "reports_endpoint request probe host run"
  proof (cases run)
    case (RunSlot stem slot hp)
    with assms(2) slot_probe [OF attached] p have "rl_event_type probe = ET_Tracepoint \<or> rl_probe_kind probe = HP_Usdt"
      by (fastforce simp del: run_attached.simps)
    with RunSlot p linux_validate_request_Ok(2) [OF valid member] show ?thesis by (auto simp: probe_valid_def)
  next
    case (RunEntry hp regs nr)
    with assms(1) obtain r where r: "regs = Some r" "xprobe_syscall_probe_id (lc_syscall_entry_numbers c) nr \<noteq> 0"
      by (auto simp: run_submits_def split: option.splits if_splits)
    from syscall_probe [OF refl r(2) [unfolded c xprobe_linux_config.simps]] assms(3) p r event(4) RunEntry show ?thesis
      by (auto simp: c simp del: nth_opt_Some)
  next
    case (RunExit hp regs ret)
    with assms(1) obtain r where r: "regs = Some r" "xprobe_syscall_probe_id (lc_syscall_exit_numbers c) (rg_orig_ax r) \<noteq> 0"
      by (auto simp: run_submits_def Let_def split: option.splits if_splits)
    from syscall_probe [OF refl r(2) [unfolded c xprobe_linux_config.simps]] assms(3) p r event(5) RunExit show ?thesis
      by (auto simp: c Let_def simp del: nth_opt_Some)
  qed
  with assms(1) member event(1,2,3) task show ?thesis
    unfolding reports_def by (auto simp: run_submits_def run_in_target_def c)
qed

lemma linux_capture_facts:
  assumes "linux_capture os lb rounds request t = Some (Ok result, t')"
  obtains u raw_events dropped where "linux_validate_request request = Ok u"
    "collect_rounds linux_decode (lq_event_limit request) ''poll Linux ring buffer'' [] rounds = Some (Ok raw_events)"
    "read_counter lb ''read Linux BPF map'' ''linux_dropped'' = Ok dropped"
    "linux_result lb request (raw_events, dropped) = Ok result"
  using assms
  by (auto simp: linux_capture_def linux_prepare_def linux_collect_raw_events_def io_then_Some_Ok then_run_Some_Ok
      rust_simps io_simps)

lemma reported_six: "reported c run = Some (probe_id, vals) \<Longrightarrow> length vals = 6"
  by (cases run) (auto simp: Let_def split: option.splits if_splits)

lemma submitted_six: "list_all (\<lambda>r. length (lr_values r) = 6) (map (run_record c) (enumerate n (filter (run_submits c) runs)))"
  by (auto simp: list_all_iff run_record_def run_submits_def enumerate_eq_zip reported_six dest!: set_zip_rightD)

lemma linux_result_Ok:
  assumes "linux_result lb request (raw_events, dropped) = Ok result"
  shows "list_all2 (\<lambda>raw e. linux_normalize_event raw request (hc_session_id result) = Ok e) raw_events (hc_events result)"
    and "hc_dropped result = dropped" "hc_captured result = of_nat (length (hc_events result))"
    and "hc_timed_out result = (length (hc_events result) < lq_event_limit request)"
  using assms by (auto simp: linux_result_def Let_def rust_simps rcollect_Ok_iff)

text \<open>C35: The events of a Linux capture are runs of the attached BPF programs in the target. Let the attached
  programs run any number of times, in any order and in any task, on the armed configuration the collector wrote, for calls whose
  number is not -1, and let the polls deliver a prefix of the records they submit. Then the k-th event
  carries the sequence number k, the task, time and processor of the k-th submitting run, and belongs to a requested endpoint of that
  kind: an entry event to an endpoint with the number of the call and with its six registers, an exit event with
  its return value, a tracepoint or USDT event to the endpoint of the slot. The drop count is the number of lost runs.
\<close>
theorem linux_capture_events:
  assumes capture: "linux_capture os lb rounds request t = Some (Ok result, t')"
    and config: "os_metadata os t (namespace_path (lq_target request)) = Inr namespace"
      "linux_config_bytes namespace request = Ok config" "linux_arm_object lb (Some config) = Ok armed"
    and programs: "attach_probes lb (ti_pid (lq_target request)) (lq_probes request) = Ok programs"
    and runs: "\<forall>run \<in> set runs. run_attached programs run \<and> proper_number run"
    and maps: "maps = fold linux_step runs
      \<lparr>ln_config = Some (xprobe_linux_config_of armed), ln_sequence = Some 0, ln_dropped = Some 0, ln_events = []\<rparr>"
    and delivered: "prefix (concat (map po_records rounds)) (ln_events maps)"
    and counter: "lb_lookup lb ''linux_dropped'' = Inr (map_option u64_bytes (ln_dropped maps))"
  shows "\<exists>k \<le> lq_event_limit request.
    list_all2 (\<lambda>(i, run) e. reports namespace request run e \<and> ev_sequence e = of_nat (Suc i))
      (enumerate 0 (take k (filter (run_submits (xprobe_linux_config_of armed)) runs))) (hc_events result) \<and>
    hc_captured result = of_nat (length (hc_events result)) \<and>
    hc_timed_out result = (length (hc_events result) < lq_event_limit request) \<and>
    hc_dropped result = of_nat (length (filter (run_lost (xprobe_linux_config_of armed)) runs))"
proof -
  let ?c = "xprobe_linux_config_of armed"
  obtain u raw_events dropped where valid: "linux_validate_request request = Ok u"
    and raw: "collect_rounds linux_decode (lq_event_limit request) ''poll Linux ring buffer'' [] rounds = Some (Ok raw_events)"
      "read_counter lb ''read Linux BPF map'' ''linux_dropped'' = Ok dropped"
      "linux_result lb request (raw_events, dropped) = Ok result"
    using linux_capture_facts [OF capture] .
  note c = linux_arm_object_Ok [OF linux_validate_request_Ok(1) [OF valid] config(2,3)]
  have maps': "ln_dropped maps = Some (of_nat (length (filter (run_lost ?c) runs)))"
    "ln_events maps = map linux_encode (map (run_record ?c) (enumerate 0 (filter (run_submits ?c) runs)))"
    by (simp_all add: maps linux_fold [of _ ?c 0 0] c)
  have dropped: "dropped = of_nat (length (filter (run_lost ?c) runs))"
    using raw(2) counter by (simp add: maps'(1) read_counter_bytes)
  obtain k where k: "k \<le> lq_event_limit request"
      "raw_events = map (run_record ?c) (enumerate 0 (take k (filter (run_submits ?c) runs)))"
    using ll.collected_prefix [OF raw(1) delivered [unfolded maps'(2)] submitted_six] by (auto simp: take_map take_enumerate)
  have "list_all2 (\<lambda>x e. linux_normalize_event (run_record ?c x) request (hc_session_id result) = Ok e)
      (enumerate 0 (take k (filter (run_submits ?c) runs))) (hc_events result)"
    using linux_result_Ok(1) [OF raw(3)] by (simp add: k(2) list.rel_map)
  then have "list_all2 (\<lambda>(i, run) e. reports namespace request run e \<and> ev_sequence e = of_nat (Suc i))
      (enumerate 0 (take k (filter (run_submits ?c) runs))) (hc_events result)"
  proof (rule list.rel_mono_strong, clarify)
    fix i run e
    assume "(i, run) \<in> set (enumerate 0 (take k (filter (run_submits ?c) runs)))"
      and e: "linux_normalize_event (run_record ?c (i, run)) request (hc_session_id result) = Ok e"
    then have "run_submits ?c run" "run_attached programs run" "proper_number run"
      using runs by (auto dest: enumerate_member)
    from event_reports [OF this programs valid c e]
    show "reports namespace request run e \<and> ev_sequence e = of_nat (Suc i)" .
  qed
  with k(1) dropped linux_result_Ok(2-4) [OF raw(3)] show ?thesis by blast
qed

text \<open>An example: an entry of call 0 that is reported, one of another call, one that finds no room.\<close>

definition example_linux_request :: linux_capture_request where
  "example_linux_request =
     \<lparr>lq_target = \<lparr>ti_pid = 7, ti_process_start_time = 1\<rparr>,
      lq_probes = [\<lparr>rl_event_type = ET_SyscallEntry, rl_probe_kind = HP_Syscall, rl_category = ''syscalls'',
        rl_name = ''read'', rl_syscall_number = Some 0, rl_binary_path = None, rl_provider = None\<rparr>],
      lq_event_limit = 2, lq_capacity_limit = False, lq_timeout = 1, lq_ready = None\<rparr>"

definition example_registers :: registers where
  "example_registers = \<lparr>rg_r10 = 1, rg_r9 = 2, rg_r8 = 3, rg_dx = 4, rg_si = 5, rg_di = 6, rg_orig_ax = 0\<rparr>"

definition example_linux_runs :: "linux_run list" where
  "example_linux_runs =
     [RunEntry (example_run 7 10 True) (Some example_registers) 0,
      RunEntry (example_run 7 11 True) (Some example_registers) 1,
      RunEntry (example_run 7 12 False) (Some example_registers) 0]"

definition example_linux_record :: linux_raw_event where
  "example_linux_record =
     \<lparr>lr_timestamp_ns = 10, lr_sequence = 1, lr_values = [6, 5, 4, 1, 3, 2], lr_pid = 7, lr_tid = 8, lr_cpu = 0,
      lr_probe_id = 1\<rparr>"

definition example_linux_rounds :: "poll_round list" where
  "example_linux_rounds = [example_round False [linux_encode example_linux_record], example_round True []]"

lemma example_linux_attach:
  "attach_probes example_libbpf 7 (lq_probes example_linux_request) = Ok [''xprobe_handle_syscall_entry'']"
  by (simp add: attach_probes_def attach_syscall_def attach_program_def attach_tracepoint_def attach_usdt_def
      find_member_def attach_call_def example_linux_request_def example_libbpf_def)

lemma example_linux_arm: "length config = 56 \<Longrightarrow> \<exists>armed. linux_arm_object example_libbpf (Some config) = Ok armed"
  by (simp add: linux_arm_object_def find_member_def libbpf_call_def example_libbpf_def ok_or_def copy_at_def del: copy_at_Ok)

lemma example_linux_config:
  obtains config armed where "linux_config_bytes example_namespace example_linux_request = Ok config" "length config = 56"
    "linux_arm_object example_libbpf (Some config) = Ok armed"
    "xprobe_linux_config_of armed = \<lparr>lc_pidns_dev = 3, lc_pidns_ino = 4, lc_target_pid = 7, lc_reserved = 1,
       lc_syscall_entry_numbers = (0, - 1), lc_syscall_exit_numbers = (- 1, - 1)\<rparr>"
proof -
  have two: "length (lq_probes example_linux_request) \<le> 2" by (simp add: example_linux_request_def)
  from linux_config_bytes_eq [OF this] obtain config where
    config: "linux_config_bytes example_namespace example_linux_request = Ok config" "length config = 56" by simp
  from example_linux_arm [OF config(2)] obtain armed where armed: "linux_arm_object example_libbpf (Some config) = Ok armed" ..
  from linux_arm_object_Ok [OF two config(1) armed] that [OF config armed] show ?thesis
    by (simp add: example_namespace_def example_linux_request_def slot_number_def nth_opt_def)
qed

lemma example_linux_capture:
  "\<exists>result t'. linux_capture (example_host\<lparr>os_metadata := \<lambda>_ _. Inr example_namespace\<rparr>) example_libbpf
     example_linux_rounds example_linux_request 0 = Some (Ok result, t')"
proof -
  obtain config armed where config: "linux_config_bytes example_namespace example_linux_request = Ok config"
    "linux_arm_object example_libbpf (Some config) = Ok armed"
    using example_linux_config by metis
  have ring: "linux_ring_bytes 2 = 262144"
    by (simp add: linux_ring_bytes_def checked_next_power_of_two_def usize_max_def upt_rec)
  have rounds: "collect_rounds linux_decode 2 op [] example_linux_rounds = Some (Ok [example_linux_record])" for op
    by (simp add: collect_rounds.simps example_linux_rounds_def example_round_def linux_decode_encode example_linux_record_def)
  have collect: "linux_collect_raw_events example_libbpf example_linux_request config example_linux_rounds =
      Some (Ok ([example_linux_record], 1))"
    using example_linux_attach config(2)
    by (simp add: linux_collect_raw_events_def then_run_def find_member_def libbpf_call_def send_ready_def
        read_counter_def map_value_def example_libbpf_def example_linux_request_def rounds u64_round_trip)
  have prepare: "linux_prepare (example_host\<lparr>os_metadata := \<lambda>_ _. Inr example_namespace\<rparr>) example_libbpf
      example_linux_request 0 = (Ok config, 1)"
    using config(1)
    by (simp add: linux_prepare_def linux_validate_request_def linux_load_object_def linux_configure_object_def ring
        target_namespace_def fs_metadata_def io_bind_def io_map_err_def io_access_def
        find_member_def libbpf_call_def example_libbpf_def example_linux_request_def probe_valid_def)
  from collect prepare show ?thesis
    by (simp add: linux_capture_def io_then_def linux_result_def linux_normalize_event_def example_linux_record_def
        example_linux_request_def nth_opt_def ok_or_def Let_def)
qed

theorem linux_capture_events_witness:
  "\<exists>result t'. linux_capture (example_host\<lparr>os_metadata := \<lambda>_ _. Inr example_namespace\<rparr>) example_libbpf
       example_linux_rounds example_linux_request 0 = Some (Ok result, t') \<and> hc_dropped result = 1 \<and>
     (\<forall>e \<in> set (hc_events result). ev_event_type e = ET_SyscallEntry \<and> ev_timestamp_ns e = 10)"
proof -
  obtain result t' where capture: "linux_capture (example_host\<lparr>os_metadata := \<lambda>_ _. Inr example_namespace\<rparr>)
      example_libbpf example_linux_rounds example_linux_request 0 = Some (Ok result, t')"
    using example_linux_capture by blast
  obtain config armed where config: "linux_config_bytes example_namespace example_linux_request = Ok config"
    "linux_arm_object example_libbpf (Some config) = Ok armed"
    and c: "xprobe_linux_config_of armed = \<lparr>lc_pidns_dev = 3, lc_pidns_ino = 4, lc_target_pid = 7, lc_reserved = 1,
       lc_syscall_entry_numbers = (0, - 1), lc_syscall_exit_numbers = (- 1, - 1)\<rparr>"
    using example_linux_config by metis
  have runs: "\<forall>run \<in> set example_linux_runs. run_attached [''xprobe_handle_syscall_entry''] run \<and> proper_number run"
    by (simp add: example_linux_runs_def)
  have submits: "filter (run_submits (xprobe_linux_config_of armed)) example_linux_runs = [hd example_linux_runs]"
    and lost: "filter (run_lost (xprobe_linux_config_of armed)) example_linux_runs = [example_linux_runs ! 2]"
    by (simp_all add: example_linux_runs_def run_submits_def run_lost_def run_in_target_def c example_run_def
        xprobe_syscall_probe_id_def example_registers_def)
  define maps where "maps = fold linux_step example_linux_runs
      \<lparr>ln_config = Some (xprobe_linux_config_of armed), ln_sequence = Some 0, ln_dropped = Some 0, ln_events = []\<rparr>"
  have folded: "maps = (let m = \<lparr>ln_config = Some (xprobe_linux_config_of armed), ln_sequence = Some 0,
        ln_dropped = Some 0, ln_events = []\<rparr> in
      m\<lparr>ln_sequence := Some 1, ln_dropped := Some 1,
        ln_events := [linux_encode (run_record (xprobe_linux_config_of armed) (0, hd example_linux_runs))]\<rparr>)"
    unfolding maps_def
    by (subst linux_fold [of _ "xprobe_linux_config_of armed" 0 0]) (simp_all add: submits lost, simp add: c)
  have maps': "ln_events maps = [linux_encode example_linux_record]" "ln_dropped maps = Some 1"
    unfolding folded
    by (simp_all add: Let_def c example_linux_runs_def run_record_def example_linux_record_def example_run_def
        xprobe_syscall_probe_id_def example_registers_def)
  have attach: "attach_probes example_libbpf (ti_pid (lq_target example_linux_request)) (lq_probes example_linux_request) =
      Ok [''xprobe_handle_syscall_entry'']"
    using example_linux_attach by (simp add: example_linux_request_def)
  note claim = linux_capture_events [OF capture _ config attach runs maps_def, unfolded maps' submits lost]
  from claim obtain k where "hc_dropped result = 1"
    "list_all2 (\<lambda>(i, run) e. reports example_namespace example_linux_request run e \<and> ev_sequence e = of_nat (Suc i))
      (enumerate 0 (take k [hd example_linux_runs])) (hc_events result)"
    by (auto simp: example_linux_rounds_def example_round_def example_libbpf_def)
  then show ?thesis
    using capture
    by (cases k) (auto simp: list_all2_Cons1 reports_def example_linux_runs_def example_run_def)
qed

text \<open>
  The filler of unused slots is a number the kernel does report: a task that returns from a signal handler exits \<open>rt_sigreturn\<close>
  with \<open>orig_ax\<close> -1. With an entry and an exit endpoint such an exit is reported as an entry.
\<close>

lemma filler_misreported:
  assumes probes: "lq_probes request = [p, q]" "rl_event_type p = ET_SyscallEntry" "rl_probe_kind p = HP_Syscall"
    and armed: "linux_config_bytes namespace request = Ok config" "linux_arm_object lb (Some config) = Ok armed"
    and run: "run = RunExit hp (Some r) ret" "rg_orig_ax r = - 1" "run_in_target (xprobe_linux_config_of armed) run"
      "hp_reserve hp"
  shows "run_submits (xprobe_linux_config_of armed) run \<and>
    (\<exists>e. linux_normalize_event (run_record (xprobe_linux_config_of armed) (n, run)) request session = Ok e \<and>
       ev_event_type e = ET_SyscallEntry)"
proof -
  have "length (lq_probes request) \<le> 2" by (simp add: probes)
  note c = linux_arm_object_Ok [OF this armed]
  have "slot_number ET_SyscallExit (lq_probes request) 0 = - 1"
    by (simp add: slot_number_def probes nth_opt_def split: option.splits)
  with run c have reported: "reported (xprobe_linux_config_of armed) run = Some (1, [ret, 0, 0, 0, 0, 0])"
    by (simp add: xprobe_syscall_probe_id_def)
  with run show ?thesis
    by (simp add: run_submits_def linux_normalize_event_def run_record_def probes nth_opt_def ok_or_def)
qed

lemma linux_decode_no_Panic: "linux_decode bs \<noteq> Panic"
  by (cases "length bs = 80") (simp add: linux_decode_fields, simp add: linux_decode_def)

lemma linux_configure_no_panic:
  assumes "length (lq_probes request) \<le> 2"
  shows "no_panic (linux_configure_object os lb request)"
  using target_namespace_no_panic [of os "lq_target request"]
  by (auto simp: linux_configure_object_def no_panic_def io_simps linux_config_bytes_eq [OF assms] rust_simps)

lemma linux_prepare_no_panic: "no_panic (linux_prepare os lb request)"
proof -
  have "linux_validate_request request \<noteq> Panic" by (simp add: linux_validate_request_def)
  moreover have "linux_load_object lb n \<noteq> Panic" for n
    by (auto simp: linux_load_object_def rust_simps)
  ultimately show ?thesis
    using linux_configure_no_panic [OF linux_validate_request_Ok(1)]
    by (auto simp: linux_prepare_def no_panic_def io_simps rust_simps)
qed

lemma attach_probes_no_Panic:
  assumes "linux_validate_request request = Ok u"
  shows "attach_probes lb pid (lq_probes request) \<noteq> Panic"
proof -
  have "attach_usdt lb pid (index, probe) \<noteq> Panic" if "(index, probe) \<in> set (enumerate 0 (lq_probes request))" for index probe
  proof -
    from that have "probe \<in> set (lq_probes request)" by (auto simp: enumerate_eq_zip dest: set_zip_rightD)
    from linux_validate_request_Ok(2) [OF assms this] show ?thesis
      by (auto simp: attach_usdt_def probe_valid_def expect_def Let_def rust_simps split: option.splits)
  qed
  then have "rcollect (attach_usdt lb pid) (enumerate 0 (lq_probes request)) \<noteq> Panic"
    by (intro rcollect_no_Panic) auto
  moreover have "rcollect (attach_tracepoint lb) (enumerate 0 (lq_probes request)) \<noteq> Panic"
    by (intro rcollect_no_Panic) (auto simp: attach_tracepoint_def attach_program_def Let_def rust_simps split: if_splits)
  ultimately show ?thesis
    by (auto simp: attach_probes_def attach_syscall_def attach_program_def rust_simps)
qed

lemma linux_arm_no_Panic: "linux_arm_object lb stored \<noteq> Panic"
  by (auto simp: linux_arm_object_def ok_or_def copy_at_def rust_simps simp del: copy_at_Ok split: option.splits)

lemma linux_result_no_Panic:
  assumes "linux_validate_request request = Ok u"
  shows "linux_result lb request c \<noteq> Panic"
proof -
  have "linux_normalize_event raw request session \<noteq> Panic" for raw session
  proof (cases "nth_opt (lq_probes request) (unat (lr_probe_id raw) - 1)")
    case (Some probe)
    then have "probe \<in> set (lq_probes request)" by auto
    from Some linux_validate_request_Ok(2) [OF assms this] show ?thesis
      by (auto simp: linux_normalize_event_def ok_or_def probe_valid_def expect_def rust_simps simp del: nth_opt_Some
          split: option.splits)
  qed (simp add: linux_normalize_event_def ok_or_def)
  then show ?thesis
    by (cases c) (simp add: linux_result_def Let_def rust_simps rcollect_no_Panic)
qed



end
