(* ===== verification/Syscall_Bpf.thy ===== *)
theory Syscall_Bpf
  imports Bpf_Program "HOL-Library.AList"
begin

text \<open>
  The aggregating programs of bpf/xprobe.bpf.c: the maps of the system call aggregate, the entry and exit
  programs, and the states they reach. The hash maps are association lists, the per-processor values of a group
  a list indexed by the processor. The kernel decides whether an insertion succeeds and which
  starts the least-recently-used table evicts for it.
\<close>

section \<open>Definitions\<close>

record xprobe_syscall_aggregate_config =
  ac_pidns_dev :: u64
  ac_pidns_ino :: u64
  ac_target_pid :: u32
  ac_armed :: u32

definition xprobe_syscall_aggregate_config_of :: "bytes \<Rightarrow> xprobe_syscall_aggregate_config" where
  "xprobe_syscall_aggregate_config_of bs =
     \<lparr>ac_pidns_dev = u64_at bs 0, ac_pidns_ino = u64_at bs 8, ac_target_pid = u32_at bs 16, ac_armed = u32_at bs 20\<rparr>"

record xprobe_syscall_start =
  st_timestamp_ns :: u64
  st_syscall_number :: u32

record xprobe_syscall_aggregate =
  xa_count :: u64
  xa_errors :: u64
  xa_total_duration_ns :: u64
  xa_min_duration_ns :: u64
  xa_max_duration_ns :: u64

record xprobe_syscall_aggregate_summary =
  su_entries :: u64
  su_exits :: u64
  su_unmatched_exits :: u64
  su_dropped_aggregates :: u64

record aggregate_maps =
  am_config :: "xprobe_syscall_aggregate_config option"
  am_inflight :: "(u32 \<times> xprobe_syscall_start) list"
  am_groups :: "(u32 \<times> xprobe_syscall_aggregate list) list"
  am_summary :: "xprobe_syscall_aggregate_summary option"

definition empty_aggregate :: xprobe_syscall_aggregate where
  "empty_aggregate =
     \<lparr>xa_count = 0, xa_errors = 0, xa_total_duration_ns = 0, xa_min_duration_ns = 0, xa_max_duration_ns = 0\<rparr>"

definition xprobe_target_syscall_aggregate ::
  "helpers \<Rightarrow> xprobe_syscall_aggregate_config option \<Rightarrow> (u32 \<times> u32) option" where
  "xprobe_target_syscall_aggregate hp current =
     (case current of
        None \<Rightarrow> None
      | Some c \<Rightarrow>
          if ac_armed c = 0 then None
          else
            (case hp_namespace hp (ac_pidns_dev c) (ac_pidns_ino c) of
               None \<Rightarrow> None
             | Some (tgid, pid) \<Rightarrow> if ac_target_pid c = tgid then Some (tgid, pid) else None))"

text \<open>\<open>xprobe_count_syscall_summary\<close> of a field of the summary, where there is one.\<close>

definition xprobe_count_syscall_summary ::
  "(xprobe_syscall_aggregate_summary \<Rightarrow> xprobe_syscall_aggregate_summary) \<Rightarrow> aggregate_maps \<Rightarrow> aggregate_maps" where
  "xprobe_count_syscall_summary count_field maps = maps\<lparr>am_summary := map_option count_field (am_summary maps)\<rparr>"

definition count_entries :: "xprobe_syscall_aggregate_summary \<Rightarrow> xprobe_syscall_aggregate_summary" where
  "count_entries s = s\<lparr>su_entries := su_entries s + 1\<rparr>"

definition count_exits :: "xprobe_syscall_aggregate_summary \<Rightarrow> xprobe_syscall_aggregate_summary" where
  "count_exits s = s\<lparr>su_exits := su_exits s + 1\<rparr>"

definition count_unmatched :: "xprobe_syscall_aggregate_summary \<Rightarrow> xprobe_syscall_aggregate_summary" where
  "count_unmatched s = s\<lparr>su_unmatched_exits := su_unmatched_exits s + 1\<rparr>"

definition count_dropped :: "xprobe_syscall_aggregate_summary \<Rightarrow> xprobe_syscall_aggregate_summary" where
  "count_dropped s = s\<lparr>su_dropped_aggregates := su_dropped_aggregates s + 1\<rparr>"

text \<open>An insertion into the table of starts: it may fail, and it evicts the given threads.\<close>

record insertion =
  in_ok :: bool
  in_evicted :: "u32 list"

definition xprobe_aggregate_syscall_entry ::
  "helpers \<Rightarrow> insertion \<Rightarrow> u64 \<Rightarrow> aggregate_maps \<Rightarrow> aggregate_maps" where
  "xprobe_aggregate_syscall_entry hp ins syscall_number maps =
     (case xprobe_target_syscall_aggregate hp (am_config maps) of
        None \<Rightarrow> maps
      | Some (tgid, thread_id) \<Rightarrow>
          if sint syscall_number < 0 then maps
          else if \<not> in_ok ins then xprobe_count_syscall_summary count_dropped maps
          else
            let start = \<lparr>st_timestamp_ns = hp_ktime hp, st_syscall_number = ucast syscall_number\<rparr>;
                kept = filter (\<lambda>(thread, _). thread \<notin> set (in_evicted ins)) (am_inflight maps) in
            xprobe_count_syscall_summary count_entries (maps\<lparr>am_inflight := AList.update thread_id start kept\<rparr>))"

text \<open>The per-processor values of a group that a program inserts: its own, and zeroes.\<close>

definition inserted_group :: "nat \<Rightarrow> u32 \<Rightarrow> u64 \<Rightarrow> xprobe_syscall_aggregate list" where
  "inserted_group processors cpu duration_ns =
     (replicate processors empty_aggregate)[unat cpu := empty_aggregate\<lparr>xa_min_duration_ns := duration_ns\<rparr>]"

definition add_lifecycle :: "u64 \<Rightarrow> u64 \<Rightarrow> xprobe_syscall_aggregate \<Rightarrow> xprobe_syscall_aggregate" where
  "add_lifecycle duration_ns return_value aggregate =
     \<lparr>xa_count = xa_count aggregate + 1,
      xa_errors = (if sint return_value < 0 then xa_errors aggregate + 1 else xa_errors aggregate),
      xa_total_duration_ns = xa_total_duration_ns aggregate + duration_ns,
      xa_min_duration_ns =
        (if xa_min_duration_ns aggregate = 0 \<or> duration_ns < xa_min_duration_ns aggregate then duration_ns
         else xa_min_duration_ns aggregate),
      xa_max_duration_ns =
        (if xa_max_duration_ns aggregate < duration_ns then duration_ns else xa_max_duration_ns aggregate)\<rparr>"

definition xprobe_aggregate_syscall_exit ::
  "nat \<Rightarrow> helpers \<Rightarrow> bool \<Rightarrow> u64 \<Rightarrow> aggregate_maps \<Rightarrow> aggregate_maps" where
  "xprobe_aggregate_syscall_exit processors hp insert_ok return_value maps =
     (case xprobe_target_syscall_aggregate hp (am_config maps) of
        None \<Rightarrow> maps
      | Some (tgid, thread_id) \<Rightarrow>
          (case map_of (am_inflight maps) thread_id of
             None \<Rightarrow> xprobe_count_syscall_summary count_unmatched maps
           | Some start \<Rightarrow>
               let syscall_number = st_syscall_number start;
                   duration_ns = hp_ktime hp - st_timestamp_ns start;
                   maps = maps\<lparr>am_inflight := AList.delete thread_id (am_inflight maps)\<rparr>;
                   maps = xprobe_count_syscall_summary count_exits maps;
                   maps =
                     (if map_of (am_groups maps) syscall_number = None \<and> insert_ok
                      then maps\<lparr>am_groups := AList.update syscall_number
                             (inserted_group processors (hp_cpu hp) duration_ns) (am_groups maps)\<rparr>
                      else maps) in
               (case map_of (am_groups maps) syscall_number of
                  None \<Rightarrow> xprobe_count_syscall_summary count_dropped maps
                | Some per_cpu \<Rightarrow>
                    maps\<lparr>am_groups := AList.update syscall_number
                      (per_cpu[unat (hp_cpu hp) :=
                         add_lifecycle duration_ns return_value (per_cpu ! unat (hp_cpu hp))]) (am_groups maps)\<rparr>)))"

section \<open>Reachable states\<close>

text \<open>
  The states the programs reach while the configuration is armed, with the number of runs, the lifecycles completed so far and the
  number of starts that an insertion overwrote or evicted.
\<close>

record call_lifecycle =
  lf_number :: u32
  lf_cpu :: nat
  lf_duration :: u64
  lf_return :: u64

definition initial_maps :: "xprobe_syscall_aggregate_config \<Rightarrow> aggregate_maps" where
  "initial_maps c =
     \<lparr>am_config = Some c, am_inflight = [], am_groups = [],
      am_summary = Some \<lparr>su_entries = 0, su_exits = 0, su_unmatched_exits = 0, su_dropped_aggregates = 0\<rparr>\<rparr>"

definition lost_starts :: "helpers \<Rightarrow> insertion \<Rightarrow> u64 \<Rightarrow> aggregate_maps \<Rightarrow> nat" where
  "lost_starts hp ins syscall_number maps =
     (case xprobe_target_syscall_aggregate hp (am_config maps) of
        None \<Rightarrow> 0
      | Some (tgid, thread_id) \<Rightarrow>
          if sint syscall_number < 0 \<or> \<not> in_ok ins then 0
          else length (filter (\<lambda>(thread, _). thread \<in> set (in_evicted ins) \<or> thread = thread_id)
                 (am_inflight maps)))"

definition completed :: "helpers \<Rightarrow> bool \<Rightarrow> u64 \<Rightarrow> aggregate_maps \<Rightarrow> call_lifecycle list" where
  "completed hp insert_ok return_value maps =
     (case xprobe_target_syscall_aggregate hp (am_config maps) of
        None \<Rightarrow> []
      | Some (tgid, thread_id) \<Rightarrow>
          (case map_of (am_inflight maps) thread_id of
             None \<Rightarrow> []
           | Some start \<Rightarrow>
               if map_of (am_groups maps) (st_syscall_number start) = None \<and> \<not> insert_ok then []
               else [\<lparr>lf_number = st_syscall_number start, lf_cpu = unat (hp_cpu hp),
                      lf_duration = hp_ktime hp - st_timestamp_ns start, lf_return = return_value\<rparr>]))"

inductive aggregate_reaches ::
  "nat \<Rightarrow> xprobe_syscall_aggregate_config \<Rightarrow> nat \<Rightarrow> aggregate_maps \<Rightarrow> call_lifecycle list \<Rightarrow> nat \<Rightarrow> bool"
  for processors c
where
  reach_initial: "aggregate_reaches processors c 0 (initial_maps c) [] 0"
| reach_entry: "aggregate_reaches processors c n maps history lost \<Longrightarrow>
    aggregate_reaches processors c (Suc n) (xprobe_aggregate_syscall_entry hp ins syscall_number maps) history
      (lost + lost_starts hp ins syscall_number maps)"
| reach_exit: "aggregate_reaches processors c n maps history lost \<Longrightarrow> unat (hp_cpu hp) < processors \<Longrightarrow>
    aggregate_reaches processors c (Suc n) (xprobe_aggregate_syscall_exit processors hp insert_ok return_value maps)
      (history @ completed hp insert_ok return_value maps) lost"

section \<open>Invariants\<close>

text \<open>What the value of a group on a processor must be, given the lifecycles it has seen.\<close>

definition aggregate_of :: "call_lifecycle list \<Rightarrow> xprobe_syscall_aggregate" where
  "aggregate_of ls = fold (\<lambda>l. add_lifecycle (lf_duration l) (lf_return l)) ls empty_aggregate"

definition of_group :: "u32 \<Rightarrow> call_lifecycle list \<Rightarrow> call_lifecycle list" where
  "of_group number history = filter (\<lambda>l. lf_number l = number) history"

definition on_cpu :: "nat \<Rightarrow> call_lifecycle list \<Rightarrow> call_lifecycle list" where
  "on_cpu cpu history = filter (\<lambda>l. lf_cpu l = cpu) history"

definition groups_ok :: "nat \<Rightarrow> call_lifecycle list \<Rightarrow> (u32 \<times> xprobe_syscall_aggregate list) list \<Rightarrow> bool" where
  "groups_ok processors history groups =
     (distinct (map fst groups) \<and> (\<forall>l \<in> set history. lf_cpu l < processors) \<and>
      (\<forall>number. map_of groups number =
        (if of_group number history = [] then None
         else Some (map (\<lambda>cpu. aggregate_of (on_cpu cpu (of_group number history))) [0..<processors]))))"

lemma fresh_add:
  "add_lifecycle d r (empty_aggregate\<lparr>xa_min_duration_ns := d\<rparr>) = add_lifecycle d r empty_aggregate"
  by (simp add: add_lifecycle_def empty_aggregate_def)

lemma groups_ok_existing:
  assumes "groups_ok processors history groups" "map_of groups (lf_number l) = Some per_cpu" "lf_cpu l < processors"
  shows "groups_ok processors (history @ [l])
    (AList.update (lf_number l)
      (per_cpu[lf_cpu l := add_lifecycle (lf_duration l) (lf_return l) (per_cpu ! lf_cpu l)]) groups)"
proof -
  from assms have per_cpu: "per_cpu = map (\<lambda>cpu. aggregate_of (on_cpu cpu (of_group (lf_number l) history))) [0..<processors]"
    by (auto simp: groups_ok_def split: if_splits)
  have "per_cpu[lf_cpu l := add_lifecycle (lf_duration l) (lf_return l) (per_cpu ! lf_cpu l)] =
      map (\<lambda>cpu. aggregate_of (on_cpu cpu (of_group (lf_number l) (history @ [l])))) [0..<processors]"
    using assms(3) by (auto simp: per_cpu nth_list_update aggregate_of_def on_cpu_def of_group_def intro!: nth_equalityI)
  with assms show ?thesis
    by (auto simp: groups_ok_def of_group_def update_conv distinct_update)
qed

lemma groups_ok_fresh:
  assumes "groups_ok processors history groups" "map_of groups (lf_number l) = None" "lf_cpu l < processors"
    and "lf_cpu l = unat cpu"
  shows "groups_ok processors (history @ [l])
    (AList.update (lf_number l)
      ((inserted_group processors cpu (lf_duration l))[lf_cpu l := add_lifecycle (lf_duration l) (lf_return l)
        (inserted_group processors cpu (lf_duration l) ! lf_cpu l)]) groups)"
proof -
  from assms have none: "of_group (lf_number l) history = []"
    by (auto simp: groups_ok_def split: if_splits)
  have "(inserted_group processors cpu (lf_duration l))[lf_cpu l := add_lifecycle (lf_duration l) (lf_return l)
        (inserted_group processors cpu (lf_duration l) ! lf_cpu l)] =
      map (\<lambda>i. aggregate_of (on_cpu i (of_group (lf_number l) (history @ [l])))) [0..<processors]"
    using assms(3,4) none
    by (auto simp: inserted_group_def nth_list_update aggregate_of_def on_cpu_def of_group_def fresh_add intro!: nth_equalityI)
  with assms show ?thesis
    by (auto simp: groups_ok_def of_group_def update_conv distinct_update)
qed

lemma update_update: "AList.update k v (AList.update k w xs) = AList.update k v xs"
  by (induction xs) auto

lemma exit_groups:
  assumes "groups_ok processors history (am_groups maps)" "unat (hp_cpu hp) < processors"
  shows "groups_ok processors (history @ completed hp insert_ok return_value maps)
    (am_groups (xprobe_aggregate_syscall_exit processors hp insert_ok return_value maps))"
proof (cases "\<exists>tgid thread start. xprobe_target_syscall_aggregate hp (am_config maps) = Some (tgid, thread) \<and>
    map_of (am_inflight maps) thread = Some start")
  case False
  with assms(1) show ?thesis
    by (auto simp: xprobe_aggregate_syscall_exit_def completed_def xprobe_count_syscall_summary_def split: option.splits)
next
  case True
  then obtain tgid thread start where target: "xprobe_target_syscall_aggregate hp (am_config maps) = Some (tgid, thread)"
    "map_of (am_inflight maps) thread = Some start" by blast
  let ?l = "\<lparr>lf_number = st_syscall_number start, lf_cpu = unat (hp_cpu hp),
    lf_duration = hp_ktime hp - st_timestamp_ns start, lf_return = return_value\<rparr>"
  show ?thesis
  proof (cases "map_of (am_groups maps) (st_syscall_number start)")
    case (Some per_cpu)
    with target groups_ok_existing [OF assms(1), of ?l per_cpu] assms(2) show ?thesis
      by (simp add: xprobe_aggregate_syscall_exit_def completed_def xprobe_count_syscall_summary_def Let_def)
  next
    case None
    with target groups_ok_fresh [OF assms(1), of ?l "hp_cpu hp"] assms show ?thesis
      by (simp add: xprobe_aggregate_syscall_exit_def completed_def xprobe_count_syscall_summary_def update_conv
          update_update Let_def)
  qed
qed

lemma entry_groups [simp]: "am_groups (xprobe_aggregate_syscall_entry hp ins nr maps) = am_groups maps"
  by (simp add: xprobe_aggregate_syscall_entry_def xprobe_count_syscall_summary_def Let_def split: option.splits)

lemma reaches_groups:
  "aggregate_reaches processors c n maps history lost \<Longrightarrow> groups_ok processors history (am_groups maps)"
proof (induction rule: aggregate_reaches.induct)
  case reach_initial
  then show ?case by (simp add: groups_ok_def initial_maps_def of_group_def)
qed (simp_all add: exit_groups)

text \<open>
  The accounting of the summary: every start counted is still in flight, was matched or was lost, and every match
  that is not in the history was counted as dropped. The counters have not wrapped before \<open>2 ^ 64\<close> runs.
\<close>

definition accounted :: "nat \<Rightarrow> aggregate_maps \<Rightarrow> nat \<Rightarrow> nat \<Rightarrow> bool" where
  "accounted n maps completions lost =
     (distinct (map fst (am_inflight maps)) \<and>
      (\<exists>e x u d. am_summary maps = Some \<lparr>su_entries = of_nat e, su_exits = of_nat x, su_unmatched_exits = of_nat u,
           su_dropped_aggregates = of_nat d\<rparr> \<and>
         e = x + length (am_inflight maps) + lost \<and> completions \<le> x \<and> x \<le> completions + d \<and>
         e \<le> n \<and> x \<le> n \<and> u \<le> n \<and> d \<le> n))"

lemma length_update_alist:
  "distinct (map fst xs) \<Longrightarrow>
   length (AList.update k v (filter (\<lambda>(t, _). t \<notin> E) xs)) +
   length (filter (\<lambda>(t, _). t \<in> E \<or> t = k) xs) = Suc (length xs)"
proof (induction xs)
  case (Cons x xs)
  have none: "filter (\<lambda>(t, _). t \<in> E \<or> t = k) xs = filter (\<lambda>(t, _). t \<in> E) xs" if "k \<notin> fst ` set xs"
    using that by (intro filter_cong) force+
  have split: "length (filter (\<lambda>(t, _). t \<notin> E) xs) + length (filter (\<lambda>(t, _). t \<in> E) xs) = length xs"
    using sum_length_filter_compl [of "\<lambda>(t, _). t \<in> E" xs] by (simp add: case_prod_unfold)
  show ?case
    using Cons none split by (cases x) auto
qed simp

lemma length_delete_alist:
  "distinct (map fst xs) \<Longrightarrow> map_of xs k = Some v \<Longrightarrow> length xs = Suc (length (AList.delete k xs))"
proof (induction xs)
  case (Cons x xs)
  show ?case
  proof (cases "fst x = k")
    case True
    with Cons.prems(1) have "AList.delete k xs = xs" by (simp add: delete_idem)
    with True show ?thesis by (cases x) simp
  next
    case False
    with Cons show ?thesis by (cases x) auto
  qed
qed simp

lemma accountedE:
  assumes "accounted n maps k lost"
  obtains e x u d where "am_summary maps = Some \<lparr>su_entries = of_nat e, su_exits = of_nat x,
      su_unmatched_exits = of_nat u, su_dropped_aggregates = of_nat d\<rparr>" "distinct (map fst (am_inflight maps))"
    "e = x + length (am_inflight maps) + lost" "k \<le> x" "x \<le> k + d" "e \<le> n" "x \<le> n" "u \<le> n" "d \<le> n"
  using assms unfolding accounted_def by (elim conjE exE) (rule that)

lemma accountedI:
  assumes "am_summary maps = Some \<lparr>su_entries = of_nat e, su_exits = of_nat x,
      su_unmatched_exits = of_nat u, su_dropped_aggregates = of_nat d\<rparr>" "distinct (map fst (am_inflight maps))"
    "e = x + length (am_inflight maps) + lost" "k \<le> x" "x \<le> k + d" "e \<le> n" "x \<le> n" "u \<le> n" "d \<le> n"
  shows "accounted n maps k lost"
  unfolding accounted_def using assms by (intro conjI exI [of _ e] exI [of _ x] exI [of _ u] exI [of _ d])

lemma accounted_idle: "accounted n maps k lost \<Longrightarrow> accounted (Suc n) maps k lost"
  by (erule accountedE, rule accountedI) (assumption | simp only: le_SucI)+

lemma accounted_lossy:
  assumes "accounted n maps k lost"
  shows "accounted (Suc n) (xprobe_count_syscall_summary count_dropped maps) k lost"
    and "accounted (Suc n) (xprobe_count_syscall_summary count_unmatched maps) k lost"
proof -
  from assms obtain e x u d where s: "am_summary maps = Some \<lparr>su_entries = of_nat e, su_exits = of_nat x,
      su_unmatched_exits = of_nat u, su_dropped_aggregates = of_nat d\<rparr>" "distinct (map fst (am_inflight maps))"
    "e = x + length (am_inflight maps) + lost" "k \<le> x" "x \<le> k + d" "e \<le> n" "x \<le> n" "u \<le> n" "d \<le> n"
    by (rule accountedE)
  show "accounted (Suc n) (xprobe_count_syscall_summary count_dropped maps) k lost"
    by (rule accountedI [of _ e x u "Suc d"])
      (use s(2-) in \<open>simp_all add: s(1) xprobe_count_syscall_summary_def count_dropped_def\<close>)
  show "accounted (Suc n) (xprobe_count_syscall_summary count_unmatched maps) k lost"
    by (rule accountedI [of _ e x "Suc u" d])
      (use s(2-) in \<open>simp_all add: s(1) xprobe_count_syscall_summary_def count_unmatched_def\<close>)
qed

lemma accounted_entry:
  assumes "accounted n maps k lost"
  shows "accounted (Suc n) (xprobe_count_syscall_summary count_entries
      (maps\<lparr>am_inflight := AList.update thread start (filter (\<lambda>(t, _). t \<notin> E) (am_inflight maps))\<rparr>)) k
    (lost + length (filter (\<lambda>(t, _). t \<in> E \<or> t = thread) (am_inflight maps)))"
  using assms
proof (rule accountedE)
  fix e x u d
  assume s: "am_summary maps = Some \<lparr>su_entries = of_nat e, su_exits = of_nat x,
      su_unmatched_exits = of_nat u, su_dropped_aggregates = of_nat d\<rparr>" "distinct (map fst (am_inflight maps))"
    "e = x + length (am_inflight maps) + lost" "k \<le> x" "x \<le> k + d" "e \<le> n" "x \<le> n" "u \<le> n" "d \<le> n"
  have distinct: "distinct (map fst (filter (\<lambda>(t, _). t \<notin> E) (am_inflight maps)))"
    using s(2) by (rule distinct_map_filter)
  show ?thesis
    by (rule accountedI [of _ "Suc e" x u d])
      (use s(3-) in \<open>simp_all add: s(1) xprobe_count_syscall_summary_def count_entries_def distinct_update [OF distinct]
          length_update_alist [OF s(2), of thread start E, symmetric]\<close>)
qed

lemma accounted_matched:
  assumes "accounted n maps k lost" "map_of (am_inflight maps) thread = Some start"
  shows "accounted (Suc n) (xprobe_count_syscall_summary count_exits
      (maps\<lparr>am_inflight := AList.delete thread (am_inflight maps)\<rparr>)) (Suc k) lost"
    and "accounted (Suc n) (xprobe_count_syscall_summary count_dropped (xprobe_count_syscall_summary count_exits
      (maps\<lparr>am_inflight := AList.delete thread (am_inflight maps)\<rparr>))) k lost"
proof -
  from assms(1) obtain e x u d where s: "am_summary maps = Some \<lparr>su_entries = of_nat e, su_exits = of_nat x,
      su_unmatched_exits = of_nat u, su_dropped_aggregates = of_nat d\<rparr>" "distinct (map fst (am_inflight maps))"
    "e = x + length (am_inflight maps) + lost" "k \<le> x" "x \<le> k + d" "e \<le> n" "x \<le> n" "u \<le> n" "d \<le> n"
    by (rule accountedE)
  note len = length_delete_alist [OF s(2) assms(2)] and distinct = distinct_delete [OF s(2)]
  show "accounted (Suc n) (xprobe_count_syscall_summary count_exits
      (maps\<lparr>am_inflight := AList.delete thread (am_inflight maps)\<rparr>)) (Suc k) lost"
    by (rule accountedI [of _ e "Suc x" u d])
      (use s(3-) len in \<open>simp_all add: s(1) xprobe_count_syscall_summary_def count_exits_def distinct\<close>)
  show "accounted (Suc n) (xprobe_count_syscall_summary count_dropped (xprobe_count_syscall_summary count_exits
      (maps\<lparr>am_inflight := AList.delete thread (am_inflight maps)\<rparr>))) k lost"
    by (rule accountedI [of _ e "Suc x" u "Suc d"])
      (use s(3-) len in \<open>simp_all add: s(1) xprobe_count_syscall_summary_def count_exits_def count_dropped_def distinct\<close>)
qed

lemma accounted_groups: "accounted n (maps\<lparr>am_groups := groups\<rparr>) k lost = accounted n maps k lost"
  by (simp add: accounted_def)

lemma entry_accounted:
  assumes "accounted n maps k lost"
  shows "accounted (Suc n) (xprobe_aggregate_syscall_entry hp ins nr maps) k (lost + lost_starts hp ins nr maps)"
  using accounted_idle [OF assms] accounted_lossy(1) [OF assms] accounted_entry [OF assms]
  by (auto simp: xprobe_aggregate_syscall_entry_def lost_starts_def Let_def split: option.splits)

lemma exit_accounted:
  assumes "accounted n maps k lost"
  shows "accounted (Suc n) (xprobe_aggregate_syscall_exit processors hp insert_ok return_value maps)
    (k + length (completed hp insert_ok return_value maps)) lost"
proof (cases "\<exists>tgid thread start. xprobe_target_syscall_aggregate hp (am_config maps) = Some (tgid, thread) \<and>
    map_of (am_inflight maps) thread = Some start")
  case False
  with accounted_idle [OF assms] accounted_lossy(2) [OF assms] show ?thesis
    by (auto simp: xprobe_aggregate_syscall_exit_def completed_def split: option.splits)
next
  case True
  then obtain tgid thread start where target: "xprobe_target_syscall_aggregate hp (am_config maps) = Some (tgid, thread)"
    "map_of (am_inflight maps) thread = Some start" by blast
  let ?maps = "xprobe_count_syscall_summary count_exits (maps\<lparr>am_inflight := AList.delete thread (am_inflight maps)\<rparr>)"
  have groups: "am_groups ?maps = am_groups maps" by (simp add: xprobe_count_syscall_summary_def)
  show ?thesis
  proof (cases "map_of (am_groups maps) (st_syscall_number start) = None \<and> \<not> insert_ok")
    case True
    with target groups accounted_matched(2) [OF assms target(2)] show ?thesis
      by (simp add: xprobe_aggregate_syscall_exit_def completed_def Let_def)
  next
    case False
    then obtain groups' where "xprobe_aggregate_syscall_exit processors hp insert_ok return_value maps = ?maps\<lparr>am_groups := groups'\<rparr>"
      "length (completed hp insert_ok return_value maps) = 1"
      using target groups by (cases "map_of (am_groups maps) (st_syscall_number start)")
        (auto simp: xprobe_aggregate_syscall_exit_def completed_def Let_def update_conv)
    with accounted_matched(1) [OF assms target(2)] show ?thesis by (simp add: accounted_groups)
  qed
qed

lemma reaches_accounted:
  "aggregate_reaches processors c n maps history lost \<Longrightarrow> accounted n maps (length history) lost"
proof (induction rule: aggregate_reaches.induct)
  case reach_initial
  then show ?case by (simp add: accounted_def initial_maps_def)
qed (simp_all add: entry_accounted exit_accounted)

section \<open>What a value says of its lifecycles\<close>

definition durations :: "call_lifecycle list \<Rightarrow> u64 list" where
  "durations ls = map lf_duration ls"

definition failed :: "call_lifecycle list \<Rightarrow> nat" where
  "failed ls = length (filter (\<lambda>l. sint (lf_return l) < 0) ls)"

lemma aggregate_of_snoc: "aggregate_of (ls @ [l]) = add_lifecycle (lf_duration l) (lf_return l) (aggregate_of ls)"
  by (simp add: aggregate_of_def)

lemma aggregate_of_Nil: "aggregate_of [] = empty_aggregate"
  by (simp add: aggregate_of_def)

lemma keep_larger: "(if m < d then d else m) = max d (m :: u64)"
  by (simp add: max_def not_less [symmetric])

lemma keep_smaller: "m \<noteq> 0 \<Longrightarrow> (if m = 0 \<or> d < m then d else m) = min d (m :: u64)"
  by (auto simp: min_def not_less dest: order.antisym)

lemma aggregate_of_fields:
  "xa_count (aggregate_of ls) = of_nat (length ls)" "xa_errors (aggregate_of ls) = of_nat (failed ls)"
  "xa_total_duration_ns (aggregate_of ls) = sum_list (durations ls)"
  "xa_max_duration_ns (aggregate_of ls) = fold max (durations ls) 0"
  by (induction ls rule: rev_induct)
    (simp_all add: aggregate_of_snoc aggregate_of_Nil add_lifecycle_def empty_aggregate_def durations_def failed_def
      keep_larger add.commute)

text \<open>Zero marks a minimum that is not set yet, so the minimum is right while no lifecycle takes no time.\<close>

lemma aggregate_of_min:
  assumes "0 \<notin> set (durations ls)" "ls \<noteq> []"
  shows "xa_min_duration_ns (aggregate_of ls) = Min (set (durations ls))"
  using assms
proof (induction ls rule: rev_induct)
  case (snoc l ls)
  show ?case
  proof (cases "ls = []")
    case True
    then show ?thesis by (simp add: aggregate_of_def add_lifecycle_def empty_aggregate_def durations_def)
  next
    case False
    with snoc have IH: "xa_min_duration_ns (aggregate_of ls) = Min (set (durations ls))" by (simp add: durations_def)
    have "Min (set (durations ls)) \<in> set (durations ls)" using False by (intro Min_in) (simp_all add: durations_def)
    with snoc.prems(1) have "Min (set (durations ls)) \<noteq> 0" by (auto simp: durations_def)
    moreover have "Min (set (durations (ls @ [l]))) = min (lf_duration l) (Min (set (durations ls)))"
      using False by (simp add: durations_def Min_insert2 [symmetric] Un_commute)
    ultimately show ?thesis
      using IH by (simp add: aggregate_of_snoc add_lifecycle_def keep_smaller)
  qed
qed simp

end
