(* ===== verification/Syscall_Aggregate.thy ===== *)
theory Syscall_Aggregate
  imports Linux_Capture Syscall_Bpf Validate "HOL-Library.Product_Lexorder"
begin

text \<open>
  The system call inventory: the collector that reads the maps of the aggregating programs
  (collector/src/syscall_aggregate.rs), the analysis of what it read (core/src/syscall_aggregate.rs) and the
  command that composes them (cli/src/main.rs), over the programs of \<open>Syscall_Bpf\<close>.
\<close>

section \<open>Protocol types\<close>

record aggregate_duration =
  ad_min :: u64
  ad_mean :: f64
  ad_max :: u64
  ad_total :: u64

record syscall_aggregate_spec =
  ss_schema_version :: schema_version
  ss_name :: "string option"
  ss_target :: target_identity
  ss_duration_ms :: u64
  ss_timeout_ms :: u64
  ss_max_groups :: u64
  ss_max_inflight :: u64

record syscall_aggregate_group =
  sg_syscall_number :: u32
  sg_syscall_name :: "string option"
  sg_count :: u64
  sg_errors :: u64
  sg_duration_ns :: aggregate_duration
  sg_entry_selector_hint :: "string option"
  sg_exit_selector_hint :: "string option"

record syscall_aggregate_inventory =
  sn_name :: "string option"
  sn_duration_ms :: u64
  sn_groups :: "syscall_aggregate_group list"

datatype syscall_aggregate_completeness = SAC_Complete | SAC_Incomplete

record syscall_aggregate_collection_summary =
  sc_completeness :: syscall_aggregate_completeness
  sc_observed_entries :: u64
  sc_matched_exits :: u64
  sc_unmatched_exits :: u64
  sc_inflight_at_end :: u64
  sc_dropped_aggregates :: u64
  sc_group_capacity :: u64
  sc_groups :: u64
  sc_table_utilization :: f64

record syscall_aggregate_result =
  sar_schema_version :: schema_version
  sar_ok :: bool
  sar_session_id :: string
  sar_status :: session_status
  sar_target :: target_identity
  sar_inventory :: syscall_aggregate_inventory
  sar_collection :: syscall_aggregate_collection_summary
  sar_warnings :: "warning list"

record syscall_aggregate_requirements =
  saq_needs_ebpf :: bool
  saq_target_mutation :: bool

record syscall_aggregate_validation_result =
  sav_schema_version :: schema_version
  sav_ok :: bool
  sav_valid :: bool
  sav_target :: target_identity
  sav_requirements :: syscall_aggregate_requirements
  sav_ebpf :: check_result
  sav_issues :: "validation_issue list"
  sav_warnings :: "warning list"

section \<open>The collector\<close>

record syscall_aggregate_request =
  aq_target :: target_identity
  aq_duration :: nat \<comment> \<open>nanoseconds\<close>
  aq_timeout :: nat \<comment> \<open>nanoseconds\<close>
  aq_max_groups :: u32
  aq_max_inflight :: u32

record raw_syscall_aggregate =
  ra_syscall_number :: u32
  ra_count :: u64
  ra_errors :: u64
  ra_total_duration_ns :: u64
  ra_min_duration_ns :: u64
  ra_max_duration_ns :: u64

record syscall_aggregate_capture =
  sa_groups :: "raw_syscall_aggregate list"
  sa_observed_entries :: u64
  sa_matched_exits :: u64
  sa_unmatched_exits :: u64
  sa_dropped_aggregates :: u64
  sa_inflight_at_end :: u64

datatype syscall_collector_error =
    SCE_InvalidRequest string
  | SCE_TargetNamespace string io_error
  | SCE_MissingObjectMember string string
  | SCE_Libbpf string libbpf_kind
  | SCE_MalformedMapValue string nat nat
  | SCE_Timeout

fun syscall_collector_error_code :: "syscall_collector_error \<Rightarrow> error_code" where
  "syscall_collector_error_code (SCE_InvalidRequest _) = EC_SessionLimitExceeded"
| "syscall_collector_error_code SCE_Timeout = EC_SessionLimitExceeded"
| "syscall_collector_error_code (SCE_TargetNamespace _ source) =
     (case io_kind source of
        IO_PermissionDenied \<Rightarrow> EC_PermissionDenied
      | IO_NotFound \<Rightarrow> EC_TargetExited
      | IO_Other \<Rightarrow> EC_Internal)"
| "syscall_collector_error_code (SCE_Libbpf operation source) =
     (if operation = ''disarm syscall aggregate'' then EC_CleanupFailed
      else if source = LB_PermissionDenied then EC_PermissionDenied
      else EC_Internal)"
| "syscall_collector_error_code (SCE_MissingObjectMember _ _) = EC_Internal"
| "syscall_collector_error_code (SCE_MalformedMapValue _ _ _) = EC_Internal"

definition syscall_collector_error_recoverable :: "syscall_collector_error \<Rightarrow> bool" where
  "syscall_collector_error_recoverable e =
     (syscall_collector_error_code e \<in> {EC_SessionLimitExceeded, EC_PermissionDenied, EC_TargetExited})"

text \<open>The loaded object: libbpf, the keys and per-processor values of the groups, the number of open starts.\<close>

record aggregate_object =
  ao_lb :: libbpf
  ao_groups :: "(bytes \<times> (libbpf_kind + bytes list option)) list"
  ao_inflight :: nat
  ao_duration_ok :: bool \<comment> \<open>adding the duration to the clock does not overflow\<close>

definition aggregate_call :: "aggregate_object \<Rightarrow> string \<Rightarrow> (unit, syscall_collector_error) rresult" where
  "aggregate_call ao operation =
     (case lb_operation (ao_lb ao) operation of None \<Rightarrow> Ok () | Some kind \<Rightarrow> Err (SCE_Libbpf operation kind))"

definition aggregate_member :: "aggregate_object \<Rightarrow> string \<Rightarrow> string \<Rightarrow> (unit, syscall_collector_error) rresult" where
  "aggregate_member ao kind name =
     (if lb_member (ao_lb ao) kind name then Ok () else Err (SCE_MissingObjectMember kind name))"

definition aggregate_validate_request :: "syscall_aggregate_request \<Rightarrow> (unit, syscall_collector_error) rresult" where
  "aggregate_validate_request request =
     (if aq_duration request = 0 then Err (SCE_InvalidRequest ''duration must be positive'')
      else if aq_timeout request < aq_duration request
      then Err (SCE_InvalidRequest ''timeout must be at least the capture duration'')
      else if aq_max_groups request = 0 then Err (SCE_InvalidRequest ''max_groups must be positive'')
      else if aq_max_inflight request = 0 then Err (SCE_InvalidRequest ''max_inflight must be positive'')
      else Ok ())"

definition aggregate_load_object :: "aggregate_object \<Rightarrow> (unit, syscall_collector_error) rresult" where
  "aggregate_load_object ao =
     rbind (aggregate_call ao ''name BPF object'') (\<lambda>_.
     rbind (aggregate_call ao ''open BPF object'') (\<lambda>_.
     rbind (aggregate_member ao ''map'' ''syscall_aggregate_groups'') (\<lambda>_.
     rbind (aggregate_call ao ''size syscall aggregate groups'') (\<lambda>_.
     rbind (aggregate_member ao ''map'' ''syscall_aggregate_inflight'') (\<lambda>_.
     rbind (aggregate_call ao ''size syscall inflight table'') (\<lambda>_.
     aggregate_call ao ''load BPF object''))))))"

definition aggregate_config_bytes ::
  "file_metadata \<Rightarrow> syscall_aggregate_request \<Rightarrow> (bytes, syscall_collector_error) rresult" where
  "aggregate_config_bytes namespace request =
     copy_fields
       [(0, u64_bytes (md_dev namespace)), (8, u64_bytes (md_ino namespace)),
        (16, u32_bytes (ti_pid (aq_target request)))]
       (replicate 24 0)"

definition aggregate_configure_object ::
  "os \<Rightarrow> aggregate_object \<Rightarrow> syscall_aggregate_request \<Rightarrow> (bytes, syscall_collector_error) io" where
  "aggregate_configure_object os ao request =
     io_bind (io_map_err (SCE_TargetNamespace (namespace_path (aq_target request)))
       (fs_metadata os (namespace_path (aq_target request)))) (\<lambda>namespace.
     io_lift
      (rbind (aggregate_config_bytes namespace request) (\<lambda>config.
       rbind (aggregate_member ao ''map'' ''syscall_aggregate_config'') (\<lambda>_.
       rbind (aggregate_call ao ''configure syscall aggregate'') (\<lambda>_.
       Ok config)))))"

fun attach_programs :: "aggregate_object \<Rightarrow> string list \<Rightarrow> (unit, syscall_collector_error) rresult" where
  "attach_programs ao [] = Ok ()"
| "attach_programs ao (program # rest) =
     rbind (aggregate_member ao ''program'' program) (\<lambda>_.
     case lb_attach (ao_lb ao) program of
       Some kind \<Rightarrow> Err (SCE_Libbpf ''attach syscall aggregate tracepoint'' kind)
     | None \<Rightarrow> attach_programs ao rest)"

definition aggregate_programs :: "string list" where
  "aggregate_programs = [''xprobe_aggregate_syscall_entry'', ''xprobe_aggregate_syscall_exit'']"

text \<open>The contents of the map \<open>syscall_aggregate_config\<close> before and after the call.\<close>

definition set_armed :: "aggregate_object \<Rightarrow> bytes option \<Rightarrow> bool \<Rightarrow> (bytes, syscall_collector_error) rresult" where
  "set_armed ao stored armed =
     rbind (aggregate_member ao ''map'' ''syscall_aggregate_config'') (\<lambda>_.
     rbind (aggregate_call ao ''read syscall aggregate config'') (\<lambda>_.
     rbind (ok_or stored (SCE_MissingObjectMember ''map value'' ''syscall_aggregate_config'')) (\<lambda>config.
     if length config \<noteq> 24 then Err (SCE_MalformedMapValue ''syscall_aggregate_config'' 24 (length config))
     else
       rbind (copy_at 20 (u32_bytes (of_bool armed)) config) (\<lambda>config.
       rbind (aggregate_call ao (if armed then ''arm syscall aggregate'' else ''disarm syscall aggregate'')) (\<lambda>_.
       Ok config)))))"

definition decode_u32 :: "string \<Rightarrow> bytes \<Rightarrow> (u32, syscall_collector_error) rresult" where
  "decode_u32 map_name bs =
     (if length bs \<noteq> 4 then Err (SCE_MalformedMapValue map_name 4 (length bs)) else Ok (of_nat (le_nat bs)))"

definition decode_u64_fields :: "nat \<Rightarrow> string \<Rightarrow> bytes \<Rightarrow> (u64 list, syscall_collector_error) rresult" where
  "decode_u64_fields n map_name bs =
     (if length bs \<noteq> n * 8 then Err (SCE_MalformedMapValue map_name (n * 8) (length bs))
      else rcollect (\<lambda>index. read_u64 bs (index * 8)) [0..<n])"

text \<open>One processor's value added to a group.\<close>

definition add_value :: "raw_syscall_aggregate \<Rightarrow> u64 list \<Rightarrow> raw_syscall_aggregate" where
  "add_value g vals =
     (if vals ! 0 = 0 then g
      else g\<lparr>ra_count := saturating_add (ra_count g) (vals ! 0),
             ra_errors := saturating_add (ra_errors g) (vals ! 1),
             ra_total_duration_ns := saturating_add (ra_total_duration_ns g) (vals ! 2),
             ra_min_duration_ns := min (ra_min_duration_ns g) (vals ! 3),
             ra_max_duration_ns := max (ra_max_duration_ns g) (vals ! 4)\<rparr>)"

fun sum_values :: "raw_syscall_aggregate \<Rightarrow> bytes list \<Rightarrow> (raw_syscall_aggregate, syscall_collector_error) rresult" where
  "sum_values g [] = Ok g"
| "sum_values g (bs # rest) =
     rbind (decode_u64_fields 5 ''syscall_aggregate_groups'' bs) (\<lambda>vals. sum_values (add_value g vals) rest)"

definition new_group :: "u32 \<Rightarrow> raw_syscall_aggregate" where
  "new_group number =
     \<lparr>ra_syscall_number = number, ra_count = 0, ra_errors = 0, ra_total_duration_ns = 0,
      ra_min_duration_ns = - 1, ra_max_duration_ns = 0\<rparr>"

definition sum_group :: "u32 \<Rightarrow> bytes list \<Rightarrow> (raw_syscall_aggregate, syscall_collector_error) rresult" where
  "sum_group number vals =
     rbind (sum_values (new_group number) vals)
       (\<lambda>g. Ok (if ra_count g = 0 then g\<lparr>ra_min_duration_ns := 0\<rparr> else g))"

definition read_group ::
  "bytes \<times> (libbpf_kind + bytes list option) \<Rightarrow> (raw_syscall_aggregate, syscall_collector_error) rresult" where
  "read_group = (\<lambda>(key, found).
     rbind (decode_u32 ''syscall_aggregate_groups'' key) (\<lambda>number.
     case found of
       Inl kind \<Rightarrow> Err (SCE_Libbpf ''read syscall aggregate group'' kind)
     | Inr None \<Rightarrow> Err (SCE_MissingObjectMember ''map value'' ''syscall_aggregate_groups'')
     | Inr (Some vals) \<Rightarrow> sum_group number vals))"

definition read_summary :: "aggregate_object \<Rightarrow> (u64 list, syscall_collector_error) rresult" where
  "read_summary ao =
     rbind (aggregate_member ao ''map'' ''syscall_aggregate_summary'') (\<lambda>_.
     case lb_lookup (ao_lb ao) ''syscall_aggregate_summary'' of
       Inl kind \<Rightarrow> Err (SCE_Libbpf ''read syscall aggregate summary'' kind)
     | Inr None \<Rightarrow> Err (SCE_MissingObjectMember ''map value'' ''syscall_aggregate_summary'')
     | Inr (Some bs) \<Rightarrow> decode_u64_fields 4 ''syscall_aggregate_summary'' bs)"

definition capture_rank :: "raw_syscall_aggregate \<Rightarrow> int \<times> u32" where
  "capture_rank g = (- int (unat (ra_total_duration_ns g)), ra_syscall_number g)"

definition read_capture :: "aggregate_object \<Rightarrow> (syscall_aggregate_capture, syscall_collector_error) rresult" where
  "read_capture ao =
     rbind (aggregate_member ao ''map'' ''syscall_aggregate_groups'') (\<lambda>_.
     rbind (rcollect read_group (ao_groups ao)) (\<lambda>groups.
     rbind (read_summary ao) (\<lambda>summary.
     rbind (aggregate_member ao ''map'' ''syscall_aggregate_inflight'') (\<lambda>_.
     Ok \<lparr>sa_groups = sort_key capture_rank groups, sa_observed_entries = summary ! 0,
         sa_matched_exits = summary ! 1, sa_unmatched_exits = summary ! 2, sa_dropped_aggregates = summary ! 3,
         sa_inflight_at_end = (if ao_inflight ao < 2 ^ 64 then of_nat (ao_inflight ao) else - 1)\<rparr>))))"

text \<open>One turn of the waiting loop: has the capture ended, and has the timeout passed?\<close>

record wait_turn =
  wt_ended :: bool
  wt_timed_out :: bool

fun wait_loop :: "wait_turn list \<Rightarrow> bool option" where
  "wait_loop [] = None"
| "wait_loop (turn # rest) =
     (if wt_ended turn then Some True else if wt_timed_out turn then Some False else wait_loop rest)"

definition aggregate_prepare ::
  "os \<Rightarrow> aggregate_object \<Rightarrow> syscall_aggregate_request \<Rightarrow> (bytes, syscall_collector_error) io" where
  "aggregate_prepare os ao request =
     io_bind (io_lift
      (rbind (aggregate_validate_request request) (\<lambda>_.
       rbind (if lb_clock_ok (ao_lb ao) then Ok ()
              else Err (SCE_InvalidRequest ''timeout overflows the monotonic clock'')) (\<lambda>_.
       aggregate_load_object ao)))) (\<lambda>_.
     io_bind (aggregate_configure_object os ao request) (\<lambda>config.
     io_lift
      (rbind (attach_programs ao aggregate_programs) (\<lambda>_.
       rbind (set_armed ao (Some config) True) (\<lambda>armed.
       rbind (if ao_duration_ok ao then Ok ()
              else Err (SCE_InvalidRequest ''duration overflows the monotonic clock'')) (\<lambda>_.
       Ok armed))))))"

definition aggregate_collect ::
  "os \<Rightarrow> aggregate_object \<Rightarrow> wait_turn list \<Rightarrow> syscall_aggregate_request \<Rightarrow> nat \<Rightarrow>
   ((syscall_aggregate_capture, syscall_collector_error) rresult \<times> nat) option" where
  "aggregate_collect os ao turns request =
     io_then (aggregate_prepare os ao request) (\<lambda>armed.
       map_option (\<lambda>ended.
         rbind (set_armed ao (Some armed) False) (\<lambda>_. if ended then read_capture ao else Err SCE_Timeout))
         (wait_loop turns))"

section \<open>The analysis\<close>

record raw_syscall_group =
  rs_syscall_number :: u32
  rs_count :: u64
  rs_errors :: u64
  rs_total_duration_ns :: u64
  rs_min_duration_ns :: u64
  rs_max_duration_ns :: u64

record syscall_capture_data =
  sd_groups :: "raw_syscall_group list"
  sd_observed_entries :: u64
  sd_matched_exits :: u64
  sd_unmatched_exits :: u64
  sd_dropped_aggregates :: u64
  sd_inflight_at_end :: u64

datatype syscall_aggregate_error = SAE_Inspect inspect_error | SAE_Doctor doctor_error

fun syscall_aggregate_error_code :: "syscall_aggregate_error \<Rightarrow> error_code" where
  "syscall_aggregate_error_code (SAE_Inspect e) = inspect_error_code e"
| "syscall_aggregate_error_code (SAE_Doctor _) = EC_Internal"

fun syscall_aggregate_error_recoverable :: "syscall_aggregate_error \<Rightarrow> bool" where
  "syscall_aggregate_error_recoverable (SAE_Inspect e) = inspect_error_recoverable e"
| "syscall_aggregate_error_recoverable (SAE_Doctor _) = False"

definition syscall_aggregate_validate ::
  "os \<Rightarrow> process_report \<Rightarrow> (syscall_aggregate_validation_result, syscall_aggregate_error) io" where
  "syscall_aggregate_validate os report =
     io_bind (io_map_err SAE_Inspect (verify_target os (pr_target report))) (\<lambda>_.
     io_bind (io_map_err SAE_Doctor (doctor_run os)) (\<lambda>capabilities.
     let ebpf = sc_ebpf_permissions (cr_checks capabilities);
         issues = (if \<not> cap_tracepoint (pr_capabilities report)
           then [\<lparr>vi_code = EC_PermissionDenied,
                  vi_message = ''syscall aggregation requires effective eBPF tracepoint privileges''\<rparr>]
           else []) in
     io_bind (io_map_err SAE_Inspect (verify_target os (pr_target report))) (\<lambda>_.
     io_ok \<lparr>sav_schema_version = schema_current, sav_ok = True, sav_valid = (issues = []),
             sav_target = pr_target report,
             sav_requirements = \<lparr>saq_needs_ebpf = True, saq_target_mutation = False\<rparr>,
             sav_ebpf = ebpf, sav_issues = issues, sav_warnings = []\<rparr>)))"

definition syscall_names :: "(u32 \<times> string) list" where
  "syscall_names =
     [(0, ''read''), (1, ''write''), (3, ''close''), (5, ''fstat''), (7, ''poll''), (8, ''lseek''),
      (9, ''mmap''), (10, ''mprotect''), (11, ''munmap''), (12, ''brk''), (16, ''ioctl''), (17, ''pread64''),
      (18, ''pwrite64''), (19, ''readv''), (20, ''writev''), (24, ''sched_yield''), (25, ''mremap''),
      (26, ''msync''), (27, ''mincore''), (28, ''madvise''), (35, ''nanosleep''), (39, ''getpid''),
      (41, ''socket''), (42, ''connect''), (43, ''accept''), (44, ''sendto''), (45, ''recvfrom''),
      (46, ''sendmsg''), (47, ''recvmsg''), (56, ''clone''), (57, ''fork''), (58, ''vfork''), (59, ''execve''),
      (60, ''exit''), (61, ''wait4''), (72, ''fcntl''), (73, ''flock''), (74, ''fsync''), (75, ''fdatasync''),
      (78, ''getdents''), (186, ''gettid''), (202, ''futex''), (203, ''sched_setaffinity''),
      (204, ''sched_getaffinity''), (232, ''epoll_wait''), (233, ''epoll_ctl''), (234, ''tgkill''),
      (257, ''openat''), (262, ''newfstatat''), (270, ''pselect6''), (271, ''ppoll''), (272, ''unshare''),
      (275, ''splice''), (281, ''epoll_pwait''), (288, ''accept4''), (290, ''eventfd2''),
      (291, ''epoll_create1''), (292, ''dup3''), (293, ''pipe2''), (295, ''preadv''), (296, ''pwritev''),
      (298, ''perf_event_open''), (299, ''recvmmsg''), (302, ''prlimit64''), (307, ''sendmmsg''),
      (309, ''getcpu''), (310, ''process_vm_readv''), (311, ''process_vm_writev''), (314, ''sched_setattr''),
      (315, ''sched_getattr''), (317, ''seccomp''), (318, ''getrandom''), (319, ''memfd_create''),
      (321, ''bpf''), (322, ''execveat''), (323, ''userfaultfd''), (324, ''membarrier''), (325, ''mlock2''),
      (326, ''copy_file_range''), (327, ''preadv2''), (328, ''pwritev2''), (332, ''statx''), (334, ''rseq''),
      (424, ''pidfd_send_signal''), (425, ''io_uring_setup''), (426, ''io_uring_enter''),
      (427, ''io_uring_register''), (434, ''pidfd_open''), (435, ''clone3''), (436, ''close_range''),
      (437, ''openat2''), (438, ''pidfd_getfd''), (439, ''faccessat2''), (440, ''process_madvise''),
      (441, ''epoll_pwait2''), (449, ''futex_waitv'')]"

definition syscall_name :: "u32 \<Rightarrow> string option" where
  "syscall_name number = map_of syscall_names number"

definition normalize_group :: "raw_syscall_group \<Rightarrow> syscall_aggregate_group" where
  "normalize_group g =
     (let name = syscall_name (rs_syscall_number g) in
      \<lparr>sg_syscall_number = rs_syscall_number g, sg_syscall_name = name, sg_count = rs_count g,
       sg_errors = rs_errors g,
       sg_duration_ns = \<lparr>ad_min = rs_min_duration_ns g,
         ad_mean = ratio (unat (rs_total_duration_ns g)) (unat (rs_count g)),
         ad_max = rs_max_duration_ns g, ad_total = rs_total_duration_ns g\<rparr>,
       sg_entry_selector_hint = map_option (\<lambda>n. ''syscall:'' @ n @ '':entry'') name,
       sg_exit_selector_hint = map_option (\<lambda>n. ''syscall:'' @ n @ '':exit'') name\<rparr>)"

definition group_rank :: "syscall_aggregate_group \<Rightarrow> int \<times> int \<times> u32" where
  "group_rank g =
     (- int (unat (ad_total (sg_duration_ns g))), - int (unat (sg_count g)), sg_syscall_number g)"

definition aggregate_warnings :: "syscall_capture_data \<Rightarrow> warning list" where
  "aggregate_warnings capture =
     (if sd_dropped_aggregates capture \<noteq> 0
      then [mk_warning ''SYSCALL_AGGREGATES_DROPPED''
        (render_nat 10 (unat (sd_dropped_aggregates capture)) @
         '' syscall lifecycles could not be retained; increase max_groups or max_inflight'')]
      else []) @
     (if sd_unmatched_exits capture \<noteq> 0 \<or> sd_inflight_at_end capture \<noteq> 0
      then [mk_warning ''SYSCALL_LIFECYCLES_UNMATCHED''
        (render_nat 10 (unat (sd_unmatched_exits capture)) @ '' exits had no start and '' @
         render_nat 10 (unat (sd_inflight_at_end capture)) @ '' starts remained open at capture end'')]
      else [])"

definition u64_of_len :: "nat \<Rightarrow> u64" where
  "u64_of_len n = (if n < 2 ^ 64 then of_nat n else - 1)"

definition ranked_groups :: "syscall_capture_data \<Rightarrow> syscall_aggregate_group list" where
  "ranked_groups capture =
     sort_key group_rank (map normalize_group (filter (\<lambda>g. rs_count g \<noteq> 0) (sd_groups capture)))"

definition aggregate_report ::
  "process_report \<Rightarrow> syscall_aggregate_spec \<Rightarrow> string \<Rightarrow> syscall_capture_data \<Rightarrow> syscall_aggregate_result" where
  "aggregate_report report spec session_id capture =
     (let complete = (sd_unmatched_exits capture = 0 \<and> sd_inflight_at_end capture = 0 \<and>
        sd_dropped_aggregates capture = 0) in
      \<lparr>sar_schema_version = schema_current, sar_ok = True, sar_session_id = session_id,
       sar_status = SS_Completed, sar_target = pr_target report,
       sar_inventory =
         \<lparr>sn_name = ss_name spec, sn_duration_ms = ss_duration_ms spec, sn_groups = ranked_groups capture\<rparr>,
       sar_collection = \<lparr>sc_completeness = (if complete then SAC_Complete else SAC_Incomplete),
         sc_observed_entries = sd_observed_entries capture, sc_matched_exits = sd_matched_exits capture,
         sc_unmatched_exits = sd_unmatched_exits capture, sc_inflight_at_end = sd_inflight_at_end capture,
         sc_dropped_aggregates = sd_dropped_aggregates capture, sc_group_capacity = ss_max_groups spec,
         sc_groups = u64_of_len (length (sd_groups capture)),
         sc_table_utilization =
           ratio (unat (u64_of_len (length (sd_groups capture)))) (unat (max (ss_max_groups spec) 1))\<rparr>,
       sar_warnings = aggregate_warnings capture\<rparr>)"

definition syscall_aggregate_analyze ::
  "os \<Rightarrow> process_report \<Rightarrow> syscall_aggregate_spec \<Rightarrow> string \<Rightarrow> syscall_capture_data \<Rightarrow>
   (syscall_aggregate_result, syscall_aggregate_error) io" where
  "syscall_aggregate_analyze os report spec session_id capture =
     io_bind (io_map_err SAE_Inspect (verify_target os (pr_target report))) (\<lambda>_.
     io_bind (io_map_err SAE_Inspect (verify_target os (pr_target report))) (\<lambda>_.
     io_ok (aggregate_report report spec session_id capture)))"

section \<open>The command\<close>

definition raw_group_of :: "raw_syscall_aggregate \<Rightarrow> raw_syscall_group" where
  "raw_group_of g =
     \<lparr>rs_syscall_number = ra_syscall_number g, rs_count = ra_count g, rs_errors = ra_errors g,
      rs_total_duration_ns = ra_total_duration_ns g, rs_min_duration_ns = ra_min_duration_ns g,
      rs_max_duration_ns = ra_max_duration_ns g\<rparr>"

definition capture_data_of :: "syscall_aggregate_capture \<Rightarrow> syscall_capture_data" where
  "capture_data_of c =
     \<lparr>sd_groups = map raw_group_of (sa_groups c), sd_observed_entries = sa_observed_entries c,
      sd_matched_exits = sa_matched_exits c, sd_unmatched_exits = sa_unmatched_exits c,
      sd_dropped_aggregates = sa_dropped_aggregates c, sd_inflight_at_end = sa_inflight_at_end c\<rparr>"

text \<open>A failure of a command: its code and whether it is recoverable.\<close>

record failure =
  fl_code :: error_code
  fl_recoverable :: bool

definition syscall_collector_request :: "syscall_aggregate_spec \<Rightarrow> (syscall_aggregate_request, failure) rresult" where
  "syscall_collector_request spec =
     (let limit = Err \<lparr>fl_code = EC_SessionLimitExceeded, fl_recoverable = True\<rparr> in
      if ss_duration_ms spec = 0 \<or> ss_max_groups spec = 0 \<or> ss_max_inflight spec = 0 then limit
      else if 2 ^ 32 \<le> unat (ss_max_groups spec) then limit
      else if 2 ^ 32 \<le> unat (ss_max_inflight spec) then limit
      else
        Ok \<lparr>aq_target = ss_target spec, aq_duration = unat (ss_duration_ms spec) * 1000000,
            aq_timeout = unat (ss_timeout_ms spec) * 1000000, aq_max_groups = ucast (ss_max_groups spec),
            aq_max_inflight = ucast (ss_max_inflight spec)\<rparr>)"

text \<open>Actions that contain a loop: \<open>None\<close> while the loop still runs.\<close>

type_synonym ('a, 'e) loop = "nat \<Rightarrow> (('a, 'e) rresult \<times> nat) option"

definition loop_bind :: "('a, 'e) loop \<Rightarrow> ('a \<Rightarrow> ('b, 'e) loop) \<Rightarrow> ('b, 'e) loop" where
  "loop_bind m f = (\<lambda>t. case m t of
     None \<Rightarrow> None
   | Some (Ok a, t') \<Rightarrow> f a t'
   | Some (Err e, t') \<Rightarrow> Some (Err e, t')
   | Some (Panic, t') \<Rightarrow> Some (Panic, t'))"

definition loop_io :: "('e \<Rightarrow> 'f) \<Rightarrow> ('a, 'e) io \<Rightarrow> ('a, 'f) loop" where
  "loop_io f m = (\<lambda>t. Some (io_map_err f m t))"

definition loop_map_err :: "('e \<Rightarrow> 'f) \<Rightarrow> ('a, 'e) loop \<Rightarrow> ('a, 'f) loop" where
  "loop_map_err f m = (\<lambda>t. map_option (\<lambda>(r, t'). (map_err f r, t')) (m t))"

definition inspect_failure :: "inspect_error \<Rightarrow> failure" where
  "inspect_failure e = \<lparr>fl_code = inspect_error_code e, fl_recoverable = inspect_error_recoverable e\<rparr>"

definition aggregate_failure :: "syscall_aggregate_error \<Rightarrow> failure" where
  "aggregate_failure e =
     \<lparr>fl_code = syscall_aggregate_error_code e, fl_recoverable = syscall_aggregate_error_recoverable e\<rparr>"

definition collector_failure :: "syscall_collector_error \<Rightarrow> failure" where
  "collector_failure e =
     \<lparr>fl_code = syscall_collector_error_code e, fl_recoverable = syscall_collector_error_recoverable e\<rparr>"

definition run_syscall_aggregate_spec ::
  "os \<Rightarrow> aggregate_object \<Rightarrow> wait_turn list \<Rightarrow> syscall_aggregate_spec \<Rightarrow> process_report option \<Rightarrow>
   (syscall_aggregate_result, failure) loop" where
  "run_syscall_aggregate_spec os ao turns spec inspected =
     loop_bind (case inspected of
         Some report \<Rightarrow> loop_io inspect_failure (io_ok report)
       | None \<Rightarrow> loop_io inspect_failure (inspect_run os (ti_pid (ss_target spec)))) (\<lambda>report.
     loop_bind (loop_io inspect_failure (verify_target os (ss_target spec))) (\<lambda>_.
     loop_bind (loop_io aggregate_failure (syscall_aggregate_validate os report)) (\<lambda>validation.
     loop_bind (loop_io id (io_lift
       (if sav_valid validation then Ok () else Err \<lparr>fl_code = EC_PermissionDenied, fl_recoverable = True\<rparr>))) (\<lambda>_.
     loop_bind (loop_io id (io_lift (syscall_collector_request spec))) (\<lambda>request.
     loop_bind (loop_map_err collector_failure (aggregate_collect os ao turns request)) (\<lambda>capture.
     loop_io aggregate_failure
       (syscall_aggregate_analyze os report spec
         (''xp_syscalls_'' @ render_nat 10 (unat (lb_process_id (ao_lb ao)))) (capture_data_of capture))))))))"

definition run_direct_syscall_aggregate ::
  "os \<Rightarrow> aggregate_object \<Rightarrow> wait_turn list \<Rightarrow> u32 \<Rightarrow> string option \<Rightarrow> u64 \<Rightarrow> u64 \<Rightarrow> u64 \<Rightarrow> u64 \<Rightarrow>
   (syscall_aggregate_result, failure) loop" where
  "run_direct_syscall_aggregate os ao turns pid name duration_ms timeout_ms max_groups max_inflight =
     loop_bind (loop_io inspect_failure (inspect_run os pid)) (\<lambda>report.
     run_syscall_aggregate_spec os ao turns
       \<lparr>ss_schema_version = schema_current, ss_name = name, ss_target = pr_target report,
        ss_duration_ms = duration_ms, ss_timeout_ms = timeout_ms, ss_max_groups = max_groups,
        ss_max_inflight = max_inflight\<rparr> (Some report))"

section \<open>Reading the maps\<close>

definition aggregate_bytes :: "xprobe_syscall_aggregate \<Rightarrow> bytes" where
  "aggregate_bytes a =
     concat (map u64_bytes [xa_count a, xa_errors a, xa_total_duration_ns a, xa_min_duration_ns a, xa_max_duration_ns a])"

definition summary_bytes :: "xprobe_syscall_aggregate_summary \<Rightarrow> bytes" where
  "summary_bytes s =
     concat (map u64_bytes [su_entries s, su_exits s, su_unmatched_exits s, su_dropped_aggregates s])"

lemma length_concat_u64: "length (concat (map u64_bytes vs)) = length vs * 8"
  by (induction vs) simp_all

lemma read_u64_concat: "i < length vs \<Longrightarrow> read_u64 (concat (map u64_bytes vs)) (i * 8) = Ok (vs ! i)"
proof (induction vs arbitrary: i)
  case (Cons v vs)
  show ?case
  proof (cases i)
    case 0
    then show ?thesis by (simp add: read_in_range length_concat_u64 u64_round_trip)
  next
    case (Suc j)
    with Cons show ?thesis
      using read_in_range(2) [of "j * 8" "concat (map u64_bytes vs)"]
      by (simp add: read_in_range length_concat_u64)
  qed
qed simp

lemma decode_u64_fields_concat:
  "length vs = n \<Longrightarrow> decode_u64_fields n name (concat (map u64_bytes vs)) = Ok vs"
  by (auto simp: decode_u64_fields_def length_concat_u64 rcollect_Ok_iff list_all2_conv_all_nth read_u64_concat)

definition add_aggregate :: "raw_syscall_aggregate \<Rightarrow> xprobe_syscall_aggregate \<Rightarrow> raw_syscall_aggregate" where
  "add_aggregate g a =
     add_value g [xa_count a, xa_errors a, xa_total_duration_ns a, xa_min_duration_ns a, xa_max_duration_ns a]"

lemma decode_aggregate:
  "decode_u64_fields 5 name (aggregate_bytes a) =
     Ok [xa_count a, xa_errors a, xa_total_duration_ns a, xa_min_duration_ns a, xa_max_duration_ns a]"
  unfolding aggregate_bytes_def by (rule decode_u64_fields_concat) simp

lemma sum_values_bytes: "sum_values g (map aggregate_bytes as) = Ok (foldl add_aggregate g as)"
  by (induction as arbitrary: g) (simp_all add: decode_aggregate add_aggregate_def)

section \<open>Adding up the processors\<close>

definition up_to_cpu :: "nat \<Rightarrow> call_lifecycle list \<Rightarrow> call_lifecycle list" where
  "up_to_cpu k ls = filter (\<lambda>l. lf_cpu l < k) ls"

definition total_time :: "call_lifecycle list \<Rightarrow> nat" where
  "total_time ls = sum_list (map unat (durations ls))"

lemma up_to_cpu_Suc:
  "length (up_to_cpu (Suc k) ls) = length (up_to_cpu k ls) + length (on_cpu k ls)"
  "failed (up_to_cpu (Suc k) ls) = failed (up_to_cpu k ls) + failed (on_cpu k ls)"
  "total_time (up_to_cpu (Suc k) ls) = total_time (up_to_cpu k ls) + total_time (on_cpu k ls)"
  "set (durations (up_to_cpu (Suc k) ls)) = set (durations (up_to_cpu k ls)) \<union> set (durations (on_cpu k ls))"
  by (induction ls) (auto simp: up_to_cpu_def on_cpu_def failed_def total_time_def durations_def less_Suc_eq)

lemma total_time_filter: "total_time (filter P ls) \<le> total_time ls"
  by (induction ls) (auto simp: total_time_def durations_def)

lemma failed_length: "failed ls \<le> length ls"
  by (simp add: failed_def)

lemma sum_durations: "sum_list (durations ls) = of_nat (total_time ls)"
  by (induction ls) (simp_all add: durations_def total_time_def)

lemma saturating_add_exact:
  "unat (a :: u64) + unat b < 2 ^ 64 \<Longrightarrow> unat (saturating_add a b) = unat a + unat b"
  by (simp add: saturating_add_def unat_word_ariths split: if_splits)

lemma fold_max_set: "fold max (ds :: u64 list) a = Max (insert a (set ds))"
  using Max.set_eq_fold [of a ds] by simp

text \<open>What a group says of the lifecycles it counts.\<close>

definition group_counts :: "call_lifecycle list \<Rightarrow> raw_syscall_aggregate \<Rightarrow> bool" where
  "group_counts ls g =
     (unat (ra_count g) = length ls \<and> unat (ra_errors g) = failed ls \<and>
      unat (ra_total_duration_ns g) = total_time ls \<and>
      ra_max_duration_ns g = Max (insert 0 (set (durations ls))) \<and>
      (0 \<notin> set (durations ls) \<longrightarrow> ra_min_duration_ns g = Min (insert (- 1) (set (durations ls)))))"

lemma aggregate_values:
  assumes "length ls < 2 ^ 64" "total_time ls < 2 ^ 64"
  shows "unat (xa_count (aggregate_of ls)) = length ls" "unat (xa_errors (aggregate_of ls)) = failed ls"
    "unat (xa_total_duration_ns (aggregate_of ls)) = total_time ls"
    "xa_max_duration_ns (aggregate_of ls) = Max (insert 0 (set (durations ls)))"
  using assms failed_length [of ls]
  by (simp_all add: aggregate_of_fields sum_durations fold_max_set unsigned_of_nat take_bit_nat_eq_self)

lemma add_aggregate_counts:
  assumes "group_counts (up_to_cpu k ls) g" "length ls < 2 ^ 64" "total_time ls < 2 ^ 64"
  shows "group_counts (up_to_cpu (Suc k) ls) (add_aggregate g (aggregate_of (on_cpu k ls)))"
proof (cases "on_cpu k ls = []")
  case True
  then have "xa_count (aggregate_of (on_cpu k ls)) = 0" by (simp add: aggregate_of_fields)
  moreover have "failed [] = 0" "total_time [] = 0" "durations [] = []"
    by (simp_all add: failed_def total_time_def durations_def)
  ultimately show ?thesis
    using assms(1) True by (simp add: group_counts_def up_to_cpu_Suc add_aggregate_def add_value_def)
next
  case False
  let ?a = "aggregate_of (on_cpu k ls)"
  have small: "length (on_cpu k ls) < 2 ^ 64" "total_time (on_cpu k ls) < 2 ^ 64"
    using assms(2,3) length_filter_le [of _ ls] total_time_filter [of _ ls]
    unfolding on_cpu_def by (meson le_less_trans)+
  have both: "length (up_to_cpu k ls) + length (on_cpu k ls) < 2 ^ 64" "total_time (up_to_cpu k ls) + total_time (on_cpu k ls) < 2 ^ 64"
    using assms(2,3) length_filter_le [of _ ls] total_time_filter [of _ ls]
    unfolding up_to_cpu_Suc(1,3) [symmetric] unfolding up_to_cpu_def by (meson le_less_trans)+
  note vals = aggregate_values [OF small] and g = assms(1) [unfolded group_counts_def]
  have "xa_count ?a \<noteq> 0" using False vals(1) by auto
  then have "add_aggregate g ?a = g\<lparr>ra_count := saturating_add (ra_count g) (xa_count ?a),
      ra_errors := saturating_add (ra_errors g) (xa_errors ?a),
      ra_total_duration_ns := saturating_add (ra_total_duration_ns g) (xa_total_duration_ns ?a),
      ra_min_duration_ns := min (ra_min_duration_ns g) (xa_min_duration_ns ?a),
      ra_max_duration_ns := max (ra_max_duration_ns g) (xa_max_duration_ns ?a)\<rparr>"
    by (simp add: add_aggregate_def add_value_def)
  moreover have "unat (saturating_add (ra_errors g) (xa_errors ?a)) = failed (up_to_cpu (Suc k) ls)"
    using g vals both failed_length [of "up_to_cpu k ls"] failed_length [of "on_cpu k ls"]
    by (subst saturating_add_exact) (simp_all add: up_to_cpu_Suc)
  moreover have "max (ra_max_duration_ns g) (xa_max_duration_ns ?a) = Max (insert 0 (set (durations (up_to_cpu (Suc k) ls))))"
    using g vals(4) by (simp add: up_to_cpu_Suc Max_Un [symmetric])
  moreover have "min (ra_min_duration_ns g) (xa_min_duration_ns ?a) = Min (insert (- 1) (set (durations (up_to_cpu (Suc k) ls))))"
    if "0 \<notin> set (durations (up_to_cpu (Suc k) ls))"
  proof -
    have "set (durations (on_cpu k ls)) \<noteq> {}" using False by (simp add: durations_def)
    then have "Min (insert (- 1) (set (durations (up_to_cpu k ls))) \<union> set (durations (on_cpu k ls))) =
        min (Min (insert (- 1) (set (durations (up_to_cpu k ls))))) (Min (set (durations (on_cpu k ls))))"
      by (intro Min_Un) simp_all
    with that g aggregate_of_min [OF _ False] show ?thesis by (simp add: up_to_cpu_Suc)
  qed
  moreover have "unat (saturating_add (ra_count g) (xa_count ?a)) = length (up_to_cpu (Suc k) ls)"
    "unat (saturating_add (ra_total_duration_ns g) (xa_total_duration_ns ?a)) = total_time (up_to_cpu (Suc k) ls)"
    using g vals(1,3) both by (subst saturating_add_exact; simp add: up_to_cpu_Suc)+
  ultimately show ?thesis by (simp add: group_counts_def)
qed

lemma summed_group:
  assumes "length ls < 2 ^ 64" "total_time ls < 2 ^ 64" "\<forall>l \<in> set ls. lf_cpu l < processors" "ls \<noteq> []"
    and "sum_group number (map aggregate_bytes (map (\<lambda>cpu. aggregate_of (on_cpu cpu ls)) [0..<processors])) = Ok g"
  shows "group_counts ls g \<and> ra_syscall_number g = number"
proof -
  define f where "f k = foldl add_aggregate (new_group number) (map (\<lambda>cpu. aggregate_of (on_cpu cpu ls)) [0..<k])" for k
  have counts: "group_counts (up_to_cpu k ls) (f k) \<and> ra_syscall_number (f k) = number" for k
  proof (induction k)
    case 0
    show ?case
      by (simp add: f_def group_counts_def up_to_cpu_def new_group_def failed_def total_time_def durations_def)
  next
    case (Suc k)
    then show ?case
      using add_aggregate_counts [OF _ assms(1,2), of k "f k"] by (simp add: f_def add_aggregate_def add_value_def)
  qed
  have all: "up_to_cpu processors ls = ls" using assms(3) by (simp add: up_to_cpu_def filter_id_conv)
  have "ra_count (f processors) \<noteq> 0"
    using counts [of processors] assms(4) by (auto simp: all group_counts_def)
  with assms(5) have "g = f processors" by (simp add: sum_group_def sum_values_bytes f_def del: map_map)
  with counts [of processors] show ?thesis by (simp add: all)
qed

section \<open>From the programs to the report\<close>

definition group_entry ::
  "u32 \<times> xprobe_syscall_aggregate list \<Rightarrow> bytes \<times> (libbpf_kind + bytes list option)" where
  "group_entry = (\<lambda>(number, per_cpu). (u32_bytes number, Inr (Some (map aggregate_bytes per_cpu))))"

text \<open>The maps the collector reads are those the programs left, the groups in any order.\<close>

definition reads_maps :: "aggregate_object \<Rightarrow> aggregate_maps \<Rightarrow> bool" where
  "reads_maps ao maps =
     ((\<exists>groups. mset groups = mset (am_groups maps) \<and> ao_groups ao = map group_entry groups) \<and>
      lb_lookup (ao_lb ao) ''syscall_aggregate_summary'' = Inr (map_option summary_bytes (am_summary maps)) \<and>
      ao_inflight ao = length (am_inflight maps))"

lemma read_group_entry: "read_group (group_entry (number, per_cpu)) = sum_group number (map aggregate_bytes per_cpu)"
  by (simp add: read_group_def group_entry_def decode_u32_def u32_round_trip)

lemma read_summary_bytes:
  assumes "read_summary ao = Ok vals" "lb_lookup (ao_lb ao) ''syscall_aggregate_summary'' = Inr (Some (summary_bytes s))"
  shows "vals = [su_entries s, su_exits s, su_unmatched_exits s, su_dropped_aggregates s]"
  using assms by (auto simp: read_summary_def summary_bytes_def decode_u64_fields_concat rust_simps
      simp del: concat.simps list.map)

lemma read_capture_facts:
  assumes "read_capture ao = Ok capture" "reads_maps ao maps" "am_summary maps = Some s"
  obtains groups where "mset groups = mset (am_groups maps)"
    "\<exists>gs. sa_groups capture = sort_key capture_rank gs \<and>
      list_all2 (\<lambda>(number, per_cpu) g. sum_group number (map aggregate_bytes per_cpu) = Ok g) groups gs"
    "sa_observed_entries capture = su_entries s" "sa_matched_exits capture = su_exits s"
    "sa_unmatched_exits capture = su_unmatched_exits s" "sa_dropped_aggregates capture = su_dropped_aggregates s"
    "sa_inflight_at_end capture = u64_of_len (length (am_inflight maps))"
proof -
  from assms(1) obtain gs vals where read: "rcollect read_group (ao_groups ao) = Ok gs" "read_summary ao = Ok vals"
    and capture: "capture = \<lparr>sa_groups = sort_key capture_rank gs, sa_observed_entries = vals ! 0,
         sa_matched_exits = vals ! 1, sa_unmatched_exits = vals ! 2, sa_dropped_aggregates = vals ! 3,
         sa_inflight_at_end = (if ao_inflight ao < 2 ^ 64 then of_nat (ao_inflight ao) else - 1)\<rparr>"
    unfolding read_capture_def by (elim rbind_OkE) (rule that, assumption, assumption, simp)
  from assms(2) obtain groups where groups: "mset groups = mset (am_groups maps)" "ao_groups ao = map group_entry groups"
    by (auto simp: reads_maps_def)
  have "vals = [su_entries s, su_exits s, su_unmatched_exits s, su_dropped_aggregates s]"
    using assms(2,3) by (intro read_summary_bytes [OF read(2)]) (simp add: reads_maps_def)
  moreover have "list_all2 (\<lambda>(number, per_cpu) g. sum_group number (map aggregate_bytes per_cpu) = Ok g) groups gs"
    using read(1) by (simp add: groups(2) rcollect_Ok_iff list_all2_map1 case_prod_unfold flip: read_group_entry)
  ultimately show ?thesis
    using assms(2) groups(1) by (intro that [of groups]) (auto simp: capture reads_maps_def u64_of_len_def)
qed

lemma of_group_partition:
  assumes "finite N" "lf_number ` set history \<subseteq> N"
  shows "(\<Sum>n\<in>N. length (of_group n history)) = length history"
  using assms(2)
proof (induction history)
  case (Cons l history)
  have "(\<Sum>n\<in>N. length (of_group n (l # history))) = (\<Sum>n\<in>N. (if n = lf_number l then 1 else 0) + length (of_group n history))"
    by (intro sum.cong) (auto simp: of_group_def)
  also have "\<dots> = 1 + length history"
    using Cons assms(1) by (simp add: sum.distrib)
  finally show ?case by simp
qed (simp add: of_group_def)

lemma list_all2_map_eq: "list_all2 (\<lambda>x y. f x = g y) xs ys \<Longrightarrow> map f xs = map g ys"
  by (induction rule: list_all2_induct) simp_all

lemma of_group_small:
  "length (of_group number history) \<le> length history" "total_time (of_group number history) \<le> total_time history"
  by (simp_all add: of_group_def total_time_filter)

lemma groups_of_capture:
  assumes "groups_ok processors history (am_groups maps)" "mset groups = mset (am_groups maps)"
    and "length history < 2 ^ 64" "total_time history < 2 ^ 64"
    and "list_all2 (\<lambda>(number, per_cpu) g. sum_group number (map aggregate_bytes per_cpu) = Ok g) groups gs"
  shows "\<forall>g \<in> set gs. group_counts (of_group (ra_syscall_number g) history) g \<and> ra_count g \<noteq> 0"
    and "distinct (map ra_syscall_number gs)" "ra_syscall_number ` set gs = lf_number ` set history"
proof -
  have entry: "of_group number history \<noteq> [] \<and>
      per_cpu = map (\<lambda>cpu. aggregate_of (on_cpu cpu (of_group number history))) [0..<processors]"
    if "(number, per_cpu) \<in> set groups" for number per_cpu
  proof -
    from that assms(2) have "(number, per_cpu) \<in> set (am_groups maps)" by (metis set_mset_mset)
    moreover have "distinct (map fst (am_groups maps))"
      and m: "map_of (am_groups maps) number = (if of_group number history = [] then None
         else Some (map (\<lambda>cpu. aggregate_of (on_cpu cpu (of_group number history))) [0..<processors]))"
      using assms(1) unfolding groups_ok_def by blast+
    ultimately have "map_of (am_groups maps) number = Some per_cpu" by (intro map_of_is_SomeI)
    with m show ?thesis by (simp split: if_splits)
  qed
  have one: "group_counts (of_group number history) g \<and> ra_syscall_number g = number \<and> ra_count g \<noteq> 0"
    if "(number, per_cpu) \<in> set groups" "sum_group number (map aggregate_bytes per_cpu) = Ok g" for number per_cpu g
  proof -
    let ?ls = "of_group number history"
    have "group_counts ?ls g \<and> ra_syscall_number g = number"
    proof (rule summed_group)
      show "length ?ls < 2 ^ 64" "total_time ?ls < 2 ^ 64"
        using of_group_small [of number history] assms(3,4) by linarith+
      show "\<forall>l \<in> set ?ls. lf_cpu l < processors" using assms(1) by (simp add: groups_ok_def of_group_def)
    qed (use entry [OF that(1)] that(2) in simp_all)
    with entry [OF that(1)] show ?thesis by (auto simp: group_counts_def)
  qed
  have rel: "list_all2 (\<lambda>x g. group_counts (of_group (ra_syscall_number g) history) g \<and> fst x = ra_syscall_number g \<and> ra_count g \<noteq> 0) groups gs"
    using assms(5) by (rule list.rel_mono_strong) (use one in fastforce)
  then show "\<forall>g \<in> set gs. group_counts (of_group (ra_syscall_number g) history) g \<and> ra_count g \<noteq> 0"
    by (auto simp: list_all2_conv_all_nth in_set_conv_nth)
  have numbers: "map fst groups = map ra_syscall_number gs"
    by (rule list_all2_map_eq, rule list.rel_mono_strong [OF rel]) simp
  have same: "mset (map fst groups) = mset (map fst (am_groups maps))" using assms(2) by simp
  have "distinct (map fst groups)"
    using assms(1) mset_eq_imp_distinct_iff [OF same] by (simp add: groups_ok_def)
  then show "distinct (map ra_syscall_number gs)" by (simp add: numbers)
  have "set (map fst groups) = lf_number ` set history"
  proof -
    have "set (map fst groups) = dom (map_of (am_groups maps))"
      using mset_eq_setD [OF same] by (simp add: dom_map_of_conv_image_fst)
    also have "\<dots> = lf_number ` set history"
      using assms(1) by (auto simp: groups_ok_def dom_def of_group_def filter_empty_conv split: if_splits)
    finally show ?thesis .
  qed
  then show "ra_syscall_number ` set gs = lf_number ` set history" by (simp add: numbers)
qed

text \<open>What a reported group says of the lifecycles of its call.\<close>

definition reports_calls :: "call_lifecycle list \<Rightarrow> syscall_aggregate_group \<Rightarrow> bool" where
  "reports_calls ls g =
     (unat (sg_count g) = length ls \<and> unat (sg_errors g) = failed ls \<and>
      unat (ad_total (sg_duration_ns g)) = total_time ls \<and>
      ad_max (sg_duration_ns g) = Max (set (durations ls)) \<and>
      ad_mean (sg_duration_ns g) = ratio (total_time ls) (length ls) \<and>
      (0 \<notin> set (durations ls) \<longrightarrow> ad_min (sg_duration_ns g) = Min (set (durations ls))))"

lemma Max_insert_0: "S \<noteq> {} \<Longrightarrow> finite S \<Longrightarrow> Max (insert (0 :: u64) S) = Max S"
  by (simp add: max_absorb2)

lemma Min_insert_max: "S \<noteq> {} \<Longrightarrow> finite S \<Longrightarrow> Min (insert (- 1 :: u64) S) = Min S"
  by (simp add: min_absorb2)

lemma reports_calls_normalize:
  assumes "group_counts ls g" "ls \<noteq> []"
  shows "reports_calls ls (normalize_group (raw_group_of g))"
proof -
  have "set (durations ls) \<noteq> {}" using assms(2) by (simp add: durations_def)
  with assms(1) show ?thesis
    by (simp add: reports_calls_def normalize_group_def raw_group_of_def group_counts_def Let_def
        Max_insert_0 Min_insert_max)
qed

lemma analyze_facts:
  assumes "syscall_aggregate_analyze os report spec sid (capture_data_of capture) t = (Ok result, t')"
    and "\<forall>g \<in> set (sa_groups capture). ra_count g \<noteq> 0"
  shows "sn_groups (sar_inventory result) = sort_key group_rank (map (normalize_group \<circ> raw_group_of) (sa_groups capture))"
    and "sc_matched_exits (sar_collection result) = sa_matched_exits capture"
    and "sc_observed_entries (sar_collection result) = sa_observed_entries capture"
    and "sc_unmatched_exits (sar_collection result) = sa_unmatched_exits capture"
    and "sc_inflight_at_end (sar_collection result) = sa_inflight_at_end capture"
    and "sc_dropped_aggregates (sar_collection result) = sa_dropped_aggregates capture"
    and "sc_completeness (sar_collection result) = SAC_Complete \<longleftrightarrow>
      sa_unmatched_exits capture = 0 \<and> sa_inflight_at_end capture = 0 \<and> sa_dropped_aggregates capture = 0"
proof -
  have keep: "filter (\<lambda>g. rs_count g \<noteq> 0) (map raw_group_of (sa_groups capture)) = map raw_group_of (sa_groups capture)"
    using assms(2) by (auto simp: filter_map o_def raw_group_of_def intro: filter_True)
  have "result = aggregate_report report spec sid (capture_data_of capture)"
    using assms(1) by (auto simp: syscall_aggregate_analyze_def io_simps)
  note result = this [unfolded aggregate_report_def Let_def]
  show "sn_groups (sar_inventory result) = sort_key group_rank (map (normalize_group \<circ> raw_group_of) (sa_groups capture))"
    by (simp add: result ranked_groups_def capture_data_of_def keep)
  show "sc_matched_exits (sar_collection result) = sa_matched_exits capture"
    "sc_observed_entries (sar_collection result) = sa_observed_entries capture"
    "sc_unmatched_exits (sar_collection result) = sa_unmatched_exits capture"
    "sc_inflight_at_end (sar_collection result) = sa_inflight_at_end capture"
    "sc_dropped_aggregates (sar_collection result) = sa_dropped_aggregates capture"
    "sc_completeness (sar_collection result) = SAC_Complete \<longleftrightarrow>
      sa_unmatched_exits capture = 0 \<and> sa_inflight_at_end capture = 0 \<and> sa_dropped_aggregates capture = 0"
    by (simp_all add: result capture_data_of_def)
qed

lemma reached_summary:
  assumes "aggregate_reaches processors c n maps history lost" "n < 2 ^ 64"
  obtains s where "am_summary maps = Some s" "unat (su_entries s) = unat (su_exits s) + length (am_inflight maps) + lost"
    "length history \<le> unat (su_exits s)" "unat (su_exits s) \<le> length history + unat (su_dropped_aggregates s)"
    "unat (su_entries s) \<le> n" "length history \<le> n"
  using accountedE [OF reaches_accounted [OF assms(1)]]
proof cases
  case (1 e x u d)
  have u: "unat (of_nat k :: u64) = k" if "k \<le> n" for k
    using that assms(2) by (simp add: unsigned_of_nat take_bit_nat_eq_self)
  show ?thesis
    by (rule that [OF 1(1)]) (use 1(3-) in \<open>simp_all add: u del: of_nat_add\<close>)
qed


text \<open>An example: one call that takes 5 ns.\<close>

definition example_aggregate_config :: xprobe_syscall_aggregate_config where
  "example_aggregate_config = \<lparr>ac_pidns_dev = 3, ac_pidns_ino = 4, ac_target_pid = 42, ac_armed = 1\<rparr>"

definition example_call :: call_lifecycle where
  "example_call = \<lparr>lf_number = 0, lf_cpu = 0, lf_duration = 5, lf_return = 3\<rparr>"

definition example_aggregate_maps :: aggregate_maps where
  "example_aggregate_maps =
     \<lparr>am_config = Some example_aggregate_config, am_inflight = [],
      am_groups = [(0, [\<lparr>xa_count = 1, xa_errors = 0, xa_total_duration_ns = 5, xa_min_duration_ns = 5,
        xa_max_duration_ns = 5\<rparr>])],
      am_summary = Some \<lparr>su_entries = 1, su_exits = 1, su_unmatched_exits = 0, su_dropped_aggregates = 0\<rparr>\<rparr>"

definition example_object :: aggregate_object where
  "example_object =
     \<lparr>ao_lb = example_libbpf\<lparr>lb_lookup := \<lambda>_. Inr (map_option summary_bytes (am_summary example_aggregate_maps))\<rparr>,
      ao_groups = map group_entry (am_groups example_aggregate_maps), ao_inflight = 0, ao_duration_ok = True\<rparr>"

abbreviation "example_insertion evicted \<equiv> \<lparr>in_ok = True, in_evicted = evicted\<rparr>"

abbreviation "example_entered \<equiv>
  xprobe_aggregate_syscall_entry (example_run 42 10 True) (example_insertion []) 0 (initial_maps example_aggregate_config)"

lemma example_target:
  "xprobe_target_syscall_aggregate (example_run 42 t r) (Some example_aggregate_config) = Some (42, 8)"
  by (simp add: xprobe_target_syscall_aggregate_def example_aggregate_config_def example_run_def)

lemma example_entry:
  "example_entered = \<lparr>am_config = Some example_aggregate_config,
      am_inflight = [(8, \<lparr>st_timestamp_ns = 10, st_syscall_number = 0\<rparr>)], am_groups = [],
      am_summary = Some \<lparr>su_entries = 1, su_exits = 0, su_unmatched_exits = 0, su_dropped_aggregates = 0\<rparr>\<rparr>"
  by (simp add: xprobe_aggregate_syscall_entry_def initial_maps_def example_target
      xprobe_count_syscall_summary_def count_entries_def Let_def) (simp add: example_run_def)

lemma example_entry_reached: "aggregate_reaches 1 example_aggregate_config (Suc 0) example_entered [] 0"
proof -
  have "lost_starts (example_run 42 10 True) (example_insertion []) 0 (initial_maps example_aggregate_config) = 0"
    by (simp add: initial_maps_def example_target lost_starts_def)
  with reach_entry [OF reach_initial, of 1 example_aggregate_config "example_run 42 10 True" "example_insertion []" 0]
  show ?thesis by simp
qed

lemma example_reached: "aggregate_reaches 1 example_aggregate_config 2 example_aggregate_maps [example_call] 0"
proof -
  have exit: "xprobe_aggregate_syscall_exit 1 (example_run 42 15 True) True 3 example_entered = example_aggregate_maps"
    and finished: "completed (example_run 42 15 True) True 3 example_entered = [example_call]"
    unfolding example_entry
    by (simp_all add: xprobe_aggregate_syscall_exit_def completed_def example_target xprobe_count_syscall_summary_def
        count_exits_def Let_def inserted_group_def example_aggregate_maps_def example_call_def)
      (simp_all add: example_run_def add_lifecycle_def empty_aggregate_def)
  have cpu: "unat (hp_cpu (example_run 42 15 True)) < 1" by (simp add: example_run_def)
  from reach_exit [OF example_entry_reached cpu, of True 3, unfolded exit finished] show ?thesis
    by (simp add: numeral_2_eq_2)
qed

lemma read_groups_ok: "\<exists>gs. rcollect read_group (map group_entry groups) = Ok gs"
proof (induction groups)
  case (Cons x groups)
  obtain number per_cpu where x: "x = (number, per_cpu)" by fastforce
  have "\<exists>g. read_group (group_entry x) = Ok g" by (simp add: x read_group_entry sum_group_def sum_values_bytes)
  with Cons show ?case by auto
qed simp

lemma example_read: "\<exists>capture. read_capture example_object = Ok capture"
proof -
  have "decode_u64_fields 4 name (summary_bytes s) =
      Ok [su_entries s, su_exits s, su_unmatched_exits s, su_dropped_aggregates s]" for name s
    unfolding summary_bytes_def by (rule decode_u64_fields_concat) simp
  moreover obtain gs where "rcollect read_group (map group_entry (am_groups example_aggregate_maps)) = Ok gs"
    using read_groups_ok by blast
  ultimately show ?thesis
    by (simp add: read_capture_def example_object_def aggregate_member_def example_libbpf_def read_summary_def)
      (simp add: example_aggregate_maps_def)
qed


section \<open>Selector hints\<close>

text \<open>The two tables of the core crate list the same calls; only \<open>gettid\<close> stands at another place.\<close>

lemma syscall_tables: "map (\<lambda>(number, name). (name, number)) syscall_names =
  take 40 syscall_table @ syscall_table ! 43 # take 3 (drop 40 syscall_table) @ drop 44 syscall_table"
  by (simp add: syscall_names_def syscall_table_def)

lemma distinct_syscall_table: "distinct (map fst syscall_table)"
  by (simp add: syscall_table_def)

lemma syscall_number_of_name:
  assumes "syscall_name number = Some name"
  shows "syscall_number name = Some number"
proof -
  have "(name, number) \<in> set (map (\<lambda>(number, name). (name, number)) syscall_names)"
    using map_of_SomeD [OF assms [unfolded syscall_name_def]] by force
  then have "(name, number) \<in> set syscall_table"
    unfolding syscall_tables by (auto dest: in_set_takeD in_set_dropD simp: syscall_table_def)
  then show ?thesis by (simp add: syscall_number_def distinct_syscall_table)
qed

lemma syscall_names_valid: "list_all (\<lambda>(number, name). valid_tracepoint_component name) syscall_names"
  by code_simp

lemma syscall_hint_parses:
  assumes "syscall_name number = Some name" "boundary = ''entry'' \<and> event_type = ET_SyscallEntry \<and> kind = EK_SyscallEntry name \<or>
    boundary = ''exit'' \<and> event_type = ET_SyscallExit \<and> kind = EK_SyscallExit name"
  shows "parse_linux_selector (''syscall:'' @ name @ '':'' @ boundary) =
    Ok (\<lparr>rl_event_type = event_type, rl_probe_kind = HP_Syscall, rl_category = ''syscalls'', rl_name = name,
         rl_syscall_number = Some number, rl_binary_path = None, rl_provider = None\<rparr>, kind)"
proof -
  have valid: "valid_tracepoint_component name"
    using map_of_SomeD [OF assms(1) [unfolded syscall_name_def]] syscall_names_valid by (auto simp: list_all_iff)
  have "\<not> is_ascii_alphanumeric CHR '':''" by code_simp
  with valid have "CHR '':'' \<notin> set name" by (auto simp: valid_tracepoint_component_def list_all_iff)
  moreover have "CHR '':'' \<notin> set boundary" using assms(2) by auto
  ultimately have "split_on (CHR '':'') (''syscall:'' @ name @ '':'' @ boundary) = [''syscall'', name, boundary]"
    using split_on_append [of "CHR '':''" "''syscall''" "name @ '':'' @ boundary"] by simp
  with valid assms(2) syscall_number_of_name [OF assms(1)] show ?thesis
    by (auto simp: parse_linux_selector_def Let_def target_arch_def ok_or_def)
qed

text \<open>C37: The selector hints of an inventory can be used as they are: the entry and exit hints of a reported group are
  accepted by the parser of the validator as the entry and the exit of the system call with the number of
  the group.\<close>

theorem aggregate_hints_resolve:
  assumes "sg_syscall_name (normalize_group g) = Some name"
  shows "\<exists>entry exit. sg_entry_selector_hint (normalize_group g) = Some entry \<and>
    sg_exit_selector_hint (normalize_group g) = Some exit \<and>
    (\<exists>s. parse_linux_selector entry = Ok (s, EK_SyscallEntry name) \<and> rl_event_type s = ET_SyscallEntry \<and>
       rl_syscall_number s = Some (rs_syscall_number g)) \<and>
    (\<exists>s. parse_linux_selector exit = Ok (s, EK_SyscallExit name) \<and> rl_event_type s = ET_SyscallExit \<and>
       rl_syscall_number s = Some (rs_syscall_number g))"
proof -
  from assms have name: "syscall_name (rs_syscall_number g) = Some name" by (simp add: normalize_group_def Let_def)
  have "sg_entry_selector_hint (normalize_group g) = Some (''syscall:'' @ name @ '':'' @ ''entry'')"
    "sg_exit_selector_hint (normalize_group g) = Some (''syscall:'' @ name @ '':'' @ ''exit'')"
    by (simp_all add: normalize_group_def Let_def name)
  with syscall_hint_parses [OF name, of "''entry''" ET_SyscallEntry] syscall_hint_parses [OF name, of "''exit''" ET_SyscallExit]
  show ?thesis by auto
qed

theorem aggregate_hints_resolve_witness:
  "\<exists>g name s. sg_syscall_name (normalize_group g) = Some name \<and> name = ''futex'' \<and>
     parse_linux_selector (''syscall:'' @ name @ '':entry'') = Ok (s, EK_SyscallEntry name) \<and>
     rl_syscall_number s = Some 202"
proof -
  let ?g = "\<lparr>rs_syscall_number = 202, rs_count = 1, rs_errors = 0, rs_total_duration_ns = 1, rs_min_duration_ns = 1,
    rs_max_duration_ns = 1\<rparr>"
  have name: "sg_syscall_name (normalize_group ?g) = Some ''futex''"
    by (simp add: normalize_group_def syscall_name_def syscall_names_def)
  have "sg_entry_selector_hint (normalize_group ?g) = Some (''syscall:'' @ ''futex'' @ '':entry'')"
    by (simp add: normalize_group_def syscall_name_def syscall_names_def)
  with aggregate_hints_resolve [OF name] obtain s where
    "parse_linux_selector (''syscall:'' @ ''futex'' @ '':entry'') = Ok (s, EK_SyscallEntry ''futex'')"
    "rl_syscall_number s = Some 202" by auto
  with name show ?thesis by blast
qed

section \<open>Arming and losses\<close>

lemma aggregate_config_armed:
  assumes "aggregate_config_bytes namespace request = Ok config" "set_armed ao (Some config) armed = Ok stored"
  shows "xprobe_syscall_aggregate_config_of stored =
    \<lparr>ac_pidns_dev = md_dev namespace, ac_pidns_ino = md_ino namespace, ac_target_pid = ti_pid (aq_target request),
     ac_armed = of_bool armed\<rparr>"
proof -
  have config: "config = u64_bytes (md_dev namespace) @ u64_bytes (md_ino namespace) @
      u32_bytes (ti_pid (aq_target request)) @ u32_bytes 0"
    using assms(1) by (simp add: aggregate_config_bytes_def copy_at_def u32_bytes_0 del: copy_at_Ok)
  have "copy_at 20 (u32_bytes (of_bool armed)) config = (Ok stored :: (_, syscall_collector_error) rresult)"
    using assms(2) unfolding set_armed_def by (elim rbind_OkE) (auto simp: rust_simps ok_or_def split: if_splits)
  then have "stored = u64_bytes (md_dev namespace) @ u64_bytes (md_ino namespace) @
      u32_bytes (ti_pid (aq_target request)) @ u32_bytes (of_bool armed)"
    by (simp add: copy_at_def config del: copy_at_Ok)
  then show ?thesis by (simp add: xprobe_syscall_aggregate_config_of_def field_at_skip)
qed

text \<open>Nothing is counted once the collector has disarmed the programs, or in another process.\<close>

lemma disarmed_idle:
  assumes "am_config maps = Some c" "ac_armed c = 0 \<or> (\<forall>tid. hp_namespace hp (ac_pidns_dev c) (ac_pidns_ino c) \<noteq> Some (ac_target_pid c, tid))"
  shows "xprobe_aggregate_syscall_entry hp ins nr maps = maps" "xprobe_aggregate_syscall_exit k hp ok ret maps = maps"
proof -
  have "xprobe_target_syscall_aggregate hp (am_config maps) = None"
    using assms by (auto simp: xprobe_target_syscall_aggregate_def split: option.splits)
  then show "xprobe_aggregate_syscall_entry hp ins nr maps = maps" "xprobe_aggregate_syscall_exit k hp ok ret maps = maps"
    by (simp_all add: xprobe_aggregate_syscall_entry_def xprobe_aggregate_syscall_exit_def)
qed

lemma reported_counters:
  assumes "reads_maps ao maps" "am_summary maps = Some s" "read_capture ao = Ok capture"
    and "syscall_aggregate_analyze os report spec sid (capture_data_of capture) t = (Ok result, t')"
  shows "sc_observed_entries (sar_collection result) = su_entries s"
    and "sc_matched_exits (sar_collection result) = su_exits s"
    and "sc_completeness (sar_collection result) = (if su_unmatched_exits s = 0 \<and>
      u64_of_len (length (am_inflight maps)) = 0 \<and> su_dropped_aggregates s = 0 then SAC_Complete else SAC_Incomplete)"
proof -
  have "result = aggregate_report report spec sid (capture_data_of capture)"
    using assms(4) by (auto simp: syscall_aggregate_analyze_def io_simps)
  note result = this [unfolded aggregate_report_def Let_def capture_data_of_def]
  have "sa_observed_entries capture = su_entries s" "sa_matched_exits capture = su_exits s"
    "sa_unmatched_exits capture = su_unmatched_exits s" "sa_dropped_aggregates capture = su_dropped_aggregates s"
    "sa_inflight_at_end capture = u64_of_len (length (am_inflight maps))"
    by (rule read_capture_facts [OF assms(3,1,2)], assumption)+
  then show "sc_observed_entries (sar_collection result) = su_entries s"
    "sc_matched_exits (sar_collection result) = su_exits s"
    "sc_completeness (sar_collection result) = (if su_unmatched_exits s = 0 \<and>
      u64_of_len (length (am_inflight maps)) = 0 \<and> su_dropped_aggregates s = 0 then SAC_Complete else SAC_Incomplete)"
    by (simp_all add: result)
qed

text \<open>
  A start that the least-recently-used table evicts leaves no trace in the counters the report looks at: thread 8 enters
  a call, the entry of thread 9 evicts its start, thread 9 returns. The report is complete, with two entries and one exit.
\<close>

lemma lost_start_complete:
  "\<exists>maps history. aggregate_reaches 1 example_aggregate_config 3 maps history 1 \<and>
     (\<forall>ao capture os report spec sid t result t'. reads_maps ao maps \<longrightarrow> read_capture ao = Ok capture \<longrightarrow>
        syscall_aggregate_analyze os report spec sid (capture_data_of capture) t = (Ok result, t') \<longrightarrow>
        sc_completeness (sar_collection result) = SAC_Complete \<and>
        sc_observed_entries (sar_collection result) = 2 \<and> sc_matched_exits (sar_collection result) = 1)"
proof -
  define run9 where "run9 time = (example_run 42 time True)\<lparr>hp_namespace := \<lambda>_ _. Some (42, 9)\<rparr>" for time
  let ?m2 = "xprobe_aggregate_syscall_entry (run9 11) (example_insertion [8]) 0 example_entered"
  let ?m3 = "xprobe_aggregate_syscall_exit 1 (run9 12) True 0 ?m2"
  let ?h = "[\<lparr>lf_number = 0, lf_cpu = 0, lf_duration = 1, lf_return = 0\<rparr>]"
  have run9: "xprobe_target_syscall_aggregate (run9 t) (Some example_aggregate_config) = Some (42, 9)"
    "hp_ktime (run9 t) = t" "hp_cpu (run9 t) = 0" for t
    by (simp_all add: xprobe_target_syscall_aggregate_def example_aggregate_config_def example_run_def run9_def)
  have m2: "?m2 = \<lparr>am_config = Some example_aggregate_config,
      am_inflight = [(9, \<lparr>st_timestamp_ns = 11, st_syscall_number = 0\<rparr>)], am_groups = [],
      am_summary = Some \<lparr>su_entries = 2, su_exits = 0, su_unmatched_exits = 0, su_dropped_aggregates = 0\<rparr>\<rparr>"
    and lost: "lost_starts (run9 11) (example_insertion [8]) 0 example_entered = 1"
    unfolding example_entry by (simp_all add: xprobe_aggregate_syscall_entry_def run9 lost_starts_def
        xprobe_count_syscall_summary_def count_entries_def Let_def)
  have m3: "am_inflight ?m3 = []"
      "am_summary ?m3 = Some \<lparr>su_entries = 2, su_exits = 1, su_unmatched_exits = 0, su_dropped_aggregates = 0\<rparr>"
    and h: "completed (run9 12) True 0 ?m2 = ?h"
    unfolding m2 by (simp_all add: xprobe_aggregate_syscall_exit_def completed_def run9
        xprobe_count_syscall_summary_def count_exits_def Let_def inserted_group_def)
  have "aggregate_reaches 1 example_aggregate_config (Suc (Suc 0)) ?m2 [] 1"
    using reach_entry [OF example_entry_reached, of "run9 11" "example_insertion [8]" 0] by (simp add: lost)
  from reach_exit [OF this, of "run9 12" True 0] have reach: "aggregate_reaches 1 example_aggregate_config 3 ?m3 ?h 1"
    by (simp add: run9 h numeral_3_eq_3)
  show ?thesis
    by (intro exI conjI allI impI, rule reach)
      (simp_all add: reported_counters [OF _ m3(2)] m3(1) u64_of_len_def del: One_nat_def)
qed

end
