(* ===== verification/Inject.thy ===== *)
theory Inject
  imports Resolve
begin

unbundle bit_operations_syntax

text \<open>
  Loading the CUPTI agent into a running process (core/src/inject.rs). The traced process is a state with its
  registers and its memory. What the kernel does (which operation fails, how many bytes a transfer moves, what a
  wait reports, how often a wait is polled before its deadline) and what the process does while it runs are parameters,
  indexed by the number of the operation. Subtractions on registers wrap, as in a release build.
\<close>

section \<open>The traced process\<close>

record user_regs =
  ur_rip :: u64
  ur_rsp :: u64
  ur_rax :: u64
  ur_rdi :: u64
  ur_rsi :: u64
  ur_rdx :: u64
  ur_rcx :: u64
  ur_r8 :: u64
  ur_r9 :: u64
  ur_others :: "u64 list"

type_synonym memory = "u64 \<Rightarrow> u8"

datatype wait_status = WS_StillAlive | WS_StoppedSegv | WS_Stopped | WS_PtraceEvent | WS_Other

record tracer =
  tr_errno :: "nat \<Rightarrow> string \<Rightarrow> nat option" \<comment> \<open>the failure of an operation\<close>
  tr_moved :: "nat \<Rightarrow> nat \<Rightarrow> nat" \<comment> \<open>bytes moved, of those requested\<close>
  tr_status :: "nat \<Rightarrow> wait_status"
  tr_polls :: "nat \<Rightarrow> nat option" \<comment> \<open>polls before the deadline, if the clock can express it\<close>
  tr_run :: "nat \<Rightarrow> user_regs \<times> memory \<Rightarrow> user_regs \<times> memory" \<comment> \<open>what the process did when it stops\<close>
  tr_raw_errno :: "io_error \<Rightarrow> nat"

record remote =
  rm_operation :: nat
  rm_access :: nat \<comment> \<open>the next access to the system\<close>
  rm_regs :: user_regs
  rm_memory :: memory
  rm_running :: bool
  rm_attached :: bool
  rm_calls :: "(u64 \<times> u64 list \<times> u64) list" \<comment> \<open>the calls that returned: function, arguments, result\<close>

datatype inject_error =
    IJ_Inspect inspect_error
  | IJ_Resolve resolve_error
  | IJ_UnsupportedPlatform
  | IJ_DifferentMountNamespace
  | IJ_InvalidAgent string
  | IJ_MissingRuntimeSymbol string
  | IJ_Operation string nat
  | IJ_UnexpectedStop wait_status
  | IJ_TimedOut
  | IJ_RemoteCallTrap u64
  | IJ_ShortMemoryTransfer nat nat
  | IJ_RemoteCallFailed string u64

fun inject_error_code :: "inject_error \<Rightarrow> error_code" where
  "inject_error_code (IJ_Inspect e) = inspect_error_code e"
| "inject_error_code (IJ_Resolve e) = resolve_error_code e"
| "inject_error_code IJ_DifferentMountNamespace = EC_PermissionDenied"
| "inject_error_code (IJ_Operation _ _) = EC_PermissionDenied"
| "inject_error_code (IJ_UnexpectedStop _) = EC_PermissionDenied"
| "inject_error_code IJ_TimedOut = EC_PermissionDenied"
| "inject_error_code IJ_UnsupportedPlatform = EC_UnsupportedCudaVersion"
| "inject_error_code (IJ_InvalidAgent _) = EC_CuptiNotAvailable"
| "inject_error_code (IJ_MissingRuntimeSymbol _) = EC_CuptiNotAvailable"
| "inject_error_code (IJ_ShortMemoryTransfer _ _) = EC_CuptiNotAvailable"
| "inject_error_code (IJ_RemoteCallFailed _ _) = EC_CuptiNotAvailable"
| "inject_error_code (IJ_RemoteCallTrap _) = EC_CuptiNotAvailable"

definition inject_error_recoverable :: "inject_error \<Rightarrow> bool" where
  "inject_error_recoverable e = (case e of IJ_ShortMemoryTransfer _ _ \<Rightarrow> False | _ \<Rightarrow> True)"

section \<open>Actions on the process\<close>

type_synonym 'a tracing = "remote \<Rightarrow> ('a, inject_error) rresult \<times> remote"

definition rm_lift :: "('a, inject_error) rresult \<Rightarrow> 'a tracing" where
  "rm_lift r = (\<lambda>st. (r, st))"

definition rm_bind :: "'a tracing \<Rightarrow> ('a \<Rightarrow> 'b tracing) \<Rightarrow> 'b tracing" where
  "rm_bind m f = (\<lambda>st. case m st of
     (Ok a, st') \<Rightarrow> f a st'
   | (Err e, st') \<Rightarrow> (Err e, st')
   | (Panic, st') \<Rightarrow> (Panic, st'))"

definition rm_io :: "('a, inject_error) io \<Rightarrow> 'a tracing" where
  "rm_io m = (\<lambda>st. case m (rm_access st) of (r, t) \<Rightarrow> (r, st\<lparr>rm_access := t\<rparr>))"

text \<open>An operation of the kernel and its effect when it succeeds.\<close>

definition operation :: "tracer \<Rightarrow> string \<Rightarrow> (remote \<Rightarrow> remote) \<Rightarrow> unit tracing" where
  "operation tr name effect = (\<lambda>st.
     let st' = st\<lparr>rm_operation := Suc (rm_operation st)\<rparr> in
     case tr_errno tr (rm_operation st) name of
       Some errno \<Rightarrow> (Err (IJ_Operation name errno), st')
     | None \<Rightarrow> (Ok (), effect st'))"

definition getregs :: "tracer \<Rightarrow> string \<Rightarrow> user_regs tracing" where
  "getregs tr name = rm_bind (operation tr name id) (\<lambda>_ st. (Ok (rm_regs st), st))"

definition setregs :: "tracer \<Rightarrow> string \<Rightarrow> user_regs \<Rightarrow> unit tracing" where
  "setregs tr name regs = operation tr name (\<lambda>st. st\<lparr>rm_regs := regs\<rparr>)"

definition read_bytes_at :: "memory \<Rightarrow> u64 \<Rightarrow> nat \<Rightarrow> bytes" where
  "read_bytes_at mem address n = map (\<lambda>i. mem (address + of_nat i)) [0..<n]"

definition write_bytes_at :: "memory \<Rightarrow> u64 \<Rightarrow> bytes \<Rightarrow> memory" where
  "write_bytes_at mem address bs =
     fold (\<lambda>(i, b) mem. mem(address + of_nat i := b)) (enumerate 0 bs) mem"

definition read_memory :: "tracer \<Rightarrow> u64 \<Rightarrow> nat \<Rightarrow> bytes tracing" where
  "read_memory tr address expected = (\<lambda>st.
     rm_bind (operation tr ''read target memory'' id) (\<lambda>_ st'.
       let actual = tr_moved tr (rm_operation st) expected in
       if actual \<noteq> expected then (Err (IJ_ShortMemoryTransfer expected actual), st')
       else (Ok (read_bytes_at (rm_memory st') address expected), st')) st)"

definition write_memory :: "tracer \<Rightarrow> u64 \<Rightarrow> bytes \<Rightarrow> unit tracing" where
  "write_memory tr address buffer = (\<lambda>st.
     let expected = length buffer; actual = tr_moved tr (rm_operation st) expected in
     rm_bind (operation tr ''write target memory''
        (\<lambda>st. st\<lparr>rm_memory := write_bytes_at (rm_memory st) address (take actual buffer)\<rparr>)) (\<lambda>_ st'.
       if actual \<noteq> expected then (Err (IJ_ShortMemoryTransfer expected actual), st') else (Ok (), st')) st)"

text \<open>\<open>waitpid\<close> until the process has changed its state or the deadline has passed.\<close>

definition is_stop :: "wait_status \<Rightarrow> bool" where
  "is_stop status = (status \<in> {WS_Stopped, WS_StoppedSegv, WS_PtraceEvent})"

definition observe_stop :: "tracer \<Rightarrow> nat \<Rightarrow> remote \<Rightarrow> remote" where
  "observe_stop tr n st =
     (if rm_running st \<and> is_stop (tr_status tr n)
      then case tr_run tr n (rm_regs st, rm_memory st) of
        (regs, mem) \<Rightarrow> st\<lparr>rm_regs := regs, rm_memory := mem, rm_running := False\<rparr>
      else st)"

fun wait_polls :: "tracer \<Rightarrow> nat \<Rightarrow> wait_status tracing" where
  "wait_polls tr polls st =
     (case operation tr ''wait for target'' id st of
        (Ok _, st') \<Rightarrow>
          let status = tr_status tr (rm_operation st) in
          if status \<noteq> WS_StillAlive then (Ok status, observe_stop tr (rm_operation st) st')
          else (case polls of 0 \<Rightarrow> (Err IJ_TimedOut, st') | Suc polls' \<Rightarrow> wait_polls tr polls' st')
      | (Err e, st') \<Rightarrow> (Err e, st')
      | (Panic, st') \<Rightarrow> (Panic, st'))"

declare wait_polls.simps [simp del]

definition wait_status_of :: "tracer \<Rightarrow> wait_status tracing" where
  "wait_status_of tr = (\<lambda>st.
     case tr_polls tr (rm_operation st) of
       None \<Rightarrow> (Err IJ_TimedOut, st)
     | Some polls \<Rightarrow> wait_polls tr polls st)"

definition wait_for_stop :: "tracer \<Rightarrow> unit tracing" where
  "wait_for_stop tr =
     rm_bind (wait_status_of tr) (\<lambda>status.
       rm_lift (if is_stop status then Ok () else Err (IJ_UnexpectedStop status)))"

definition wait_for_call :: "tracer \<Rightarrow> unit tracing" where
  "wait_for_call tr =
     rm_bind (wait_status_of tr) (\<lambda>status.
       rm_lift (if status = WS_StoppedSegv then Ok () else Err (IJ_UnexpectedStop status)))"

definition ensure_stopped :: "tracer \<Rightarrow> unit tracing" where
  "ensure_stopped tr = rm_bind (operation tr ''interrupt timed out target'' id) (\<lambda>_. wait_for_stop tr)"

section \<open>Remote calls\<close>

definition attach :: "tracer \<Rightarrow> u32 \<Rightarrow> unit tracing" where
  "attach tr pid =
     rm_bind (rm_lift (if unat pid < 2 ^ 31 then Ok () else Err IJ_UnsupportedPlatform)) (\<lambda>_.
     rm_bind (operation tr ''ptrace seize'' (\<lambda>st. st\<lparr>rm_attached := True, rm_running := True\<rparr>)) (\<lambda>_.
     rm_bind (operation tr ''ptrace interrupt'' id) (\<lambda>_.
     wait_for_stop tr)))"

definition restore_call_state :: "tracer \<Rightarrow> u64 \<Rightarrow> bytes \<Rightarrow> user_regs \<Rightarrow> unit tracing" where
  "restore_call_state tr stack_pointer saved_stack saved_registers =
     rm_bind (write_memory tr stack_pointer saved_stack) (\<lambda>_.
     setregs tr ''restore target registers'' saved_registers)"

definition call_stack_pointer :: "user_regs \<Rightarrow> u64" where
  "call_stack_pointer saved = ((ur_rsp saved - 256) AND NOT 15) - 8"

definition call_registers :: "user_regs \<Rightarrow> u64 \<Rightarrow> u64 list \<Rightarrow> user_regs" where
  "call_registers saved function_address arguments =
     (let padded = arguments @ replicate (6 - length arguments) 0 in
      saved\<lparr>ur_rip := function_address, ur_rsp := call_stack_pointer saved, ur_rax := 0,
            ur_rdi := padded ! 0, ur_rsi := padded ! 1, ur_rdx := padded ! 2, ur_rcx := padded ! 3,
            ur_r8 := padded ! 4, ur_r9 := padded ! 5\<rparr>)"

text \<open>What the wait for the call gives: the result, once the process has faulted at address 0.\<close>

definition execution :: "tracer \<Rightarrow> u64 tracing" where
  "execution tr =
     rm_bind (wait_for_call tr) (\<lambda>_.
     rm_bind (getregs tr ''read remote call result'') (\<lambda>result.
     rm_lift (if ur_rip result \<noteq> 0 then Err (IJ_RemoteCallTrap (ur_rip result)) else Ok (ur_rax result))))"

text \<open>An operation on whose failure the state of the process is restored before the error is returned.\<close>

definition or_restore :: "unit tracing \<Rightarrow> unit tracing \<Rightarrow> unit tracing" where
  "or_restore action restore = (\<lambda>st.
     case action st of
       (Err e, st') \<Rightarrow> rm_bind restore (\<lambda>_. rm_lift (Err e)) st'
     | r \<Rightarrow> r)"

definition finish_call :: "tracer \<Rightarrow> unit tracing \<Rightarrow> u64 tracing" where
  "finish_call tr restore = (\<lambda>st.
     case execution tr st of
       (r, st') \<Rightarrow>
         rm_bind (if r = Err IJ_TimedOut then ensure_stopped tr else rm_lift (Ok ())) (\<lambda>_.
         rm_bind restore (\<lambda>_. rm_lift r)) st')"

definition call :: "tracer \<Rightarrow> u64 \<Rightarrow> u64 list \<Rightarrow> u64 tracing" where
  "call tr function_address arguments =
     (if 6 < length arguments
      then rm_lift (Err (IJ_RemoteCallFailed ''function with more than six arguments'' (of_nat (length arguments))))
      else
        rm_bind (getregs tr ''read target registers'') (\<lambda>saved.
        let stack_pointer = call_stack_pointer saved in
        rm_bind (read_memory tr stack_pointer 8) (\<lambda>saved_stack.
        rm_bind (write_memory tr stack_pointer (replicate 8 0)) (\<lambda>_.
        let restore = restore_call_state tr stack_pointer saved_stack saved in
        rm_bind (or_restore (setregs tr ''write target registers'' (call_registers saved function_address arguments))
          restore) (\<lambda>_.
        rm_bind (or_restore (operation tr ''continue target for remote call'' (\<lambda>st. st\<lparr>rm_running := True\<rparr>))
          restore) (\<lambda>_.
        rm_bind (finish_call tr restore) (\<lambda>result st.
        (Ok result, st\<lparr>rm_calls := rm_calls st @ [(function_address, arguments, result)]\<rparr>))))))))"

definition copy_c_string :: "tracer \<Rightarrow> u64 \<Rightarrow> bytes \<Rightarrow> u64 tracing" where
  "copy_c_string tr malloc bs =
     rm_bind (rm_lift (if length bs + 1 \<le> usize_max then Ok (length bs + 1)
        else Err (IJ_ShortMemoryTransfer usize_max (length bs)))) (\<lambda>len.
     rm_bind (call tr malloc [of_nat len]) (\<lambda>address.
     if address = 0 then rm_lift (Err (IJ_RemoteCallFailed ''malloc'' 0))
     else rm_bind (write_memory tr address (bs @ [0])) (\<lambda>_. rm_lift (Ok address))))"

definition detach :: "tracer \<Rightarrow> unit tracing" where
  "detach tr = operation tr ''ptrace detach'' (\<lambda>st. st\<lparr>rm_attached := False, rm_running := True\<rparr>)"

text \<open>\<open>Drop\<close>: a process that is still attached is detached, whatever the outcome.\<close>

definition with_drop :: "tracer \<Rightarrow> 'a tracing \<Rightarrow> 'a tracing" where
  "with_drop tr m = (\<lambda>st. case m st of (r, st') \<Rightarrow> (r, if rm_attached st' then snd (detach tr st') else st'))"

section \<open>Activation\<close>

definition verify_mount_namespace :: "tracer \<Rightarrow> os \<Rightarrow> process_report \<Rightarrow> (unit, inject_error) io" where
  "verify_mount_namespace tr os report =
     io_bind (io_map_err (\<lambda>source. IJ_Operation ''read local mount namespace'' (tr_raw_errno tr source))
       (fs_read_link os ''/proc/self/ns/mnt'')) (\<lambda>local_namespace.
     if from_utf8_lossy local_namespace \<noteq> pr_mount_namespace report then io_err IJ_DifferentMountNamespace
     else io_ok ())"

definition library_name :: "string \<Rightarrow> string" where
  "library_name path = (case file_name path of Some name \<Rightarrow> name | None \<Rightarrow> '''')"

definition runtime_selector :: "string \<Rightarrow> string \<Rightarrow> string" where
  "runtime_selector path symbol = ''uprobe:'' @ path @ '':'' @ symbol @ '':entry''"

fun runtime_symbol_in ::
  "os \<Rightarrow> process_report \<Rightarrow> string \<Rightarrow> string list \<Rightarrow> (u64, inject_error) io" where
  "runtime_symbol_in os report symbol [] t = (Err (IJ_MissingRuntimeSymbol symbol), t)"
| "runtime_symbol_in os report symbol (path # rest) t =
     (let name = library_name path in
      if \<not> starts_with name ''libc.so'' \<and> \<not> starts_with name ''libdl.so''
      then runtime_symbol_in os report symbol rest t
      else
        (case resolve_run os report (runtime_selector path symbol) t of
           (Ok probe, t') \<Rightarrow> (Ok (rp_runtime_address probe), t')
         | (Err _, t') \<Rightarrow> runtime_symbol_in os report symbol rest t'
         | (Panic, t') \<Rightarrow> (Panic, t')))"

definition resolve_runtime_symbol :: "os \<Rightarrow> process_report \<Rightarrow> string \<Rightarrow> (u64, inject_error) io" where
  "resolve_runtime_symbol os report symbol = runtime_symbol_in os report symbol (pr_loaded_libraries report)"

definition is_agent_library :: "string \<Rightarrow> bool" where
  "is_agent_library path =
     (case file_name path of None \<Rightarrow> False | Some name \<Rightarrow> starts_with name ''libxprobe-cupti.so'')"

definition resolve_agent_symbol :: "os \<Rightarrow> process_report \<Rightarrow> string \<Rightarrow> (u64, inject_error) io" where
  "resolve_agent_symbol os report symbol =
     io_bind (io_lift (ok_or (find is_agent_library (pr_loaded_libraries report)) (IJ_MissingRuntimeSymbol symbol)))
       (\<lambda>path.
     io_bind (io_map_err IJ_Resolve (resolve_run os report (runtime_selector path symbol))) (\<lambda>probe.
     io_ok (rp_runtime_address probe)))"

definition agent_start_symbol :: string where
  "agent_start_symbol = ''xprobe_cupti_agent_start''"

definition rtld_flags :: u64 where
  "rtld_flags = 2 OR 0"

text \<open>The address of the agent's entry point, and the addresses allocated to find it.\<close>

definition load_agent :: "tracer \<Rightarrow> os \<Rightarrow> process_report \<Rightarrow> string \<Rightarrow> u64 \<Rightarrow> (u64 \<times> u64 list) tracing" where
  "load_agent tr os report agent_path malloc =
     rm_bind (rm_io (io_map_err (\<lambda>_. IJ_InvalidAgent agent_path) (fs_canonicalize os agent_path))) (\<lambda>agent_path.
     rm_bind (rm_io (fs_is_file os agent_path)) (\<lambda>is_file.
     rm_bind (rm_lift (if is_file then Ok () else Err (IJ_InvalidAgent agent_path))) (\<lambda>_.
     rm_bind (rm_io (resolve_runtime_symbol os report ''dlopen'')) (\<lambda>dlopen.
     rm_bind (rm_io (resolve_runtime_symbol os report ''dlsym'')) (\<lambda>dlsym.
     rm_bind (copy_c_string tr malloc (bytes_of_string agent_path)) (\<lambda>path_address.
     rm_bind (call tr dlopen [path_address, rtld_flags]) (\<lambda>handle.
     rm_bind (rm_lift (if handle = 0 then Err (IJ_RemoteCallFailed ''dlopen'' handle) else Ok ())) (\<lambda>_.
     rm_bind (copy_c_string tr malloc (bytes_of_string agent_start_symbol)) (\<lambda>symbol_address.
     rm_bind (call tr dlsym [handle, symbol_address]) (\<lambda>start.
     rm_lift (if start = 0 then Err (IJ_RemoteCallFailed ''dlsym'' start)
       else Ok (start, [path_address, symbol_address]))))))))))))"

fun free_all :: "tracer \<Rightarrow> u64 \<Rightarrow> u64 list \<Rightarrow> unit tracing" where
  "free_all tr free [] = rm_lift (Ok ())"
| "free_all tr free (address # rest) = rm_bind (call tr free [address]) (\<lambda>_. free_all tr free rest)"

record injection_result =
  ij_socket_path :: string
  ij_injected :: bool

definition activate_attached ::
  "tracer \<Rightarrow> os \<Rightarrow> process_report \<Rightarrow> string \<Rightarrow> string \<Rightarrow> u64 \<Rightarrow> u64 \<Rightarrow> u64 \<Rightarrow> injection_result tracing" where
  "activate_attached tr os report agent_path socket_path record_capacity malloc free =
     rm_bind (attach tr (ti_pid (pr_target report))) (\<lambda>_.
     rm_bind (copy_c_string tr malloc (bytes_of_string socket_path)) (\<lambda>socket_address.
     rm_bind (if pcu_xprobe_cupti_loaded (pr_cuda report)
       then rm_bind (rm_io (resolve_agent_symbol os report agent_start_symbol)) (\<lambda>start.
         rm_lift (Ok (start, [], False)))
       else rm_bind (load_agent tr os report agent_path malloc) (\<lambda>(start, more_allocations).
         rm_lift (Ok (start, more_allocations, True)))) (\<lambda>(start_address, more_allocations, injected).
     rm_bind (call tr start_address [socket_address, record_capacity]) (\<lambda>status.
     rm_bind (free_all tr free (socket_address # more_allocations)) (\<lambda>_.
     rm_bind (detach tr) (\<lambda>_.
     rm_bind (rm_io (io_map_err IJ_Inspect (verify_target os (pr_target report)))) (\<lambda>_.
     rm_lift (if status \<noteq> 0 then Err (IJ_RemoteCallFailed agent_start_symbol status)
       else Ok \<lparr>ij_socket_path = socket_path, ij_injected = injected\<rparr>))))))))"

definition activate ::
  "tracer \<Rightarrow> os \<Rightarrow> process_report \<Rightarrow> string \<Rightarrow> string \<Rightarrow> u64 \<Rightarrow> injection_result tracing" where
  "activate tr os report agent_path socket_path record_capacity =
     (if \<not> (target_os = ''linux'' \<and> target_arch = ''x86_64'') then rm_lift (Err IJ_UnsupportedPlatform)
      else
        rm_bind (rm_io (io_map_err IJ_Inspect (verify_target os (pr_target report)))) (\<lambda>_.
        rm_bind (rm_io (verify_mount_namespace tr os report)) (\<lambda>_.
        rm_bind (rm_io (resolve_runtime_symbol os report ''malloc'')) (\<lambda>malloc.
        rm_bind (rm_io (resolve_runtime_symbol os report ''free'')) (\<lambda>free.
        with_drop tr (activate_attached tr os report agent_path socket_path record_capacity malloc free))))))"

section \<open>Memory\<close>

lemma write_bytes_at_snoc:
  "write_bytes_at mem address (bs @ [b]) = (write_bytes_at mem address bs)(address + of_nat (length bs) := b)"
  by (simp add: write_bytes_at_def enumerate_append_eq)

lemma write_bytes_at_apply:
  "length bs \<le> 2 ^ 64 \<Longrightarrow>
   write_bytes_at mem address bs x = (if unat (x - address) < length bs then bs ! unat (x - address) else mem x)"
proof (induction bs rule: rev_induct)
  case Nil
  then show ?case by (simp add: write_bytes_at_def)
next
  case (snoc b bs)
  have "unat (of_nat (length bs) :: u64) = length bs"
    using snoc.prems by (simp add: unsigned_of_nat take_bit_nat_eq_self)
  then have "x - address = of_nat (length bs) \<longleftrightarrow> unat (x - address) = length bs"
    by (simp add: word_unat_eq_iff)
  then have "x = address + of_nat (length bs) \<longleftrightarrow> unat (x - address) = length bs"
    by (simp add: algebra_simps)
  with snoc show ?case
    by (auto simp: write_bytes_at_snoc nth_append less_Suc_eq)
qed

lemma restored_word:
  "read_bytes_at (write_bytes_at mem' address (read_bytes_at mem address 8)) address 8 = read_bytes_at mem address 8"
  by (auto simp: read_bytes_at_def write_bytes_at_apply unsigned_of_nat take_bit_nat_eq_self)

section \<open>Frames\<close>

text \<open>What every action keeps: the log of the calls, or whether the process is attached.\<close>

definition keeps :: "(remote \<Rightarrow> 'b) \<Rightarrow> 'a tracing \<Rightarrow> bool" where
  "keeps f m \<longleftrightarrow> (\<forall>st. f (snd (m st)) = f st)"

lemma keepsD: "keeps f m \<Longrightarrow> m st = (r, st') \<Longrightarrow> f st' = f st"
  by (metis keeps_def snd_conv)

lemma keeps_lift: "keeps f (rm_lift r)"
  by (simp add: keeps_def rm_lift_def)

lemma keeps_bind: "keeps f m \<Longrightarrow> (\<And>a. keeps f (g a)) \<Longrightarrow> keeps f (rm_bind m g)"
  unfolding keeps_def rm_bind_def by (auto split: prod.splits rresult.splits) (metis snd_conv)+

lemma keeps_if: "(b \<Longrightarrow> keeps f m) \<Longrightarrow> (\<not> b \<Longrightarrow> keeps f n) \<Longrightarrow> keeps f (if b then m else n)"
  by simp

text \<open>The fields that no operation on registers, memory or waits touches.\<close>

definition quiet :: "(remote \<Rightarrow> 'b) \<Rightarrow> bool" where
  "quiet f \<longleftrightarrow> (\<forall>st n regs mem run t. f (st\<lparr>rm_operation := n\<rparr>) = f st \<and> f (st\<lparr>rm_regs := regs\<rparr>) = f st \<and>
     f (st\<lparr>rm_memory := mem\<rparr>) = f st \<and> f (st\<lparr>rm_running := run\<rparr>) = f st \<and> f (st\<lparr>rm_access := t\<rparr>) = f st)"

lemma quiet_fields: "quiet rm_calls" "quiet rm_attached"
  by (simp_all add: quiet_def)

lemma keeps_operation: "quiet f \<Longrightarrow> (\<And>st. f (effect st) = f st) \<Longrightarrow> keeps f (operation tr name effect)"
  by (auto simp: keeps_def operation_def Let_def quiet_def split: option.splits)

lemma keeps_io: "quiet f \<Longrightarrow> keeps f (rm_io m)"
  by (auto simp: keeps_def rm_io_def quiet_def split: prod.splits)

lemma keeps_observe: "quiet f \<Longrightarrow> f (observe_stop tr n st) = f st"
proof -
  assume q: "quiet f"
  have "st\<lparr>rm_regs := regs, rm_memory := mem, rm_running := run\<rparr> = ((st\<lparr>rm_regs := regs\<rparr>)\<lparr>rm_memory := mem\<rparr>)\<lparr>rm_running := run\<rparr>"
    for regs mem run by simp
  with q show ?thesis by (auto simp: observe_stop_def quiet_def split: prod.splits)
qed

lemma keeps_wait: "quiet f \<Longrightarrow> keeps f (wait_status_of tr)"
proof -
  assume q: "quiet f"
  have op: "f st' = f st" if "operation tr ''wait for target'' id st = (r, st')" for st r st'
    using keepsD [OF keeps_operation [OF q] that] by simp
  have "f (snd (wait_polls tr polls st)) = f st" for polls st
  proof (induction polls arbitrary: st)
    case 0
    show ?case
      by (subst wait_polls.simps) (auto simp: Let_def keeps_observe [OF q] dest: op split: prod.splits rresult.splits)
  next
    case (Suc polls)
    show ?case
      by (subst wait_polls.simps)
        (auto simp: Let_def keeps_observe [OF q] Suc.IH dest: op split: prod.splits rresult.splits)
  qed
  then show ?thesis by (simp add: keeps_def wait_status_of_def split: option.splits)
qed

lemma keeps_fun: "(\<And>st. keeps f (m st)) \<Longrightarrow> keeps f (\<lambda>st. m st st)"
  by (simp add: keeps_def)

lemma keeps_steps:
  assumes q: "quiet f"
  shows "keeps f (getregs tr name)" "keeps f (setregs tr name regs)" "keeps f (read_memory tr address n)"
    "keeps f (write_memory tr address bs)" "keeps f (wait_for_stop tr)" "keeps f (wait_for_call tr)"
proof -
  have op: "keeps f (operation tr name id)" "keeps f (operation tr name (\<lambda>st. st\<lparr>rm_regs := regs\<rparr>))"
    "keeps f (operation tr name (\<lambda>st. st\<lparr>rm_memory := g st\<rparr>))" for name regs g
    using q by (intro keeps_operation; simp add: quiet_def)+
  show "keeps f (getregs tr name)"
    unfolding getregs_def by (rule keeps_bind [OF op(1)]) (simp add: keeps_def)
  show "keeps f (setregs tr name regs)" unfolding setregs_def by (rule op(2))
  show "keeps f (read_memory tr address n)"
    unfolding read_memory_def by (rule keeps_fun, rule keeps_bind [OF op(1)]) (simp add: keeps_def Let_def)
  show "keeps f (write_memory tr address bs)"
    unfolding write_memory_def Let_def by (rule keeps_fun, rule keeps_bind [OF op(3)]) (simp add: keeps_def)
  show "keeps f (wait_for_stop tr)" "keeps f (wait_for_call tr)"
    unfolding wait_for_stop_def wait_for_call_def by (rule keeps_bind [OF keeps_wait [OF q]], rule keeps_lift)+
qed

lemma keeps_restoring:
  assumes q: "quiet f"
  shows "keeps f (restore_call_state tr sp bs regs)" "keeps f (execution tr)" "keeps f (ensure_stopped tr)"
  unfolding restore_call_state_def execution_def ensure_stopped_def
  by (intro keeps_bind keeps_steps keeps_lift keeps_operation q; simp)+

lemma keepsI: "(\<And>st r st'. m st = (r, st') \<Longrightarrow> f st' = f st) \<Longrightarrow> keeps f m"
  by (simp add: keeps_def) (metis prod.collapse)

lemma keeps_or_restore:
  assumes "keeps f m" "keeps f n"
  shows "keeps f (or_restore m n)"
proof (rule keepsI)
  fix st r st'
  assume run: "or_restore m n st = (r, st')"
  obtain r1 st1 where m: "m st = (r1, st1)" by fastforce
  have first: "f st1 = f st" by (rule keepsD [OF assms(1) m])
  show "f st' = f st"
  proof (cases r1)
    case (Err e)
    have "keeps f (rm_bind n (\<lambda>_. rm_lift (Err e) :: unit tracing))" by (intro keeps_bind assms keeps_lift)
    from keepsD [OF this] run Err m first show ?thesis by (simp add: or_restore_def)
  qed (use run m first in \<open>auto simp: or_restore_def\<close>)
qed

lemma keeps_finish:
  assumes q: "quiet f" and r: "keeps f restore"
  shows "keeps f (finish_call tr restore)"
proof (rule keepsI)
  fix st r st'
  assume run: "finish_call tr restore st = (r, st')"
  obtain r1 st1 where m: "execution tr st = (r1, st1)" by fastforce
  have "keeps f (rm_bind (if r1 = Err IJ_TimedOut then ensure_stopped tr else rm_lift (Ok ()))
      (\<lambda>_. rm_bind restore (\<lambda>_. rm_lift r1)))"
    by (intro keeps_bind keeps_if keeps_lift keeps_restoring q r)
  from keepsD [OF this] run m keepsD [OF keeps_restoring(2) [OF q] m] show "f st' = f st"
    by (simp add: finish_call_def)
qed

lemma rm_bind_cases:
  assumes "rm_bind m g st = (r, st')"
  obtains (ok) a st1 where "m st = (Ok a, st1)" "g a st1 = (r, st')"
  | (error) e where "m st = (Err e, st')" "r = Err e"
  | (panic) "m st = (Panic, st')" "r = Panic"
  using assms by (auto simp: rm_bind_def split: prod.splits rresult.splits)

text \<open>Everything a call does before it records its result.\<close>

definition call_body :: "tracer \<Rightarrow> u64 \<Rightarrow> u64 list \<Rightarrow> u64 tracing" where
  "call_body tr function_address arguments =
     rm_bind (getregs tr ''read target registers'') (\<lambda>saved.
     rm_bind (read_memory tr (call_stack_pointer saved) 8) (\<lambda>saved_stack.
     rm_bind (write_memory tr (call_stack_pointer saved) (replicate 8 0)) (\<lambda>_.
     rm_bind (or_restore (setregs tr ''write target registers'' (call_registers saved function_address arguments))
       (restore_call_state tr (call_stack_pointer saved) saved_stack saved)) (\<lambda>_.
     rm_bind (or_restore (operation tr ''continue target for remote call'' (\<lambda>st. st\<lparr>rm_running := True\<rparr>))
       (restore_call_state tr (call_stack_pointer saved) saved_stack saved)) (\<lambda>_.
     finish_call tr (restore_call_state tr (call_stack_pointer saved) saved_stack saved))))))"

lemma rm_bind_assoc: "rm_bind (rm_bind m g) h = rm_bind m (\<lambda>a. rm_bind (g a) h)"
  by (auto simp: rm_bind_def fun_eq_iff split: prod.splits rresult.splits)

lemma call_eq:
  "length args \<le> 6 \<Longrightarrow> call tr fn args =
     rm_bind (call_body tr fn args) (\<lambda>v st. (Ok v, st\<lparr>rm_calls := rm_calls st @ [(fn, args, v)]\<rparr>))"
  by (simp add: call_def call_body_def Let_def rm_bind_assoc)

lemma keeps_call_body: "quiet f \<Longrightarrow> keeps f (call_body tr fn args)"
  unfolding call_body_def
  by (intro keeps_bind keeps_or_restore keeps_finish keeps_restoring keeps_steps keeps_operation) (simp_all add: quiet_def)

lemma call_effect:
  assumes "call tr fn args st = (r, st')" "length args \<le> 6"
  shows "rm_attached st' = rm_attached st"
    and "rm_calls st' = rm_calls st @ (case r of Ok v \<Rightarrow> [(fn, args, v)] | _ \<Rightarrow> [])"
  using assms(1) unfolding call_eq [OF assms(2)]
  by (cases rule: rm_bind_cases;
      use keepsD [OF keeps_call_body [OF quiet_fields(1), of tr fn args]]
        keepsD [OF keeps_call_body [OF quiet_fields(2), of tr fn args]] in force)+

section \<open>A call leaves the process as it was\<close>

lemma operation_Ok:
  assumes "operation tr name effect st = (Ok u, st')"
  shows "st' = effect (st\<lparr>rm_operation := Suc (rm_operation st)\<rparr>)"
  using assms by (simp add: operation_def Let_def split: option.splits)

lemma rm_bind_OkE:
  assumes "rm_bind m g st = (Ok b, st')"
  obtains a st1 where "m st = (Ok a, st1)" "g a st1 = (Ok b, st')"
  using assms by (cases rule: rm_bind_cases) auto

lemma getregs_Ok:
  assumes "getregs tr name st = (Ok regs, st')"
  shows "regs = rm_regs st \<and> st' = st\<lparr>rm_operation := Suc (rm_operation st)\<rparr>"
  using assms unfolding getregs_def by (elim rm_bind_OkE) (auto dest: operation_Ok)

lemma read_memory_Ok:
  assumes "read_memory tr address n st = (Ok bs, st')"
  shows "bs = read_bytes_at (rm_memory st) address n \<and> st' = st\<lparr>rm_operation := Suc (rm_operation st)\<rparr>"
  using assms unfolding read_memory_def
  by (elim rm_bind_OkE) (auto simp: Let_def dest!: operation_Ok split: if_splits)

lemma write_memory_Ok:
  assumes "write_memory tr address bs st = (Ok u, st')"
  shows "rm_memory st' = write_bytes_at (rm_memory st) address bs \<and> rm_regs st' = rm_regs st
    \<and> rm_running st' = rm_running st"
  using assms unfolding write_memory_def Let_def
  by (elim rm_bind_OkE) (auto dest!: operation_Ok split: if_splits)

lemma restore_call_state_Ok:
  assumes "restore_call_state tr sp bs regs st = (Ok u, st')"
  shows "rm_memory st' = write_bytes_at (rm_memory st) sp bs" "rm_regs st' = regs"
    "rm_running st' = rm_running st"
  using assms unfolding restore_call_state_def setregs_def
  by (elim rm_bind_OkE, force dest!: operation_Ok write_memory_Ok)+

text \<open>A trap in the called function is reported by the wait for its result and by nothing else.\<close>

definition no_trap :: "'a tracing \<Rightarrow> bool" where
  "no_trap m \<longleftrightarrow> (\<forall>st ip. fst (m st) \<noteq> Err (IJ_RemoteCallTrap ip))"

lemma no_trapD: "no_trap m \<Longrightarrow> m st \<noteq> (Err (IJ_RemoteCallTrap ip), st')"
  by (metis no_trap_def fst_conv)

lemma no_trapI: "(\<And>st ip st'. m st \<noteq> (Err (IJ_RemoteCallTrap ip), st')) \<Longrightarrow> no_trap m"
  unfolding no_trap_def by (metis prod.collapse)

lemma no_trap_bind: "no_trap m \<Longrightarrow> (\<And>a. no_trap (g a)) \<Longrightarrow> no_trap (rm_bind m g)"
  by (rule no_trapI, rule notI, erule rm_bind_cases) (auto dest: no_trapD)

lemma no_trap_operation: "no_trap (operation tr name effect)"
  by (auto simp: no_trap_def operation_def Let_def split: option.splits)

lemma no_trap_wait: "no_trap (wait_status_of tr)"
proof -
  have op: "operation tr name eff st \<noteq> (Err (IJ_RemoteCallTrap ip), st')" for name eff st ip st'
    by (rule no_trapD [OF no_trap_operation])
  have "fst (wait_polls tr polls st) \<noteq> Err (IJ_RemoteCallTrap ip)" for polls st ip
  proof (induction polls arbitrary: st)
    case 0
    show ?case by (subst wait_polls.simps) (auto simp: Let_def op split: prod.splits rresult.splits)
  next
    case (Suc polls)
    show ?case by (subst wait_polls.simps) (auto simp: Let_def op Suc.IH split: prod.splits rresult.splits)
  qed
  then show ?thesis by (simp add: no_trap_def wait_status_of_def split: option.splits)
qed

lemma no_trap_steps:
  "no_trap (getregs tr name)" "no_trap (setregs tr name regs)" "no_trap (read_memory tr address n)"
  "no_trap (write_memory tr address bs)" "no_trap (wait_for_stop tr)" "no_trap (wait_for_call tr)"
proof -
  have fun_rule: "no_trap (\<lambda>st. m st st)" if "\<And>st. no_trap (m st)" for m :: "remote \<Rightarrow> 'b tracing"
    using that by (simp add: no_trap_def)
  show "no_trap (getregs tr name)"
    unfolding getregs_def by (rule no_trap_bind [OF no_trap_operation]) (simp add: no_trap_def)
  show "no_trap (setregs tr name regs)" unfolding setregs_def by (rule no_trap_operation)
  show "no_trap (read_memory tr address n)"
    unfolding read_memory_def by (rule fun_rule, rule no_trap_bind [OF no_trap_operation]) (simp add: no_trap_def Let_def)
  show "no_trap (write_memory tr address bs)"
    unfolding write_memory_def Let_def by (rule fun_rule, rule no_trap_bind [OF no_trap_operation]) (simp add: no_trap_def)
  show "no_trap (wait_for_stop tr)" "no_trap (wait_for_call tr)"
    unfolding wait_for_stop_def wait_for_call_def
    by (rule no_trap_bind [OF no_trap_wait], simp add: no_trap_def rm_lift_def)+
qed

lemma no_trap_restoring:
  "no_trap (restore_call_state tr sp bs regs)" "no_trap (ensure_stopped tr)"
  unfolding restore_call_state_def ensure_stopped_def
  by (intro no_trap_bind no_trap_steps no_trap_operation)+

lemma no_trap_or_restore:
  assumes "no_trap m" "no_trap n"
  shows "no_trap (or_restore m n)"
proof (rule no_trapI, rule notI)
  fix st ip st'
  assume run: "or_restore m n st = (Err (IJ_RemoteCallTrap ip), st')"
  obtain r1 st1 where m: "m st = (r1, st1)" by fastforce
  show False
  proof (cases r1)
    case (Err e)
    with run m have "rm_bind n (\<lambda>_. rm_lift (Err e)) st1 = (Err (IJ_RemoteCallTrap ip) :: (unit, _) rresult, st')"
      by (simp add: or_restore_def)
    then show False
      by (cases rule: rm_bind_cases) (use no_trapD [OF assms(1)] no_trapD [OF assms(2)] m Err in \<open>auto simp: rm_lift_def\<close>)
  qed (use run m in \<open>auto simp: or_restore_def\<close>)
qed

text \<open>A call that came to an end: it returned a value, or the process faulted inside it.\<close>

definition call_ended :: "(u64, inject_error) rresult \<Rightarrow> bool" where
  "call_ended r = (case r of Ok _ \<Rightarrow> True | Err (IJ_RemoteCallTrap _) \<Rightarrow> True | _ \<Rightarrow> False)"

lemma rm_bind_endedE:
  assumes "rm_bind m g st = (r, st')" "call_ended r" "no_trap m"
  obtains a st1 where "m st = (Ok a, st1)" "g a st1 = (r, st')"
  using assms(1)
proof (cases rule: rm_bind_cases)
  case (error e)
  with assms(2) no_trapD [OF assms(3)] show ?thesis by (auto simp: call_ended_def split: inject_error.splits)
qed (use that assms(2) in \<open>auto simp: call_ended_def\<close>)

lemma or_restore_Ok: "or_restore m n st = (Ok u, st') \<Longrightarrow> m st = (Ok u, st')"
  by (auto simp: or_restore_def rm_bind_def rm_lift_def split: prod.splits rresult.splits)

lemma wait_for_call_stops:
  assumes "wait_for_call tr st = (Ok u, st')"
  shows "\<not> rm_running st'"
proof -
  have stops: "\<not> rm_running (observe_stop tr n st)" if "tr_status tr n = WS_StoppedSegv" for n st
    using that by (auto simp: observe_stop_def is_stop_def split: prod.splits)
  have poll: "\<not> rm_running st'" if "wait_polls tr polls st = (Ok WS_StoppedSegv, st')" for polls st
    using that
  proof (induction polls arbitrary: st)
    case 0
    then show ?case
      by (subst (asm) wait_polls.simps) (auto simp: Let_def stops split: prod.splits rresult.splits if_splits)
  next
    case (Suc polls)
    from Suc.prems show ?case
      by (subst (asm) wait_polls.simps) (auto simp: Let_def stops dest: Suc.IH split: prod.splits rresult.splits if_splits)
  qed
  obtain status st1 where w: "wait_status_of tr st = (Ok status, st1)"
    and l: "rm_lift (if status = WS_StoppedSegv then Ok () else Err (IJ_UnexpectedStop status)) st1 = (Ok u, st')"
    using assms unfolding wait_for_call_def by (elim rm_bind_OkE)
  from l have "status = WS_StoppedSegv" "st1 = st'" by (auto simp: rm_lift_def split: if_splits)
  with w poll show ?thesis by (auto simp: wait_status_of_def split: option.splits)
qed

lemma execution_ended:
  assumes "execution tr st = (r, st')" "call_ended r"
  shows "\<not> rm_running st'"
proof -
  obtain st1 where w: "wait_for_call tr st = (Ok (), st1)"
    and rest: "rm_bind (getregs tr ''read remote call result'') (\<lambda>result. rm_lift
      (if ur_rip result \<noteq> 0 then Err (IJ_RemoteCallTrap (ur_rip result)) else Ok (ur_rax result))) st1 = (r, st')"
    using assms(1) unfolding execution_def
    by (elim rm_bind_endedE [OF _ assms(2) no_trap_steps(6)]) auto
  obtain regs st2 where "getregs tr ''read remote call result'' st1 = (Ok regs, st2)" "st2 = st'"
    using rest by (elim rm_bind_endedE [OF _ assms(2) no_trap_steps(1)]) (auto simp: rm_lift_def)
  with getregs_Ok wait_for_call_stops [OF w] show ?thesis by fastforce
qed

lemma finish_call_ended:
  assumes "finish_call tr restore st = (r, st')" "call_ended r" "no_trap restore"
  obtains st1 where "\<not> rm_running st1" "restore st1 = (Ok (), st')"
proof -
  obtain r1 st1 where e: "execution tr st = (r1, st1)" by fastforce
  with assms(1) have run: "rm_bind (if r1 = Err IJ_TimedOut then ensure_stopped tr else rm_lift (Ok ()))
      (\<lambda>_. rm_bind restore (\<lambda>_. rm_lift r1)) st1 = (r, st')" by (simp add: finish_call_def)
  have nt: "no_trap (if r1 = Err IJ_TimedOut then ensure_stopped tr else rm_lift (Ok ()))"
    using no_trap_restoring(2) [of tr] by (simp add: no_trap_def rm_lift_def)
  from run obtain st2 where wait: "(if r1 = Err IJ_TimedOut then ensure_stopped tr else rm_lift (Ok ())) st1 = (Ok (), st2)"
    and "rm_bind restore (\<lambda>_. rm_lift r1) st2 = (r, st')"
    by (elim rm_bind_endedE [OF _ assms(2) nt]) auto
  then have res: "restore st2 = (Ok (), st')" and r1: "r1 = r"
    by (elim rm_bind_endedE [OF _ assms(2,3)]; simp add: rm_lift_def)+
  have "r1 \<noteq> Err IJ_TimedOut" using r1 assms(2) by (auto simp: call_ended_def)
  with wait have "st2 = st1" by (simp add: rm_lift_def)
  with that res execution_ended [OF e] r1 assms(2) show thesis by blast
qed

lemma call_body_restores:
  assumes run: "call_body tr fn args st = (r, st')" and ended: "call_ended r"
  shows "rm_regs st' = rm_regs st"
    and "read_bytes_at (rm_memory st') (call_stack_pointer (rm_regs st)) 8
      = read_bytes_at (rm_memory st) (call_stack_pointer (rm_regs st)) 8"
    and "\<not> rm_running st'"
proof -
  let ?sp = "call_stack_pointer (rm_regs st)"
  obtain saved bs st1 where g: "getregs tr ''read target registers'' st = (Ok saved, st1)"
    and m: "\<exists>st2. read_memory tr (call_stack_pointer saved) 8 st1 = (Ok bs, st2)"
    and f: "\<exists>st3. finish_call tr (restore_call_state tr (call_stack_pointer saved) bs saved) st3 = (r, st')"
    using run unfolding call_body_def
    by (elim rm_bind_endedE [OF _ ended no_trap_steps(1)] rm_bind_endedE [OF _ ended no_trap_steps(3)]
        rm_bind_endedE [OF _ ended no_trap_steps(4)]
        rm_bind_endedE [OF _ ended no_trap_or_restore [OF no_trap_steps(2) no_trap_restoring(1)]]
        rm_bind_endedE [OF _ ended no_trap_or_restore [OF no_trap_operation no_trap_restoring(1)]]) blast
  have saved: "saved = rm_regs st" "rm_memory st1 = rm_memory st" using getregs_Ok [OF g] by simp_all
  have bs: "bs = read_bytes_at (rm_memory st) ?sp 8" using m read_memory_Ok saved by fastforce
  obtain st4 where "\<not> rm_running st4" "restore_call_state tr ?sp bs (rm_regs st) st4 = (Ok (), st')"
    using f finish_call_ended [OF _ ended no_trap_restoring(1)] saved by metis
  with restore_call_state_Ok [OF this(2)] bs show "rm_regs st' = rm_regs st"
    "read_bytes_at (rm_memory st') ?sp 8 = read_bytes_at (rm_memory st) ?sp 8" "\<not> rm_running st'"
    by (simp_all add: restored_word)
qed

section \<open>Activation\<close>

lemma call_Ok:
  assumes "call tr fn args st = (Ok v, st')"
  shows "rm_calls st' = rm_calls st @ [(fn, args, v)]" "length args \<le> 6"
proof -
  show l: "length args \<le> 6" using assms by (auto simp: call_def rm_lift_def split: if_splits)
  show "rm_calls st' = rm_calls st @ [(fn, args, v)]" using call_effect(2) [OF assms l] by simp
qed

lemma copy_c_string_Ok:
  assumes "copy_c_string tr malloc bs st = (Ok a, st')"
  shows "rm_calls st' = rm_calls st @ [(malloc, [of_nat (length bs + 1)], a)]" "a \<noteq> 0"
proof -
  obtain st1 where c: "call tr malloc [of_nat (length bs + 1)] st = (Ok a, st1)" and "a \<noteq> 0"
    and w: "write_memory tr a (bs @ [0]) st1 = (Ok (), st')"
    using assms unfolding copy_c_string_def
    by (elim rm_bind_OkE) (auto simp: rm_lift_def elim!: rm_bind_OkE split: if_splits)
  show "a \<noteq> 0" by fact
  show "rm_calls st' = rm_calls st @ [(malloc, [of_nat (length bs + 1)], a)]"
    using call_Ok(1) [OF c] keepsD [OF keeps_steps(4) [OF quiet_fields(1)] w] by simp
qed

lemma copy_c_string_calls:
  "copy_c_string tr malloc bs st = (Ok a, st') \<Longrightarrow>
   rm_calls st' = rm_calls st @ [(malloc, [of_nat (length bs + 1)], a)] \<and> a \<noteq> 0"
  by (simp only: copy_c_string_Ok) simp

lemma free_all_Ok:
  "free_all tr free addresses st = (Ok u, st') \<Longrightarrow>
   \<exists>vs. length vs = length addresses \<and> rm_calls st' = rm_calls st @ map (\<lambda>(a, v). (free, [a], v)) (zip addresses vs)"
proof (induction addresses arbitrary: st)
  case Nil
  then show ?case by (simp add: rm_lift_def)
next
  case (Cons a rest)
  from Cons.prems obtain v st1 where c: "call tr free [a] st = (Ok v, st1)"
    and f: "free_all tr free rest st1 = (Ok u, st')" by (auto elim: rm_bind_OkE)
  from Cons.IH [OF f] obtain vs where "length vs = length rest"
    "rm_calls st' = rm_calls st1 @ map (\<lambda>(a, v). (free, [a], v)) (zip rest vs)" by blast
  with call_Ok(1) [OF c] show ?case by (intro exI [of _ "v # vs"]) simp
qed

lemma rm_io_calls: "rm_io m st = (r, st') \<Longrightarrow> rm_calls st' = rm_calls st \<and> rm_attached st' = rm_attached st"
  using keepsD [OF keeps_io [OF quiet_fields(1)]] keepsD [OF keeps_io [OF quiet_fields(2)]] by blast

text \<open>The calls that find the agent's entry point: none, or those that load the library.\<close>

definition loading_calls :: "u64 \<Rightarrow> u64 \<Rightarrow> u64 list \<Rightarrow> (u64 \<times> u64 list \<times> u64) list \<Rightarrow> bool" where
  "loading_calls malloc start allocations calls \<longleftrightarrow>
     (\<exists>dlopen dlsym handle path n k. allocations = [path, n] \<and> path \<noteq> 0 \<and> n \<noteq> 0 \<and> handle \<noteq> 0 \<and> start \<noteq> 0 \<and>
        calls = [(malloc, [k], path), (dlopen, [path, rtld_flags], handle),
               (malloc, [of_nat (length agent_start_symbol + 1)], n), (dlsym, [handle, n], start)])"

lemma load_agent_Ok:
  assumes "load_agent tr os report agent_path malloc st = (Ok (start, allocations), st')"
  shows "\<exists>calls. rm_calls st' = rm_calls st @ calls \<and> loading_calls malloc start allocations calls"
  using assms unfolding load_agent_def
  by (elim rm_bind_OkE)
    (auto simp: rm_lift_def loading_calls_def bytes_of_string_def simp del: of_nat_Suc of_nat_add
      dest!: rm_io_calls copy_c_string_calls call_Ok(1) split: if_splits)

text \<open>The address of the entry point, by the branch the report selects.\<close>

lemma attach_calls: "keeps rm_calls (attach tr pid)"
  unfolding attach_def by (intro keeps_bind keeps_lift keeps_operation keeps_steps quiet_fields) simp_all

lemma detach_calls: "keeps rm_calls (detach tr)"
  unfolding detach_def by (intro keeps_operation quiet_fields) simp

lemma activate_attached_Ok:
  assumes "activate_attached tr os report agent_path socket_path capacity malloc free st = (Ok result, st')"
  shows "\<exists>socket start loading allocations vs.
    rm_calls st' = rm_calls st @ (malloc, [of_nat (length (bytes_of_string socket_path) + 1)], socket) # loading
      @ (start, [socket, capacity], 0) # map (\<lambda>(a, v). (free, [a], v)) (zip (socket # allocations) vs) \<and>
    length vs = Suc (length allocations) \<and> socket \<noteq> 0 \<and>
    (if ij_injected result then loading_calls malloc start allocations loading else loading = [] \<and> allocations = []) \<and>
    result = \<lparr>ij_socket_path = socket_path, ij_injected = \<not> pcu_xprobe_cupti_loaded (pr_cuda report)\<rparr>"
proof -
  let ?entry = "if pcu_xprobe_cupti_loaded (pr_cuda report)
       then rm_bind (rm_io (resolve_agent_symbol os report agent_start_symbol)) (\<lambda>start.
         rm_lift (Ok (start, [], False)))
       else rm_bind (load_agent tr os report agent_path malloc) (\<lambda>(start, more_allocations).
         rm_lift (Ok (start, more_allocations, True)))"
  obtain st1 socket st2 start allocations injected st3 status st4 st5 st6 st7 u1 u2 u3 u4 where
    p: "attach tr (ti_pid (pr_target report)) st = (Ok u1, st1)"
      "copy_c_string tr malloc (bytes_of_string socket_path) st1 = (Ok socket, st2)"
      "?entry st2 = (Ok (start, allocations, injected), st3)"
      "call tr start [socket, capacity] st3 = (Ok status, st4)"
      "free_all tr free (socket # allocations) st4 = (Ok u2, st5)"
      "detach tr st5 = (Ok u3, st6)"
      "rm_io (io_map_err IJ_Inspect (verify_target os (pr_target report))) st6 = (Ok u4, st7)"
      "rm_lift (if status \<noteq> 0 then Err (IJ_RemoteCallFailed agent_start_symbol status)
         else Ok \<lparr>ij_socket_path = socket_path, ij_injected = injected\<rparr>) st7 = (Ok result, st')"
    using assms unfolding activate_attached_def
    apply (elim rm_bind_OkE)
    apply (simp only: split_paired_all split_conv)
    apply (elim rm_bind_OkE)
    apply (rule that) 
    apply assumption+
    done
  obtain loading where l: "rm_calls st3 = rm_calls st2 @ loading" "injected = (\<not> pcu_xprobe_cupti_loaded (pr_cuda report))"
    "if injected then loading_calls malloc start allocations loading else loading = [] \<and> allocations = []"
    using p(3) by (auto simp: rm_lift_def elim!: rm_bind_OkE dest!: rm_io_calls load_agent_Ok split: if_splits)
  obtain vs where vs: "length vs = Suc (length allocations)"
    "rm_calls st5 = rm_calls st4 @ map (\<lambda>(a, v). (free, [a], v)) (zip (socket # allocations) vs)"
    using free_all_Ok [OF p(5)] by auto
  have e: "status = 0" "result = \<lparr>ij_socket_path = socket_path, ij_injected = injected\<rparr>" "st' = st7"
    using p(8) by (auto simp: rm_lift_def split: if_splits)
  have "rm_calls st7 = rm_calls st5" "rm_calls st1 = rm_calls st"
    using rm_io_calls [OF p(7)] keepsD [OF detach_calls p(6)] keepsD [OF attach_calls p(1)] by simp_all
  then show ?thesis
    using copy_c_string_calls [OF p(2)] call_Ok(1) [OF p(4)] l vs e
    by (intro exI [of _ socket] exI [of _ start] exI [of _ loading] exI [of _ allocations] exI [of _ vs]) simp
qed

text \<open>C38: A remote call leaves no trace in the process. When a call ends, by returning a value or by a fault inside the
called function, the process is stopped, its registers are exactly those it had before the call, and the eight bytes
of stack that held the return address hold what they held before. The call is logged when it returned.
\<close>

theorem call_restores:
  assumes "call tr fn args st = (r, st')" and "call_ended r"
  shows "\<not> rm_running st' \<and> rm_regs st' = rm_regs st \<and>
    read_bytes_at (rm_memory st') (call_stack_pointer (rm_regs st)) 8
      = read_bytes_at (rm_memory st) (call_stack_pointer (rm_regs st)) 8 \<and>
    rm_attached st' = rm_attached st \<and>
    rm_calls st' = rm_calls st @ (case r of Ok v \<Rightarrow> [(fn, args, v)] | _ \<Rightarrow> [])"
proof -
  have l: "length args \<le> 6" using assms by (auto simp: call_def rm_lift_def call_ended_def split: if_splits)
  obtain st1 where b: "call_body tr fn args st = (r, st1)" and
    s: "rm_regs st' = rm_regs st1" "rm_memory st' = rm_memory st1" "rm_running st' = rm_running st1"
    using assms(1) unfolding call_eq [OF l] by (cases rule: rm_bind_cases) auto
  show ?thesis
    using call_body_restores [OF b assms(2)] call_effect [OF assms(1) l] s by simp
qed

definition example_regs :: user_regs where
  "example_regs = \<lparr>ur_rip = 0x1234, ur_rsp = 0x8000, ur_rax = 1, ur_rdi = 2, ur_rsi = 3, ur_rdx = 4, ur_rcx = 5,
     ur_r8 = 6, ur_r9 = 7, ur_others = []\<rparr>"

definition example_remote :: remote where
  "example_remote = \<lparr>rm_operation = 0, rm_access = 0, rm_regs = example_regs, rm_memory = \<lambda>_. 9, rm_running = False,
     rm_attached = False, rm_calls = []\<rparr>"

text \<open>A process in which \<open>malloc\<close> at 0x1010 returns 0x5000 and every other function returns 0.\<close>

definition example_tracer :: tracer where
  "example_tracer = \<lparr>tr_errno = \<lambda>n name. None, tr_moved = \<lambda>n k. k, tr_status = \<lambda>n. WS_StoppedSegv,
     tr_polls = \<lambda>n. Some 0,
     tr_run = \<lambda>n (regs, mem). (regs\<lparr>ur_rip := 0, ur_rax := if ur_rip regs = 0x1010 then 0x5000 else 0\<rparr>, mem),
     tr_raw_errno = \<lambda>_. 5\<rparr>"

lemma example_operation:
  "operation example_tracer name effect st = (Ok (), effect (st\<lparr>rm_operation := Suc (rm_operation st)\<rparr>))"
  by (simp add: operation_def example_tracer_def Let_def)

lemma example_fields:
  "tr_moved example_tracer n k = k" "tr_status example_tracer n = WS_StoppedSegv" "tr_polls example_tracer n = Some 0"
  "tr_run example_tracer n (regs, mem) = (regs\<lparr>ur_rip := 0, ur_rax := if ur_rip regs = 0x1010 then 0x5000 else 0\<rparr>, mem)"
  by (simp_all add: example_tracer_def)

lemmas example_run =
  example_operation example_fields getregs_def setregs_def read_memory_def write_memory_def wait_status_of_def
  wait_for_call_def wait_for_stop_def observe_stop_def is_stop_def rm_bind_def rm_lift_def Let_def

lemma example_wait:
  "rm_running st \<Longrightarrow> wait_status_of example_tracer st = (Ok WS_StoppedSegv, st\<lparr>rm_operation := Suc (rm_operation st),
     rm_running := False, rm_regs := (rm_regs st)\<lparr>ur_rip := 0, ur_rax := if ur_rip (rm_regs st) = 0x1010 then 0x5000 else 0\<rparr>\<rparr>)"
  by (simp add: example_run wait_polls.simps [of _ 0])

lemma example_execution:
  "rm_running st \<Longrightarrow>
   execution example_tracer st = (Ok (if ur_rip (rm_regs st) = 0x1010 then 0x5000 else 0),
     st\<lparr>rm_operation := rm_operation st + 2, rm_running := False,
        rm_regs := (rm_regs st)\<lparr>ur_rip := 0, ur_rax := if ur_rip (rm_regs st) = 0x1010 then 0x5000 else 0\<rparr>\<rparr>)"
  by (simp add: execution_def example_wait example_operation getregs_def wait_for_call_def rm_bind_def rm_lift_def)

lemma example_restore:
  "restore_call_state example_tracer sp bs regs st = (Ok (), st\<lparr>rm_operation := rm_operation st + 2,
     rm_memory := write_bytes_at (rm_memory st) sp bs, rm_regs := regs\<rparr>)"
  by (simp add: restore_call_state_def example_run)

lemma example_call:
  "length args \<le> 6 \<Longrightarrow> \<exists>st'. call example_tracer fn args st = (Ok (if fn = 0x1010 then 0x5000 else 0), st') \<and>
     rm_access st' = rm_access st"
  by (simp add: call_def finish_call_def or_restore_def example_run example_execution example_restore call_registers_def)

theorem call_restores_witness:
  "\<exists>st'. call example_tracer 0x1010 [24] example_remote = (Ok 0x5000, st') \<and> rm_regs st' = rm_regs example_remote"
proof -
  obtain st' where c: "call example_tracer 0x1010 [24] example_remote = (Ok 0x5000, st')"
    using example_call [of "[24]" "0x1010" example_remote] by auto
  with call_restores [OF c] show ?thesis by (simp add: call_ended_def)
qed

text \<open>The process is released on every way out of an activation.\<close>

lemma with_drop_releases:
  assumes "with_drop tr m st = (r, st')" "\<forall>n. tr_errno tr n ''ptrace detach'' = None"
  shows "\<not> rm_attached st'"
  using assms by (auto simp: with_drop_def detach_def operation_def Let_def split: prod.splits if_splits)

lemma with_drop_Ok:
  assumes "with_drop tr m st = (r, st')"
  obtains st1 where "m st = (r, st1)" "rm_calls st' = rm_calls st1"
proof -
  obtain r1 st1 where m: "m st = (r1, st1)" by fastforce
  have "rm_calls (snd (detach tr st1)) = rm_calls st1" using detach_calls by (simp add: keeps_def)
  with that m assms show thesis by (auto simp: with_drop_def split: if_splits)
qed

lemma io_first:
  assumes "rm_bind (rm_io m) g st = (r, st')"
  obtains (continues) a st1 where "g a st1 = (r, st')" "rm_calls st1 = rm_calls st" "rm_attached st1 = rm_attached st"
  | (fails) "\<forall>v. r \<noteq> Ok v" "rm_attached st' = rm_attached st"
  using assms by (cases rule: rm_bind_cases) (auto dest: rm_io_calls)

lemma activate_cases:
  assumes "activate tr os report agent_path socket_path capacity st = (r, st')"
  obtains (fails) "\<forall>v. r \<noteq> Ok v" "rm_attached st' = rm_attached st"
  | (runs) malloc free st1 where "rm_calls st1 = rm_calls st"
    "with_drop tr (activate_attached tr os report agent_path socket_path capacity malloc free) st1 = (r, st')"
proof -
  have platform: "target_os = ''linux'' \<and> target_arch = ''x86_64''" by (simp add: target_os_def target_arch_def)
  show thesis
    using assms unfolding activate_def
    apply (simp only: platform simp_thms if_False)
    apply (elim io_first)
        apply (rule that(2); simp)
       apply (rule that(1); simp)+
    done
qed


text \<open>
  An error between the first allocation and the calls of \<open>free\<close> is returned as it is: the process is released,
  and what was allocated in it stays allocated.
\<close>

lemma loading_error_frees_nothing:
  assumes "attach tr (ti_pid (pr_target report)) st = (Ok (), st1)"
    and "copy_c_string tr malloc (bytes_of_string socket_path) st1 = (Ok socket, st2)"
    and "\<not> pcu_xprobe_cupti_loaded (pr_cuda report)"
    and "load_agent tr os report agent_path malloc st2 = (Err e, st3)"
  shows "activate_attached tr os report agent_path socket_path capacity malloc free st = (Err e, st3)"
  using assms by (simp add: activate_attached_def rm_bind_def)

definition example_agent_elf :: elf_file where
  "example_agent_elf = example_elf\<lparr>elf_symbols :=
     [example_symbol\<lparr>es_name := Some ''malloc''\<rparr>, example_symbol\<lparr>es_name := Some ''free'', es_address := 32\<rparr>,
      example_symbol\<lparr>es_name := Some ''xprobe_cupti_agent_start'', es_address := 48\<rparr>]\<rparr>"

definition example_agent_maps :: string where
  "example_agent_maps = ''1000-2000 r-xp 00000000 08:01 7 /libc.so'' @ CHR 0x0A #
     ''3000-4000 r-xp 00000000 08:01 8 /libxprobe-cupti.so''"

definition example_agent_host :: os where
  "example_agent_host = example_os
     \<lparr>os_read := \<lambda>t p.
        (if p = ''/proc/42/stat'' then Inr (bytes_of_string example_stat)
         else if p = ''/proc/42/maps'' then Inr (bytes_of_string example_agent_maps)
         else Inr []),
      os_read_link := \<lambda>t p. Inr (bytes_of_string ''mnt:[1]''),
      os_canonicalize := \<lambda>t p. Inr p, os_parse_elf := \<lambda>bs. Inr example_agent_elf\<rparr>"

definition example_agent_report :: process_report where
  "example_agent_report = (example_report [''/libc.so'', ''/libxprobe-cupti.so''])
     \<lparr>pr_cuda := \<lparr>pcu_libcuda_loaded = True, pcu_libcudart_loaded = True, pcu_xprobe_cupti_loaded = True,
        pcu_context = \<lparr>ck_status = CK_Unknown, ck_detail = None\<rparr>\<rparr>\<rparr>"

lemma example_agent_regions:
  "parse_maps example_agent_maps p = Ok
     [\<lparr>mg_start = 0x1000, mg_end = 0x2000, mg_file_offset = 0, mg_path = ''/libc.so''\<rparr>,
      \<lparr>mg_start = 0x3000, mg_end = 0x4000, mg_file_offset = 0, mg_path = ''/libxprobe-cupti.so''\<rparr>]"
proof -
  let ?a = "''1000-2000 r-xp 00000000 08:01 7 /libc.so''" and ?b = "''3000-4000 r-xp 00000000 08:01 8 /libxprobe-cupti.so''"
  have l: "lines example_agent_maps = [?a, ?b]"
    "split_whitespace ?a = [''1000-2000'', ''r-xp'', ''00000000'', ''08:01'', ''7'', ''/libc.so'']"
    "split_whitespace ?b = [''3000-4000'', ''r-xp'', ''00000000'', ''08:01'', ''8'', ''/libxprobe-cupti.so'']"
    "split_once ''-'' ''1000-2000'' = Some (''1000'', ''2000'')" "split_once ''-'' ''3000-4000'' = Some (''3000'', ''4000'')"
    by code_simp+
  have n: "from_str_radix 16 ''1000'' = Some (0x1000 :: u64)" "from_str_radix 16 ''2000'' = Some (0x2000 :: u64)"
    "from_str_radix 16 ''3000'' = Some (0x3000 :: u64)" "from_str_radix 16 ''4000'' = Some (0x4000 :: u64)"
    "from_str_radix 16 ''00000000'' = Some (0 :: u64)"
    by (simp_all add: from_str_radix_def to_digit_def is_ascii_digit_def)
  show ?thesis
    by (simp add: parse_maps_def parse_map_region_def parse_hex_def l n nth_opt_def ok_or_def starts_with_def)
qed

lemma example_agent_target: "verify_target example_agent_host (pr_target example_agent_report) t = (Ok (), Suc t)"
proof -
  have "start_time_at example_agent_host t 42 = Some 7"
    using example_start_time by (simp add: start_time_at_def example_host_def example_agent_host_def example_proc_path)
  then show ?thesis unfolding verify_target_Ok_iff by (simp add: example_agent_report_def example_report_def)
qed

definition example_agent_symbols :: "(string \<times> u64) list" where
  "example_agent_symbols = [(''malloc'', 16), (''free'', 32), (''xprobe_cupti_agent_start'', 48)]"

lemma example_agent_symbol:
  assumes "(name, a) \<in> set example_agent_symbols"
  shows "resolve_probe_target example_agent_host example_agent_elf (PT_Symbol name) path =
      Ok \<lparr>rt_symbol = Some name, rt_demangled = None, rt_virtual_address = Some a, rt_size = Some 4, rt_file_offset = a\<rparr>"
  using assms unfolding example_agent_symbols_def
  by (auto simp: resolve_probe_target_def resolve_symbol_def example_agent_elf_def example_elf_def example_symbol_def
      collect_symbol_matches_def symbol_matches_def symbol_entry_def select_symbol_match_def demangle_cpp_def
      starts_with_def virtual_address_to_file_offset_def segment_of_address_def checked_sub_def add_or_panic_def
      checked_add_def expect_def ok_or_def)

lemma example_agent_resolution:
  assumes s: "parse_probe_selector sel = Ok \<lparr>ps_binary = path, ps_target = PT_Symbol name, ps_boundary = PB_Entry\<rparr>"
    and a: "(name, a) \<in> set example_agent_symbols"
    and p: "(path, base) \<in> {(''/libc.so'', 0x1000), (''/libxprobe-cupti.so'', 0x3000)}"
  shows "\<exists>probe t'. resolve_run example_agent_host example_agent_report sel t = (Ok probe, t') \<and>
    rp_runtime_address probe = base + a"
proof -
  have e: "ti_pid (pr_target example_agent_report) = 42" "pr_executable example_agent_report = ''/usr/bin/app''"
    "elf_kind example_agent_elf = OK_Dynamic" "elf_build_id example_agent_elf = Inr None"
    by (simp_all add: example_agent_report_def example_report_def example_agent_elf_def example_elf_def)
  have m: "fs_read_to_string example_agent_host ''/proc/42/maps'' t = (Ok example_agent_maps, Suc t)" for t
    by (rule example_text_reads) (simp_all add: example_agent_host_def example_agent_maps_def)
  have b: "fs_canonicalize example_agent_host path t = (Ok path, Suc t)"
    "fs_read example_agent_host path t = (Ok [], Suc t)" "os_parse_elf example_agent_host [] = Inr example_agent_elf" for t
    using p by (auto simp: fs_defs io_access_def example_agent_host_def)
  have k: "map_path_matches ''/libc.so'' ''/libc.so''" "\<not> map_path_matches ''/libc.so'' ''/libxprobe-cupti.so''"
    "map_path_matches ''/libxprobe-cupti.so'' ''/libxprobe-cupti.so''" "\<not> map_path_matches ''/libxprobe-cupti.so'' ''/libc.so''"
    "\<not> map_path_matches ''/usr/bin/app'' ''/libc.so''" "\<not> map_path_matches ''/usr/bin/app'' ''/libxprobe-cupti.so''"
    by code_simp+
  have small: "a = 16 \<or> a = 32 \<or> a = 48" using a by (auto simp: example_agent_symbols_def)
  show ?thesis
    using p small
    by (auto simp: resolve_run_def Let_def io_bind_def io_map_err_def map_err_simps example_agent_target e s b m
        example_agent_symbol [OF a] k example_proc_path example_agent_regions sum_result_def classify_object_def
        region_contains_offset_def ok_or_def add_or_panic_def checked_add_def expect_def)
qed

lemma example_runtime_symbols:
  "\<exists>t'. resolve_runtime_symbol example_agent_host example_agent_report ''malloc'' t = (Ok 0x1010, t')"
  "\<exists>t'. resolve_runtime_symbol example_agent_host example_agent_report ''free'' t = (Ok 0x1020, t')"
  "\<exists>t'. resolve_agent_symbol example_agent_host example_agent_report agent_start_symbol t = (Ok 0x3030, t')"
proof -
  have l: "pr_loaded_libraries example_agent_report = [''/libc.so'', ''/libxprobe-cupti.so'']"
    by (simp add: example_agent_report_def example_report_def)
  have s: "parse_probe_selector (runtime_selector ''/libc.so'' ''malloc'') =
      Ok \<lparr>ps_binary = ''/libc.so'', ps_target = PT_Symbol ''malloc'', ps_boundary = PB_Entry\<rparr>"
    "parse_probe_selector (runtime_selector ''/libc.so'' ''free'') =
      Ok \<lparr>ps_binary = ''/libc.so'', ps_target = PT_Symbol ''free'', ps_boundary = PB_Entry\<rparr>"
    "parse_probe_selector (runtime_selector ''/libxprobe-cupti.so'' agent_start_symbol) =
      Ok \<lparr>ps_binary = ''/libxprobe-cupti.so'', ps_target = PT_Symbol ''xprobe_cupti_agent_start'', ps_boundary = PB_Entry\<rparr>"
    by code_simp+
  have n: "starts_with (library_name ''/libc.so'') ''libc.so''" "\<not> is_agent_library ''/libc.so''"
    "is_agent_library ''/libxprobe-cupti.so''"
    by code_simp+
  show "\<exists>t'. resolve_runtime_symbol example_agent_host example_agent_report ''malloc'' t = (Ok 0x1010, t')"
    using example_agent_resolution [OF s(1), of 16 "0x1000" t]
    by (auto simp: resolve_runtime_symbol_def l n example_agent_symbols_def)
  show "\<exists>t'. resolve_runtime_symbol example_agent_host example_agent_report ''free'' t = (Ok 0x1020, t')"
    using example_agent_resolution [OF s(2), of 32 "0x1000" t]
    by (auto simp: resolve_runtime_symbol_def l n example_agent_symbols_def)
  show "\<exists>t'. resolve_agent_symbol example_agent_host example_agent_report agent_start_symbol t = (Ok 0x3030, t')"
    using example_agent_resolution [OF s(3), of 48 "0x3000" t]
    by (auto simp: resolve_agent_symbol_def l n example_agent_symbols_def io_simps io_bind_def io_map_err_def ok_or_def map_err_simps)
qed

lemma example_copy: "\<exists>st'. copy_c_string example_tracer 0x1010 (bytes_of_string ''/s'') st = (Ok 0x5000, st')"
proof -
  have u: "length (bytes_of_string ''/s'') + 1 \<le> usize_max" by (simp add: bytes_of_string_def usize_max_def)
  obtain st1 where "call example_tracer 0x1010 [of_nat (length (bytes_of_string ''/s'') + 1)] st = (Ok 0x5000, st1)"
    using example_call [of "[of_nat (length (bytes_of_string ''/s'') + 1)]" "0x1010" st] by auto
  then show ?thesis using u
    by (simp add: copy_c_string_def rm_lift_def rm_bind_def write_memory_def example_operation example_fields Let_def
        del: One_nat_def add_Suc_right)
qed

lemma example_attached:
  "\<exists>st'. activate_attached example_tracer example_agent_host example_agent_report ''/a'' ''/s'' 64 0x1010 0x1020 st =
     (Ok \<lparr>ij_socket_path = ''/s'', ij_injected = False\<rparr>, st')"
proof -
  have e: "pcu_xprobe_cupti_loaded (pr_cuda example_agent_report)" "unat (ti_pid (pr_target example_agent_report)) < 2 ^ 31"
    by (simp_all add: example_agent_report_def example_report_def)
  obtain st1 where 1: "attach example_tracer (ti_pid (pr_target example_agent_report)) st = (Ok (), st1)"
    using e(2) by (simp add: attach_def rm_lift_def rm_bind_def example_operation wait_for_stop_def example_wait is_stop_def)
  obtain st2 where 2: "copy_c_string example_tracer 0x1010 (bytes_of_string ''/s'') st1 = (Ok 0x5000, st2)"
    using example_copy by blast
  obtain st3 where 3: "rm_io (resolve_agent_symbol example_agent_host example_agent_report agent_start_symbol) st2 = (Ok 0x3030, st3)"
    using example_runtime_symbols(3) [of "rm_access st2"] by (auto simp: rm_io_def)
  obtain st4 where 4: "call example_tracer 0x3030 [0x5000, 64] st3 = (Ok 0, st4)"
    using example_call [of "[0x5000, 64]" "0x3030" st3] by auto
  obtain st5 where 5: "call example_tracer 0x1020 [0x5000] st4 = (Ok 0, st5)"
    using example_call [of "[0x5000]" "0x1020" st4] by auto
  obtain st6 where 6: "detach example_tracer st5 = (Ok (), st6)" by (simp add: detach_def example_operation)
  obtain st7 where 7: "rm_io (io_map_err IJ_Inspect (verify_target example_agent_host (pr_target example_agent_report))) st6 = (Ok (), st7)"
    by (simp add: rm_io_def io_map_err_def example_agent_target map_err_simps)
  show ?thesis
    by (simp add: activate_attached_def e(1) rm_bind_def rm_lift_def 1 2 3 4 5 6 7)
qed

lemma example_activation:
  "\<exists>st'. activate example_tracer example_agent_host example_agent_report ''/a'' ''/s'' 64 example_remote =
     (Ok \<lparr>ij_socket_path = ''/s'', ij_injected = False\<rparr>, st')"
proof -
  have p: "target_os = ''linux'' \<and> target_arch = ''x86_64''" by (simp add: target_os_def target_arch_def)
  obtain st1 where 1: "rm_io (io_map_err IJ_Inspect (verify_target example_agent_host (pr_target example_agent_report)))
      example_remote = (Ok (), st1)"
    by (simp add: rm_io_def io_map_err_def example_agent_target map_err_simps)
  have "from_utf8_lossy (bytes_of_string ''mnt:[1]'') = ''mnt:[1]''" by code_simp
  then obtain st2 where 2: "rm_io (verify_mount_namespace example_tracer example_agent_host example_agent_report) st1 = (Ok (), st2)"
    by (simp add: rm_io_def verify_mount_namespace_def io_bind_def io_map_err_def fs_defs io_access_def map_err_simps io_simps
        example_agent_host_def example_agent_report_def example_report_def)
  obtain st3 where 3: "rm_io (resolve_runtime_symbol example_agent_host example_agent_report ''malloc'') st2 = (Ok 0x1010, st3)"
    using example_runtime_symbols(1) [of "rm_access st2"] by (auto simp: rm_io_def)
  obtain st4 where 4: "rm_io (resolve_runtime_symbol example_agent_host example_agent_report ''free'') st3 = (Ok 0x1020, st4)"
    using example_runtime_symbols(2) [of "rm_access st3"] by (auto simp: rm_io_def)
  obtain st5 where 5: "activate_attached example_tracer example_agent_host example_agent_report ''/a'' ''/s'' 64 0x1010 0x1020 st4 =
     (Ok \<lparr>ij_socket_path = ''/s'', ij_injected = False\<rparr>, st5)"
    using example_attached by blast
  show ?thesis
    by (simp add: activate_def p rm_bind_def 1 2 3 4 5 with_drop_def)
qed


end
