(* ===== verification/Agent_Filter.thy ===== *)
theory Agent_Filter
  imports Cupti_Control Bpf_Program "HOL-Library.Sublist"
begin

unbundle bit_operations_syntax

text \<open>
  The agent inside the target process, first part (cupti/src/cupti_agent.c and include/xprobe/cupti_agent.h): the
  structures of the protocol, names of fixed size, and the filters that decide which records a capture keeps. A pointer
  to a string is \<open>None\<close> when it is null and otherwise the bytes it points at; reading behind them gives the
  terminator.
\<close>

section \<open>Structures\<close>

record xprobe_cupti_filter =
  fl_record_kind :: u32
  fl_api_domain :: u32
  fl_memcpy_kind :: u32
  fl_name_match :: u32
  fl_name :: bytes

record xprobe_cupti_control_request =
  cq_magic :: bytes
  cq_version :: u32
  cq_command :: u32
  cq_record_capacity :: u64
  cq_record_offset :: u64
  cq_capture_mode :: u32
  cq_reserved :: u32
  cq_filters :: "xprobe_cupti_filter list"

record xprobe_cupti_output_header =
  oh_magic :: bytes
  oh_abi_version :: u32
  oh_header_size :: u32
  oh_record_size :: u32
  oh_feature_flags :: u32
  oh_capture_state :: u32
  oh_stop_reason :: u32
  oh_record_count :: u64
  oh_record_capacity :: u64
  oh_observed_records :: u64
  oh_agent_dropped_records :: u64
  oh_cupti_dropped_records :: u64
  oh_unknown_records :: u64
  oh_record_offset :: u64

record xprobe_cupti_record =
  cr_timestamp_ns :: u64
  cr_kind :: u32
  cr_pid :: u32
  cr_tid :: u32
  cr_device_id :: u32
  cr_context_id :: u32
  cr_stream_id :: u32
  cr_correlation_id :: u32
  cr_callback_domain :: u32
  cr_callback_id :: u32
  cr_grid_x :: u32
  cr_grid_y :: u32
  cr_grid_z :: u32
  cr_block_x :: u32
  cr_block_y :: u32
  cr_block_z :: u32
  cr_runtime_correlation_id :: u32
  cr_name :: bytes

record xprobe_cupti_aggregate_record =
  ar_count :: u64
  ar_total_duration_ns :: u64
  ar_min_duration_ns :: u64
  ar_max_duration_ns :: u64
  ar_total_bytes :: u64
  ar_kind :: u32
  ar_device_id :: u32
  ar_memcpy_kind :: u32
  ar_name :: bytes

text \<open>A structure received as bytes, and the bytes of a structure that is sent.\<close>

definition xprobe_cupti_filter_of :: "bytes \<Rightarrow> xprobe_cupti_filter" where
  "xprobe_cupti_filter_of bs =
     \<lparr>fl_record_kind = u32_at bs 0, fl_api_domain = u32_at bs 4, fl_memcpy_kind = u32_at bs 8,
      fl_name_match = u32_at bs 12, fl_name = take 128 (drop 16 bs)\<rparr>"

definition xprobe_cupti_control_request_of :: "bytes \<Rightarrow> xprobe_cupti_control_request" where
  "xprobe_cupti_control_request_of bs =
     \<lparr>cq_magic = take 8 bs, cq_version = u32_at bs 8, cq_command = u32_at bs 12, cq_record_capacity = u64_at bs 16,
      cq_record_offset = u64_at bs 24, cq_capture_mode = u32_at bs 32, cq_reserved = u32_at bs 36,
      cq_filters = [xprobe_cupti_filter_of (take 144 (drop 40 bs)), xprobe_cupti_filter_of (take 144 (drop 184 bs))]\<rparr>"

definition xprobe_cupti_output_header_bytes :: "xprobe_cupti_output_header \<Rightarrow> bytes" where
  "xprobe_cupti_output_header_bytes h =
     oh_magic h @ u32_bytes (oh_abi_version h) @ u32_bytes (oh_header_size h) @ u32_bytes (oh_record_size h) @
     u32_bytes (oh_feature_flags h) @ u32_bytes (oh_capture_state h) @ u32_bytes (oh_stop_reason h) @
     u64_bytes (oh_record_count h) @ u64_bytes (oh_record_capacity h) @ u64_bytes (oh_observed_records h) @
     u64_bytes (oh_agent_dropped_records h) @ u64_bytes (oh_cupti_dropped_records h) @
     u64_bytes (oh_unknown_records h) @ u64_bytes (oh_record_offset h)"

definition xprobe_cupti_record_bytes :: "xprobe_cupti_record \<Rightarrow> bytes" where
  "xprobe_cupti_record_bytes r =
     u64_bytes (cr_timestamp_ns r) @ u32_bytes (cr_kind r) @ u32_bytes (cr_pid r) @ u32_bytes (cr_tid r) @
     u32_bytes (cr_device_id r) @ u32_bytes (cr_context_id r) @ u32_bytes (cr_stream_id r) @
     u32_bytes (cr_correlation_id r) @ u32_bytes (cr_callback_domain r) @ u32_bytes (cr_callback_id r) @
     u32_bytes (cr_grid_x r) @ u32_bytes (cr_grid_y r) @ u32_bytes (cr_grid_z r) @ u32_bytes (cr_block_x r) @
     u32_bytes (cr_block_y r) @ u32_bytes (cr_block_z r) @ u32_bytes (cr_runtime_correlation_id r) @ cr_name r"

definition xprobe_cupti_aggregate_record_bytes :: "xprobe_cupti_aggregate_record \<Rightarrow> bytes" where
  "xprobe_cupti_aggregate_record_bytes r =
     u64_bytes (ar_count r) @ u64_bytes (ar_total_duration_ns r) @ u64_bytes (ar_min_duration_ns r) @
     u64_bytes (ar_max_duration_ns r) @ u64_bytes (ar_total_bytes r) @ u32_bytes (ar_kind r) @
     u32_bytes (ar_device_id r) @ u32_bytes (ar_memcpy_kind r) @ replicate 20 0 @ ar_name r"

section \<open>Names\<close>

definition c_char :: "bytes \<Rightarrow> nat \<Rightarrow> u8" where
  "c_char s i = (if i < length s then s ! i else 0)"

definition c_region :: "bytes \<Rightarrow> nat \<Rightarrow> nat \<Rightarrow> bytes" where
  "c_region s offset n = map (\<lambda>i. c_char s (offset + i)) [0..<n]"

definition c_text :: "bytes \<Rightarrow> bytes" where
  "c_text s = takeWhile (\<lambda>b. b \<noteq> 0) s"

function copy_chars :: "bytes \<Rightarrow> bytes \<Rightarrow> nat \<Rightarrow> bytes \<times> nat" where
  "copy_chars destination s index =
     (if index + 1 < 128 \<and> c_char s index \<noteq> 0
      then copy_chars (destination[index := c_char s index]) s (index + 1) else (destination, index))"
  by pat_completeness auto
termination by (relation "measure (\<lambda>(destination, s, index). 128 - index)") auto

declare copy_chars.simps [simp del]

definition copy_name :: "bytes \<Rightarrow> bytes option \<Rightarrow> bytes" where
  "copy_name destination name =
     (case name of
        None \<Rightarrow> destination[0 := 0]
      | Some s \<Rightarrow> (case copy_chars destination s 0 of (destination, index) \<Rightarrow> destination[index := 0]))"

text \<open>Back over the continuation bytes at the end of the copy.\<close>

fun lead_of :: "bytes \<Rightarrow> nat \<Rightarrow> nat" where
  "lead_of destination 0 = 0"
| "lead_of destination (Suc lead) =
     (if c_char destination lead AND 0xc0 = 0x80 then lead_of destination lead else Suc lead)"

definition expected_length :: "u8 \<Rightarrow> nat" where
  "expected_length first =
     (if first AND 0xe0 = 0xc0 then 2 else if first AND 0xf0 = 0xe0 then 3
      else if first AND 0xf8 = 0xf0 then 4 else 1)"

definition copy_nvtx_name :: "bytes \<Rightarrow> bytes option \<Rightarrow> bytes \<times> u32" where
  "copy_nvtx_name destination name =
     (case name of
        None \<Rightarrow> (destination[0 := 0], 1)
      | Some s \<Rightarrow>
          (case copy_chars destination s 0 of (destination, index) \<Rightarrow>
             let complete = (if c_char s index = 0 then 1 else 0); lead = lead_of destination index;
                 index = (if complete = 0 \<and> index > 0 \<and> lead > 0 \<and>
                             expected_length (c_char destination (lead - 1)) > index - (lead - 1)
                          then lead - 1 else index)
             in (destination[index := 0], complete)))"

function name_length_from :: "bytes \<Rightarrow> nat \<Rightarrow> nat" where
  "name_length_from s len = (if len < 128 \<and> c_char s len \<noteq> 0 then name_length_from s (len + 1) else len)"
  by pat_completeness auto
termination by (relation "measure (\<lambda>(s, len). 128 - len)") auto

declare name_length_from.simps [simp del]

definition bounded_name_length :: "bytes option \<Rightarrow> nat" where
  "bounded_name_length name = (case name of None \<Rightarrow> 0 | Some s \<Rightarrow> name_length_from s 0)"

section \<open>Filters\<close>

definition name_matches :: "xprobe_cupti_filter \<Rightarrow> bytes option \<Rightarrow> bool" where
  "name_matches f record_name =
     (if fl_name_match f = 0 then True
      else
        let record_name = (case record_name of None \<Rightarrow> [] | Some s \<Rightarrow> s);
            filter_length = bounded_name_length (Some (fl_name f));
            record_length = bounded_name_length (Some record_name);
            same = (\<lambda>offset. c_region (fl_name f) 0 filter_length = c_region record_name offset filter_length)
        in if filter_length = 128 then False
           else if fl_name_match f = 1 then record_length < 128 \<and> filter_length = record_length \<and> same 0
           else if fl_name_match f = 2 then filter_length \<le> record_length \<and> same 0
           else if fl_name_match f = 3
             then record_length < 128 \<and> filter_length \<le> record_length \<and> same (record_length - filter_length)
           else if fl_name_match f = 4
             then filter_length = 0 \<or> list_ex same [0..<record_length + 1 - filter_length]
           else False)"

definition semantic_memcpy_kind :: "u32 \<Rightarrow> u32" where
  "semantic_memcpy_kind kind =
     (if kind = 1 \<or> kind = 3 then 1 else if kind = 2 \<or> kind = 4 then 2
      else if kind = 5 \<or> kind = 6 \<or> kind = 7 \<or> kind = 8 then 3
      else if kind = 9 then 4 else if kind = 10 then 5 else 0)"

definition filter_matches_values :: "xprobe_cupti_filter \<Rightarrow> u32 \<Rightarrow> u32 \<Rightarrow> u32 \<Rightarrow> bytes option \<Rightarrow> bool" where
  "filter_matches_values f record_kind api_domain memcpy_kind name =
     (if fl_record_kind f = 0 \<or> fl_record_kind f \<noteq> record_kind then False
      else if fl_api_domain f \<noteq> 0 \<and> fl_api_domain f \<noteq> api_domain then False
      else if fl_memcpy_kind f \<noteq> 0 \<and> fl_memcpy_kind f \<noteq> memcpy_kind then False
      else name_matches f name)"

definition record_matches_filter :: "xprobe_cupti_record \<Rightarrow> xprobe_cupti_filter \<Rightarrow> bool" where
  "record_matches_filter r f =
     filter_matches_values f (cr_kind r) (cr_callback_domain r) (semantic_memcpy_kind (cr_grid_z r)) (Some (cr_name r))"

text \<open>The filters of a capture, and whether they are enabled.\<close>

record capture_filters =
  cf_enabled :: bool
  cf_filters :: "xprobe_cupti_filter list"

definition values_match_capture ::
  "capture_filters \<Rightarrow> u32 \<Rightarrow> u32 \<Rightarrow> u32 \<Rightarrow> u32 \<Rightarrow> bytes option \<Rightarrow> bool" where
  "values_match_capture cf first_kind second_kind api_domain memcpy_kind name =
     (if \<not> cf_enabled cf then True
      else list_ex (\<lambda>f. filter_matches_values f first_kind api_domain memcpy_kind name \<or>
        (second_kind \<noteq> 0 \<and> filter_matches_values f second_kind api_domain memcpy_kind name)) (cf_filters cf))"

definition capture_filter_matches :: "capture_filters \<Rightarrow> xprobe_cupti_record \<Rightarrow> bool" where
  "capture_filter_matches cf r =
     (if \<not> cf_enabled cf then True else list_ex (record_matches_filter r) (cf_filters cf))"

definition valid_filter :: "xprobe_cupti_filter \<Rightarrow> bool" where
  "valid_filter f =
     (if fl_record_kind f > 10 \<or> fl_api_domain f > 2 \<or> fl_memcpy_kind f > 5 \<or> fl_name_match f > 4 then False
      else fl_name_match f = 0 \<or> bounded_name_length (Some (fl_name f)) < 128)"

definition valid_aggregate_filters :: "xprobe_cupti_filter list \<Rightarrow> bool" where
  "valid_aggregate_filters filters =
     (let a = filters ! 0; b = filters ! 1 in
      (fl_record_kind a, fl_record_kind b) \<in> {(3, 4), (5, 6), (7, 8)} \<and>
      fl_api_domain a = fl_api_domain b \<and> fl_memcpy_kind a = fl_memcpy_kind b \<and>
      fl_name_match a = fl_name_match b \<and> fl_name a = fl_name b)"

text \<open>The check of a received request (\<open>serve_snapshots\<close>).\<close>

definition valid_request :: "xprobe_cupti_control_request \<Rightarrow> bool" where
  "valid_request q =
     (cq_magic q = control_magic \<and> cq_version q = 4 \<and> 1 \<le> cq_command q \<and> cq_command q \<le> 4 \<and>
      cq_capture_mode q \<le> 1 \<and> cq_reserved q = 0)"

section \<open>Names of fixed size\<close>

lemma c_text_no_zero: "0 \<notin> set (c_text s)"
  unfolding c_text_def by (auto dest: set_takeWhileD)

lemma c_char_text:
  assumes "i \<le> length (c_text s)"
  shows "c_char s i \<noteq> 0 \<longleftrightarrow> i < length (c_text s)"
    and "i < length (c_text s) \<Longrightarrow> c_char s i = c_text s ! i"
proof -
  have nth: "c_text s ! i = s ! i" if "i < length (c_text s)" using that by (simp add: c_text_def takeWhile_nth)
  have len: "length (c_text s) \<le> length s" by (simp add: c_text_def length_takeWhile_le)
  show "i < length (c_text s) \<Longrightarrow> c_char s i = c_text s ! i" using nth len by (simp add: c_char_def)
  show "c_char s i \<noteq> 0 \<longleftrightarrow> i < length (c_text s)"
  proof (cases "i < length (c_text s)")
    case True
    then have "c_text s ! i \<in> set (c_text s)" by simp
    then have "s ! i \<noteq> 0" using nth [OF True] c_text_no_zero [of s] by auto
    with True len show ?thesis by (simp add: c_char_def)
  next
    case False
    with assms have i: "i = length (c_text s)" by simp
    then show ?thesis using nth_length_takeWhile [of "\<lambda>b. b \<noteq> 0" s] by (auto simp: c_char_def c_text_def)
  qed
qed

lemma c_text_padded: "0 \<notin> set bs \<Longrightarrow> c_text (bs @ 0 # rest) = bs" "0 \<notin> set bs \<Longrightarrow> c_text bs = bs"
  unfolding c_text_def by (auto simp: takeWhile_append takeWhile_eq_all_conv)

lemma copy_chars_eq:
  assumes "i \<le> min 127 (length (c_text s))" "length d = 128" "take i d = take i (c_text s)"
  shows "copy_chars d s i = (take (min 127 (length (c_text s))) (c_text s) @ drop (min 127 (length (c_text s))) d,
    min 127 (length (c_text s)))"
  using assms
proof (induction "127 - i" arbitrary: i d)
  case 0
  then have i: "i = 127" by simp
  with 0 have m: "min 127 (length (c_text s)) = 127" "take 127 (c_text s) @ drop 127 d = d"
    using append_take_drop_id [of 127 d] by auto
  show ?case unfolding m by (subst copy_chars.simps) (simp add: i)
next
  case (Suc k)
  have lt: "i < 127" using Suc.hyps(2) by simp
  show ?case
  proof (cases "i < length (c_text s)")
    case True
    have step: "copy_chars d s i = copy_chars (d[i := c_text s ! i]) s (Suc i)"
      using True c_char_text [of i s] lt by (subst copy_chars.simps) simp
    have "take (Suc i) (d[i := c_text s ! i]) = take (Suc i) (c_text s)"
      using Suc.prems True Suc.hyps(2) by (simp add: take_Suc_conv_app_nth)
    then have "copy_chars (d[i := c_text s ! i]) s (Suc i) = (take (min 127 (length (c_text s))) (c_text s) @
        drop (min 127 (length (c_text s))) (d[i := c_text s ! i]), min 127 (length (c_text s)))"
      using Suc True by (intro Suc.hyps(1)) auto
    with step True Suc.hyps(2) show ?thesis by simp
  next
    case False
    with Suc.prems have i: "i = length (c_text s)" "c_char s i = 0" using c_char_text [of i s] by auto
    then have "copy_chars d s i = (d, i)" by (subst copy_chars.simps) simp
    with i Suc.prems Suc.hyps(2) show ?thesis using append_take_drop_id [of i d] by simp
  qed
qed

lemma copy_name_eq:
  assumes "length d = 128"
  shows "copy_name d (Some s) =
    take 127 (c_text s) @ 0 # drop (Suc (min 127 (length (c_text s)))) d"
proof -
  let ?n = "min 127 (length (c_text s))"
  have "copy_name d (Some s) = (take ?n (c_text s) @ drop ?n d)[?n := 0]"
    using copy_chars_eq [of 0 s d] assms by (simp add: copy_name_def)
  also have "\<dots> = take ?n (c_text s) @ (drop ?n d)[0 := 0]"
    by (simp add: list_update_append)
  also have "(drop ?n d)[0 := 0] = 0 # drop (Suc ?n) d"
    using assms by (subst Cons_nth_drop_Suc [symmetric]) simp_all
  finally show ?thesis by (simp add: min_def)
qed

lemma length_copy_name: "length d = 128 \<Longrightarrow> length (copy_name d name) = 128"
  by (cases name) (auto simp: copy_name_def copy_name_eq [unfolded copy_name_def] copy_chars_eq)

lemma copy_name_text:
  assumes "length d = 128"
  shows "c_text (copy_name d name) = (case name of None \<Rightarrow> [] | Some s \<Rightarrow> take 127 (c_text s))"
proof (cases name)
  case None
  then show ?thesis using assms by (cases d) (simp_all add: copy_name_def c_text_def)
next
  case (Some s)
  have "0 \<notin> set (take 127 (c_text s))" using c_text_no_zero set_take_subset by fastforce
  then show ?thesis using Some by (simp add: copy_name_eq [OF assms] c_text_padded)
qed

lemma name_length_from_eq:
  "len \<le> min 128 (length (c_text s)) \<Longrightarrow> name_length_from s len = min 128 (length (c_text s))"
proof (induction "128 - len" arbitrary: len)
  case 0
  then show ?case by (subst name_length_from.simps) simp
next
  case (Suc k)
  have lt: "len < 128" using Suc.hyps(2) by simp
  show ?case
  proof (cases "len < length (c_text s)")
    case True
    then have "name_length_from s len = name_length_from s (Suc len)"
      using lt c_char_text [of len s] by (subst name_length_from.simps) simp
    with Suc True show ?thesis by simp
  next
    case False
    with Suc.prems have l: "len = length (c_text s)" by simp
    then have "c_char s len = 0" using c_char_text(1) [of len s] by simp
    with l Suc.prems show ?thesis by (subst name_length_from.simps) simp
  qed
qed

lemma bounded_name_length_eq [simp]: "bounded_name_length (Some s) = min 128 (length (c_text s))"
  by (simp add: bounded_name_length_def name_length_from_eq)

lemma c_region_text:
  "offset + n \<le> length (c_text s) \<Longrightarrow> c_region s offset n = take n (drop offset (c_text s))"
  by (rule nth_equalityI) (simp_all add: c_region_def c_char_text(2))

text \<open>What a filter asks of a name: equality, a prefix, a suffix or an occurrence. A suffix and a whole name are only
  matched on names that fit a record, an occurrence is sought in the first 128 bytes.\<close>

definition name_meets :: "u32 \<Rightarrow> bytes \<Rightarrow> bytes \<Rightarrow> bool" where
  "name_meets name_match pattern name \<longleftrightarrow>
     name_match = 0 \<or> name_match = 1 \<and> name = pattern \<or> name_match = 2 \<and> prefix pattern name \<or>
     name_match = 3 \<and> suffix pattern name \<and> length name < 128 \<or> name_match = 4 \<and> sublist pattern (take 128 name)"

lemma sublist_offset: "sublist xs ys \<longleftrightarrow> (\<exists>i. i + length xs \<le> length ys \<and> take (length xs) (drop i ys) = xs)"
proof
  assume "sublist xs ys"
  then obtain ps ss where "ys = ps @ xs @ ss" by (auto simp: sublist_def)
  then show "\<exists>i. i + length xs \<le> length ys \<and> take (length xs) (drop i ys) = xs"
    by (intro exI [of _ "length ps"]) simp
next
  assume "\<exists>i. i + length xs \<le> length ys \<and> take (length xs) (drop i ys) = xs"
  then obtain i where i: "take (length xs) (drop i ys) = xs" by blast
  have "ys = take i ys @ take (length xs) (drop i ys) @ drop (length xs) (drop i ys)"
    by (simp only: append_take_drop_id)
  then show "sublist xs ys" unfolding i by (auto simp: sublist_def)
qed

lemma suffix_offset: "suffix xs ys \<longleftrightarrow> length xs \<le> length ys \<and> drop (length ys - length xs) ys = xs"
  by (auto simp: suffix_def) (metis append_take_drop_id)

lemma name_matches_iff:
  assumes "length (c_text (fl_name f)) < 128"
  shows "name_matches f name \<longleftrightarrow>
    name_meets (fl_name_match f) (c_text (fl_name f)) (case name of None \<Rightarrow> [] | Some s \<Rightarrow> c_text s)"
proof -
  let ?p = "c_text (fl_name f)"
  define s where "s = (case name of None \<Rightarrow> [] | Some s \<Rightarrow> s)"
  have t: "(case name of None \<Rightarrow> [] | Some s \<Rightarrow> c_text s) = c_text s"
    by (simp add: s_def c_text_def split: option.split)
  have fl: "min 128 (length ?p) = length ?p" using assms by simp
  have same: "c_region (fl_name f) 0 (length ?p) = c_region s i (length ?p) \<longleftrightarrow> take (length ?p) (drop i (c_text s)) = ?p"
    if "i + length ?p \<le> length (c_text s)" for i
    using c_region_text [of 0 "length ?p" "fl_name f"] c_region_text [OF that] by auto
  consider "fl_name_match f = 0" | "fl_name_match f = 1" | "fl_name_match f = 2" | "fl_name_match f = 3"
    | "fl_name_match f = 4" | "fl_name_match f \<notin> {0, 1, 2, 3, 4}" by blast
  then show ?thesis
  proof cases
    case 2
    have e: "name_matches f name \<longleftrightarrow> min 128 (length (c_text s)) < 128 \<and> length ?p = min 128 (length (c_text s)) \<and>
        c_region (fl_name f) 0 (length ?p) = c_region s 0 (length ?p)"
      using 2 assms by (simp add: name_matches_def Let_def fl flip: s_def)
    show ?thesis
    proof (cases "length ?p = length (c_text s)")
      case True
      then have "c_region (fl_name f) 0 (length ?p) = c_region s 0 (length ?p) \<longleftrightarrow> c_text s = ?p"
        using same [of 0] by simp
      then show ?thesis unfolding e t name_meets_def using True assms 2 by simp
    next
      case False
      then have "c_text s \<noteq> ?p" "\<not> (min 128 (length (c_text s)) < 128 \<and> length ?p = min 128 (length (c_text s)))"
        by auto
      with 2 show ?thesis unfolding e t name_meets_def by force
    qed
  next
    case 3
    have "prefix ?p (c_text s) \<longleftrightarrow> length ?p \<le> length (c_text s) \<and> take (length ?p) (c_text s) = ?p"
      by (metis prefix_length_le take_is_prefix take_all_iff prefix_def append_eq_conv_conj)
    moreover have "length ?p \<le> min 128 (length (c_text s)) \<longleftrightarrow> length ?p \<le> length (c_text s)" using assms by simp
    ultimately show ?thesis using 3 assms same [of 0]
      by (auto simp: name_matches_def name_meets_def Let_def t fl simp flip: s_def)
  next
    case 4
    then show ?thesis using assms same [of "length (c_text s) - length ?p"]
      by (auto simp: name_matches_def name_meets_def Let_def t fl suffix_offset min_def simp flip: s_def)
  next
    case 5
    let ?m = "min 128 (length (c_text s))"
    have "name_matches f name \<longleftrightarrow> ?p = [] \<or> (\<exists>i. i + length ?p \<le> ?m \<and>
        c_region (fl_name f) 0 (length ?p) = c_region s i (length ?p))"
    proof -
      have idx: "i < Suc ?m - length ?p \<longleftrightarrow> i + length ?p \<le> ?m" for i by arith
      show ?thesis using 5 assms by (simp add: name_matches_def Let_def fl list_ex_iff Bex_def idx del: min_less_iff_conj min.bounded_iff flip: s_def)
    qed
    also have "\<dots> \<longleftrightarrow> ?p = [] \<or> (\<exists>i. i + length ?p \<le> ?m \<and> take (length ?p) (drop i (take 128 (c_text s))) = ?p)"
      using same by (intro arg_cong2 [where f = "(\<or>)"] refl ex_cong1 conj_cong) (auto simp: drop_take)
    also have "\<dots> \<longleftrightarrow> sublist ?p (take 128 (c_text s))"
      by (auto simp: sublist_offset min.commute)
    finally show ?thesis using 5 by (simp add: name_meets_def t)
  qed (auto simp: name_matches_def name_meets_def Let_def)
qed

section \<open>Requests of the collector\<close>

lemma filter_of_layout:
  assumes "length name < 128" "0 \<notin> set name"
  shows "xprobe_cupti_filter_of (filter_layout kind domain memcpy name_match name) =
    \<lparr>fl_record_kind = kind, fl_api_domain = domain, fl_memcpy_kind = memcpy, fl_name_match = name_match,
     fl_name = name @ replicate (128 - length name) 0\<rparr>"
  using assms by (simp add: xprobe_cupti_filter_of_def filter_layout_def field_at_skip)

lemma c_text_name_field: "length name < 128 \<Longrightarrow> 0 \<notin> set name \<Longrightarrow> c_text (name @ replicate (128 - length name) 0) = name"
  by (cases "128 - length name") (simp_all add: c_text_padded)

lemma request_of_layout:
  assumes "\<forall>f \<in> set filters. length f = 144" "length filters \<le> 2"
  shows "xprobe_cupti_control_request_of (control_layout command capacity offset mode filters) =
    \<lparr>cq_magic = control_magic, cq_version = 4, cq_command = command, cq_record_capacity = capacity,
     cq_record_offset = offset, cq_capture_mode = mode, cq_reserved = 0,
     cq_filters = map xprobe_cupti_filter_of (filters @ replicate (2 - length filters) (replicate 144 0))\<rparr>"
proof -
  let ?slots = "filters @ replicate (2 - length filters) (replicate 144 0)"
  let ?head = "control_magic @ u32_bytes 4 @ u32_bytes command @ u64_bytes capacity @ u64_bytes offset @
    u32_bytes mode @ u32_bytes 0"
  have m: "length control_magic = 8" by (simp add: control_magic_def)
  have z: "replicate 288 (0 :: u8) = replicate 144 0 @ replicate 144 0" by (simp flip: replicate_add)
  have two: "replicate 2 z = [z, z]" for z :: bytes by (simp add: numeral_2_eq_2)
  have cases: "filters = [] \<or> (\<exists>a. filters = [a]) \<or> (\<exists>a b. filters = [a, b])"
    using assms(2) by (cases filters; cases "tl filters") auto
  then obtain a b where slots: "?slots = [a, b]" "length a = 144" "length b = 144"
    and layout: "control_layout command capacity offset mode filters = ?head @ a @ b"
    using assms(1) by (auto simp: control_layout_def z two)
  show ?thesis
    unfolding slots(1) layout using slots(2,3) m
    by (simp add: xprobe_cupti_control_request_of_def field_at_skip)
qed

text \<open>What an endpoint filter of the collector asks of a record.\<close>

fun meets_name :: "cupti_name_filter \<Rightarrow> bytes \<Rightarrow> bool" where
  "meets_name NF_Any name = True"
| "meets_name (NF_Exact p) name = (name = bytes_of_string p)"
| "meets_name (NF_Prefix p) name = prefix (bytes_of_string p) name"
| "meets_name (NF_Suffix p) name = (suffix (bytes_of_string p) name \<and> length name < 128)"
| "meets_name (NF_Contains p) name = sublist (bytes_of_string p) (take 128 name)"

definition meets_filter :: "cupti_event_filter \<Rightarrow> u32 \<Rightarrow> u32 \<Rightarrow> u32 \<Rightarrow> bytes option \<Rightarrow> bool" where
  "meets_filter f kind domain memcpy name \<longleftrightarrow>
     kind = record_kind_u32 (ef_record_kind f) \<and>
     (ef_api_domain f = AD_Any \<or> domain = api_domain_u32 (ef_api_domain f)) \<and>
     (ef_memcpy_kind f = CM_Any \<or> memcpy = memcpy_kind_u32 (ef_memcpy_kind f)) \<and>
     meets_name (ef_name f) (case name of None \<Rightarrow> [] | Some s \<Rightarrow> c_text s)"

lemma event_filter_agrees:
  assumes "filter_name_ok f"
  shows "valid_filter (xprobe_cupti_filter_of (event_filter_layout f))"
    and "filter_matches_values (xprobe_cupti_filter_of (event_filter_layout f)) kind domain memcpy name
      \<longleftrightarrow> meets_filter f kind domain memcpy name"
proof -
  let ?n = "bytes_of_string (snd (name_filter_parts (ef_name f)))"
  let ?g = "xprobe_cupti_filter_of (event_filter_layout f)"
  have ok: "length ?n < 128" "0 \<notin> set ?n" using assms by (simp_all add: filter_name_ok_def Let_def)
  have g: "?g = \<lparr>fl_record_kind = record_kind_u32 (ef_record_kind f), fl_api_domain = api_domain_u32 (ef_api_domain f),
      fl_memcpy_kind = memcpy_kind_u32 (ef_memcpy_kind f), fl_name_match = fst (name_filter_parts (ef_name f)),
      fl_name = ?n @ replicate (128 - length ?n) 0\<rparr>"
    unfolding event_filter_layout_def by (rule filter_of_layout [OF ok])
  have t: "c_text (fl_name ?g) = ?n" unfolding g using c_text_name_field [OF ok] by simp
  have "name_meets (fst (name_filter_parts (ef_name f))) ?n s = meets_name (ef_name f) s" for s
    by (cases "ef_name f") (simp_all add: name_meets_def)
  then have names: "name_matches ?g name \<longleftrightarrow> meets_name (ef_name f) (case name of None \<Rightarrow> [] | Some s \<Rightarrow> c_text s)"
    using name_matches_iff [of ?g name] ok(1) by (simp only: t) (simp add: g)
  have bounds: "record_kind_u32 k \<noteq> 0" "record_kind_u32 k \<le> 10" "api_domain_u32 d \<le> 2" "memcpy_kind_u32 c \<le> 5"
    "fst (name_filter_parts n) \<le> 4" "api_domain_u32 d = 0 \<longleftrightarrow> d = AD_Any" "memcpy_kind_u32 c = 0 \<longleftrightarrow> c = CM_Any"
    for k d c n
    by (cases k; simp; fail | cases d; simp; fail | cases c; simp; fail | cases n; simp; fail)+
  show "valid_filter ?g"
    using bounds(2-5) t ok(1) unfolding valid_filter_def by (simp add: g not_less)
  show "filter_matches_values ?g kind domain memcpy name \<longleftrightarrow> meets_filter f kind domain memcpy name"
    unfolding filter_matches_values_def names using bounds
    by (auto simp: g meets_filter_def)
qed

lemma length_concat_equal: "\<forall>c \<in> set cs. length c = n \<Longrightarrow> length (concat cs) = n * length cs"
  by (induction cs) auto

lemma zero_filter:
  "valid_filter (xprobe_cupti_filter_of (replicate 144 0))"
  "\<not> filter_matches_values (xprobe_cupti_filter_of (replicate 144 0)) kind domain memcpy name"
proof -
  have "u32_at (replicate 144 0) i = 0" if "i + 4 \<le> 144" for i
  proof -
    have "take 4 (drop i (replicate 144 (0 :: u8))) = le_bytes 4 0" using that by (simp add: le_bytes_0)
    then show ?thesis by (simp only: u32_at_def le_nat_le_bytes) simp
  qed
  then show "valid_filter (xprobe_cupti_filter_of (replicate 144 0))"
    "\<not> filter_matches_values (xprobe_cupti_filter_of (replicate 144 0)) kind domain memcpy name"
    by (simp_all add: xprobe_cupti_filter_of_def valid_filter_def filter_matches_values_def)
qed

text \<open>C0: The agent understands what the collector asks for. Every request that the collector encodes has the size the
agent reads, passes its checks, and carries the command and the offset. A request that arms a capture carries the
capacity and the mode, all its filters are valid for the agent, and the agent's filters accept a record (its kind, API
domain, kind of copy and name) exactly when it meets one of the endpoints of the configuration.\<close>

theorem request_understood:
  assumes "encode_control command offset config = Ok bs" "1 \<le> command" "command \<le> 4"
  shows "length bs = 328 \<and>
    (let q = xprobe_cupti_control_request_of bs in
     valid_request q \<and> cq_command q = command \<and> cq_record_offset q = offset \<and>
     (case config of
        None \<Rightarrow> cq_capture_mode q = 0
      | Some cfg \<Rightarrow>
          cq_record_capacity q = ac_record_capacity cfg \<and> cq_capture_mode q = capture_mode_u32 (ac_capture_mode cfg) \<and>
          length (cq_filters q) = 2 \<and> list_all valid_filter (cq_filters q) \<and>
          (\<forall>kind domain memcpy name.
             list_ex (\<lambda>f. filter_matches_values f kind domain memcpy name) (cq_filters q) \<longleftrightarrow>
             list_ex (\<lambda>f. meets_filter f kind domain memcpy name) (ac_filters cfg))))"
proof (cases config)
  case None
  then have "bs = control_layout command 0 offset 0 []" using assms(1) by (simp add: encode_control_layout)
  then show ?thesis
    using assms(2,3) None request_of_layout [of "[]" command 0 offset 0]
    by (simp add: control_layout_def control_magic_def valid_request_def)
next
  case (Some cfg)
  let ?fs = "map event_filter_layout (ac_filters cfg)"
  have ok: "list_all filter_name_ok (ac_filters cfg)" "length (ac_filters cfg) \<le> 2"
    and bs: "bs = control_layout command (ac_record_capacity cfg) offset (capture_mode_u32 (ac_capture_mode cfg)) ?fs"
    using assms(1) Some by (auto simp: encode_control_layout split: if_splits)
  have len: "\<forall>f \<in> set ?fs. length f = 144" using ok(1) by (auto simp: list_all_iff length_event_filter_layout)
  have "length (concat ?fs) = 144 * length ?fs" by (rule length_concat_equal [OF len])
  then have "length bs = 328" using ok(2) unfolding bs by (simp add: control_layout_def control_magic_def)
  moreover have "capture_mode_u32 m \<le> 1" for m by (cases m) simp_all
  moreover have "list_ex (\<lambda>f. filter_matches_values f kind domain memcpy name)
        (map xprobe_cupti_filter_of (?fs @ replicate k (replicate 144 0))) \<longleftrightarrow>
      list_ex (\<lambda>f. meets_filter f kind domain memcpy name) (ac_filters cfg)" for kind domain memcpy name k
  proof -
    have "list_ex (\<lambda>f. filter_matches_values f kind domain memcpy name) (map xprobe_cupti_filter_of ?fs) \<longleftrightarrow>
        list_ex (\<lambda>f. meets_filter f kind domain memcpy name) (ac_filters cfg)"
      using ok(1) by (force simp: list_ex_iff list_all_iff event_filter_agrees)
    then show ?thesis by (auto simp: list_ex_iff zero_filter)
  qed
  moreover have "list_all valid_filter (map xprobe_cupti_filter_of (?fs @ replicate k (replicate 144 0)))" for k
    using ok(1) by (auto simp: list_all_iff event_filter_agrees zero_filter)
  ultimately show ?thesis
    using request_of_layout [OF len] assms(2,3) ok(2) Some unfolding bs
    by (simp add: valid_request_def del: map_append map_map)
qed

definition example_arm :: cupti_arm_config where
  "example_arm = \<lparr>ac_record_capacity = 16, ac_capture_mode = MO_Exact,
     ac_filters = [\<lparr>ef_record_kind = RK_CudaApiEntry, ef_api_domain = AD_Runtime, ef_memcpy_kind = CM_Any,
       ef_name = NF_Prefix ''cudaL''\<rparr>]\<rparr>"

theorem request_understood_witness:
  "\<exists>bs. encode_control 1 0 (Some example_arm) = Ok bs \<and> length bs = 328 \<and>
     valid_request (xprobe_cupti_control_request_of bs) \<and>
     list_ex (\<lambda>f. filter_matches_values f 1 2 0 (Some (bytes_of_string ''cudaLaunchKernel'')))
       (cq_filters (xprobe_cupti_control_request_of bs))"
proof -
  have "filter_name_ok (hd (ac_filters example_arm))" by code_simp
  then obtain bs where bs: "encode_control 1 0 (Some example_arm) = Ok bs"
    by (simp add: encode_control_layout example_arm_def)
  have "meets_filter (hd (ac_filters example_arm)) 1 2 0 (Some (bytes_of_string ''cudaLaunchKernel''))"
    by (simp add: meets_filter_def example_arm_def c_text_def bytes_of_string_def)
  with request_understood [OF bs] bs show ?thesis by (simp add: Let_def example_arm_def)
qed

section \<open>Names cut at a character\<close>

lemma and_not_mask:
  fixes b :: u8
  assumes "n \<le> 8"
  shows "unat (b AND NOT (mask n)) = unat b div 2 ^ n * 2 ^ n"
proof -
  have "b AND NOT (mask n) = b - take_bit n b"
  proof -
    have "(b AND NOT (mask n)) AND take_bit n b = 0" by (rule bit_word_eqI) (auto simp: bit_simps)
    then have "(b AND NOT (mask n)) + take_bit n b = (b AND NOT (mask n)) OR take_bit n b"
      by (rule disjunctive_add_eq_or)
    also have "\<dots> = b" by (rule bit_word_eqI) (auto simp: bit_simps)
    finally show ?thesis by (simp add: eq_diff_eq)
  qed
  moreover have "take_bit n b \<le> b" by (simp add: word_le_nat_alt unsigned_take_bit_eq take_bit_nat_less_eq_self)
  moreover have "unat (take_bit n b) = unat b mod 2 ^ n"
    unfolding unsigned_take_bit_eq by (rule take_bit_eq_mod)
  ultimately have "unat (b AND NOT (mask n)) = unat b - unat b mod 2 ^ n" by (simp only: unat_sub)
  then show ?thesis by (simp add: minus_mod_eq_div_mult)
qed

lemma byte_masks:
  "b AND 0xc0 = 0x80 \<longleftrightarrow> cont b" "b AND 0xe0 = 0xc0 \<longleftrightarrow> in_range 0xC0 0xDF b"
  "b AND 0xf0 = 0xe0 \<longleftrightarrow> in_range 0xE0 0xEF b" "b AND 0xf8 = 0xf0 \<longleftrightarrow> in_range 0xF0 0xF7 b"
  for b :: u8
proof -
  have m: "(0xc0 :: u8) = NOT (mask 6)" "(0xe0 :: u8) = NOT (mask 5)" "(0xf0 :: u8) = NOT (mask 4)" "(0xf8 :: u8) = NOT (mask 3)"
    by code_simp+
  have "b AND NOT (mask 6) = 0x80 \<longleftrightarrow> unat b div 64 * 64 = 128" "b AND NOT (mask 5) = 0xc0 \<longleftrightarrow> unat b div 32 * 32 = 192"
    "b AND NOT (mask 4) = 0xe0 \<longleftrightarrow> unat b div 16 * 16 = 224" "b AND NOT (mask 3) = 0xf0 \<longleftrightarrow> unat b div 8 * 8 = 240"
    by (simp_all add: word_unat_eq_iff and_not_mask)
  note q = this [folded m]
  show "b AND 0xc0 = 0x80 \<longleftrightarrow> cont b" unfolding q(1) in_range_def by auto
  show "b AND 0xe0 = 0xc0 \<longleftrightarrow> in_range 0xC0 0xDF b" unfolding q(2) in_range_def by auto
  show "b AND 0xf0 = 0xe0 \<longleftrightarrow> in_range 0xE0 0xEF b" unfolding q(3) in_range_def by auto
  show "b AND 0xf8 = 0xf0 \<longleftrightarrow> in_range 0xF0 0xF7 b" unfolding q(4) in_range_def by auto
qed

text \<open>A valid string by the length of its first character, and that the first byte announces it.\<close>

lemma utf8_valid_by_length:
  "in_range 0 0x7F b \<Longrightarrow> utf8_valid (b # rest) = utf8_valid rest"
  "in_range 0xC2 0xDF b \<Longrightarrow> utf8_valid (b # rest) = (case rest of c # r \<Rightarrow> cont c \<and> utf8_valid r | _ \<Rightarrow> False)"
  "in_range 0xE0 0xEF b \<Longrightarrow> utf8_valid (b # rest) = (case rest of c # d # r \<Rightarrow>
     in_range (if b = 0xE0 then 0xA0 else 0x80) (if b = 0xED then 0x9F else 0xBF) c \<and> cont d \<and> utf8_valid r | _ \<Rightarrow> False)"
  "in_range 0xF0 0xF4 b \<Longrightarrow> utf8_valid (b # rest) = (case rest of c # d # e # r \<Rightarrow>
     in_range (if b = 0xF0 then 0x90 else 0x80) (if b = 0xF4 then 0x8F else 0xBF) c \<and> cont d \<and> cont e \<and> utf8_valid r
     | _ \<Rightarrow> False)"
  by (simp_all add: in_range_def)

lemma expected_length_of:
  "in_range 0 0x7F b \<Longrightarrow> expected_length b = 1" "in_range 0xC2 0xDF b \<Longrightarrow> expected_length b = 2"
  "in_range 0xE0 0xEF b \<Longrightarrow> expected_length b = 3" "in_range 0xF0 0xF4 b \<Longrightarrow> expected_length b = 4"
  by (simp_all add: expected_length_def byte_masks in_range_def)

lemma leads_not_cont:
  "in_range 0 0x7F b \<Longrightarrow> \<not> cont b" "in_range 0xC2 0xDF b \<Longrightarrow> \<not> cont b" "in_range 0xE0 0xEF b \<Longrightarrow> \<not> cont b"
  "in_range 0xF0 0xF4 b \<Longrightarrow> \<not> cont b"
  by (simp_all add: in_range_def)

lemma second_cont:
  "in_range (if b = 0xE0 then 0xA0 else 0x80) (if b = 0xED then 0x9F else 0xBF) c \<Longrightarrow> cont c"
  "in_range (if b = 0xF0 then 0x90 else 0x80) (if b = 0xF4 then 0x8F else 0xBF) c \<Longrightarrow> cont c"
  by (simp_all add: in_range_def split: if_splits)

lemma utf8_first:
  assumes "utf8_valid t" "t \<noteq> []"
  obtains c r where "t = c @ r" "c \<noteq> []" "utf8_valid r" "\<not> cont (hd c)" "\<forall>b \<in> set (tl c). cont b"
    "expected_length (hd c) = length c" "\<And>r'. utf8_valid r' \<Longrightarrow> utf8_valid (c @ r')"
proof -
  obtain b rest where t: "t = b # rest" using assms(2) by (cases t) auto
  have v: "utf8_valid (b # rest)" using assms(1) unfolding t .
  have four_kinds: "in_range 0 0x7F b \<or> in_range 0xC2 0xDF b \<or> in_range 0xE0 0xEF b \<or> in_range 0xF0 0xF4 b"
    using v unfolding utf8_valid.simps by meson
  then consider (one) "in_range 0 0x7F b" | (two) "in_range 0xC2 0xDF b" | (three) "in_range 0xE0 0xEF b"
    | (four) "in_range 0xF0 0xF4 b" by blast
  then show thesis
  proof cases
    case one
    show thesis
      by (rule that [of "[b]" rest])
        (use one v t in \<open>simp_all only: utf8_valid_by_length(1) expected_length_of(1) leads_not_cont(1) append_Cons append_Nil
          list.sel list.set list.size not_Cons_self2 list.distinct, simp_all\<close>)
  next
    case two
    then obtain c r where r: "rest = c # r" "cont c" "utf8_valid r"
      using v unfolding utf8_valid_by_length(2) [OF two] by (cases rest) simp_all
    show thesis
      by (rule that [of "[b, c]" r])
        (use two r t in \<open>simp_all add: utf8_valid_by_length(2) expected_length_of(2) leads_not_cont(2) del: utf8_valid.simps(2)\<close>)
  next
    case three
    then obtain c d r where r: "rest = c # d # r"
      "in_range (if b = 0xE0 then 0xA0 else 0x80) (if b = 0xED then 0x9F else 0xBF) c" "cont d" "utf8_valid r"
      using v unfolding utf8_valid_by_length(3) [OF three] by (cases rest; cases "tl rest") simp_all
    show thesis
      by (rule that [of "[b, c, d]" r])
        (use three r second_cont(1) [OF r(2)] t in \<open>simp_all add: utf8_valid_by_length(3) expected_length_of(3) leads_not_cont(3) del: utf8_valid.simps(2)\<close>)
  next
    case four
    then obtain c d e r where r: "rest = c # d # e # r"
      "in_range (if b = 0xF0 then 0x90 else 0x80) (if b = 0xF4 then 0x8F else 0xBF) c" "cont d" "cont e" "utf8_valid r"
      using v unfolding utf8_valid_by_length(4) [OF four] by (cases rest; cases "tl rest"; cases "tl (tl rest)") simp_all
    show thesis
      by (rule that [of "[b, c, d, e]" r])
        (use four r second_cont(2) [OF r(2)] t in \<open>simp_all add: utf8_valid_by_length(4) expected_length_of(4) leads_not_cont(4) del: utf8_valid.simps(2)\<close>)
  qed
qed

lemma lead_of_step: "lead_of d (Suc n) = (if cont (c_char d n) then lead_of d n else Suc n)"
  by (simp add: byte_masks)

declare lead_of.simps(2) [simp del]

lemma lead_of_le: "lead_of d n \<le> n"
  by (induction n) (simp_all add: lead_of_step)

lemma c_char_drop: "c_char (drop k d) i = c_char d (k + i)"
  by (simp add: c_char_def less_diff_conv add.commute)

lemma lead_of_drop: "0 < lead_of (drop k d) m \<Longrightarrow> lead_of d (k + m) = k + lead_of (drop k d) m"
  by (induction m) (auto simp: lead_of_step c_char_drop split: if_splits)

lemma lead_of_first:
  "0 < n \<Longrightarrow> \<not> cont (c_char d 0) \<Longrightarrow> (\<And>i. 0 < i \<Longrightarrow> i < n \<Longrightarrow> cont (c_char d i)) \<Longrightarrow> lead_of d n = 1"
proof (induction n)
  case (Suc n)
  then show ?case by (cases n) (simp_all add: lead_of_step)
qed simp

definition cut_index :: "bytes \<Rightarrow> nat \<Rightarrow> nat" where
  "cut_index d n =
     (if expected_length (c_char d (lead_of d n - 1)) > n - (lead_of d n - 1) then lead_of d n - 1 else n)"

lemma utf8_cut:
  assumes "utf8_valid t" "0 < n" "n \<le> length t" "\<And>i. i < n \<Longrightarrow> c_char d i = t ! i"
  shows "0 < lead_of d n \<and> cut_index d n \<le> n \<and> utf8_valid (take (cut_index d n) t)"
  using assms
proof (induction "length t" arbitrary: t n d rule: less_induct)
  case less
  have ne: "t \<noteq> []" using less.prems(2,3) by auto
  obtain c r where c: "t = c @ r" "c \<noteq> []" "utf8_valid r" "\<not> cont (hd c)" "\<forall>b \<in> set (tl c). cont b"
    "expected_length (hd c) = length c" "\<And>r'. utf8_valid r' \<Longrightarrow> utf8_valid (c @ r')"
    by (rule utf8_first [OF less.prems(1) ne]) (rule that)
  have first: "c_char d 0 = hd c" using less.prems(2,4) c(1,2) by (simp add: nth_append hd_conv_nth)
  show ?case
  proof (cases "length c < n")
    case True
    define k m where "k = length c" and "m = n - length c"
    have n: "n = k + m" "0 < m" using True by (simp_all add: k_def m_def)
    have ih: "0 < lead_of (drop k d) m \<and> cut_index (drop k d) m \<le> m \<and> utf8_valid (take (cut_index (drop k d) m) r)"
    proof (rule less.hyps)
      show "length r < length t" using c(1,2) by simp
      show "m \<le> length r" using less.prems(3) c(1) n k_def by simp
      show "c_char (drop k d) i = r ! i" if "i < m" for i
        using less.prems(4) [of "k + i"] that n c(1) by (simp add: c_char_drop k_def)
    qed (use c(3) n in simp_all)
    then have lead: "lead_of d n = k + lead_of (drop k d) m" using lead_of_drop [of k d m] n by simp
    then have cut: "cut_index d n = k + cut_index (drop k d) m"
      using ih n by (auto simp: cut_index_def c_char_drop)
    have "utf8_valid (c @ take (cut_index (drop k d) m) r)" using ih c(7) by blast
    then show ?thesis using ih n unfolding cut lead c(1) k_def by simp
  next
    case False
    have conts: "cont (c_char d i)" if "0 < i" "i < n" for i
    proof -
      have "c_char d i = tl c ! (i - 1)" using less.prems(4) [of i] that False c(1,2) by (simp add: nth_append nth_tl)
      moreover have "i - 1 < length (tl c)" using that False by simp
      ultimately show ?thesis using c(5) by (metis nth_mem)
    qed
    have lead: "lead_of d n = 1"
      using lead_of_first [of n d] less.prems(2) first c(4) conts by simp
    show ?thesis
    proof (cases "length c = n")
      case True
      then have "cut_index d n = n" "take n t = c" using lead first c(1,6) by (simp_all add: cut_index_def)
      then show ?thesis using lead c(7) [of "[]"] by simp
    next
      case False
      with \<open>\<not> length c < n\<close> have "cut_index d n = 0" using lead first c(6) by (simp add: cut_index_def)
      then show ?thesis using lead by simp
    qed
  qed
qed

end
