(* ===== verification/Spec2Isabelle.thy ===== *)
theory Spec2Isabelle
  imports Measure Cupti_Control Exporter Agreement Discover Cpu_Analysis Linux_Capture Syscall_Aggregate Inject Agent_Filter
begin

text \<open>
  The xprobe verification library.
\<close>

end
